(* ===== verification/Py_Prelude.thy ===== *)
theory Py_Prelude
  imports Main "HOL-Library.Sublist"
begin

text \<open>
  The part of Python the modelled modules rest on: text as a list of code points (a Python
  \<open>str\<close> holds any code point, lone surrogates included, so \<open>char\<close> would be too narrow), and the
  \<open>str\<close> methods the code calls, each with the lemmas the components share.
  The collection \<open>py_text\<close> evaluates a concrete text.
\<close>

named_theorems py_text

section \<open>Text\<close>

type_synonym pystr = "nat list"

abbreviation ch :: "char \<Rightarrow> nat" where
  "ch c \<equiv> of_char c"

text \<open>Code points the rules below name often.\<close>

abbreviation squote :: nat where "squote \<equiv> 39"
abbreviation dquote :: nat where "dquote \<equiv> 34"
abbreviation backslash :: nat where "backslash \<equiv> 92"
abbreviation newline :: nat where "newline \<equiv> 10"
abbreviation hash_mark :: nat where "hash_mark \<equiv> 35"
abbreviation equals_sign :: nat where "equals_sign \<equiv> 61"

text \<open>An ASCII literal of the source as code points.\<close>

definition u :: "string \<Rightarrow> pystr" where
  "u s = map ch s"

declare u_def [py_text]

lemma u_Nil [simp]: "u [] = []"
  by (simp add: u_def)

lemma u_eq_Nil [simp]: "u s = [] \<longleftrightarrow> s = []"
  by (simp add: u_def)

lemma length_u [simp]: "length (u s) = length s"
  by (simp add: u_def)

lemma u_append: "u (s @ t) = u s @ u t"
  by (simp add: u_def)

section \<open>Whitespace and line breaks\<close>

text \<open>\<open>str.isspace\<close>, which \<open>str.strip\<close> and the \<open>\s\<close> of a text pattern use.\<close>

definition py_isspace :: "nat \<Rightarrow> bool" where
  "py_isspace c \<longleftrightarrow> (9 \<le> c \<and> c \<le> 13) \<or> (28 \<le> c \<and> c \<le> 32) \<or> c = 133 \<or> c = 160 \<or> c = 5760
     \<or> (8192 \<le> c \<and> c \<le> 8202) \<or> c = 8232 \<or> c = 8233 \<or> c = 8239 \<or> c = 8287 \<or> c = 12288"

text \<open>The line boundaries of \<open>str.splitlines\<close>.\<close>

definition is_line_break :: "nat \<Rightarrow> bool" where
  "is_line_break c \<longleftrightarrow> (10 \<le> c \<and> c \<le> 13) \<or> (28 \<le> c \<and> c \<le> 30) \<or> c = 133 \<or> c = 8232 \<or> c = 8233"

declare py_isspace_def [py_text] is_line_break_def [py_text]

lemma line_break_is_space: "is_line_break c \<Longrightarrow> py_isspace c"
  by (auto simp: is_line_break_def py_isspace_def)

definition no_breaks :: "pystr \<Rightarrow> bool" where
  "no_breaks s \<longleftrightarrow> (\<forall>c \<in> set s. \<not> is_line_break c)"

lemma no_breaks_simps [simp]:
  "no_breaks []"
  "no_breaks (c # s) \<longleftrightarrow> \<not> is_line_break c \<and> no_breaks s"
  "no_breaks (s @ t) \<longleftrightarrow> no_breaks s \<and> no_breaks t"
  by (auto simp: no_breaks_def)

text \<open>\<open>str.splitlines()\<close>: CR LF is one boundary, and a final boundary opens no empty line.\<close>

fun splitlines :: "pystr \<Rightarrow> pystr list" where
  "splitlines [] = []"
| "splitlines (c # cs) =
    (if is_line_break c
     then [] # splitlines (if c = 13 \<and> take 1 cs = [10] then tl cs else cs)
     else case splitlines cs of [] \<Rightarrow> [[c]] | l # ls \<Rightarrow> (c # l) # ls)"

lemma splitlines_eq_Nil [simp]: "splitlines s = [] \<longleftrightarrow> s = []"
  by (cases s) (auto split: list.splits)

lemma splitlines_break:
  "no_breaks l \<Longrightarrow> splitlines (l @ 10 # rest) = l # splitlines rest"
  by (induction l) (auto simp: is_line_break_def)

lemma splitlines_single: "no_breaks l \<Longrightarrow> l \<noteq> [] \<Longrightarrow> splitlines l = [l]"
proof (induction l)
  case (Cons c l)
  then show ?case by (cases l) (auto split: list.splits)
qed simp

lemma splitlines_no_breaks: "l \<in> set (splitlines s) \<Longrightarrow> no_breaks l"
proof (induction s arbitrary: l rule: splitlines.induct)
  case (2 c cs)
  show ?case
  proof (cases "is_line_break c")
    case True
    with "2.prems" "2.IH"(1) show ?thesis by (auto split: if_splits)
  next
    case False
    have IH: "\<And>l. l \<in> set (splitlines cs) \<Longrightarrow> no_breaks l"
      using "2.IH"(2) False by simp
    show ?thesis
    proof (cases "splitlines cs")
      case Nil
      with False "2.prems" show ?thesis by simp
    next
      case (Cons k ks)
      with False "2.prems" IH[of k] IH[of l] show ?thesis by auto
    qed
  qed
qed simp

text \<open>Lines written with \<open>'\n'.join\<close> and a final newline are read back as they were.\<close>

fun unlines :: "pystr list \<Rightarrow> pystr" where
  "unlines [] = []"
| "unlines (l # ls) = l @ 10 # unlines ls"

lemma unlines_append [simp]: "unlines (ls @ ks) = unlines ls @ unlines ks"
  by (induction ls) auto

lemma splitlines_unlines_append:
  "\<forall>l \<in> set ls. no_breaks l \<Longrightarrow> splitlines (unlines ls @ rest) = ls @ splitlines rest"
  by (induction ls) (auto simp: splitlines_break)

lemma splitlines_unlines:
  "\<forall>l \<in> set ls. no_breaks l \<Longrightarrow> splitlines (unlines ls) = ls"
  using splitlines_unlines_append[of ls "[]"] by simp

section \<open>Stripping\<close>

definition lstrip :: "pystr \<Rightarrow> pystr" where
  "lstrip s = dropWhile py_isspace s"

definition rstrip :: "pystr \<Rightarrow> pystr" where
  "rstrip s = rev (dropWhile py_isspace (rev s))"

definition strip :: "pystr \<Rightarrow> pystr" where
  "strip s = rstrip (lstrip s)"

declare lstrip_def [py_text] rstrip_def [py_text] strip_def [py_text]

lemma rstrip_last:
  "s \<noteq> [] \<Longrightarrow> \<not> py_isspace (last s) \<Longrightarrow> rstrip s = s"
  by (cases s rule: rev_cases) (auto simp: rstrip_def)

lemma strip_ends:
  assumes "s \<noteq> []" "\<not> py_isspace (hd s)" "\<not> py_isspace (last s)"
  shows "strip s = s"
proof -
  from assms have "lstrip s = s" by (cases s) (auto simp: lstrip_def)
  with assms show ?thesis by (simp add: strip_def rstrip_last)
qed

lemma strip_no_space: "\<forall>c \<in> set s. \<not> py_isspace c \<Longrightarrow> strip s = s"
  by (cases "s = []") (simp_all add: strip_ends, simp add: strip_def lstrip_def rstrip_def)

lemma set_dropWhile_subset: "set (dropWhile P s) \<subseteq> set s"
  by (auto dest: set_dropWhileD)

lemma set_strip: "set (strip s) \<subseteq> set s"
  using set_dropWhile_subset[of py_isspace s] set_dropWhile_subset[of py_isspace "rev (lstrip s)"]
  by (auto simp: strip_def rstrip_def lstrip_def)

lemma set_rstrip: "set (rstrip s) \<subseteq> set s"
  using set_dropWhile_subset[of py_isspace "rev s"] by (auto simp: rstrip_def)

lemma rstrip_idem [simp]: "rstrip (rstrip s) = rstrip s"
  by (simp add: rstrip_def)

lemma no_breaks_strip: "no_breaks s \<Longrightarrow> no_breaks (strip s)"
  using set_strip[of s] by (auto simp: no_breaks_def)

section \<open>Splitting, joining, replacing\<close>

text \<open>\<open>s.split(c)\<close> for a one-character separator.\<close>

fun split_on :: "nat \<Rightarrow> pystr \<Rightarrow> pystr list" where
  "split_on c [] = [[]]"
| "split_on c (x # xs) =
    (if x = c then [] # split_on c xs
     else case split_on c xs of [] \<Rightarrow> [[x]] | l # ls \<Rightarrow> (x # l) # ls)"

fun join :: "pystr \<Rightarrow> pystr list \<Rightarrow> pystr" where
  "join sep [] = []"
| "join sep [x] = x"
| "join sep (x # y # ys) = x @ sep @ join sep (y # ys)"

lemma split_on_not_Nil [simp]: "split_on c s \<noteq> []"
  by (cases s) (auto split: list.splits)

lemma split_on_no_sep: "c \<notin> set s \<Longrightarrow> split_on c s = [s]"
  by (induction s) auto

lemma split_on_sep: "c \<notin> set s \<Longrightarrow> split_on c (s @ c # t) = s # split_on c t"
  by (induction s) auto

lemma split_on_join:
  "xs \<noteq> [] \<Longrightarrow> \<forall>x \<in> set xs. c \<notin> set x \<Longrightarrow> split_on c (join [c] xs) = xs"
  by (induction "[c]" xs rule: join.induct) (auto simp: split_on_sep split_on_no_sep)

lemma join_split_on: "join [c] (split_on c s) = s"
proof (induction s)
  case (Cons x s)
  then show ?case
    by (cases "split_on c s"; cases "tl (split_on c s)") (auto split: list.splits)
qed simp

lemma split_on_pieces: "p \<in> set (split_on c s) \<Longrightarrow> c \<notin> set p"
  by (induction s arbitrary: p) (auto split: list.splits if_splits)

lemma join_map_snoc: "join [c] xs @ [c] = concat (map (\<lambda>x. x @ [c]) xs)" if "xs \<noteq> []"
  using that by (induction "[c]" xs rule: join.induct) auto

lemma unlines_join: "xs \<noteq> [] \<Longrightarrow> join [10] xs @ [10] = unlines xs"
  by (induction "[10 :: nat]" xs rule: join.induct) auto

lemma set_join: "set (join sep xs) \<subseteq> set sep \<union> (\<Union>x \<in> set xs. set x)"
  by (induction sep xs rule: join.induct) auto

text \<open>\<open>s.replace(c, t)\<close> for a one-character \<open>c\<close>.\<close>

definition replace_char :: "nat \<Rightarrow> pystr \<Rightarrow> pystr \<Rightarrow> pystr" where
  "replace_char c t s = concat (map (\<lambda>x. if x = c then t else [x]) s)"

declare replace_char_def [py_text]

lemma replace_char_simps [simp]:
  "replace_char c t [] = []"
  "replace_char c t (x # s) = (if x = c then t else [x]) @ replace_char c t s"
  "replace_char c t (s @ r) = replace_char c t s @ replace_char c t r"
  by (auto simp: replace_char_def)

lemma replace_char_id: "c \<notin> set s \<Longrightarrow> replace_char c t s = s"
  by (induction s) auto

lemma set_replace_char: "set (replace_char c t s) \<subseteq> set t \<union> set s"
  by (induction s) auto

lemma replace_char_eq_Nil: "t \<noteq> [] \<Longrightarrow> replace_char c t s = [] \<longleftrightarrow> s = []"
  by (cases s) auto

text \<open>\<open>s.partition(c)\<close>: the head, whether \<open>c\<close> was found, and the rest.\<close>

definition partition_at :: "nat \<Rightarrow> pystr \<Rightarrow> pystr \<times> bool \<times> pystr" where
  "partition_at c s =
     (takeWhile (\<lambda>x. x \<noteq> c) s, c \<in> set s, tl (dropWhile (\<lambda>x. x \<noteq> c) s))"

declare partition_at_def [py_text]

lemma partition_at_found:
  "c \<notin> set s \<Longrightarrow> partition_at c (s @ c # t) = (s, True, t)"
  by (induction s) (auto simp: partition_at_def)

lemma partition_at_absent: "c \<notin> set s \<Longrightarrow> partition_at c s = (s, False, [])"
  by (induction s) (auto simp: partition_at_def)

section \<open>Substrings and case\<close>

abbreviation (input) startswith :: "pystr \<Rightarrow> pystr \<Rightarrow> bool" where
  "startswith s p \<equiv> prefix p s"

abbreviation (input) endswith :: "pystr \<Rightarrow> pystr \<Rightarrow> bool" where
  "endswith s p \<equiv> suffix p s"

abbreviation (input) contains :: "pystr \<Rightarrow> pystr \<Rightarrow> bool" where
  "contains s p \<equiv> sublist p s"

declare suffix_to_prefix [py_text] sublist_Cons_right [py_text]

text \<open>
  \<open>str.lower()\<close>, exact for every test the code makes of its result: each compares it with ASCII
  text, and the only code points outside \<open>A..Z\<close> whose lower case holds an ASCII character are
  U+0130 (which becomes \<open>i\<close> and U+0307) and U+212A (which becomes \<open>k\<close>). Any other code point
  stands for its lower case, which no ASCII text matches.
\<close>

definition lower_char :: "nat \<Rightarrow> pystr" where
  "lower_char c =
    (if ch CHR ''A'' \<le> c \<and> c \<le> ch CHR ''Z'' then [c + 32]
     else if c = 304 then [ch CHR ''i'', 775]
     else if c = 8490 then [ch CHR ''k'']
     else [c])"

definition lower :: "pystr \<Rightarrow> pystr" where
  "lower s = concat (map lower_char s)"

declare lower_char_def [py_text] lower_def [py_text]

lemma lower_append [simp]: "lower (s @ t) = lower s @ lower t"
  by (simp add: lower_def)

section \<open>Decimal digits\<close>

definition is_digit :: "nat \<Rightarrow> bool" where
  "is_digit c \<longleftrightarrow> ch CHR ''0'' \<le> c \<and> c \<le> ch CHR ''9''"

definition is_ascii_alpha :: "nat \<Rightarrow> bool" where
  "is_ascii_alpha c \<longleftrightarrow>
     (ch CHR ''A'' \<le> c \<and> c \<le> ch CHR ''Z'') \<or> (ch CHR ''a'' \<le> c \<and> c \<le> ch CHR ''z'')"

declare is_digit_def [py_text] is_ascii_alpha_def [py_text]

text \<open>\<open>str(n)\<close> of a non-negative int and \<open>int(text)\<close> of ASCII digits.\<close>

fun decimal :: "nat \<Rightarrow> pystr" where
  "decimal n = (if n < 10 then [48 + n] else decimal (n div 10) @ [48 + n mod 10])"

declare decimal.simps [simp del]

definition digits_value :: "pystr \<Rightarrow> nat" where
  "digits_value s = foldl (\<lambda>v c. 10 * v + (c - 48)) 0 s"

declare digits_value_def [py_text]

lemma decimal_digits: "\<forall>c \<in> set (decimal n). is_digit c"
proof (induction n rule: decimal.induct)
  case (1 n)
  then show ?case
    by (cases "n < 10") (auto simp: is_digit_def decimal.simps[of n])
qed

lemma decimal_not_Nil [simp]: "decimal n \<noteq> []"
  by (subst decimal.simps) simp

lemma decimal_value: "digits_value (decimal n) = n"
proof (induction n rule: decimal.induct)
  case (1 n)
  then show ?case
    by (cases "n < 10") (auto simp: digits_value_def decimal.simps[of n])
qed

lemma decimal_inject: "decimal n = decimal m \<longleftrightarrow> n = m"
  by (metis decimal_value)

lemma decimal_hd: "0 < n \<Longrightarrow> hd (decimal n) \<noteq> 48"
proof (induction n rule: decimal.induct)
  case (1 n)
  then show ?case
    by (cases "n < 10") (auto simp: hd_append decimal.simps[of n])
qed

lemma decimal_zero [simp]: "decimal 0 = [48]"
  by (subst decimal.simps) simp

end
