(* ===== verification/Py_Errors.thy ===== *)
theory Py_Errors
  imports Py_Prelude
begin

text \<open>
  Exceptions as values. \<open>error_class\<close> is the hierarchy of \<open>domain/errors.py\<close> (and the built-in
  exceptions that code lets through), \<open>catches\<close> is what an \<open>except\<close> clause for a class catches, and a
  computation that may raise returns \<open>pwshpy_error + 'a\<close>. Of a message only the site that raises it
  is kept (\<open>err_reason\<close>): the code branches on the class and on \<open>dbus_error_name\<close>, never on the text.
\<close>

section \<open>The exception hierarchy\<close>

datatype error_class =
    PwshPyError
  | NativeCallError
  | NativeAccessDeniedError
  | ElevationDeclinedError
  | OperationTimeoutError
  | PowerShellError
  | FeatureUnavailableError
  | PlatformUnsupportedError
  | ElevationDirectoryError
  | ElevationRequiredError
  | ConfigurationError
  | PackError
  | OverflowError
  | ValueError
  | KeyError
  | TypeError
  | IndexError
  | OSError
  | StructError
  | ZlibError
  | EOFError
  | KeyboardInterrupt
  | AttributeError

text \<open>The pwshpy base class of each class.\<close>

fun base_class :: "error_class \<Rightarrow> error_class option" where
  "base_class NativeCallError = Some PwshPyError"
| "base_class NativeAccessDeniedError = Some NativeCallError"
| "base_class ElevationDeclinedError = Some NativeCallError"
| "base_class OperationTimeoutError = Some NativeCallError"
| "base_class PowerShellError = Some PwshPyError"
| "base_class FeatureUnavailableError = Some PwshPyError"
| "base_class PlatformUnsupportedError = Some PwshPyError"
| "base_class ElevationDirectoryError = Some PwshPyError"
| "base_class ElevationRequiredError = Some PwshPyError"
| "base_class ConfigurationError = Some PwshPyError"
| "base_class PackError = Some PwshPyError"
| "base_class _ = None"

text \<open>The hierarchy is three deep, so three steps up reach every base class.\<close>

fun catches_within :: "nat \<Rightarrow> error_class \<Rightarrow> error_class \<Rightarrow> bool" where
  "catches_within 0 handler c = (handler = c)"
| "catches_within (Suc n) handler c =
     (handler = c \<or> (case base_class c of None \<Rightarrow> False | Some b \<Rightarrow> catches_within n handler b))"

definition catches :: "error_class \<Rightarrow> error_class \<Rightarrow> bool" where
  "catches handler c = catches_within 3 handler c"

record pwshpy_error =
  err_class :: error_class
  err_reason :: string
  err_hresult :: "int option"
  dbus_error_name :: "pystr option"

definition make_error :: "error_class \<Rightarrow> string \<Rightarrow> pwshpy_error" where
  "make_error c why = \<lparr>err_class = c, err_reason = why, err_hresult = None, dbus_error_name = None\<rparr>"

lemma make_error_simps [simp]:
  "err_class (make_error c why) = c"
  "err_reason (make_error c why) = why"
  "err_hresult (make_error c why) = None"
  "dbus_error_name (make_error c why) = None"
  by (simp_all add: make_error_def)

lemma catches_NativeCallError:
  "catches NativeCallError c \<longleftrightarrow>
     c \<in> {NativeCallError, NativeAccessDeniedError, ElevationDeclinedError, OperationTimeoutError}"
  by (cases c) (simp_all add: catches_def eval_nat_numeral)

lemma catches_NativeAccessDeniedError:
  "catches NativeAccessDeniedError c \<longleftrightarrow> c = NativeAccessDeniedError"
  by (cases c) (simp_all add: catches_def eval_nat_numeral)

section \<open>Computations that may raise\<close>

type_synonym 'a res = "pwshpy_error + 'a"

abbreviation raise_error :: "error_class \<Rightarrow> string \<Rightarrow> 'a res" where
  "raise_error c why \<equiv> Inl (make_error c why)"

definition and_then :: "'a res \<Rightarrow> ('a \<Rightarrow> 'b res) \<Rightarrow> 'b res" where
  "and_then r f = (case r of Inl e \<Rightarrow> Inl e | Inr x \<Rightarrow> f x)"

lemma and_then_simps [simp]:
  "and_then (Inl e) f = Inl e"
  "and_then (Inr x) f = f x"
  by (simp_all add: and_then_def)

lemma and_then_Inr: "and_then r f = Inr y \<longleftrightarrow> (\<exists>x. r = Inr x \<and> f x = Inr y)"
  by (cases r) auto

lemma and_then_Inl: "and_then r f = Inl e \<longleftrightarrow> r = Inl e \<or> (\<exists>x. r = Inr x \<and> f x = Inl e)"
  by (cases r) auto

text \<open>A comprehension whose element may raise: the first error ends it.\<close>

fun map_res :: "('a \<Rightarrow> 'b res) \<Rightarrow> 'a list \<Rightarrow> 'b list res" where
  "map_res f [] = Inr []"
| "map_res f (x # xs) =
     and_then (f x) (\<lambda>y. and_then (map_res f xs) (\<lambda>ys. Inr (y # ys)))"

lemma map_res_all: "(\<And>x. x \<in> set xs \<Longrightarrow> f x = Inr (g x)) \<Longrightarrow> map_res f xs = Inr (map g xs)"
  by (induction xs) auto

lemma map_res_Inr: "map_res f xs = Inr ys \<longleftrightarrow> list_all2 (\<lambda>x y. f x = Inr y) xs ys"
  by (induction xs arbitrary: ys) (auto simp: and_then_Inr list_all2_Cons1)

end
