(* ===== verification/Import_Analysis.thy ===== *)
theory Import_Analysis
  imports Py_Errors
begin

text \<open>
  The import analysis of \<open>domain/packing.py\<close>: the dotted names a module imports, their
  classification and the files they may live at. Parsing (\<open>ast.parse\<close> and \<open>ast.walk\<close>) is the
  parameter \<open>parse\<close>: the import nodes of a source text in walk order, or \<open>None\<close> for a SyntaxError.
\<close>

section \<open>Import nodes\<close>

datatype ast_node =
    Import "pystr list"
  | ImportFrom nat "pystr option" "pystr list"
  | OtherNode

datatype import_kind = STDLIB | LOCAL | EXTERNAL

text \<open>The code points of \<open>.\<close> and \<open>/\<close>.\<close>

abbreviation dot :: nat where
  "dot \<equiv> 46"

abbreviation slash :: nat where
  "slash \<equiv> 47"

definition with_parents :: "pystr \<Rightarrow> pystr list" where
  "with_parents dotted =
     (let parts = split_on dot dotted
      in map (\<lambda>index. join [dot] (take index parts)) [1 ..< length parts + 1])"

text \<open>An absent and an empty module name are both false in Python.\<close>

fun resolve_from_base :: "nat \<Rightarrow> pystr option \<Rightarrow> pystr list \<Rightarrow> pystr option" where
  "resolve_from_base level module package =
    (if level = 0 then Some (case module of None \<Rightarrow> [] | Some m \<Rightarrow> m)
     else let climb = level - 1 in
       if climb > length package then None
       else let anchor = (if climb \<noteq> 0 then take (length package - climb) package else package)
         in Some (case module of
              None \<Rightarrow> join [dot] anchor
            | Some m \<Rightarrow> if m = [] then join [dot] anchor else join [dot] (anchor @ [m])))"

fun node_candidates :: "ast_node \<Rightarrow> pystr list \<Rightarrow> pystr list" where
  "node_candidates (Import names) package = concat (map with_parents names)"
| "node_candidates (ImportFrom level module names) package =
    (case resolve_from_base level module package of
       None \<Rightarrow> []
     | Some base \<Rightarrow>
         (if base \<noteq> [] then with_parents base else []) @
         map (\<lambda>name. join [dot] (filter (\<lambda>p. p \<noteq> []) [base, name]))
           (filter (\<lambda>name. name \<noteq> u ''*'') names))"
| "node_candidates OtherNode package = []"

text \<open>The generator's loop: a name is yielded when it is not empty and not seen before.\<close>

fun yield_new :: "pystr set \<Rightarrow> pystr list \<Rightarrow> pystr list" where
  "yield_new seen [] = []"
| "yield_new seen (d # ds) =
    (if d \<noteq> [] \<and> d \<notin> seen then d # yield_new (insert d seen) ds else yield_new seen ds)"

definition iter_import_candidates ::
    "(pystr \<Rightarrow> ast_node list option) \<Rightarrow> pystr \<Rightarrow> pystr list \<Rightarrow> pystr list res" where
  "iter_import_candidates parse source module_package = (case parse source of
      None \<Rightarrow> raise_error PackError ''not valid Python''
    | Some nodes \<Rightarrow>
        Inr (yield_new {} (concat (map (\<lambda>node. node_candidates node module_package) nodes))))"

definition classify_import :: "pystr \<Rightarrow> pystr set \<Rightarrow> pystr set \<Rightarrow> import_kind" where
  "classify_import dotted stdlib_names local_names =
    (if dotted \<in> local_names then LOCAL
     else if hd (split_on dot dotted) \<in> stdlib_names then STDLIB
     else EXTERNAL)"

definition candidate_relative_paths :: "pystr \<Rightarrow> pystr \<times> pystr" where
  "candidate_relative_paths dotted =
     (let stem = replace_char dot [slash] dotted in (stem @ u ''.py'', stem @ u ''/__init__.py''))"

section \<open>Facts\<close>

lemma yield_new_set: "set (yield_new seen ds) = {d \<in> set ds. d \<noteq> [] \<and> d \<notin> seen}"
  by (induction seen ds rule: yield_new.induct) auto

lemma yield_new_distinct: "distinct (yield_new seen ds)"
  by (induction seen ds rule: yield_new.induct) (auto simp: yield_new_set)

lemma with_parents_set:
  "set (with_parents d) =
     {join [dot] (take i (split_on dot d)) | i. 1 \<le> i \<and> i \<le> length (split_on dot d)}"
  by (auto simp: with_parents_def Let_def)

lemma with_parents_self: "d \<in> set (with_parents d)"
  by (fastforce simp: with_parents_set join_split_on Suc_le_eq intro: exI[of _ "length (split_on dot d)"])

lemma with_parents_single: "dot \<notin> set d \<Longrightarrow> with_parents d = [d]"
  by (simp add: with_parents_def split_on_no_sep)

text \<open>The parent packages of a parent are parents: the list is closed.\<close>

lemma split_on_prefix:
  assumes "1 \<le> i"
  shows "split_on dot (join [dot] (take i (split_on dot d))) = take i (split_on dot d)"
  using assms split_on_pieces[of _ dot d]
  by (intro split_on_join) (auto dest: in_set_takeD simp: take_eq_Nil)

lemma with_parents_trans:
  assumes "p \<in> set (with_parents d)" "q \<in> set (with_parents p)"
  shows "q \<in> set (with_parents d)"
proof -
  from assms(1) obtain i where i: "1 \<le> i" "i \<le> length (split_on dot d)"
    and p: "p = join [dot] (take i (split_on dot d))"
    by (auto simp: with_parents_set)
  from assms(2) obtain j where "1 \<le> j" "j \<le> i"
    and "q = join [dot] (take j (split_on dot p))"
    using i by (auto simp: with_parents_set p split_on_prefix)
  with i p show ?thesis
    by (auto simp: with_parents_set split_on_prefix intro!: exI[of _ j])
qed

lemma split_on_snoc:
  "dot \<notin> set n \<Longrightarrow> split_on dot (b @ dot # n) = split_on dot b @ [n]"
  by (induction b) (auto simp: split_on_no_sep split: list.splits)

lemma join_pair: "join [dot] [b, n] = b @ dot # n"
  by simp

lemma with_parents_child:
  assumes "dot \<notin> set n" "q \<in> set (with_parents (b @ dot # n))"
  shows "q \<in> set (with_parents b) \<or> q = b @ dot # n"
proof -
  from assms obtain i where i: "1 \<le> i" "i \<le> Suc (length (split_on dot b))"
    and q: "q = join [dot] (take i (split_on dot b @ [n]))"
    by (auto simp: with_parents_set split_on_snoc)
  show ?thesis
  proof (cases "i = Suc (length (split_on dot b))")
    case True
    then have "q = join [dot] (split_on dot (b @ dot # n))"
      using assms(1) by (simp add: q split_on_snoc)
    then show ?thesis by (simp add: join_split_on)
  next
    case False
    with i have "i \<le> length (split_on dot b)" by simp
    with i q show ?thesis by (auto simp: with_parents_set)
  qed
qed

text \<open>Names a \<open>from\<close> import binds are identifiers, so they hold no dot.\<close>

definition plain_names :: "ast_node \<Rightarrow> bool" where
  "plain_names node = (case node of ImportFrom _ _ names \<Rightarrow> \<forall>n \<in> set names. dot \<notin> set n | _ \<Rightarrow> True)"

lemma node_candidates_closed:
  assumes "plain_names node" "d \<in> set (node_candidates node package)" "q \<in> set (with_parents d)"
  shows "q \<in> set (node_candidates node package)"
proof (cases node)
  case (Import names)
  with assms show ?thesis by (auto dest: with_parents_trans)
next
  case (ImportFrom level module names)
  with assms(2) obtain base where base: "resolve_from_base level module package = Some base"
    by (cases "resolve_from_base level module package") (auto simp del: resolve_from_base.simps)
  consider (parent) "base \<noteq> []" "d \<in> set (with_parents base)"
    | (name) n where "n \<in> set names" "n \<noteq> u ''*''" "d = join [dot] (filter (\<lambda>p. p \<noteq> []) [base, n])"
    using assms(2) ImportFrom base by (auto simp del: resolve_from_base.simps split: if_splits)
  then show ?thesis
  proof cases
    case parent
    with assms(3) ImportFrom base show ?thesis
      by (auto simp del: resolve_from_base.simps dest: with_parents_trans)
  next
    case name
    have nodot: "dot \<notin> set n" using assms(1) ImportFrom name by (auto simp: plain_names_def)
    have "q \<in> set (with_parents base) \<and> base \<noteq> [] \<or> q = d"
      using assms(3) name nodot with_parents_child[OF nodot, of q base]
      by (cases "base = []"; cases "n = []") (auto simp: with_parents_single)
    then show ?thesis
      using assms(2) ImportFrom base by (auto simp del: resolve_from_base.simps)
  qed
qed (use assms in simp)

lemma candidate_paths_inject:
  assumes "dot \<notin> set a" "dot \<notin> set b" "slash \<notin> set a" "slash \<notin> set b"
  shows "fst (candidate_relative_paths a) = fst (candidate_relative_paths b) \<longleftrightarrow> a = b"
  using assms by (simp add: candidate_relative_paths_def replace_char_id)

end
