(* ===== verification/Quoting.thy ===== *)
theory Quoting
  imports Py_Errors
begin

text \<open>
  The quoting of \<open>domain/packing.py\<close>: every name and argument a packed runner carries lands in it as a
  PowerShell or a POSIX shell literal. The reader of the PowerShell side is the packer's own
  \<open>unquote_powershell_literal\<close>; the reader of the POSIX side is \<open>shlex.split\<close> of the standard library,
  modelled here as its state machine (posix mode, no comments, split on whitespace).
  The locale \<open>delimited_quoting\<close> is the contract both sides meet.
\<close>

section \<open>The contract of a quoting\<close>

text \<open>
  A scanner that reads one quoted value back and stops right behind it, whenever the list separator
  or the end follows.
\<close>

locale delimited_quoting =
  fixes quote :: "pystr \<Rightarrow> pystr"
    and scan :: "pystr \<Rightarrow> (pystr \<times> pystr) option"
    and sep :: nat
  assumes scan_quote: "rest = [] \<or> hd rest = sep \<Longrightarrow> scan (quote v @ rest) = Some (v, rest)"
begin

lemma quote_inject: "quote v = quote w \<Longrightarrow> v = w"
  using scan_quote[of "[]" v] scan_quote[of "[]" w] by simp

text \<open>A rendered list determines the values: no value can spell a separator or a second value.\<close>

lemma scan_rendered:
  "scan (join [sep] (map quote (v # vs))) =
     Some (v, if vs = [] then [] else sep # join [sep] (map quote vs))"
  using scan_quote[of "[]" v] scan_quote[of "sep # join [sep] (map quote vs)" v]
  by (cases vs) auto

lemma rendered_inject:
  assumes "vs \<noteq> []" "ws \<noteq> []" "join [sep] (map quote vs) = join [sep] (map quote ws)"
  shows "vs = ws"
  using assms
proof (induction vs arbitrary: ws)
  case (Cons v vs)
  then obtain w ws' where ws: "ws = w # ws'" by (cases ws) auto
  have "Some (v, if vs = [] then [] else sep # join [sep] (map quote vs)) =
        Some (w, if ws' = [] then [] else sep # join [sep] (map quote ws'))"
    using Cons.prems(3) scan_rendered[of v vs] scan_rendered[of w ws'] by (simp add: ws)
  then have "v = w" and rest: "vs = [] \<longleftrightarrow> ws' = []"
    "vs \<noteq> [] \<Longrightarrow> join [sep] (map quote vs) = join [sep] (map quote ws')"
    by (auto split: if_splits)
  show ?case
  proof (cases "vs = []")
    case False
    with rest have "vs = ws'" by (intro Cons.IH) auto
    with \<open>v = w\<close> ws show ?thesis by simp
  qed (use rest \<open>v = w\<close> ws in simp)
qed simp

end

section \<open>PowerShell single-quoted literals\<close>

definition powershell_quotes :: "nat set" where
  "powershell_quotes = {39, 8216, 8217, 8218, 8219}"

definition powershell_body :: "pystr \<Rightarrow> pystr" where
  "powershell_body v = concat (map (\<lambda>c. if c \<in> powershell_quotes then [c, c] else [c]) v)"

definition powershell_literal :: "pystr \<Rightarrow> pystr" where
  "powershell_literal v = [39] @ powershell_body v @ [39]"

definition powershell_string_array :: "pystr list \<Rightarrow> pystr" where
  "powershell_string_array vs = join (u '','') (map powershell_literal vs)"

fun unquote_powershell_literal :: "pystr \<Rightarrow> pystr" where
  "unquote_powershell_literal [] = []"
| "unquote_powershell_literal [c] = [c]"
| "unquote_powershell_literal (c # d # cs) =
     c # unquote_powershell_literal (if c \<in> powershell_quotes \<and> d = c then cs else d # cs)"

declare powershell_quotes_def [py_text] powershell_body_def [py_text]

lemma powershell_body_simps [simp]:
  "powershell_body [] = []"
  "powershell_body (c # v) = (if c \<in> powershell_quotes then [c, c] else [c]) @ powershell_body v"
  by (simp_all add: powershell_body_def)

lemma unquote_other:
  "c \<notin> powershell_quotes \<Longrightarrow>
   unquote_powershell_literal (c # s) = c # unquote_powershell_literal s"
  by (cases s) auto

lemma unquote_powershell_body: "unquote_powershell_literal (powershell_body v) = v"
  by (induction v) (auto simp: unquote_other)

text \<open>
  The end of a literal, read the way \<open>unquote_powershell_literal\<close> reads its body: a quote character
  doubled is one character, an undoubled one ends the literal.
\<close>

fun scan_powershell_body :: "pystr \<Rightarrow> (pystr \<times> pystr) option" where
  "scan_powershell_body [] = None"
| "scan_powershell_body [c] = (if c \<in> powershell_quotes then Some ([], []) else None)"
| "scan_powershell_body (c # d # cs) =
    (if c \<notin> powershell_quotes then map_option (\<lambda>(v, r). (c # v, r)) (scan_powershell_body (d # cs))
     else if d = c then map_option (\<lambda>(v, r). (c # v, r)) (scan_powershell_body cs)
     else Some ([], d # cs))"

definition scan_powershell_literal :: "pystr \<Rightarrow> (pystr \<times> pystr) option" where
  "scan_powershell_literal s = (case s of [] \<Rightarrow> None | c # cs \<Rightarrow>
     if c \<in> powershell_quotes then scan_powershell_body cs else None)"

lemma scan_powershell_other:
  "c \<notin> powershell_quotes \<Longrightarrow> scan_powershell_body (c # s) =
     map_option (\<lambda>(v, r). (c # v, r)) (scan_powershell_body s)"
  by (cases s) auto

lemma scan_powershell_body:
  "rest = [] \<or> hd rest = ch CHR '','' \<Longrightarrow>
   scan_powershell_body (powershell_body v @ 39 # rest) = Some (v, rest)"
proof (induction v)
  case Nil
  then show ?case by (cases rest) (auto simp: powershell_quotes_def)
qed (auto simp: scan_powershell_other)

interpretation ps: delimited_quoting powershell_literal scan_powershell_literal "ch CHR '',''"
  by unfold_locales
    (auto simp: powershell_literal_def scan_powershell_literal_def powershell_quotes_def
       scan_powershell_body)

lemma powershell_string_array_Nil [simp]:
  "powershell_string_array vs = [] \<longleftrightarrow> vs = []"
  by (cases vs rule: remdups_adj.cases) (auto simp: powershell_string_array_def powershell_literal_def)

lemma powershell_string_array_inject:
  assumes "powershell_string_array vs = powershell_string_array ws"
  shows "vs = ws"
proof (cases "vs = []")
  case True
  with assms have "powershell_string_array ws = []" by (metis powershell_string_array_Nil)
  with True show ?thesis by simp
next
  case False
  moreover from this assms have "ws \<noteq> []" using powershell_string_array_Nil by metis
  ultimately show ?thesis
    using assms ps.rendered_inject[of vs ws] by (simp add: powershell_string_array_def u_def)
qed

section \<open>POSIX shell words\<close>

definition posix_shell_word :: "pystr \<Rightarrow> pystr" where
  "posix_shell_word v = [39] @ replace_char 39 [39, 92, 39, 39] v @ [39]"

definition posix_shell_args :: "pystr list \<Rightarrow> pystr" where
  "posix_shell_args vs = join (u '' '') (map posix_shell_word vs)"

text \<open>
  \<open>shlex.split\<close>: the states of \<open>shlex.read_token\<close> that posix mode without comments reaches. An
  escape remembers whether it began inside double quotes.
\<close>

datatype shlex_state = Sh_Start | Sh_Word | Sh_Quote nat | Sh_Escape "nat option"

definition shlex_space :: "nat \<Rightarrow> bool" where
  "shlex_space c \<longleftrightarrow> c \<in> {32, 9, 13, 10}"

definition shlex_finish :: "bool \<Rightarrow> pystr \<Rightarrow> pystr option" where
  "shlex_finish quoted tok = (if \<not> quoted \<and> tok = [] then None else Some tok)"

text \<open>
  One \<open>read_token\<close>: the token (\<open>None\<close> for the end of the input) and the input it left, \<open>None\<close> at the
  end of the stream.
\<close>

fun shlex_read :: "shlex_state \<Rightarrow> bool \<Rightarrow> pystr \<Rightarrow> pystr \<Rightarrow> (pystr option \<times> pystr option) res" where
  "shlex_read Sh_Start q tok [] = Inr (shlex_finish q tok, None)"
| "shlex_read Sh_Start q tok (c # cs) =
    (if shlex_space c
     then if tok \<noteq> [] \<or> q then Inr (shlex_finish q tok, Some cs) else shlex_read Sh_Start q tok cs
     else if c = 92 then shlex_read (Sh_Escape None) q tok cs
     else if c = 39 \<or> c = 34 then shlex_read (Sh_Quote c) q tok cs
     else shlex_read Sh_Word q [c] cs)"
| "shlex_read (Sh_Quote d) q tok [] = raise_error ValueError ''No closing quotation''"
| "shlex_read (Sh_Quote d) q tok (c # cs) =
    (if c = d then shlex_read Sh_Word True tok cs
     else if c = 92 \<and> d = 34 then shlex_read (Sh_Escape (Some d)) True tok cs
     else shlex_read (Sh_Quote d) True (tok @ [c]) cs)"
| "shlex_read (Sh_Escape d) q tok [] = raise_error ValueError ''No escaped character''"
| "shlex_read (Sh_Escape d) q tok (c # cs) =
    (case d of
       None \<Rightarrow> shlex_read Sh_Word q (tok @ [c]) cs
     | Some e \<Rightarrow> shlex_read (Sh_Quote e) q (tok @ (if c \<noteq> 92 \<and> c \<noteq> e then [92, c] else [c])) cs)"
| "shlex_read Sh_Word q tok [] = Inr (shlex_finish q tok, None)"
| "shlex_read Sh_Word q tok (c # cs) =
    (if shlex_space c
     then if tok \<noteq> [] \<or> q then Inr (shlex_finish q tok, Some cs) else shlex_read Sh_Start q tok cs
     else if c = 39 \<or> c = 34 then shlex_read (Sh_Quote c) q tok cs
     else if c = 92 then shlex_read (Sh_Escape None) q tok cs
     else shlex_read Sh_Word q (tok @ [c]) cs)"

lemma shlex_read_shrinks:
  "shlex_read st q tok s = Inr (t, Some r) \<Longrightarrow> length r < length s"
  by (induction st q tok s rule: shlex_read.induct)
    (auto split: if_splits option.splits)

text \<open>\<open>list(lex)\<close>: tokens until the first \<open>None\<close>.\<close>

function shlex_split :: "pystr \<Rightarrow> pystr list res" where
  "shlex_split s = (case shlex_read Sh_Start False [] s of
      Inl e \<Rightarrow> Inl e
    | Inr (None, _) \<Rightarrow> Inr []
    | Inr (Some t, None) \<Rightarrow> Inr [t]
    | Inr (Some t, Some r) \<Rightarrow> and_then (shlex_split r) (\<lambda>ts. Inr (t # ts)))"
  by pat_completeness auto
termination
  by (relation "measure length") (auto dest: shlex_read_shrinks)

declare shlex_split.simps [simp del]

text \<open>A single-quoted body is taken as it is, a quote in it read back from \<open>'\''\<close>.\<close>

lemma shlex_read_quoted_body:
  "shlex_read (Sh_Quote 39) q tok (replace_char 39 [39, 92, 39, 39] v @ 39 # rest) =
   shlex_read Sh_Word True (tok @ v) rest"
  by (induction v arbitrary: q tok) (auto simp: shlex_space_def)

lemma shlex_read_word:
  "shlex_read Sh_Start False [] (posix_shell_word v @ rest) = shlex_read Sh_Word True v rest"
  by (simp add: posix_shell_word_def shlex_space_def shlex_read_quoted_body)

definition scan_shlex_word :: "pystr \<Rightarrow> (pystr \<times> pystr) option" where
  "scan_shlex_word s = (case shlex_read Sh_Start False [] s of
      Inr (Some t, r) \<Rightarrow> Some (t, case r of None \<Rightarrow> [] | Some r' \<Rightarrow> 32 # r') | _ \<Rightarrow> None)"

interpretation sh: delimited_quoting posix_shell_word scan_shlex_word 32
proof unfold_locales
  fix rest :: pystr and v :: pystr
  assume "rest = [] \<or> hd rest = 32"
  then show "scan_shlex_word (posix_shell_word v @ rest) = Some (v, rest)"
    using shlex_read_word[of v rest]
    by (cases rest) (auto simp: scan_shlex_word_def shlex_finish_def shlex_space_def)
qed

lemma shlex_split_word: "shlex_split (posix_shell_word v) = Inr [v]"
  using shlex_read_word[of v "[]"] by (subst shlex_split.simps) (simp add: shlex_finish_def)

lemma shlex_split_args: "shlex_split (posix_shell_args vs) = Inr vs"
proof -
  have "shlex_split (join [32] (map posix_shell_word vs)) = Inr vs"
  proof (induction vs rule: induct_list012)
    case (3 v w vs)
    then show ?case
      by (subst shlex_split.simps) (simp add: shlex_read_word shlex_finish_def shlex_space_def)
  qed (simp_all add: shlex_split_word shlex_split.simps[of "[]"] shlex_finish_def)
  then show ?thesis by (simp add: posix_shell_args_def u_def)
qed

end
