(* ===== verification/Pep723.thy ===== *)
theory Pep723
  imports Py_Errors
begin

text \<open>
  The inline script metadata of \<open>domain/packing.py\<close>: lifting the PEP 723 block off the entry, the
  line scanner for its TOML (strings, comments, brackets), the \<open>requires-python\<close> request and the
  detection of a git source. Each regular expression is written out as the recogniser it denotes.
\<close>

section \<open>The script block\<close>

definition pep723_open :: pystr where
  "pep723_open = u ''# /// script''"

definition pep723_close :: pystr where
  "pep723_close = u ''# ///''"

declare pep723_open_def [py_text] pep723_close_def [py_text]

text \<open>The inner loop: the lines up to the closing one, \<open>None\<close> when the loop breaks or runs out.\<close>

fun find_close :: "pystr list \<Rightarrow> pystr list option" where
  "find_close [] = None"
| "find_close (l # ls) =
    (let stripped = rstrip l in
     if stripped = pep723_close then Some [l]
     else if \<not> (stripped = [hash_mark] \<or> startswith stripped [hash_mark, 32]) then None
     else map_option (Cons l) (find_close ls))"

fun extract_block :: "pystr list \<Rightarrow> pystr res" where
  "extract_block [] = Inr []"
| "extract_block (l # ls) =
    (if rstrip l \<noteq> pep723_open then extract_block ls
     else case find_close ls of
        Some block \<Rightarrow> Inr (join [newline] (l # block) @ [newline])
      | None \<Rightarrow> raise_error PackError ''script block not closed'')"

definition extract_script_metadata :: "pystr \<Rightarrow> pystr res" where
  "extract_script_metadata source = extract_block (splitlines source)"

section \<open>The TOML line scanner\<close>

text \<open>The scanner's constants: the length of a multi-line delimiter and its longest closing run.\<close>

definition multi_line_delimiter :: nat where
  "multi_line_delimiter = 3"

definition longest_closing_run :: nat where
  "longest_closing_run = 5"

text \<open>The run of \<open>mark\<close> that \<open>line[index:]\<close> starts with.\<close>

definition run_length :: "pystr \<Rightarrow> nat \<Rightarrow> nat \<Rightarrow> nat" where
  "run_length line index mark = length (takeWhile (\<lambda>c. c = mark) (drop index line))"

lemma run_length_pos: "index < length line \<Longrightarrow> line ! index = mark \<Longrightarrow> 0 < run_length line index mark"
  by (simp add: run_length_def Cons_nth_drop_Suc [symmetric])

lemma run_length_bound: "index + run_length line index mark \<le> length line" if "index \<le> length line"
  using length_takeWhile_le[of "\<lambda>c. c = mark" "drop index line"] that by (simp add: run_length_def)

text \<open>\<open>_string_end\<close>; \<open>quote\<close> is never empty where it is called.\<close>

function string_end_from :: "pystr \<Rightarrow> nat \<Rightarrow> pystr \<Rightarrow> nat \<times> pystr" where
  "string_end_from line index quote =
    (if index < length line then
       let mark = hd quote in
       if mark = dquote \<and> line ! index = backslash then string_end_from line (index + 2) quote
       else if line ! index \<noteq> mark then string_end_from line (index + 1) quote
       else let run = run_length line index mark in
         if length quote = 1 then (index + 1, [])
         else if multi_line_delimiter \<le> run then (index + min run longest_closing_run, [])
         else string_end_from line (index + run) quote
     else (length line, quote))"
  by pat_completeness auto
termination
  by (relation "measure (\<lambda>(line, index, quote). length line - index)")
    (auto simp: run_length_pos intro!: diff_less_mono2)

declare string_end_from.simps [simp del]

definition string_end :: "pystr \<Rightarrow> nat \<Rightarrow> pystr \<Rightarrow> nat \<times> pystr" where
  "string_end line start quote = string_end_from line start quote"

lemma string_end_progress:
  "index < length line \<Longrightarrow> index < fst (string_end_from line index quote)"
proof (induction line index quote rule: string_end_from.induct)
  case (1 line index quote)
  let ?r = "run_length line index (hd quote)"
  have later: "j < fst (string_end_from line j quote) \<or> fst (string_end_from line j quote) = length line"
    if "\<And>i. j < length line \<Longrightarrow> i = j \<Longrightarrow> i < fst (string_end_from line i quote)" for j
    using that by (cases "j < length line") (auto simp: string_end_from.simps[of line j])
  show ?case
  proof (cases "hd quote = dquote \<and> line ! index = backslash")
    case True
    with "1.IH"(1) "1.prems" later[of "index + 2"] show ?thesis
      by (auto simp: string_end_from.simps[of line index])
  next
    case esc: False
    show ?thesis
    proof (cases "line ! index = hd quote")
      case False
      with "1.IH"(2) "1.prems" esc later[of "index + 1"] show ?thesis
        by (auto simp: string_end_from.simps[of line index])
    next
      case True
      with "1.prems" have "0 < ?r" by (simp add: run_length_pos)
      with True "1.IH"(3) "1.prems" esc later[of "index + ?r"] show ?thesis
        by (auto simp: string_end_from.simps[of line index] Let_def longest_closing_run_def)
    qed
  qed
qed

lemma string_end_bound:
  "index \<le> length line \<Longrightarrow> fst (string_end_from line index quote) \<le> length line"
proof (induction line index quote rule: string_end_from.induct)
  case (1 line index quote)
  have out: "fst (string_end_from line j quote) \<le> length line" if "length line < j" for j
    using that by (simp add: string_end_from.simps[of line j])
  from "1" run_length_bound[of index line "hd quote"] out[of "index + 2"] show ?case
    by (cases "index + 2 \<le> length line")
      (auto simp: string_end_from.simps[of line index] Let_def longest_closing_run_def)
qed

lemma string_end_quote: "snd (string_end_from line index quote) \<in> {quote, []}"
proof (induction line index quote rule: string_end_from.induct)
  case (1 line index quote)
  then show ?case by (subst string_end_from.simps) (auto simp: Let_def)
qed

record toml_line_scan =
  scan_code :: "nat list"
  scan_comment :: nat
  scan_open_string :: pystr

function scan_from :: "pystr \<Rightarrow> nat \<Rightarrow> pystr \<Rightarrow> nat list \<Rightarrow> toml_line_scan" where
  "scan_from line index quote code =
    (if index < length line then
       if quote \<noteq> [] then
         (let (index', quote') = string_end line index quote in scan_from line index' quote' code)
       else let character = line ! index in
         if character = hash_mark then \<lparr>scan_code = code, scan_comment = index, scan_open_string = []\<rparr>
         else if character = dquote \<or> character = squote then
           let multi_line = replicate multi_line_delimiter character;
               quote' = (if startswith (drop index line) multi_line then multi_line else [character])
           in scan_from line (index + length quote') quote' code
         else scan_from line (index + 1) quote (code @ [index])
     else \<lparr>scan_code = code, scan_comment = length line,
           scan_open_string = (if length quote = multi_line_delimiter then quote else [])\<rparr>)"
  by pat_completeness auto
termination
proof (relation "measure (\<lambda>(line, index, quote, code). length line - index)")
  fix line quote :: pystr and index :: nat and code :: "nat list" and x :: "nat \<times> pystr" and i' q'
  assume "index < length line" "x = string_end line index quote" "(i', q') = x"
  then have "index < i'"
    using string_end_progress[of index line quote] by (metis fst_conv string_end_def)
  with \<open>index < length line\<close>
  show "((line, i', q', code), (line, index, quote, code))
      \<in> measure (\<lambda>(line, index, quote, code). length line - index)"
    by auto
qed (auto simp: multi_line_delimiter_def)

declare scan_from.simps [simp del]

definition scan_toml_characters :: "pystr \<Rightarrow> pystr \<Rightarrow> toml_line_scan" where
  "scan_toml_characters line open_string = scan_from line 0 open_string []"

definition bracket_change :: "nat \<Rightarrow> int" where
  "bracket_change c = (if c = ch CHR ''['' then 1 else if c = ch CHR '']'' then -1 else 0)"

definition scan_toml_line :: "pystr \<Rightarrow> pystr \<Rightarrow> int \<times> pystr" where
  "scan_toml_line line open_string =
     (let scan = scan_toml_characters line open_string
      in (sum_list (map (\<lambda>index. bracket_change (line ! index)) (scan_code scan)), scan_open_string scan))"

section \<open>What the scanner keeps\<close>

definition toml_delimiters :: "pystr set" where
  "toml_delimiters = {[], [dquote], [squote], [dquote, dquote, dquote], [squote, squote, squote]}"

definition scan_ok :: "pystr \<Rightarrow> toml_line_scan \<Rightarrow> bool" where
  "scan_ok line r \<longleftrightarrow>
     sorted_wrt (<) (scan_code r) \<and>
     (\<forall>i \<in> set (scan_code r). i < scan_comment r \<and> line ! i \<notin> {hash_mark, dquote, squote}) \<and>
     scan_comment r \<le> length line \<and>
     (scan_comment r < length line \<longrightarrow> line ! scan_comment r = hash_mark) \<and>
     scan_open_string r \<in> {[], [dquote, dquote, dquote], [squote, squote, squote]}"

lemma scan_from_ok:
  assumes "quote \<in> toml_delimiters" "index \<le> length line" "sorted_wrt (<) code"
    "\<forall>i \<in> set code. i < index \<and> line ! i \<notin> {hash_mark, dquote, squote}"
  shows "scan_ok line (scan_from line index quote code)"
  using assms
proof (induction line index quote code rule: scan_from.induct)
  case (1 line index quote code)
  show ?case
  proof (cases "index < length line")
    case False
    with "1.prems" show ?thesis
      by (subst scan_from.simps)
        (fastforce simp: scan_ok_def toml_delimiters_def multi_line_delimiter_def)
  next
    case inside: True
    show ?thesis
    proof (cases "quote = []")
      case False
      obtain i' q' where e: "string_end line index quote = (i', q')" by fastforce
      then have "index < i'" "i' \<le> length line" "q' = quote \<or> q' = []"
        using string_end_progress[of index line quote] string_end_bound[of index line quote]
          string_end_quote[of line index quote] inside by (auto simp: string_end_def)
      with "1.prems" inside False e "1.IH"(1)[OF inside False refl e[symmetric]] show ?thesis
        by (subst scan_from.simps) (fastforce simp: toml_delimiters_def)
    next
      case code: True
      let ?c = "line ! index"
      let ?q = "if startswith (drop index line) (replicate multi_line_delimiter ?c)
                then replicate multi_line_delimiter ?c else [?c]"
      consider "?c = hash_mark" | (q) "?c = dquote \<or> ?c = squote"
        | (plain) "?c \<notin> {hash_mark, dquote, squote}" by auto
      then show ?thesis
      proof cases
        case 1
        with "1.prems" inside code show ?thesis
          by (subst scan_from.simps) (auto simp: scan_ok_def)
      next
        case q
        have "index + length ?q \<le> length line"
          using inside prefix_length_le[of "replicate multi_line_delimiter ?c" "drop index line"]
          by auto
        moreover have "?q \<in> toml_delimiters"
          using q by (auto simp: toml_delimiters_def multi_line_delimiter_def eval_nat_numeral)
        moreover have "?c \<noteq> hash_mark" using q by auto
        ultimately have "scan_ok line (scan_from line (index + length ?q) ?q code)"
          using "1.prems" inside code q by (intro "1.IH"(2)[of ?c "replicate multi_line_delimiter ?c" ?q]) fastforce+
        with inside code q \<open>?c \<noteq> hash_mark\<close> show ?thesis
          by (subst scan_from.simps) (auto simp: Let_def)
      next
        case plain
        then have "scan_ok line (scan_from line (index + 1) [] (code @ [index]))"
          using "1.prems" inside code
          by (intro "1.IH"(3)[of ?c, unfolded code]) (fastforce simp: sorted_wrt_append toml_delimiters_def)+
        with inside code plain show ?thesis
          by (subst scan_from.simps) (auto simp: Let_def)
      qed
    qed
  qed
qed

lemma scan_toml_characters_ok:
  "open_string \<in> toml_delimiters \<Longrightarrow> scan_ok line (scan_toml_characters line open_string)"
  by (simp add: scan_toml_characters_def scan_from_ok)

lemma scan_comment_no_hash:
  assumes "hash_mark \<notin> set line" "open_string \<in> toml_delimiters"
  shows "scan_comment (scan_toml_characters line open_string) = length line"
  using scan_toml_characters_ok[OF assms(2), of line] assms(1)
  unfolding scan_ok_def by (metis le_neq_implies_less nth_mem)

lemma scan_open_delimiter:
  "open_string \<in> toml_delimiters \<Longrightarrow>
   scan_open_string (scan_toml_characters line open_string) \<in> toml_delimiters"
  using scan_toml_characters_ok[of open_string line] by (auto simp: scan_ok_def toml_delimiters_def)

end
