(* ===== verification/Script_Requests.thy ===== *)
theory Script_Requests
  imports Pep723
begin

text \<open>
  What \<open>domain/packing.py\<close> reads out of a PEP 723 block: the \<open>requires-python\<close> request an elevated
  run makes, and whether uv runs git for the script.
\<close>

section \<open>requires-python\<close>

definition requires_python_spellings :: "pystr list" where
  "requires_python_spellings =
     [u ''requires-python'', [dquote] @ u ''requires-python'' @ [dquote],
      [squote] @ u ''requires-python'' @ [squote]]"

text \<open>
  \<open>_REQUIRES_PYTHON_KEY.match\<close>: what follows the key, when a spelling of it starts the line and
  \<open>\s*=\<close> follows. At most one spelling can.
\<close>

definition after_equals :: "pystr \<Rightarrow> pystr option" where
  "after_equals s = (case lstrip s of c # cs \<Rightarrow> if c = equals_sign then Some cs else None | [] \<Rightarrow> None)"

definition requires_python_key :: "pystr \<Rightarrow> pystr option" where
  "requires_python_key line =
     (case filter (\<lambda>k. startswith line k \<and> after_equals (drop (length k) line) \<noteq> None)
             requires_python_spellings of
        [] \<Rightarrow> None | k # _ \<Rightarrow> after_equals (drop (length k) line))"

text \<open>
  The rest of \<open>_REQUIRES_PYTHON_LINE.fullmatch\<close>, from behind the \<open>=\<close>: one basic or literal TOML
  string, then at most a comment. The value is the text of the group that matched.
\<close>

definition quoted_value :: "pystr \<Rightarrow> pystr option" where
  "quoted_value s = (case lstrip s of
      [] \<Rightarrow> None
    | q # cs \<Rightarrow>
        if q = dquote \<or> q = squote then
          (let value = takeWhile (\<lambda>c. c \<noteq> q \<and> \<not> (q = dquote \<and> c = backslash)) cs;
               rest = drop (length value) cs
           in case rest of
                [] \<Rightarrow> None
              | c # after \<Rightarrow>
                  if c = q \<and> (lstrip after = [] \<or> hd (lstrip after) = hash_mark \<and>
                                  newline \<notin> set (lstrip after))
                  then Some value else None)
        else None)"

definition specifier_char :: "nat \<Rightarrow> bool" where
  "specifier_char c \<longleftrightarrow> is_digit c \<or> is_ascii_alpha c \<or> c \<in> set (u ''.,<>=!~*+ '')"

definition requires_python_value :: "pystr \<Rightarrow> pystr res" where
  "requires_python_value line =
     (case Option.bind (requires_python_key line) quoted_value of
        None \<Rightarrow> raise_error PackError ''requires-python''
      | Some value \<Rightarrow>
          if \<forall>c \<in> set value. specifier_char c then Inr (strip value)
          else raise_error PackError ''requires-python'')"

text \<open>The comment prefix of a block line, removed.\<close>

definition toml_of_raw :: "pystr \<Rightarrow> pystr" where
  "toml_of_raw raw = (if startswith raw [hash_mark, 32] then drop 2 raw else drop 1 raw)"

fun requires_python_loop :: "int \<Rightarrow> pystr \<Rightarrow> pystr list \<Rightarrow> pystr res" where
  "requires_python_loop depth open_string [] = Inr []"
| "requires_python_loop depth open_string (raw # raws) =
    (let line = strip (toml_of_raw raw) in
     if open_string = [] \<and> startswith line (u ''['') \<and> depth = 0 then Inr []
     else if open_string = [] \<and> requires_python_key line \<noteq> None then requires_python_value line
     else let (change, open_string') = scan_toml_line line open_string
          in requires_python_loop (max (depth + change) 0) open_string' raws)"

text \<open>\<open>metadata.splitlines()[1:-1]\<close>.\<close>

definition block_body :: "pystr \<Rightarrow> pystr list" where
  "block_body metadata = butlast (tl (splitlines metadata))"

definition extract_requires_python :: "pystr \<Rightarrow> pystr res" where
  "extract_requires_python metadata = requires_python_loop 0 [] (block_body metadata)"

section \<open>Git sources\<close>

definition git_requirement :: pystr where
  "git_requirement = u ''git+''"

text \<open>\<open>_GIT_KEY.search\<close>: a spelling of the key \<open>git\<close> at the start or behind a separator, then one \<open>=\<close>.\<close>

definition git_key_at :: "pystr \<Rightarrow> bool" where
  "git_key_at s \<longleftrightarrow> (\<exists>k \<in> set [u ''git'', [dquote] @ u ''git'' @ [dquote], [squote] @ u ''git'' @ [squote]].
     startswith s k \<and>
     (case after_equals (drop (length k) s) of None \<Rightarrow> False | Some r \<Rightarrow> \<not> startswith r [equals_sign]))"

definition git_separator :: "nat \<Rightarrow> bool" where
  "git_separator c \<longleftrightarrow> py_isspace c \<or> c \<in> set (u ''{,.'')"

fun git_key_after_separator :: "pystr \<Rightarrow> bool" where
  "git_key_after_separator [] = False"
| "git_key_after_separator (c # cs) \<longleftrightarrow>
     git_separator c \<and> git_key_at cs \<or> git_key_after_separator cs"

definition git_key_search :: "pystr \<Rightarrow> bool" where
  "git_key_search s \<longleftrightarrow> git_key_at s \<or> git_key_after_separator s"

text \<open>\<open>_SPELLING_ESCAPE.search\<close>.\<close>

fun spelling_escape :: "pystr \<Rightarrow> bool" where
  "spelling_escape [] = False"
| "spelling_escape (c # cs) \<longleftrightarrow>
     c = backslash \<and> ((cs \<noteq> [] \<and> hd cs \<in> set (u ''uUx'')) \<or> lstrip cs = []) \<or> spelling_escape cs"

definition may_name_a_git_source :: "pystr \<Rightarrow> bool" where
  "may_name_a_git_source toml \<longleftrightarrow>
     contains (lower toml) git_requirement \<or> git_key_search toml \<or> spelling_escape toml"

fun git_source_loop :: "pystr \<Rightarrow> pystr list \<Rightarrow> bool" where
  "git_source_loop open_string [] = False"
| "git_source_loop open_string (raw # raws) =
    (let line = toml_of_raw raw;
         scan = scan_toml_characters line open_string
     in may_name_a_git_source (take (scan_comment scan) line)
        \<or> git_source_loop (scan_open_string scan) raws)"

definition has_git_source :: "pystr \<Rightarrow> pystr list \<Rightarrow> bool" where
  "has_git_source metadata with_packages \<longleftrightarrow>
     (\<exists>package \<in> set with_packages. contains (lower package) git_requirement) \<or>
     git_source_loop [] (block_body metadata)"

section \<open>Facts\<close>

lemma requires_python_value_chars:
  assumes "requires_python_value line = Inr v"
  shows "\<forall>c \<in> set v. specifier_char c"
  using assms set_strip unfolding requires_python_value_def
  by (fastforce split: option.splits if_splits)

lemma requires_python_loop_chars:
  "requires_python_loop depth open_string raws = Inr v \<Longrightarrow> \<forall>c \<in> set v. specifier_char c"
  by (induction depth open_string raws rule: requires_python_loop.induct)
    (auto simp: Let_def split: if_splits prod.splits dest: requires_python_value_chars)

lemma requires_python_loop_error:
  "requires_python_loop depth open_string raws = Inl e \<Longrightarrow>
     \<exists>raw \<in> set raws. requires_python_key (strip (toml_of_raw raw)) \<noteq> None \<and>
       requires_python_value (strip (toml_of_raw raw)) = Inl e"
  by (induction depth open_string raws rule: requires_python_loop.induct)
    (auto simp: Let_def split: if_splits prod.splits)

text \<open>
  A line without a \<open>#\<close> of its own is scanned to its end whatever string is open, so a git source in
  it is seen.
\<close>

lemma git_source_loop_found:
  assumes "raw \<in> set raws" "hash_mark \<notin> set (toml_of_raw raw)"
    "may_name_a_git_source (toml_of_raw raw)" "open_string \<in> toml_delimiters"
  shows "git_source_loop open_string raws"
  using assms
proof (induction raws arbitrary: open_string)
  case (Cons r raws)
  then show ?case
    by (cases "raw = r") (auto simp: Let_def scan_comment_no_hash scan_open_delimiter)
qed simp

lemma has_git_source_line:
  assumes "raw \<in> set (block_body metadata)" "hash_mark \<notin> set (toml_of_raw raw)"
    "may_name_a_git_source (toml_of_raw raw)"
  shows "has_git_source metadata with_packages"
  using git_source_loop_found[OF assms, of "[]"] by (simp add: has_git_source_def toml_delimiters_def)

section \<open>The block travels unchanged\<close>

lemma find_close_block:
  "find_close ls = Some block \<Longrightarrow> \<exists>rest. ls = block @ rest \<and> block \<noteq> [] \<and> rstrip (last block) = pep723_close"
proof (induction ls arbitrary: block)
  case (Cons l ls)
  then show ?case by (fastforce simp: Let_def split: if_splits)
qed simp

lemma find_close_append:
  "find_close ls = Some block \<Longrightarrow> find_close (block @ rest) = Some block"
proof (induction ls arbitrary: block)
  case (Cons l ls)
  then show ?case by (fastforce simp: Let_def split: if_splits)
qed simp

lemma extract_block_found:
  assumes "extract_block ls = Inr m" "m \<noteq> []"
  shows "\<exists>pre l block post. ls = pre @ l # block @ post \<and> rstrip l = pep723_open \<and>
           find_close (block @ post) = Some block \<and> m = unlines (l # block)"
  using assms
proof (induction ls)
  case (Cons l ls)
  show ?case
  proof (cases "rstrip l = pep723_open")
    case False
    with Cons obtain pre l' block post where "ls = pre @ l' # block @ post"
      and "rstrip l' = pep723_open" "find_close (block @ post) = Some block" "m = unlines (l' # block)"
      by auto
    then show ?thesis by (intro exI[of _ "l # pre"]) auto
  next
    case True
    with Cons.prems obtain block where b: "find_close ls = Some block"
      and m: "m = join [newline] (l # block) @ [newline]"
      by (auto split: option.splits)
    from find_close_block[OF b] obtain post where "ls = block @ post" by auto
    with True b m show ?thesis 
      by (intro exI[of _ "[]"] exI[of _ l] exI[of _ block] exI[of _ post])
        (auto simp: unlines_join simp del: join.simps)
  qed
qed simp

text \<open>The block in front of any text is what a second extraction lifts.\<close>

lemma extract_metadata_stable:
  assumes "extract_script_metadata source = Inr m" "m \<noteq> []"
  shows "extract_script_metadata (m @ rest) = Inr m"
proof -
  from extract_block_found[OF assms[unfolded extract_script_metadata_def]]
  obtain pre l block post where ls: "splitlines source = pre @ l # block @ post"
    and l: "rstrip l = pep723_open"
    and b: "find_close (block @ post) = Some block" and m: "m = unlines (l # block)"
    by blast
  have "\<forall>x \<in> set (l # block). no_breaks x"
    using splitlines_no_breaks[of _ source] by (auto simp: ls)
  then have "splitlines (m @ rest) = l # block @ splitlines rest"
    unfolding m by (subst splitlines_unlines_append) auto
  then show ?thesis
    using l find_close_append[OF b, of "splitlines rest"]
    by (simp add: extract_script_metadata_def m unlines_join[symmetric] del: join.simps unlines.simps)
qed

end
