(* ===== verification/Runner_Text.thy ===== *)
theory Runner_Text
  imports Quoting Script_Requests
begin

text \<open>
  Rendering a packed runner (\<open>domain/packing.py\<close>): the placeholders of the two templates, the one-pass
  substitution, the wrapping of the payload, the re-anchored \<open>--with\<close> paths and the two renderers.
  The template text is an argument (the templates are PowerShell and shell files).
\<close>

section \<open>Inputs\<close>

datatype runner_format = PS1 | SH | AUTO

record file_digest =
  fd_digest :: pystr
  fd_path :: pystr

record runner_content =
  rc_payload_b64 :: pystr
  rc_payload_sha256 :: pystr
  rc_entry :: pystr
  rc_uv_args :: "pystr list"
  rc_file_hashes :: "file_digest list"
  rc_python_request :: pystr
  rc_has_git_source :: bool

definition shim_module :: pystr where
  "shim_module = u ''__pwshpy_pack_main__.py''"

definition argv_env_var :: pystr where "argv_env_var = u ''PWSHPY_PACK_ARGV''"
definition cwd_env_var :: pystr where "cwd_env_var = u ''PWSHPY_PACK_CWD''"
definition path_env_var :: pystr where "path_env_var = u ''PWSHPY_PACK_PATH''"
definition uv_path_env_var :: pystr where "uv_path_env_var = u ''PWSHPY_PACK_UV_PATH''"
definition caller_env_var :: pystr where "caller_env_var = u ''PWSHPY_PACK_CALLER''"

definition token :: "string \<Rightarrow> pystr" where
  "token name = u (''@@PWSHPY_'' @ name @ ''@@'')"

definition placeholders :: "pystr list" where
  "placeholders = map token
     [''PAYLOAD_B64'', ''PAYLOAD_SHA256'', ''ENTRY'', ''UV_ARGS'', ''FILE_HASHES'', ''SHIM'',
      ''ARGV_ENV'', ''CWD_ENV'', ''UV_ARGS_RELATIVE'', ''PYTHON_REQUEST'', ''PATH_ENV'',
      ''UV_PATH_ENV'', ''GIT_SOURCE'', ''CALLER_ENV'']"

definition entry_name_placeholder :: pystr where
  "entry_name_placeholder = token ''ENTRY_NAME''"

definition sh_placeholders :: "pystr list" where
  "sh_placeholders = map token
     [''PAYLOAD_B64'', ''PAYLOAD_SHA256'', ''ENTRY'', ''UV_ARGS'', ''FILE_HASHES'', ''SHIM'',
      ''ARGV_ENV'', ''CWD_ENV'', ''PATH_ENV'', ''UV_PATH_ENV'', ''UV_ARGS_ANCHORED'',
      ''PYTHON_REQUEST'', ''GIT_SOURCE'', ''CALLER_ENV'']"

definition powershell_comment_end :: pystr where
  "powershell_comment_end = u ''#>''"

definition posix_prefix_variable :: pystr where
  "posix_prefix_variable = [dquote] @ u ''$PWSHPY_CALLER_PREFIX'' @ [dquote]"

section \<open>Wrapping the payload\<close>

function chunks :: "nat \<Rightarrow> pystr \<Rightarrow> pystr list" where
  "chunks width blob =
     (if blob = [] \<or> width = 0 then [] else take width blob # chunks width (drop width blob))"
  by pat_completeness auto
termination
  by (relation "measure (\<lambda>(width, blob). length blob)") auto

declare chunks.simps [simp del]

definition chunk_base64 :: "pystr \<Rightarrow> int \<Rightarrow> pystr res" where
  "chunk_base64 blob width =
     (if width < 1 then raise_error PackError ''line width must be positive''
      else Inr (join [newline] (chunks (nat width) blob)))"

lemma chunks_Nil [simp]: "chunks width [] = []"
  by (simp add: chunks.simps)

lemma chunks_step:
  "blob \<noteq> [] \<Longrightarrow> 0 < width \<Longrightarrow> chunks width blob = take width blob # chunks width (drop width blob)"
  by (simp add: chunks.simps[of width blob])

lemma chunks_concat:
  assumes "0 < width"
  shows "concat (chunks width blob) = blob"
proof (induction blob rule: length_induct)
  case (1 blob)
  with assms show ?case by (cases "blob = []") (simp_all add: chunks_step)
qed

lemma chunks_widths:
  assumes "0 < width"
  shows "c \<in> set (chunks width blob) \<Longrightarrow> 0 < length c \<and> length c \<le> width"
proof (induction blob rule: length_induct)
  case (1 blob)
  show ?case
  proof (cases "blob = []")
    case False
    with assms have "length (drop width blob) < length blob" by simp
    with "1.IH" have "c \<in> set (chunks width (drop width blob)) \<Longrightarrow> 0 < length c \<and> length c \<le> width"
      by blast
    with False assms "1.prems" show ?thesis by (auto simp: chunks_step)
  qed (use "1.prems" in simp)
qed

lemma chunks_eq_Nil: "0 < width \<Longrightarrow> chunks width blob = [] \<longleftrightarrow> blob = []"
  by (cases "blob = []") (simp_all add: chunks_step)

lemma chunks_full:
  assumes "0 < width"
  shows "c \<in> set (butlast (chunks width blob)) \<Longrightarrow> length c = width"
proof (induction blob rule: length_induct)
  case (1 blob)
  show ?case
  proof (cases "blob = []")
    case False
    with assms have "length (drop width blob) < length blob" by simp
    with "1.IH" have IH: "c \<in> set (butlast (chunks width (drop width blob))) \<Longrightarrow> length c = width"
      by blast
    from False assms "1.prems"
    have "c \<in> set (butlast (take width blob # chunks width (drop width blob)))"
      using chunks_step[of blob width] by simp
    with assms IH show ?thesis by (auto simp: chunks_eq_Nil split: if_splits)
  qed (use "1.prems" in simp)
qed

section \<open>One-pass substitution\<close>

text \<open>\<open>re.sub\<close> over the alternation of the escaped tokens: the leftmost match, the first token that fits.\<close>

function substitute :: "(pystr \<times> pystr) list \<Rightarrow> pystr \<Rightarrow> pystr" where
  "substitute replacements [] = []"
| "substitute replacements (c # cs) =
    (case find (\<lambda>(tok, value). startswith (c # cs) tok) replacements of
       Some (tok, value) \<Rightarrow> value @ substitute replacements (drop (length tok - 1) cs)
     | None \<Rightarrow> c # substitute replacements cs)"
  by pat_completeness auto
termination
  by (relation "measure (\<lambda>(replacements, s). length s)", rule wf_measure)
    (simp_all only: in_measure prod.case list.size length_drop)

text \<open>A template as literal text and holes, and what it stands for.\<close>

datatype segment = Literal pystr | Hole pystr

fun segment_text :: "segment \<Rightarrow> pystr" where
  "segment_text (Literal s) = s"
| "segment_text (Hole tok) = tok"

fun segment_value :: "(pystr \<times> pystr) list \<Rightarrow> segment \<Rightarrow> pystr" where
  "segment_value replacements (Literal s) = s"
| "segment_value replacements (Hole tok) = (case map_of replacements tok of Some v \<Rightarrow> v | None \<Rightarrow> tok)"

definition prefix_free :: "pystr set \<Rightarrow> bool" where
  "prefix_free toks \<longleftrightarrow> (\<forall>s \<in> toks. \<forall>t \<in> toks. prefix s t \<longrightarrow> s = t)"

definition at_sign :: nat where
  "at_sign = 64"

text \<open>A literal no placeholder can begin in: it holds no two at signs in a row, and does not end with one.\<close>

fun plain_literal :: "pystr \<Rightarrow> bool" where
  "plain_literal [] \<longleftrightarrow> True"
| "plain_literal [c] \<longleftrightarrow> c \<noteq> at_sign"
| "plain_literal (c # d # s) \<longleftrightarrow> \<not> (c = at_sign \<and> d = at_sign) \<and> plain_literal (d # s)"

definition placeholder_shaped :: "pystr \<Rightarrow> bool" where
  "placeholder_shaped tok \<longleftrightarrow> prefix [at_sign, at_sign] tok"

lemma shaped_starts: "placeholder_shaped tok \<Longrightarrow> prefix tok (c # s) \<Longrightarrow> c = at_sign \<and> take 1 s = [at_sign]"
  by (auto simp: placeholder_shaped_def prefix_def)

lemma find_nothing: "(\<And>k v. (k, v) \<in> set reps \<Longrightarrow> \<not> P k) \<Longrightarrow> find (\<lambda>(k, v). P k) reps = None"
  by (auto simp: find_None_iff)

lemma substitute_plain:
  assumes "\<forall>tok \<in> fst ` set reps. placeholder_shaped tok" "plain_literal s"
  shows "substitute reps (s @ rest) = s @ substitute reps rest"
  using assms(2)
proof (induction s rule: plain_literal.induct)
  case (2 c)
  then have "find (\<lambda>(tok, value). startswith (c # rest) tok) reps = None"
    using assms(1) shaped_starts[of _ c rest] by (intro find_nothing) force
  then show ?case by simp
next
  case (3 c d s)
  then have "find (\<lambda>(tok, value). startswith (c # d # s @ rest) tok) reps = None"
    using assms(1) shaped_starts[of _ c "d # s @ rest"] by (intro find_nothing) force
  with 3 show ?case by simp
qed simp

lemma find_key:
  assumes "map_of reps tok = Some v" "\<And>k w. (k, w) \<in> set reps \<Longrightarrow> P k \<Longrightarrow> k = tok" "P tok"
  shows "find (\<lambda>(k, w). P k) reps = Some (tok, v)"
  using assms
proof (induction reps)
  case (Cons r reps)
  obtain k w where r: "r = (k, w)" by (cases r)
  show ?case
  proof (cases "k = tok")
    case True
    with Cons.prems(1,3) r show ?thesis by simp
  next
    case False
    with Cons.prems(2)[of k w] r have "\<not> P k" by auto
    moreover have "find (\<lambda>(k, w). P k) reps = Some (tok, v)"
      using Cons.prems(1,3) False r by (intro Cons.IH) (auto intro: Cons.prems(2))
    ultimately show ?thesis using r by simp
  qed
qed simp

lemma substitute_hole:
  assumes pf: "prefix_free (fst ` set reps)" and "map_of reps tok = Some v" "tok \<noteq> []"
  shows "substitute reps (tok @ rest) = v @ substitute reps rest"
proof -
  obtain c cs where tok: "tok = c # cs" using assms(3) by (cases tok) auto
  have "find (\<lambda>(k, w). startswith (tok @ rest) k) reps = Some (tok, v)"
  proof (rule find_key[OF assms(2)])
    fix k w assume k: "(k, w) \<in> set reps" "startswith (tok @ rest) k"
    have "tok \<in> fst ` set reps" using assms(2) by (force dest: map_of_SomeD)
    moreover have "prefix k tok \<or> prefix tok k"
      using k(2) by (metis prefixI prefix_same_cases)
    ultimately show "k = tok" using pf k(1) by (force simp: prefix_free_def)
  qed simp
  then show ?thesis by (simp add: tok)
qed

lemma substitute_segments:
  assumes "prefix_free (fst ` set reps)" "\<forall>tok \<in> fst ` set reps. placeholder_shaped tok"
    and "\<forall>seg \<in> set segs. case seg of Literal s \<Rightarrow> plain_literal s | Hole tok \<Rightarrow> tok \<in> fst ` set reps"
  shows "substitute reps (concat (map segment_text segs)) = concat (map (segment_value reps) segs)"
  using assms(3)
proof (induction segs)
  case (Cons seg segs)
  show ?case
  proof (cases seg)
    case (Literal s)
    with Cons substitute_plain[OF assms(2)] show ?thesis by simp
  next
    case (Hole tok)
    with Cons.prems obtain v where "map_of reps tok = Some v"
      by (cases "map_of reps tok") (auto simp: map_of_eq_None_iff)
    moreover have "tok \<noteq> []"
      using Cons.prems Hole assms(2) by (auto simp: placeholder_shaped_def)
    ultimately show ?thesis using Cons Hole substitute_hole[OF assms(1)] by simp
  qed
qed simp

end
