(* ===== verification/Runner_Render.thy ===== *)
theory Runner_Render
  imports Runner_Text
begin

text \<open>
  The two renderers of \<open>domain/packing.py\<close>, on top of \<open>Runner_Text\<close>: which \<open>--with\<close> values name a
  relative path, the re-anchored argument lists, the refusals, and \<open>render_runner\<close> and
  \<open>render_posix_runner\<close> themselves.
\<close>

section \<open>Relative requirements\<close>

definition name_char :: "nat \<Rightarrow> bool" where
  "name_char c \<longleftrightarrow> is_ascii_alpha c \<or> is_digit c \<or> c \<in> set (u ''._-'')"

definition alnum_char :: "nat \<Rightarrow> bool" where
  "alnum_char c \<longleftrightarrow> is_ascii_alpha c \<or> is_digit c"

text \<open>
  \<open>_NAMED_REFERENCE.match\<close>: what is left behind \<open>name[extras] @\<close>. The name is the whole run of name
  characters (what must follow it is none), so it starts and ends with a letter or digit.
\<close>

definition skip_extras :: "pystr \<Rightarrow> pystr" where
  "skip_extras s = (case s of
      c # cs \<Rightarrow> if c = ch CHR ''['' \<and> ch CHR '']'' \<in> set cs
                then tl (dropWhile (\<lambda>x. x \<noteq> ch CHR '']'') cs) else s
    | [] \<Rightarrow> s)"

definition after_named_reference :: "pystr \<Rightarrow> pystr option" where
  "after_named_reference spec =
     (let s = lstrip spec; name = takeWhile name_char s in
      if name \<noteq> [] \<and> alnum_char (hd name) \<and> alnum_char (last name) then
        (case lstrip (skip_extras (lstrip (drop (length name) s))) of
           c # cs \<Rightarrow> if c = ch CHR ''@'' then Some (lstrip cs) else None
         | [] \<Rightarrow> None)
      else None)"

definition distribution_suffixes :: "pystr list" where
  "distribution_suffixes = map u [''.whl'', ''.tar.gz'', ''.zip'', ''.tar.bz2'', ''.tar.xz'', ''.tgz'']"

definition is_relative_location :: "pystr \<Rightarrow> bool" where
  "is_relative_location location =
     (let token = takeWhile (\<lambda>c. \<not> py_isspace c \<and> c \<noteq> ch CHR '';'') (strip location) in
      if token = [] \<or> contains token (u ''://'') \<or> startswith (lower token) (u ''file:'') then False
      else if hd token \<in> set (u ''/'' @ [backslash] @ u ''~$'') \<or>
              (is_ascii_alpha (hd token) \<and> startswith (tl token) (u '':'')) then False
      else ch CHR ''/'' \<in> set token \<or> backslash \<in> set token \<or> token = u ''.'' \<or> token = u ''..'' \<or>
           (\<exists>s \<in> set distribution_suffixes. endswith (lower token) s))"

definition split_relative_requirement :: "pystr \<Rightarrow> (pystr \<times> pystr) option" where
  "split_relative_requirement spec =
     (let head = (case after_named_reference spec of
                    Some after \<Rightarrow> if \<not> startswith (lstrip spec) (u ''.'')
                                  then take (length spec - length after) spec else []
                  | None \<Rightarrow> []);
          location = drop (length head) spec
      in if is_relative_location location then Some (head, location) else None)"

text \<open>\<open>_anchored_values\<close>: the loop carries the previous value.\<close>

fun anchored_from :: "pystr \<Rightarrow> pystr list \<Rightarrow> (pystr \<times> (pystr \<times> pystr) option) list" where
  "anchored_from previous [] = []"
| "anchored_from previous (value # values) =
     (value, if previous = u ''--with'' then split_relative_requirement value else None)
     # anchored_from value values"

definition anchored_values :: "pystr list \<Rightarrow> (pystr \<times> (pystr \<times> pystr) option) list" where
  "anchored_values values = anchored_from [] values"

definition powershell_relative_suffixes :: "pystr list \<Rightarrow> pystr" where
  "powershell_relative_suffixes values =
     join (u '','') (map (\<lambda>(_, split). powershell_literal (case split of Some (_, t) \<Rightarrow> t | None \<Rightarrow> []))
       (anchored_values values))"

definition anchored_word :: "pystr \<times> (pystr \<times> pystr) option \<Rightarrow> pystr" where
  "anchored_word p = (case p of
      (value, None) \<Rightarrow> posix_shell_word value
    | (value, Some (head, location)) \<Rightarrow>
        posix_shell_word head @ posix_prefix_variable @ posix_shell_word location)"

definition posix_anchored_args :: "pystr list \<Rightarrow> pystr" where
  "posix_anchored_args values = join (u '' '') (map anchored_word (anchored_values values))"

section \<open>Rendering\<close>

fun first_unrepresentable :: "pystr list \<Rightarrow> pystr option" where
  "first_unrepresentable [] = None"
| "first_unrepresentable (name # names) =
     (if newline \<in> set name \<or> 13 \<in> set name then Some name else first_unrepresentable names)"

definition refuse_unrepresentable_names :: "runner_content \<Rightarrow> unit res" where
  "refuse_unrepresentable_names content =
     (case first_unrepresentable (rc_entry content # map fd_path (rc_file_hashes content)) of
        None \<Rightarrow> Inr () | Some _ \<Rightarrow> raise_error PackError ''line break in a packed name'')"

definition powershell_replacements :: "runner_content \<Rightarrow> (pystr \<times> pystr) list" where
  "powershell_replacements content =
     [(token ''PAYLOAD_B64'', rc_payload_b64 content),
      (token ''PAYLOAD_SHA256'', rc_payload_sha256 content),
      (token ''ENTRY'', powershell_literal (rc_entry content)),
      (entry_name_placeholder, rc_entry content),
      (token ''UV_ARGS'', powershell_string_array (rc_uv_args content)),
      (token ''FILE_HASHES'',
        join [newline] (map (\<lambda>fh. fd_digest fh @ u '' *'' @ fd_path fh) (rc_file_hashes content))),
      (token ''SHIM'', shim_module),
      (token ''ARGV_ENV'', argv_env_var),
      (token ''CWD_ENV'', cwd_env_var),
      (token ''PATH_ENV'', path_env_var),
      (token ''UV_PATH_ENV'', uv_path_env_var),
      (token ''UV_ARGS_RELATIVE'', powershell_relative_suffixes (rc_uv_args content)),
      (token ''PYTHON_REQUEST'', powershell_literal (rc_python_request content)),
      (token ''GIT_SOURCE'', if rc_has_git_source content then u ''$true'' else u ''$false''),
      (token ''CALLER_ENV'', caller_env_var)]"

definition render_runner :: "pystr \<Rightarrow> runner_content \<Rightarrow> pystr res" where
  "render_runner template content =
     (if \<exists>tok \<in> set placeholders. \<not> contains template tok
      then raise_error PackError ''missing placeholder''
      else and_then (refuse_unrepresentable_names content) (\<lambda>_.
        if contains (rc_entry content) powershell_comment_end
        then raise_error PackError ''entry name ends the help block''
        else Inr (substitute (powershell_replacements content) template)))"

definition posix_replacements :: "runner_content \<Rightarrow> (pystr \<times> pystr) list" where
  "posix_replacements content =
     [(token ''PAYLOAD_B64'', rc_payload_b64 content),
      (token ''PAYLOAD_SHA256'', rc_payload_sha256 content),
      (token ''ENTRY'', posix_shell_word (rc_entry content)),
      (entry_name_placeholder, rc_entry content),
      (token ''UV_ARGS'', posix_shell_word (posix_shell_args (rc_uv_args content))),
      (token ''FILE_HASHES'', posix_shell_word
        (join [newline] (map (\<lambda>fh. fd_digest fh @ u ''  '' @ fd_path fh) (rc_file_hashes content)))),
      (token ''SHIM'', shim_module),
      (token ''ARGV_ENV'', argv_env_var),
      (token ''CWD_ENV'', cwd_env_var),
      (token ''PATH_ENV'', path_env_var),
      (token ''UV_PATH_ENV'', uv_path_env_var),
      (token ''UV_ARGS_ANCHORED'', posix_shell_word (posix_anchored_args (rc_uv_args content))),
      (token ''PYTHON_REQUEST'', posix_shell_word (rc_python_request content)),
      (token ''GIT_SOURCE'', posix_shell_word (if rc_has_git_source content then u ''1'' else u ''0'')),
      (token ''CALLER_ENV'', caller_env_var)]"

definition render_posix_runner :: "pystr \<Rightarrow> runner_content \<Rightarrow> pystr res" where
  "render_posix_runner template content =
     (if \<exists>tok \<in> set sh_placeholders. \<not> contains template tok
      then raise_error PackError ''missing placeholder''
      else and_then (refuse_unrepresentable_names content) (\<lambda>_.
        Inr (substitute (posix_replacements content) template)))"

section \<open>Facts\<close>

lemma first_unrepresentable_None:
  "first_unrepresentable names = None \<longleftrightarrow> (\<forall>name \<in> set names. newline \<notin> set name \<and> 13 \<notin> set name)"
  by (induction names) auto

lemma suffix_lstrip: "suffix (lstrip s) s"
  by (simp add: lstrip_def suffix_dropWhile)

lemma suffix_skip_extras: "suffix (skip_extras s) s"
proof (cases s)
  case (Cons c cs)
  then have "suffix (tl (dropWhile (\<lambda>x. x \<noteq> ch CHR '']'') cs)) s"
    by (metis suffix_ConsI suffix_dropWhile suffix_order.trans suffix_tl)
  with Cons show ?thesis by (auto simp: skip_extras_def)
qed (simp add: skip_extras_def)

lemma after_named_reference_suffix:
  assumes "after_named_reference spec = Some after"
  shows "suffix after spec"
proof -
  let ?s = "lstrip spec"
  from assms obtain c cs where
    cs: "lstrip (skip_extras (lstrip (drop (length (takeWhile name_char ?s)) ?s))) = c # cs"
    and after: "after = lstrip cs"
    by (auto simp: after_named_reference_def Let_def split: if_splits list.splits)
  have "suffix (c # cs) spec"
    unfolding cs[symmetric]
    by (meson suffix_drop suffix_lstrip suffix_order.trans suffix_skip_extras)
  with after show ?thesis
    by (metis suffix_ConsD suffix_lstrip suffix_order.trans)
qed

lemma split_relative_parts:
  assumes "split_relative_requirement spec = Some (head, location)"
  shows "head @ location = spec"
  using assms after_named_reference_suffix[of spec]
  by (auto simp: split_relative_requirement_def Let_def split: option.splits if_splits)

text \<open>What \<open>sh\<close> reads an argument of the re-anchored list as, the prefix variable still unexpanded.\<close>

definition anchored_reading :: "pystr \<times> (pystr \<times> pystr) option \<Rightarrow> pystr" where
  "anchored_reading p = (case p of
      (value, None) \<Rightarrow> value
    | (value, Some (head, location)) \<Rightarrow> head @ u ''$PWSHPY_CALLER_PREFIX'' @ location)"

lemma shlex_read_in_word:
  "shlex_read Sh_Word q tok (posix_shell_word v @ rest) = shlex_read Sh_Word True (tok @ v) rest"
  by (simp add: posix_shell_word_def shlex_space_def shlex_read_quoted_body)

lemma shlex_read_dquoted:
  "dquote \<notin> set v \<Longrightarrow> backslash \<notin> set v \<Longrightarrow>
   shlex_read (Sh_Quote dquote) q tok (v @ dquote # rest) = shlex_read Sh_Word True (tok @ v) rest"
  by (induction v arbitrary: q tok) auto

lemma shlex_read_prefix_variable:
  "shlex_read Sh_Word q tok (posix_prefix_variable @ rest) =
   shlex_read Sh_Word True (tok @ u ''$PWSHPY_CALLER_PREFIX'') rest"
proof -
  have "dquote \<notin> set (u ''$PWSHPY_CALLER_PREFIX'')" "backslash \<notin> set (u ''$PWSHPY_CALLER_PREFIX'')"
    by (simp_all add: u_def)
  then show ?thesis
    by (simp add: posix_prefix_variable_def shlex_space_def shlex_read_dquoted)
qed

lemma shlex_read_anchored_word:
  "shlex_read Sh_Start False [] (anchored_word p @ rest) =
   shlex_read Sh_Word True (anchored_reading p) rest"
  by (auto simp: anchored_word_def anchored_reading_def shlex_read_word shlex_read_in_word
      shlex_read_prefix_variable split: prod.splits option.splits)

lemma shlex_split_anchored:
  "shlex_split (posix_anchored_args values) = Inr (map anchored_reading (anchored_values values))"
proof -
  have "shlex_split (join [32] (map anchored_word ps)) = Inr (map anchored_reading ps)" for ps
  proof (induction ps rule: induct_list012)
    case 1
    then show ?case by (simp add: shlex_split.simps[of "[]"] shlex_finish_def)
  next
    case (2 p)
    then show ?case
      using shlex_read_anchored_word[of p "[]"] by (subst shlex_split.simps) (simp add: shlex_finish_def)
  next
    case (3 p q ps)
    then show ?case
      by (subst shlex_split.simps) (simp add: shlex_read_anchored_word shlex_finish_def shlex_space_def)
  qed
  then show ?thesis by (simp add: posix_anchored_args_def u_def)
qed

lemma anchored_values_fst: "map fst (anchored_values values) = values"
proof -
  have "map fst (anchored_from p vs) = vs" for p vs
    by (induction vs arbitrary: p) auto
  then show ?thesis by (simp add: anchored_values_def)
qed

lemma token_inject_prefix: "prefix (token a) (token b) \<longleftrightarrow> prefix (a @ ''@@'') (b @ ''@@'')"
proof -
  have "prefix (map ch s) (map ch t) \<longleftrightarrow> prefix s t" for s t
  proof (induction s arbitrary: t)
    case (Cons c s)
    then show ?case by (cases t) auto
  qed simp
  from this[of "a @ ''@@''" "b @ ''@@''"] show ?thesis by (simp add: token_def u_def)
qed

lemma token_shaped: "placeholder_shaped (token a)"
  by (simp add: placeholder_shaped_def token_def u_def at_sign_def)

lemma replacements_prefix_free:
  "prefix_free (fst ` set (powershell_replacements content))"
  "prefix_free (fst ` set (posix_replacements content))"
  unfolding prefix_free_def powershell_replacements_def posix_replacements_def entry_name_placeholder_def
  by (simp_all add: token_inject_prefix)

lemma replacements_shaped:
  "\<forall>tok \<in> fst ` set (powershell_replacements content). placeholder_shaped tok"
  "\<forall>tok \<in> fst ` set (posix_replacements content). placeholder_shaped tok"
  by (simp_all add: powershell_replacements_def posix_replacements_def entry_name_placeholder_def token_shaped)

end
