(* ===== verification/Codec.thy ===== *)
theory Codec
  imports Py_Errors
begin

text \<open>
  The two encodings of the standard library the packer and its shim rest on: base64
  (\<open>base64.b64encode\<close> and the decoder \<open>binascii.a2b_base64\<close> in its strict and lenient modes) and
  strict UTF-8. Bytes are numbers below 256.
\<close>

section \<open>Base64\<close>

type_synonym bytes = "nat list"

definition is_bytes :: "bytes \<Rightarrow> bool" where
  "is_bytes bs \<longleftrightarrow> (\<forall>b \<in> set bs. b < 256)"

lemma is_bytes_simps [simp]:
  "is_bytes []"
  "is_bytes (b # bs) \<longleftrightarrow> b < 256 \<and> is_bytes bs"
  by (auto simp: is_bytes_def)

definition b64_char :: "nat \<Rightarrow> nat" where
  "b64_char n = (if n < 26 then 65 + n else if n < 52 then 71 + n else if n < 62 then n - 4
                 else if n = 62 then 43 else 47)"

definition b64_value :: "nat \<Rightarrow> nat option" where
  "b64_value c = (if 65 \<le> c \<and> c \<le> 90 then Some (c - 65)
                  else if 97 \<le> c \<and> c \<le> 122 then Some (c - 71)
                  else if 48 \<le> c \<and> c \<le> 57 then Some (c + 4)
                  else if c = 43 then Some 62 else if c = 47 then Some 63 else None)"

declare b64_char_def [py_text] b64_value_def [py_text]

lemma b64_value_char: "n < 64 \<Longrightarrow> b64_value (b64_char n) = Some n"
  by (auto simp: b64_value_def b64_char_def)

lemma b64_char_not_pad: "b64_char n \<noteq> equals_sign"
  by (auto simp: b64_char_def)

fun b64encode :: "bytes \<Rightarrow> pystr" where
  "b64encode [] = []"
| "b64encode [a] = [b64_char (a div 4), b64_char (a mod 4 * 16), equals_sign, equals_sign]"
| "b64encode [a, b] =
     [b64_char (a div 4), b64_char (a mod 4 * 16 + b div 16), b64_char (b mod 16 * 4), equals_sign]"
| "b64encode (a # b # c # bs) =
     [b64_char (a div 4), b64_char (a mod 4 * 16 + b div 16),
      b64_char (b mod 16 * 4 + c div 64), b64_char (c mod 64)] @ b64encode bs"

text \<open>
  \<open>binascii.a2b_base64\<close>: the position in the group of four, the bits left over and the run of
  padding; strict mode refuses what lenient mode skips.
\<close>

fun a2b_base64 :: "bool \<Rightarrow> bool \<Rightarrow> nat \<Rightarrow> nat \<Rightarrow> nat \<Rightarrow> pystr \<Rightarrow> bytes res" where
  "a2b_base64 strict padding quad left pads [] =
     (if quad \<noteq> 0 then raise_error ValueError ''Incorrect padding'' else Inr [])"
| "a2b_base64 strict padding quad left pads (c # cs) =
    (if c = equals_sign then
       if strict \<and> quad = 0 then raise_error ValueError ''Excess padding''
       else if 2 \<le> quad \<and> 4 \<le> quad + (pads + 1) then
         (if strict \<and> cs \<noteq> [] then raise_error ValueError ''Excess data after padding'' else Inr [])
       else a2b_base64 strict True quad left (if 2 \<le> quad then pads + 1 else pads) cs
     else case b64_value c of
       None \<Rightarrow> if strict then raise_error ValueError ''Only base64 data is allowed''
               else a2b_base64 strict padding quad left pads cs
     | Some v \<Rightarrow>
         if strict \<and> padding then raise_error ValueError ''Discontinuous padding''
         else if quad = 0 then a2b_base64 strict padding 1 v 0 cs
         else if quad = 1 then
           and_then (a2b_base64 strict padding 2 (v mod 16) 0 cs) (\<lambda>bs. Inr ((left * 4 + v div 16) # bs))
         else if quad = 2 then
           and_then (a2b_base64 strict padding 3 (v mod 4) 0 cs) (\<lambda>bs. Inr ((left * 16 + v div 4) # bs))
         else and_then (a2b_base64 strict padding 0 0 0 cs) (\<lambda>bs. Inr ((left * 64 + v) # bs)))"

definition b64decode :: "bool \<Rightarrow> pystr \<Rightarrow> bytes res" where
  "b64decode validate s = a2b_base64 validate False 0 0 0 s"

lemma a2b_value:
  "n < 64 \<Longrightarrow> a2b_base64 strict False quad left pads (b64_char n # cs) =
     (if quad = 0 then a2b_base64 strict False 1 n 0 cs
      else if quad = 1 then
        and_then (a2b_base64 strict False 2 (n mod 16) 0 cs) (\<lambda>bs. Inr ((left * 4 + n div 16) # bs))
      else if quad = 2 then
        and_then (a2b_base64 strict False 3 (n mod 4) 0 cs) (\<lambda>bs. Inr ((left * 16 + n div 4) # bs))
      else and_then (a2b_base64 strict False 0 0 0 cs) (\<lambda>bs. Inr ((left * 64 + n) # bs)))"
  by (simp add: b64_char_not_pad b64_value_char)

lemma b64_bits:
  fixes a b c :: nat
  assumes "a < 256" "b < 256" "c < 256"
  shows "a div 4 < 64" "a mod 4 * 16 < 64" "a mod 4 * 16 + b div 16 < 64" "b mod 16 * 4 < 64"
    "b mod 16 * 4 + c div 64 < 64" "c mod 64 < 64" "b div 16 < 16" "c div 64 < 4"
proof -
  have "a mod 4 < 4" "b mod 16 < 16" "c mod 64 < 64" by simp_all
  moreover have "a div 4 < 64" "b div 16 < 16" "c div 64 < 4"
    using assms by (simp_all add: less_mult_imp_div_less)
  ultimately show "a div 4 < 64" "a mod 4 * 16 < 64" "a mod 4 * 16 + b div 16 < 64"
    "b mod 16 * 4 < 64" "b mod 16 * 4 + c div 64 < 64" "c mod 64 < 64" "b div 16 < 16" "c div 64 < 4"
    by linarith+
qed

lemma b64decode_encode:
  "is_bytes bs \<Longrightarrow> b64decode validate (b64encode bs) = Inr bs"
  unfolding b64decode_def
proof (induction bs rule: b64encode.induct)
  case (2 a)
  then have "a < 256" by simp
  from b64_bits[OF this, of 0 0] show ?case
    by (simp only: b64encode.simps) (simp add: a2b_value del: a2b_base64.simps(2), simp)
next
  case (3 a b)
  then have "a < 256" "b < 256" by simp_all
  from b64_bits[OF this, of 0] show ?case
    by (simp only: b64encode.simps) (simp add: a2b_value del: a2b_base64.simps(2), simp)
next
  case (4 a b c bs)
  then have "a < 256" "b < 256" "c < 256" by simp_all
  from b64_bits[OF this] 4 show ?case by (simp add: a2b_value del: a2b_base64.simps(2))
qed simp

definition b64_text_char :: "nat \<Rightarrow> bool" where
  "b64_text_char c \<longleftrightarrow> is_digit c \<or> is_ascii_alpha c \<or> c = 43 \<or> c = 47 \<or> c = equals_sign"

lemma b64_char_text: "b64_text_char (b64_char n)"
  by (auto simp: b64_text_char_def b64_char_def is_digit_def is_ascii_alpha_def)

lemma b64encode_text: "\<forall>c \<in> set (b64encode bs). b64_text_char c"
  by (induction bs rule: b64encode.induct) (auto simp: b64_char_text, simp_all add: b64_text_char_def)

lemma b64_text_char_plain:
  "b64_text_char c \<Longrightarrow> \<not> py_isspace c \<and> c \<noteq> 124 \<and> c \<noteq> at_c" if "at_c \<in> {39, 64, 95}"
  using that by (auto simp: b64_text_char_def py_isspace_def is_digit_def is_ascii_alpha_def)

section \<open>UTF-8\<close>

definition is_scalar :: "nat \<Rightarrow> bool" where
  "is_scalar c \<longleftrightarrow> c < 55296 \<or> (57343 < c \<and> c < 1114112)"

definition utf8_char :: "nat \<Rightarrow> bytes" where
  "utf8_char c =
    (if c < 128 then [c]
     else if c < 2048 then [192 + c div 64, 128 + c mod 64]
     else if c < 65536 then [224 + c div 4096, 128 + c div 64 mod 64, 128 + c mod 64]
     else [240 + c div 262144, 128 + c div 4096 mod 64, 128 + c div 64 mod 64, 128 + c mod 64])"

text \<open>\<open>str.encode('utf-8')\<close>: a lone surrogate is refused.\<close>

definition utf8_encode :: "pystr \<Rightarrow> bytes option" where
  "utf8_encode s = (if \<forall>c \<in> set s. is_scalar c then Some (concat (map utf8_char s)) else None)"

definition continuation :: "nat \<Rightarrow> bool" where
  "continuation b \<longleftrightarrow> 128 \<le> b \<and> b < 192"

text \<open>\<open>bytes.decode('utf-8')\<close>: the shortest form only, no surrogate, at most U+10FFFF.\<close>

fun utf8_decode :: "bytes \<Rightarrow> pystr option" where
  "utf8_decode [] = Some []"
| "utf8_decode (a # bs) =
    (if a < 128 then map_option (Cons a) (utf8_decode bs)
     else if 194 \<le> a \<and> a < 224 then
       (case bs of
          b # r \<Rightarrow> if continuation b
                   then map_option (Cons ((a - 192) * 64 + (b - 128))) (utf8_decode r) else None
        | _ \<Rightarrow> None)
     else if 224 \<le> a \<and> a < 240 then
       (case bs of
          b # c # r \<Rightarrow>
            (let v = (a - 224) * 4096 + (b - 128) * 64 + (c - 128) in
             if continuation b \<and> continuation c \<and> 2048 \<le> v \<and> is_scalar v
             then map_option (Cons v) (utf8_decode r) else None)
        | _ \<Rightarrow> None)
     else if 240 \<le> a \<and> a < 245 then
       (case bs of
          b # c # d # r \<Rightarrow>
            (let v = (a - 240) * 262144 + (b - 128) * 4096 + (c - 128) * 64 + (d - 128) in
             if continuation b \<and> continuation c \<and> continuation d \<and> 65536 \<le> v \<and> v < 1114112
             then map_option (Cons v) (utf8_decode r) else None)
        | _ \<Rightarrow> None)
     else None)"

lemma radix64:
  fixes c :: nat
  shows "c div 4096 * 4096 + c div 64 mod 64 * 64 + c mod 64 = c"
    "c div 262144 * 262144 + c div 4096 mod 64 * 4096 + c div 64 mod 64 * 64 + c mod 64 = c"
proof -
  have c: "c = c div 64 * 64 + c mod 64" by simp
  have d: "c div 64 = c div 4096 * 64 + c div 64 mod 64"
    using div_mult_mod_eq[of "c div 64" 64] by (simp add: div_mult2_eq[symmetric])
  have e: "c div 4096 = c div 262144 * 64 + c div 4096 mod 64"
    using div_mult_mod_eq[of "c div 4096" 64] by (simp add: div_mult2_eq[symmetric])
  show 1: "c div 4096 * 4096 + c div 64 mod 64 * 64 + c mod 64 = c" using c d by linarith
  show "c div 262144 * 262144 + c div 4096 mod 64 * 4096 + c div 64 mod 64 * 64 + c mod 64 = c"
    using 1 e by linarith
qed

lemma utf8_decode_char:
  assumes "is_scalar c"
  shows "utf8_decode (utf8_char c @ bs) = map_option (Cons c) (utf8_decode bs)"
proof -
  consider "c < 128" | (two) "128 \<le> c" "c < 2048" | (three) "2048 \<le> c" "c < 65536"
    | (four) "65536 \<le> c" "c < 1114112"
    using assms by (fastforce simp: is_scalar_def)
  then show ?thesis
  proof cases
    case two
    then have "2 \<le> c div 64" "c div 64 < 32"
      by (simp_all add: less_mult_imp_div_less less_eq_div_iff_mult_less_eq)
    then show ?thesis
      using two by (simp add: utf8_char_def continuation_def)
  next
    case three
    then have "c div 4096 < 16" by (simp add: less_mult_imp_div_less)
    with three assms radix64[of c] show ?thesis
      by (simp add: utf8_char_def continuation_def Let_def)
  next
    case four
    then have "c div 262144 < 5" by (simp add: less_mult_imp_div_less)
    with four radix64[of c] show ?thesis
      by (simp add: utf8_char_def continuation_def Let_def)
  qed (simp add: utf8_char_def)
qed

lemma utf8_decode_encode: "utf8_encode s = Some bs \<Longrightarrow> utf8_decode bs = Some s"
proof -
  have "\<forall>c \<in> set s. is_scalar c \<Longrightarrow> utf8_decode (concat (map utf8_char s)) = Some s" for s
    by (induction s) (auto simp: utf8_decode_char)
  then show "utf8_encode s = Some bs \<Longrightarrow> utf8_decode bs = Some s"
    by (auto simp: utf8_encode_def split: if_splits)
qed

lemma utf8_char_bytes: "is_scalar c \<Longrightarrow> is_bytes (utf8_char c)"
  by (auto simp: utf8_char_def is_scalar_def)

lemma is_bytes_append [simp]: "is_bytes (xs @ ys) \<longleftrightarrow> is_bytes xs \<and> is_bytes ys"
  by (auto simp: is_bytes_def)

lemma utf8_encode_bytes: "utf8_encode s = Some bs \<Longrightarrow> is_bytes bs"
proof -
  have "\<forall>c \<in> set s. is_scalar c \<Longrightarrow> is_bytes (concat (map utf8_char s))" for s
    by (induction s) (auto simp: utf8_char_bytes)
  then show "utf8_encode s = Some bs \<Longrightarrow> is_bytes bs"
    by (auto simp: utf8_encode_def split: if_splits)
qed

end
