(* ===== verification/Shim.thy ===== *)
theory Shim
  imports Runner_Text Codec
begin

text \<open>
  What the generated \<open>__main__\<close> shim does when it runs (\<open>SHIM_SOURCE\<close> of \<open>domain/packing.py\<close>): it
  returns to the caller's directory, gives the caller's PATH and home variables back, and rebuilds
  the argument vector. The process environment is a map; \<open>chdir\<close> says whether the account can enter
  a directory, \<open>pathsep\<close> is \<open>os.pathsep\<close>. The shim ends the run with \<open>SystemExit\<close>.
\<close>

type_synonym environ = "pystr \<rightharpoonup> pystr"

datatype shim_exit = ExitCwd nat | ExitEncoding pystr | ExitDecode

definition path_name :: pystr where "path_name = u ''PATH''"

definition shim_cwd_exit :: nat where "shim_cwd_exit = 70"

definition argv_encoding_tag :: pystr where "argv_encoding_tag = u ''v1''"

definition caller_env_names :: "pystr list" where
  "caller_env_names = map u
     [''HOME'', ''XDG_CONFIG_HOME'', ''XDG_CACHE_HOME'', ''XDG_DATA_HOME'', ''XDG_STATE_HOME'',
      ''NETRC'', ''UV_CREDENTIALS_DIR'', ''TMPDIR'', ''TMP'', ''TEMP'']"

section \<open>The caller's directory\<close>

text \<open>The working directory to run in: \<open>None\<close> leaves it as it is.\<close>

definition return_to_the_callers_directory ::
    "(pystr \<Rightarrow> bool) \<Rightarrow> environ \<Rightarrow> shim_exit + (environ \<times> pystr option)" where
  "return_to_the_callers_directory chdir env = (case env cwd_env_var of
      None \<Rightarrow> Inr (env(cwd_env_var := None), None)
    | Some directory \<Rightarrow>
        if chdir directory then Inr (env(cwd_env_var := None), Some directory)
        else Inl (ExitCwd shim_cwd_exit))"

section \<open>PATH\<close>

definition entries_uv_added :: "nat \<Rightarrow> pystr \<Rightarrow> pystr option \<Rightarrow> pystr" where
  "entries_uv_added pathsep current given = (case given of
      None \<Rightarrow> []
    | Some g \<Rightarrow>
        if \<not> endswith current g then []
        else let added = take (length current - length g) current
             in if endswith added [pathsep] then added else [])"

definition restore_the_callers_path :: "nat \<Rightarrow> environ \<Rightarrow> environ" where
  "restore_the_callers_path pathsep env =
     (let path = env path_env_var; given = env uv_path_env_var;
          env' = env(path_env_var := None, uv_path_env_var := None)
      in case path of
           None \<Rightarrow> env'
         | Some p \<Rightarrow> env'(path_name \<mapsto>
             entries_uv_added pathsep (case env' path_name of Some c \<Rightarrow> c | None \<Rightarrow> []) given @ p))"

section \<open>Home variables\<close>

definition hand_over_prefix :: pystr where
  "hand_over_prefix = caller_env_var @ u ''_''"

fun restore_names :: "environ \<Rightarrow> pystr list \<Rightarrow> environ \<Rightarrow> environ" where
  "restore_names given [] env = env"
| "restore_names given (name # names) env = restore_names given names (env(name := given name))"

definition restore_the_callers_home :: "environ \<Rightarrow> environ" where
  "restore_the_callers_home env =
     (let handed_over = env caller_env_var \<noteq> None;
          env1 = env(caller_env_var := None);
          given = (\<lambda>name. env1 (hand_over_prefix @ name));
          env2 = (\<lambda>variable. if startswith variable hand_over_prefix then None else env1 variable)
      in if \<not> handed_over then env2 else restore_names given caller_env_names env2)"

section \<open>The argument vector\<close>

fun decode_pieces :: "pystr list \<Rightarrow> (shim_exit + pystr list)" where
  "decode_pieces [] = Inr []"
| "decode_pieces (p # ps) = (case b64decode False p of
      Inl _ \<Rightarrow> Inl ExitDecode
    | Inr bs \<Rightarrow> (case utf8_decode bs of
         None \<Rightarrow> Inl ExitDecode
       | Some arg \<Rightarrow> (case decode_pieces ps of Inl e \<Rightarrow> Inl e | Inr args \<Rightarrow> Inr (arg # args))))"

definition pipe_char :: nat where "pipe_char = 124"

definition argv_from_environment ::
    "environ \<Rightarrow> pystr list \<Rightarrow> shim_exit + (environ \<times> pystr list)" where
  "argv_from_environment env own = (case env argv_env_var of
      None \<Rightarrow> Inr (env, own)
    | Some blob \<Rightarrow>
        let env' = env(argv_env_var := None) in
        if blob = [] then Inr (env', [])
        else let (tag, separator, rest) = partition_at pipe_char blob in
          if tag \<noteq> argv_encoding_tag then Inl (ExitEncoding tag)
          else if \<not> separator then Inr (env', [])
          else (case decode_pieces (split_on pipe_char rest) of
                  Inl e \<Rightarrow> Inl e | Inr args \<Rightarrow> Inr (env', args)))"

text \<open>The shim's body up to \<open>runpy.run_path\<close>: what the entry sees.\<close>

record shim_result =
  sr_env :: environ
  sr_cwd :: "pystr option"
  sr_argv :: "pystr list"

definition shim_main ::
    "(pystr \<Rightarrow> bool) \<Rightarrow> nat \<Rightarrow> pystr \<Rightarrow> environ \<Rightarrow> pystr list \<Rightarrow> shim_exit + shim_result" where
  "shim_main chdir pathsep entry env own =
     (case return_to_the_callers_directory chdir env of
        Inl e \<Rightarrow> Inl e
      | Inr (env1, cwd) \<Rightarrow>
          let env2 = restore_the_callers_path pathsep env1;
              env3 = restore_the_callers_home env2
          in case argv_from_environment env3 own of
               Inl e \<Rightarrow> Inl e
             | Inr (env4, args) \<Rightarrow> Inr \<lparr>sr_env = env4, sr_cwd = cwd, sr_argv = entry # args\<rparr>)"

section \<open>Facts\<close>

text \<open>The runner's side of the argument vector, as the shim's comment documents it.\<close>

definition encode_argument :: "pystr \<Rightarrow> pystr option" where
  "encode_argument arg = map_option b64encode (utf8_encode arg)"

definition encode_argv :: "pystr list \<Rightarrow> pystr option" where
  "encode_argv args =
     (if args = [] then Some argv_encoding_tag
      else if \<forall>arg \<in> set args. encode_argument arg \<noteq> None
        then Some (argv_encoding_tag @ pipe_char # join [pipe_char] (map (the \<circ> encode_argument) args))
        else None)"

lemma decode_pieces_encoded:
  "\<forall>arg \<in> set args. encode_argument arg \<noteq> None \<Longrightarrow>
   decode_pieces (map (the \<circ> encode_argument) args) = Inr args"
  by (induction args)
    (auto simp: encode_argument_def b64decode_encode utf8_encode_bytes utf8_decode_encode)

lemma encoded_no_pipe: "encode_argument arg = Some e \<Longrightarrow> pipe_char \<notin> set e"
  using b64encode_text by (fastforce simp: encode_argument_def b64_text_char_def pipe_char_def
      is_digit_def is_ascii_alpha_def)

lemma tag_no_pipe: "pipe_char \<notin> set argv_encoding_tag"
  by (simp add: argv_encoding_tag_def u_def pipe_char_def)

lemma argv_roundtrip:
  assumes "encode_argv args = Some blob" "env argv_env_var = Some blob"
  shows "argv_from_environment env own = Inr (env(argv_env_var := None), args)"
proof (cases "args = []")
  case True
  with assms(1) have "argv_encoding_tag = blob" by (simp add: encode_argv_def)
  moreover have "argv_encoding_tag \<noteq> []" by (simp add: argv_encoding_tag_def u_def)
  ultimately show ?thesis
    using True assms(2) partition_at_absent[OF tag_no_pipe] by (auto simp: argv_from_environment_def)
next
  case False
  with assms have ok: "\<forall>arg \<in> set args. encode_argument arg \<noteq> None"
    and blob: "blob = argv_encoding_tag @ pipe_char # join [pipe_char] (map (the \<circ> encode_argument) args)"
    by (auto simp: encode_argv_def split: if_splits)
  have "split_on pipe_char (join [pipe_char] (map (the \<circ> encode_argument) args)) =
        map (the \<circ> encode_argument) args"
    using False ok encoded_no_pipe by (intro split_on_join) fastforce+
  with assms(2) ok show ?thesis
    by (simp add: argv_from_environment_def blob partition_at_found[OF tag_no_pipe]
        decode_pieces_encoded)
qed

lemma restore_names_lookup:
  "restore_names given names env v = (if v \<in> set names then given v else env v)"
  by (induction names arbitrary: env) auto

lemma caller_names_plain:
  "name \<in> set caller_env_names \<Longrightarrow> \<not> prefix hand_over_prefix name"
  "name \<in> set caller_env_names \<Longrightarrow> name \<noteq> caller_env_var"
  by (auto simp: caller_env_names_def hand_over_prefix_def caller_env_var_def u_def)

lemma restore_home_lookup:
  assumes "env caller_env_var \<noteq> None"
  shows "restore_the_callers_home env v =
    (if v \<in> set caller_env_names then env (hand_over_prefix @ v)
     else if v = caller_env_var \<or> prefix hand_over_prefix v then None else env v)"
proof -
  have "hand_over_prefix @ w \<noteq> caller_env_var" for w
    by (auto simp: hand_over_prefix_def)
  with assms show ?thesis
    by (auto simp: restore_the_callers_home_def Let_def restore_names_lookup)
qed

lemma restore_home_not_handed_over:
  "env caller_env_var = None \<Longrightarrow>
   restore_the_callers_home env v = (if prefix hand_over_prefix v then None else env v)"
  by (auto simp: restore_the_callers_home_def)

text \<open>What uv put in front stays in front, cut at an entry boundary.\<close>

lemma entries_uv_added_front:
  assumes "added \<noteq> []" "last added = pathsep"
  shows "entries_uv_added pathsep (added @ given) (Some given) = added"
  using assms by (auto simp: entries_uv_added_def suffix_def intro: append_butlast_last_id[symmetric])

lemma entries_uv_added_boundary:
  "entries_uv_added pathsep current given = [] \<or>
   (\<exists>g. given = Some g \<and> current = entries_uv_added pathsep current given @ g \<and>
        last (entries_uv_added pathsep current given) = pathsep)"
  by (auto simp: entries_uv_added_def Let_def suffix_def split: option.splits)

end
