(* ===== verification/Packing_Properties.thy ===== *)
theory Packing_Properties
  imports Import_Analysis Runner_Render Shim
begin

text \<open>
  The properties of the packing domain (\<open>domain/packing.py\<close>): what a packed runner carries is read
  back unchanged, what is refused, and what the shim gives the entry. Each property is followed by the
  witness that applies it at a concrete input.
\<close>

section \<open>Literals in the runner\<close>

text \<open>C33: A PowerShell string array written into a runner determines its values (no value can spell
  a separator, a second value or the end of its literal, whatever quote characters it holds), and
  scanning it yields its first value and exactly the array of the others.\<close>

theorem powershell_array_reads_back:
  "(powershell_string_array vs = powershell_string_array ws \<longleftrightarrow> vs = ws) \<and>
   scan_powershell_literal (powershell_string_array (v # vs)) =
     Some (v, if vs = [] then [] else ch CHR '','' # powershell_string_array vs) \<and>
   unquote_powershell_literal (powershell_body v) = v"
  using powershell_string_array_inject ps.scan_rendered[of v vs] unquote_powershell_body[of v]
  by (auto simp: powershell_string_array_def u_def)

text \<open>The POSIX argument list of a runner, split by the shell's word rules, is the list of
  arguments that was rendered - quotes, blanks, newlines and empty arguments included.\<close>

theorem posix_args_read_back: "shlex_split (posix_shell_args vs) = Inr vs"
  by (rule shlex_split_args)

text \<open>The re-anchored argument list of a POSIX runner is read by the shell as one word per
  argument, in order: an argument that names no relative path is itself, a relative \<open>--with\<close> value is
  its head, the prefix variable and its location, and head and location are the value.\<close>

theorem anchored_args_read_back:
  "shlex_split (posix_anchored_args values) = Inr (map anchored_reading (anchored_values values)) \<and>
   map fst (anchored_values values) = values \<and>
   (\<forall>(value, split) \<in> set (anchored_values values).
      (\<forall>head location. split = Some (head, location) \<longrightarrow> head @ location = value))"
proof -
  have "head @ location = v"
    if "(v, Some (head, location)) \<in> set (anchored_from p vs)" for p vs v head location
    using that by (induction vs arbitrary: p) (auto split: if_splits dest: split_relative_parts[OF sym])
  then show ?thesis
    using shlex_split_anchored anchored_values_fst by (auto simp: anchored_values_def)
qed

text \<open>The argument list of the witness: a relative wheel behind \<open>--with\<close>.\<close>

theorem anchored_args_read_back_witness:
  "map fst (anchored_values [u ''--with'', u ''./a.whl'']) = [u ''--with'', u ''./a.whl'']"
  using anchored_args_read_back[of "[u ''--with'', u ''./a.whl'']"] by blast

section \<open>Rendering\<close>

lemma placeholder_keys:
  "fst ` set (powershell_replacements content) = insert entry_name_placeholder (set placeholders)"
  "fst ` set (posix_replacements content) \<supseteq> set sh_placeholders"
  by (auto simp: powershell_replacements_def posix_replacements_def placeholders_def sh_placeholders_def)

lemma hole_contained: "Hole tok \<in> set segs \<Longrightarrow> contains (concat (map segment_text segs)) tok"
  by (induction segs) (auto intro: sublist_order.order_trans sublist_appendI)

lemma refuse_nothing:
  assumes "\<forall>name \<in> set (rc_entry content # map fd_path (rc_file_hashes content)).
    newline \<notin> set name \<and> 13 \<notin> set name"
  shows "refuse_unrepresentable_names content = Inr ()"
proof -
  have "first_unrepresentable (rc_entry content # map fd_path (rc_file_hashes content)) = None"
    using assms by (simp only: first_unrepresentable_None)
  then show ?thesis by (simp only: refuse_unrepresentable_names_def option.case)
qed

text \<open>For a template that is literal text around all placeholders (with no two at signs in a row), and names that can be
  written, the PowerShell runner is the template with every hole replaced by its own value: one pass,
  so a value that spells a placeholder is never expanded again.\<close>

theorem render_runner_fills_holes:
  assumes "\<forall>seg \<in> set segs. case seg of Literal s \<Rightarrow> plain_literal s
      | Hole tok \<Rightarrow> tok \<in> insert entry_name_placeholder (set placeholders)"
    and "\<forall>tok \<in> set placeholders. Hole tok \<in> set segs"
    and "\<forall>name \<in> set (rc_entry content # map fd_path (rc_file_hashes content)).
           newline \<notin> set name \<and> 13 \<notin> set name"
    and "\<not> contains (rc_entry content) powershell_comment_end"
  shows "render_runner (concat (map segment_text segs)) content =
           Inr (concat (map (segment_value (powershell_replacements content)) segs))"
proof -
  have "refuse_unrepresentable_names content = Inr ()" by (rule refuse_nothing[OF assms(3)])
  moreover have "\<forall>tok \<in> set placeholders. contains (concat (map segment_text segs)) tok"
    using assms(2) hole_contained by blast
  moreover have "substitute (powershell_replacements content) (concat (map segment_text segs)) =
      concat (map (segment_value (powershell_replacements content)) segs)"
    using assms(1)
    by (intro substitute_segments replacements_prefix_free replacements_shaped)
      (auto simp: placeholder_keys split: segment.splits)
  ultimately show ?thesis
    using assms(4) by (auto simp: render_runner_def)
qed

definition sample_content :: runner_content where
  "sample_content = \<lparr>rc_payload_b64 = u ''UEs='', rc_payload_sha256 = u ''00'', rc_entry = u ''a.py'',
     rc_uv_args = [], rc_file_hashes = [\<lparr>fd_digest = u ''11'', fd_path = u ''a.py''\<rparr>],
     rc_python_request = [], rc_has_git_source = False\<rparr>"

lemma sample_content_ok:
  "\<forall>name \<in> set (rc_entry sample_content # map fd_path (rc_file_hashes sample_content)).
     newline \<notin> set name \<and> 13 \<notin> set name"
  by (simp add: sample_content_def u_def)

theorem render_runner_fills_holes_witness:
  "render_runner (concat (map segment_text (map Hole placeholders))) sample_content =
     Inr (concat (map (segment_value (powershell_replacements sample_content)) (map Hole placeholders)))"
proof (rule render_runner_fills_holes[OF _ _ sample_content_ok])
  have "hd powershell_comment_end \<notin> set (rc_entry sample_content)" "powershell_comment_end \<noteq> []"
    by (simp_all add: sample_content_def u_def powershell_comment_end_def)
  then show "\<not> contains (rc_entry sample_content) powershell_comment_end"
    by (meson hd_in_set set_mono_sublist subsetD)
qed auto

text \<open>The same for the POSIX runner, whose help text takes the entry name as it is.\<close>

theorem render_posix_runner_fills_holes:
  assumes "\<forall>seg \<in> set segs. case seg of Literal s \<Rightarrow> plain_literal s | Hole tok \<Rightarrow> tok \<in> set sh_placeholders"
    and "\<forall>tok \<in> set sh_placeholders. Hole tok \<in> set segs"
    and "\<forall>name \<in> set (rc_entry content # map fd_path (rc_file_hashes content)).
           newline \<notin> set name \<and> 13 \<notin> set name"
  shows "render_posix_runner (concat (map segment_text segs)) content =
           Inr (concat (map (segment_value (posix_replacements content)) segs))"
proof -
  have "refuse_unrepresentable_names content = Inr ()" by (rule refuse_nothing[OF assms(3)])
  moreover have "\<forall>tok \<in> set sh_placeholders. contains (concat (map segment_text segs)) tok"
    using assms(2) hole_contained by blast
  moreover have "substitute (posix_replacements content) (concat (map segment_text segs)) =
      concat (map (segment_value (posix_replacements content)) segs)"
    using assms(1) placeholder_keys(2)[of content]
    by (intro substitute_segments replacements_prefix_free replacements_shaped)
      (auto split: segment.splits)
  ultimately show ?thesis by (auto simp: render_posix_runner_def)
qed

theorem render_posix_runner_fills_holes_witness:
  "render_posix_runner (concat (map segment_text (map Hole sh_placeholders))) sample_content =
     Inr (concat (map (segment_value (posix_replacements sample_content)) (map Hole sh_placeholders)))"
  by (rule render_posix_runner_fills_holes[OF _ _ sample_content_ok]) auto

text \<open>Wrapping the payload loses nothing and keeps the width: the lines joined without their
  breaks are the base64 text, every line but the last is exactly \<open>width\<close> long, none is empty or longer.
  A width below one is refused.\<close>

theorem chunk_base64_lines:
  "if width < 1 then chunk_base64 blob width = raise_error PackError ''line width must be positive''
   else \<exists>ls. chunk_base64 blob width = Inr (join [newline] ls) \<and> concat ls = blob \<and>
     (\<forall>l \<in> set (butlast ls). int (length l) = width) \<and> (\<forall>l \<in> set ls. l \<noteq> [] \<and> int (length l) \<le> width)"
proof (cases "width < 1")
  case False
  then have w: "0 < nat width" by simp
  have "\<forall>l \<in> set (butlast (chunks (nat width) blob)). int (length l) = width"
    using chunks_full[OF w, of _ blob] False by auto
  moreover have "\<forall>l \<in> set (chunks (nat width) blob). l \<noteq> [] \<and> int (length l) \<le> width"
    using chunks_widths[OF w, of _ blob] False by fastforce
  ultimately show ?thesis
    using False chunks_concat[OF w, of blob]
    by (auto simp: chunk_base64_def intro!: exI[of _ "chunks (nat width) blob"])
qed (simp add: chunk_base64_def)

theorem chunk_base64_lines_witness:
  "\<exists>ls. chunk_base64 (u ''QUJDRA=='') 3 = Inr (join [newline] ls) \<and> concat ls = u ''QUJDRA==''"
  using chunk_base64_lines[of 3 "u ''QUJDRA==''"] by auto

section \<open>Script metadata\<close>

text \<open>The metadata block lifted off the entry travels unchanged: put in front of any text (the
  shim is the block followed by the shim source), a second extraction lifts the same block.\<close>

theorem script_metadata_travels:
  assumes "extract_script_metadata source = Inr m" "m \<noteq> []"
  shows "extract_script_metadata (m @ rest) = Inr m"
  by (rule extract_metadata_stable[OF assms])

definition sample_script :: pystr where
  "sample_script = u ''x'' @ [newline] @ pep723_open @ [newline] @ pep723_close @ [newline]"

lemma sample_script_lines: "splitlines sample_script = [u ''x'', pep723_open, pep723_close]"
  by (simp add: sample_script_def u_def pep723_open_def pep723_close_def is_line_break_def)

lemma sample_script_block: "extract_script_metadata sample_script = Inr (unlines [pep723_open, pep723_close])"
  by (simp add: extract_script_metadata_def sample_script_lines)
    (simp add: u_def pep723_open_def pep723_close_def rstrip_def py_isspace_def)

theorem script_metadata_travels_witness:
  "extract_script_metadata (unlines [pep723_open, pep723_close] @ u ''import os'') =
     Inr (unlines [pep723_open, pep723_close])"
  by (rule script_metadata_travels[OF sample_script_block]) simp

definition requires_python_block :: "pystr \<Rightarrow> pystr" where
  "requires_python_block v =
     unlines [pep723_open, u ''# requires-python = '' @ [dquote] @ v @ [dquote], pep723_close]"

lemma specifier_char_plain:
  "specifier_char c \<Longrightarrow> \<not> is_line_break c \<and> c \<noteq> dquote \<and> c \<noteq> squote \<and> c \<noteq> backslash \<and> c \<noteq> 36 \<and> c \<noteq> 96"
  by (auto simp: specifier_char_def is_line_break_def is_digit_def is_ascii_alpha_def u_def)

lemma takeWhile_until: "\<forall>c \<in> set v. P c \<Longrightarrow> \<not> P q \<Longrightarrow> takeWhile P (v @ q # r) = v"
  by (induction v) auto

lemma requires_python_line:
  assumes "\<forall>c \<in> set v. specifier_char c"
  shows "requires_python_key (u ''requires-python = '' @ [dquote] @ v @ [dquote]) =
           Some (32 # [dquote] @ v @ [dquote])"
    "quoted_value (32 # [dquote] @ v @ [dquote]) = Some v"
proof -
  show "requires_python_key (u ''requires-python = '' @ [dquote] @ v @ [dquote]) =
      Some (32 # [dquote] @ v @ [dquote])"
    by (simp add: requires_python_key_def requires_python_spellings_def after_equals_def u_def
        lstrip_def py_isspace_def)
  have "takeWhile (\<lambda>c. c \<noteq> dquote \<and> \<not> (dquote = dquote \<and> c = backslash)) (v @ [dquote]) = v"
    using assms by (intro takeWhile_until) (auto dest: specifier_char_plain)
  then show "quoted_value (32 # [dquote] @ v @ [dquote]) = Some v"
    by (simp add: quoted_value_def lstrip_def py_isspace_def)
qed

text \<open>A \<open>requires-python\<close> request that is handed to the runner holds only version-specifier
  characters - no quote, dollar, backtick, backslash or line break - and the request of a plain block
  is exactly the value written there.\<close>

theorem requires_python_is_a_specifier:
  "(extract_requires_python metadata = Inr v \<longrightarrow> (\<forall>c \<in> set v. specifier_char c)) \<and>
   ((\<forall>c \<in> set w. specifier_char c) \<longrightarrow> extract_requires_python (requires_python_block w) = Inr (strip w)) \<and>
   (specifier_char c \<longrightarrow> \<not> is_line_break c \<and> c \<noteq> dquote \<and> c \<noteq> squote \<and> c \<noteq> backslash \<and> c \<noteq> 36 \<and> c \<noteq> 96)"
proof (intro conjI impI)
  assume w: "\<forall>c \<in> set w. specifier_char c"
  let ?line = "u ''# requires-python = '' @ [dquote] @ w @ [dquote]"
  let ?toml = "u ''requires-python = '' @ [dquote] @ w @ [dquote]"
  have nb: "\<forall>x \<in> set [pep723_open, ?line, pep723_close]. no_breaks x"
    using w specifier_char_plain
    by (auto simp: no_breaks_def pep723_open_def pep723_close_def u_def is_line_break_def)
  have "block_body (requires_python_block w) = [?line]"
    using splitlines_unlines[OF nb] by (simp add: block_body_def requires_python_block_def del: unlines.simps)
  moreover have "toml_of_raw ?line = ?toml" by (simp add: toml_of_raw_def u_def)
  moreover have "strip ?toml = ?toml" 
    by (simp add: strip_def lstrip_def rstrip_def u_def py_isspace_def)
  moreover have "\<not> startswith ?toml (u ''['')" by (simp add: u_def)
  ultimately show "extract_requires_python (requires_python_block w) = Inr (strip w)"
    using requires_python_line[OF w] w
    by (simp add: extract_requires_python_def requires_python_value_def del: append.simps)
qed (use requires_python_loop_chars specifier_char_plain in
      \<open>auto simp: extract_requires_python_def\<close>)

theorem requires_python_is_a_specifier_witness:
  "extract_requires_python (requires_python_block (u ''>=3.11'')) = Inr (strip (u ''>=3.11''))"
proof -
  have "\<forall>c \<in> set (u ''>=3.11''). specifier_char c"
    by (simp add: u_def specifier_char_def is_digit_def)
  then show ?thesis using requires_python_is_a_specifier[of _ _ "u ''>=3.11''"] by blast
qed

text \<open>A git source is never missed on a line without a comment: when such a line of the block's
  body may name one, or a \<open>--with\<close> package does, the runner is told so.\<close>

theorem git_source_not_missed:
  assumes "(raw \<in> set (block_body metadata) \<and> hash_mark \<notin> set (toml_of_raw raw) \<and>
      may_name_a_git_source (toml_of_raw raw)) \<or>
    (\<exists>package \<in> set with_packages. contains (lower package) git_requirement)"
  shows "has_git_source metadata with_packages"
  using assms has_git_source_line by (auto simp: has_git_source_def)

theorem git_source_not_missed_witness: "has_git_source [] [git_requirement]"
proof (rule git_source_not_missed)
  have "contains (lower git_requirement) git_requirement"
    by (simp add: git_requirement_def lower_def lower_char_def u_def)
  then show "([] \<in> set (block_body []) \<and> hash_mark \<notin> set (toml_of_raw []) \<and>
      may_name_a_git_source (toml_of_raw [])) \<or>
    (\<exists>package \<in> set [git_requirement]. contains (lower package) git_requirement)" by simp
qed

section \<open>Imports\<close>

text \<open>The import candidates of a module are non-empty names without repetition, and with every
  name its parent packages are candidates too, so no \<open>__init__.py\<close> on the way is left out.\<close>

theorem import_candidates_closed:
  assumes "parse source = Some nodes" "\<forall>node \<in> set nodes. plain_names node"
  shows "\<exists>ds. iter_import_candidates parse source package = Inr ds \<and> distinct ds \<and> [] \<notin> set ds \<and>
    (\<forall>d \<in> set ds. \<forall>q \<in> set (with_parents d). q \<noteq> [] \<longrightarrow> q \<in> set ds)"
proof -
  let ?all = "concat (map (\<lambda>node. node_candidates node package) nodes)"
  have "iter_import_candidates parse source package = Inr (yield_new {} ?all)"
    by (simp add: iter_import_candidates_def assms(1))
  moreover have "q \<in> set ?all" if "d \<in> set ?all" "q \<in> set (with_parents d)" for d q
    using that assms(2) node_candidates_closed by fastforce
  ultimately show ?thesis by (auto simp: yield_new_set yield_new_distinct)
qed

theorem import_candidates_closed_witness:
  "\<exists>ds. iter_import_candidates (\<lambda>_. Some [Import [u ''a.b'']]) [] [] = Inr ds \<and> distinct ds \<and> [] \<notin> set ds \<and>
    (\<forall>d \<in> set ds. \<forall>q \<in> set (with_parents d). q \<noteq> [] \<longrightarrow> q \<in> set ds)"
  by (rule import_candidates_closed[of _ _ "[Import [u ''a.b'']]"]) (simp_all add: plain_names_def)

section \<open>The shim\<close>

lemma restore_home_argv: "restore_the_callers_home env argv_env_var = env argv_env_var"
proof -
  have "argv_env_var \<notin> set caller_env_names" "\<not> prefix hand_over_prefix argv_env_var"
    "argv_env_var \<noteq> caller_env_var"
    by (auto simp: argv_env_var_def caller_env_names_def hand_over_prefix_def caller_env_var_def u_def)
  then show ?thesis
    by (cases "env caller_env_var") (simp_all add: restore_home_lookup restore_home_not_handed_over)
qed

lemma restore_path_argv: "restore_the_callers_path pathsep env argv_env_var = env argv_env_var"
proof -
  have "argv_env_var \<noteq> path_env_var" "argv_env_var \<noteq> uv_path_env_var" "argv_env_var \<noteq> path_name"
    by (auto simp: argv_env_var_def path_env_var_def uv_path_env_var_def path_name_def u_def)
  then show ?thesis by (simp add: restore_the_callers_path_def Let_def split: option.splits)
qed

text \<open>C34: The arguments given to the runner reach the entry unchanged: when the environment carries
  them in the tagged base64 form and the caller's directory can be entered, the shim runs the entry
  with exactly these arguments behind its own path, in the caller's directory, and the variable that
  carried them is gone.\<close>

theorem shim_hands_arguments_over:
  assumes "encode_argv args = Some blob" "env argv_env_var = Some blob"
    and "\<forall>directory. env cwd_env_var = Some directory \<longrightarrow> chdir directory"
  shows "\<exists>r. shim_main chdir pathsep entry env own = Inr r \<and> sr_argv r = entry # args \<and>
    sr_cwd r = env cwd_env_var \<and> sr_env r argv_env_var = None"
proof -
  have "argv_env_var \<noteq> cwd_env_var" by (simp add: argv_env_var_def cwd_env_var_def u_def)
  then have "restore_the_callers_home (restore_the_callers_path pathsep (env(cwd_env_var := None)))
      argv_env_var = Some blob"
    by (simp add: restore_home_argv restore_path_argv assms(2))
  note argv = argv_roundtrip[where env = "restore_the_callers_home
      (restore_the_callers_path pathsep (env(cwd_env_var := None)))", OF assms(1) this]
  show ?thesis
    using assms(3)
    by (cases "env cwd_env_var") (simp_all add: shim_main_def return_to_the_callers_directory_def argv)
qed

theorem shim_hands_arguments_over_witness:
  "\<exists>blob r. encode_argv [u ''-v'', [], [228, 32, 98]] = Some blob \<and>
     shim_main (\<lambda>directory. directory = u ''/w'') 58 (u ''a.py'') [argv_env_var \<mapsto> blob, cwd_env_var \<mapsto> u ''/w''] [] = Inr r \<and>
     sr_argv r = [u ''a.py'', u ''-v'', [], [228, 32, 98]] \<and> sr_cwd r = Some (u ''/w'')"
proof -
  have "\<forall>arg \<in> set [u ''-v'', [], [228, 32, 98]]. encode_argument arg \<noteq> None"
    by (simp add: encode_argument_def utf8_encode_def is_scalar_def u_def)
  then obtain blob where blob: "encode_argv [u ''-v'', [], [228, 32, 98]] = Some blob" by (simp add: encode_argv_def)
  let ?env = "[argv_env_var \<mapsto> blob, cwd_env_var \<mapsto> u ''/w'']"
  have env: "?env argv_env_var = Some blob" "?env cwd_env_var = Some (u ''/w'')"
    by (simp_all add: argv_env_var_def cwd_env_var_def u_def)
  then have "\<forall>directory. ?env cwd_env_var = Some directory \<longrightarrow> directory = u ''/w''" by simp
  from shim_hands_arguments_over[where chdir = "\<lambda>directory. directory = u ''/w''", OF blob env(1) this, of 58 "u ''a.py''" "[]"] blob
  show ?thesis unfolding env(2) by blast
qed

text \<open>When a privileged runner handed the caller's variables over, the entry sees exactly the
  caller's value (or absence) of each of the ten names, no hand-over variable is left, and every other
  variable is untouched.\<close>

theorem shim_restores_home:
  assumes "env caller_env_var \<noteq> None"
  shows "restore_the_callers_home env v =
    (if v \<in> set caller_env_names then env (hand_over_prefix @ v)
     else if v = caller_env_var \<or> prefix hand_over_prefix v then None else env v)"
  using assms by (simp add: restore_home_lookup)

theorem shim_restores_home_witness:
  "restore_the_callers_home [caller_env_var \<mapsto> u ''1'', u ''HOME'' \<mapsto> u ''/root''] (u ''HOME'') = None"
proof -
  let ?env = "[caller_env_var \<mapsto> u ''1'', u ''HOME'' \<mapsto> u ''/root'']"
  have "?env caller_env_var \<noteq> None" "u ''HOME'' \<in> set caller_env_names"
    "hand_over_prefix @ u ''HOME'' \<noteq> caller_env_var" "hand_over_prefix @ u ''HOME'' \<noteq> u ''HOME''"
    by (simp_all add: caller_env_names_def hand_over_prefix_def caller_env_var_def u_def)
  then show ?thesis by (simp add: shim_restores_home)
qed

text \<open>PATH is the caller's, with only whole entries in front of it: what the shim keeps of the
  current PATH is nothing, or the part in front of what uv was given, cut right behind a separator.\<close>

theorem shim_path_is_the_callers:
  "path_env_var \<notin> dom (restore_the_callers_path pathsep env) \<and>
   (env path_env_var = Some p \<longrightarrow>
     (\<exists>added. restore_the_callers_path pathsep env path_name = Some (added @ p) \<and>
        (added = [] \<or> (\<exists>g current. env uv_path_env_var = Some g \<and> env path_name = Some current \<and>
                         current = added @ g \<and> last added = pathsep))))"
proof -
  have n: "path_name \<noteq> path_env_var" "path_name \<noteq> uv_path_env_var" "path_env_var \<noteq> uv_path_env_var"
    by (simp_all add: path_name_def path_env_var_def uv_path_env_var_def u_def)
  let ?current = "case env path_name of Some c \<Rightarrow> c | None \<Rightarrow> []"
  let ?added = "entries_uv_added pathsep ?current (env uv_path_env_var)"
  have "\<exists>added. restore_the_callers_path pathsep env path_name = Some (added @ p) \<and>
        (added = [] \<or> (\<exists>g current. env uv_path_env_var = Some g \<and> env path_name = Some current \<and>
                         current = added @ g \<and> last added = pathsep))"
    if "env path_env_var = Some p"
  proof (intro exI[of _ ?added] conjI)
    show "restore_the_callers_path pathsep env path_name = Some (?added @ p)"
      using that n by (simp add: restore_the_callers_path_def Let_def)
    show "?added = [] \<or> (\<exists>g current. env uv_path_env_var = Some g \<and> env path_name = Some current \<and>
                         current = ?added @ g \<and> last ?added = pathsep)"
      using entries_uv_added_boundary[of pathsep ?current "env uv_path_env_var"]
      by (cases "env path_name") auto
  qed
  moreover have "path_env_var \<notin> dom (restore_the_callers_path pathsep env)"
    using n by (auto simp: restore_the_callers_path_def Let_def split: option.splits)
  ultimately show ?thesis by blast
qed

theorem shim_path_is_the_callers_witness:
  "\<exists>added. restore_the_callers_path 58 [path_env_var \<mapsto> u ''/bin''] path_name = Some (added @ u ''/bin'')"
  using shim_path_is_the_callers[of 58 "[path_env_var \<mapsto> u ''/bin'']" "u ''/bin''"] by auto

end
