(* ===== verification/Surrogates.thy ===== *)
theory Surrogates
  imports Py_Prelude
begin

text \<open>
  \<open>domain/surrogates.py\<close>: the rule that writes text holding a lone surrogate. A mapping key is a
  \<open>py_key\<close> (a \<open>str\<close> or another object); the set \<open>taken\<close> is kept as a list, of which only membership
  is used. \<open>free_name_loop\<close> is the \<open>while\<close> of \<open>_free_name\<close>: it ends because \<open>taken\<close> is finite.
\<close>

section \<open>The rule\<close>

datatype 'o py_key = TextKey pystr | OtherKey 'o

definition is_surrogate :: "nat \<Rightarrow> bool" where
  "is_surrogate c \<longleftrightarrow> 0xD800 \<le> c \<and> c \<le> 0xDFFF"

definition replacement :: nat where "replacement = 0xFFFD"

definition isascii :: "pystr \<Rightarrow> bool" where
  "isascii s \<longleftrightarrow> (\<forall>c \<in> set s. c < 128)"

definition has_surrogate :: "'o py_key \<Rightarrow> bool" where
  "has_surrogate v = (case v of
      TextKey s \<Rightarrow> \<not> isascii s \<and> (\<exists>c \<in> set s. is_surrogate c)
    | OtherKey _ \<Rightarrow> False)"

definition replace_surrogates :: "pystr \<Rightarrow> pystr" where
  "replace_surrogates s = map (\<lambda>c. if is_surrogate c then replacement else c) s"

definition suffixed :: "pystr \<Rightarrow> nat \<Rightarrow> pystr" where
  "suffixed name k = name @ u ''~'' @ decimal k"

lemma suffixed_inject [simp]: "suffixed name j = suffixed name k \<longleftrightarrow> j = k"
  by (simp add: suffixed_def decimal_inject)

lemma suffixed_not_self [simp]: "suffixed name k \<noteq> name"
  by (simp add: suffixed_def)

definition still_ahead :: "pystr list \<Rightarrow> pystr \<Rightarrow> nat \<Rightarrow> pystr set" where
  "still_ahead taken name k = {t \<in> set taken. \<exists>j \<ge> k. t = suffixed name j}"

lemma finite_still_ahead [simp]: "finite (still_ahead taken name k)"
  by (simp add: still_ahead_def)

lemma still_ahead_step:
  "still_ahead taken name k =
     still_ahead taken name (Suc k) \<union> (if suffixed name k \<in> set taken then {suffixed name k} else {})"
proof -
  have "(\<exists>j \<ge> k. t = suffixed name j) \<longleftrightarrow> t = suffixed name k \<or> (\<exists>j \<ge> Suc k. t = suffixed name j)" for t
    by (metis Suc_leD le_antisym le_refl not_less_eq_eq)
  then show ?thesis by (auto simp: still_ahead_def)
qed

lemma card_still_ahead_taken:
  "suffixed name k \<in> set taken \<Longrightarrow>
   card (still_ahead taken name k) = Suc (card (still_ahead taken name (Suc k)))"
  by (subst still_ahead_step) (simp add: still_ahead_def[of _ _ "Suc k"])

lemma card_still_ahead_free:
  "suffixed name k \<notin> set taken \<Longrightarrow>
   card (still_ahead taken name k) = card (still_ahead taken name (Suc k))"
  by (subst still_ahead_step) simp

function free_name_loop :: "pystr list \<Rightarrow> pystr \<Rightarrow> pystr \<Rightarrow> nat \<Rightarrow> pystr" where
  "free_name_loop taken name candidate k =
     (if candidate \<in> set taken
      then free_name_loop taken name (suffixed name k) (Suc k)
      else candidate)"
  by pat_completeness auto
termination
proof (relation "measures
    [\<lambda>(taken, name, candidate, k). card (still_ahead taken name k),
     \<lambda>(taken, name, candidate, k). if suffixed name k \<in> set taken then 0 else if candidate \<in> set taken then 2 else 1]",
    goal_cases)
  case 1
  show ?case by simp
next
  case (2 taken name candidate k)
  then show ?case
    by (cases "suffixed name k \<in> set taken")
      (auto simp: card_still_ahead_taken card_still_ahead_free)
qed

declare free_name_loop.simps [simp del]

definition free_name :: "pystr \<Rightarrow> pystr list \<Rightarrow> pystr" where
  "free_name name taken = free_name_loop taken name name 2"

fun rename_keys :: "'o py_key list \<Rightarrow> pystr list \<Rightarrow> (pystr \<rightharpoonup> pystr) \<Rightarrow> (pystr \<rightharpoonup> pystr)" where
  "rename_keys [] taken renamed = renamed"
| "rename_keys (TextKey s # keys) taken renamed =
     (if has_surrogate (TextKey s :: 'o py_key)
      then let name = free_name (replace_surrogates s) taken
           in rename_keys keys (name # taken) (renamed(s \<mapsto> name))
      else rename_keys keys taken renamed)"
| "rename_keys (OtherKey x # keys) taken renamed = rename_keys keys taken renamed"

fun valid_names :: "'o py_key list \<Rightarrow> pystr list" where
  "valid_names [] = []"
| "valid_names (TextKey s # keys) =
     (if has_surrogate (TextKey s :: 'o py_key) then valid_names keys else s # valid_names keys)"
| "valid_names (OtherKey x # keys) = valid_names keys"

definition repaired_key_names :: "'o py_key list \<Rightarrow> (pystr \<rightharpoonup> pystr)" where
  "repaired_key_names keys = rename_keys keys (valid_names keys) Map.empty"

section \<open>Facts\<close>

lemma has_surrogate_text: "has_surrogate (TextKey s) \<longleftrightarrow> (\<exists>c \<in> set s. is_surrogate c)"
  by (auto simp: has_surrogate_def isascii_def is_surrogate_def not_less intro: bexI[rotated])

lemma replace_surrogates_clean: "\<forall>c \<in> set (replace_surrogates s). \<not> is_surrogate c"
  by (auto simp: replace_surrogates_def is_surrogate_def replacement_def)

lemma replace_surrogates_id: "\<not> has_surrogate (TextKey s) \<Longrightarrow> replace_surrogates s = s"
  by (induction s) (auto simp: has_surrogate_text replace_surrogates_def)

lemma decimal_not_surrogate: "c \<in> set (decimal k) \<Longrightarrow> \<not> is_surrogate c"
  using decimal_digits by (fastforce simp: is_digit_def is_surrogate_def)

lemma free_name_loop_free: "free_name_loop taken name candidate k \<notin> set taken"
  by (induction taken name candidate k rule: free_name_loop.induct)
    (subst free_name_loop.simps, simp)

lemma free_name_loop_first:
  "candidate \<in> set taken \<Longrightarrow>
   \<exists>j \<ge> k. free_name_loop taken name candidate k = suffixed name j \<and>
          (\<forall>i. k \<le> i \<and> i < j \<longrightarrow> suffixed name i \<in> set taken)"
proof (induction taken name candidate k rule: free_name_loop.induct)
  case (1 taken name candidate k)
  have step: "free_name_loop taken name candidate k =
      free_name_loop taken name (suffixed name k) (Suc k)"
    using 1 by (simp add: free_name_loop.simps[of _ _ candidate])
  show ?case
  proof (cases "suffixed name k \<in> set taken")
    case True
    with 1 step obtain j where "j \<ge> Suc k" "free_name_loop taken name candidate k = suffixed name j"
      "\<forall>i. Suc k \<le> i \<and> i < j \<longrightarrow> suffixed name i \<in> set taken" by auto
    moreover have "i = k \<or> Suc k \<le> i" if "k \<le> i" for i using that by linarith
    ultimately show ?thesis using True by (intro exI[of _ j]) auto
  next
    case False
    then have "free_name_loop taken name (suffixed name k) (Suc k) = suffixed name k"
      by (simp add: free_name_loop.simps)
    with step show ?thesis by (intro exI[of _ k]) auto
  qed
qed

text \<open>The reference: the name itself when free, else the least free suffix from 2 on.\<close>

lemma free_name_least:
  "free_name name taken =
     (if name \<notin> set taken then name
      else suffixed name (LEAST j. 2 \<le> j \<and> suffixed name j \<notin> set taken))"
proof (cases "name \<in> set taken")
  case True
  then obtain j where j: "j \<ge> 2" "free_name name taken = suffixed name j"
    "\<forall>i. 2 \<le> i \<and> i < j \<longrightarrow> suffixed name i \<in> set taken"
    using free_name_loop_first unfolding free_name_def by blast
  moreover have "free_name name taken \<notin> set taken"
    by (simp add: free_name_def free_name_loop_free)
  ultimately have "(LEAST j. 2 \<le> j \<and> suffixed name j \<notin> set taken) = j"
    by (intro Least_equality) (auto simp: not_less[symmetric])
  with j True show ?thesis by simp
next
  case False
  then show ?thesis by (simp add: free_name_def free_name_loop.simps)
qed

lemma free_name_fresh: "free_name name taken \<notin> set taken"
  by (simp add: free_name_def free_name_loop_free)

lemma free_name_clean:
  "\<forall>c \<in> set name. \<not> is_surrogate c \<Longrightarrow> \<forall>c \<in> set (free_name name taken). \<not> is_surrogate c"
  unfolding free_name_least
  by (auto simp: suffixed_def u_def dest: decimal_not_surrogate) (auto simp: is_surrogate_def)

lemma rename_keys_old:
  "TextKey s \<notin> set keys \<Longrightarrow> rename_keys keys taken renamed s = renamed s"
proof (induction keys arbitrary: taken renamed)
  case (Cons k keys)
  then show ?case by (cases k) (auto simp: Let_def)
qed simp

lemma rename_keys_new:
  assumes "distinct keys" "TextKey s \<in> set keys" "has_surrogate (TextKey s :: 'o py_key)"
  shows "\<exists>name. rename_keys (keys :: 'o py_key list) taken renamed s = Some name \<and> name \<notin> set taken \<and>
            (\<forall>c \<in> set name. \<not> is_surrogate c)"
  using assms
proof (induction keys arbitrary: taken renamed)
  case (Cons k keys)
  show ?case
  proof (cases "k = TextKey s")
    case True
    with Cons.prems free_name_clean[OF replace_surrogates_clean] show ?thesis
      by (auto simp: Let_def rename_keys_old free_name_fresh)
  next
    case False
    have "\<exists>name. rename_keys keys t r s = Some name \<and> name \<notin> set t \<and> (\<forall>c \<in> set name. \<not> is_surrogate c)"
      for t r using Cons False by auto
    then show ?thesis by (cases k) (fastforce simp: Let_def)+
  qed
qed simp

lemma rename_keys_inject:
  assumes "distinct keys" "TextKey s \<in> set keys" "TextKey t \<in> set keys"
    "has_surrogate (TextKey s :: 'o py_key)" "has_surrogate (TextKey t :: 'o py_key)"
    "rename_keys (keys :: 'o py_key list) taken renamed s = rename_keys keys taken renamed t"
  shows "s = t"
  using assms
proof (induction keys arbitrary: taken renamed)
  case (Cons k keys)
  show ?case
  proof (cases "k = TextKey s \<or> k = TextKey t")
    case True
    then obtain r where r: "k = TextKey r" "has_surrogate (TextKey r :: 'o py_key)" "r = s \<or> r = t"
      using Cons.prems by auto
    define name where "name = free_name (replace_surrogates r) taken"
    have new: "rename_keys keys (name # taken) (renamed(r \<mapsto> name)) v \<noteq> Some name"
      if "TextKey v \<in> set keys" "has_surrogate (TextKey v :: 'o py_key)" for v
      using rename_keys_new[OF _ that, of "name # taken" "renamed(r \<mapsto> name)"] Cons.prems(1) by auto
    have old: "rename_keys keys (name # taken) (renamed(r \<mapsto> name)) r = Some name"
      using Cons.prems(1) r(1) by (simp add: rename_keys_old)
    show ?thesis
      using Cons.prems r new[of s] new[of t] old by (auto simp: Let_def name_def[symmetric])
  next
    case False
    with Cons show ?thesis by (cases k) (auto simp: Let_def split: if_splits)
  qed
qed simp

lemma valid_names_set:
  "set (valid_names keys) = {s. TextKey s \<in> set keys \<and> \<not> has_surrogate (TextKey s :: 'o py_key)}"
  for keys :: "'o py_key list"
  by (induction keys rule: valid_names.induct) auto

lemma rename_keys_dom:
  "dom (rename_keys keys taken renamed) =
     dom renamed \<union> {s. TextKey s \<in> set keys \<and> has_surrogate (TextKey s :: 'o py_key)}"
  for keys :: "'o py_key list"
proof (induction keys arbitrary: taken renamed)
  case (Cons k keys)
  then show ?case by (cases k) (auto simp: Let_def split: if_splits)
qed simp

end
