(* ===== verification/Pipeline.thy ===== *)
theory Pipeline
  imports Main
begin

text \<open>
  \<open>domain/pipeline.py\<close>: the lazy record pipeline. A \<open>pipeline\<close> is the chain of generators over an iterator that need not
  end (\<open>itertools.count\<close>), with what is left of the iterator at its bottom, and \<open>pull\<close> is \<open>next()\<close> on the chain:
  the record it yields, if any, and the chain afterwards. A \<open>where\<close> may read for ever for the one record that it
  yields, so \<open>pull\<close> and the loops over it are \<open>partial_function (option)\<close>s. The iterator, predicates and selectors
  raise nothing.
\<close>

section \<open>Chains and pulling\<close>

codatatype 'a records = Ended | Record 'a "'a records"

datatype 'a pipeline =
    Source "'a records"
  | Where "'a \<Rightarrow> bool" "'a pipeline"
  | Select "'a \<Rightarrow> 'a" "'a pipeline"
  | Islice nat "'a pipeline"

text \<open>\<open>itertools.islice(source, max(count, 0))\<close>.\<close>

definition take_records :: "int \<Rightarrow> 'a pipeline \<Rightarrow> 'a pipeline" where
  "take_records count p = Islice (nat (max count 0)) p"

partial_function (option) pull :: "'a pipeline \<Rightarrow> ('a option \<times> 'a pipeline) option" where
  "pull p = (case p of
      Source rs \<Rightarrow> (case rs of Ended \<Rightarrow> Some (None, Source Ended) | Record x rs' \<Rightarrow> Some (Some x, Source rs'))
    | Select f p0 \<Rightarrow> Option.bind (pull p0) (\<lambda>(r, p'). Some (map_option f r, Select f p'))
    | Islice n p0 \<Rightarrow>
        if n = 0 then Some (None, Islice 0 p0)
        else Option.bind (pull p0) (\<lambda>(r, p'). case r of
            None \<Rightarrow> Some (None, Islice 0 p') | Some x \<Rightarrow> Some (Some x, Islice (n - 1) p'))
    | Where P p0 \<Rightarrow> Option.bind (pull p0) (\<lambda>(r, p'). case r of
          None \<Rightarrow> Some (None, Where P p')
        | Some x \<Rightarrow> if P x then Some (Some x, Where P p') else pull (Where P p')))"

text \<open>Drain the chain: \<open>list(self._source)\<close>, the records it yields until it is exhausted.\<close>

partial_function (option) drain :: "'a pipeline \<Rightarrow> ('a list \<times> 'a pipeline) option" where
  "drain p = Option.bind (pull p) (\<lambda>(r, p'). case r of
      None \<Rightarrow> Some ([], p')
    | Some x \<Rightarrow> Option.bind (drain p') (\<lambda>(xs, q). Some (x # xs, q)))"

definition to_list :: "'a pipeline \<Rightarrow> ('a list \<times> 'a pipeline) option" where
  "to_list p = drain p"

text \<open>\<open>first\<close>: the loop returns at the first record the predicate (None: any record) accepts.\<close>

partial_function (option) first_loop :: "('a \<Rightarrow> bool) option \<Rightarrow> 'a \<Rightarrow> 'a pipeline \<Rightarrow> ('a \<times> 'a pipeline) option" where
  "first_loop predicate fallback p = Option.bind (pull p) (\<lambda>(r, p'). case r of
      None \<Rightarrow> Some (fallback, p')
    | Some x \<Rightarrow> if (case predicate of None \<Rightarrow> True | Some P \<Rightarrow> P x) then Some (x, p') else first_loop predicate fallback p')"

definition first :: "('a \<Rightarrow> bool) option \<Rightarrow> 'a \<Rightarrow> 'a pipeline \<Rightarrow> ('a \<times> 'a pipeline) option" where
  "first predicate fallback p = first_loop predicate fallback p"

text \<open>\<open>xs\<close>, then what \<open>rest\<close> gives.\<close>

primrec followed_by :: "'a list \<Rightarrow> 'a records \<Rightarrow> 'a records" where
  "followed_by [] rest = rest"
| "followed_by (x # xs) rest = Record x (followed_by xs rest)"

text \<open>\<open>sorted(self._source, key=key, reverse=reverse)\<close>: reads the whole source, then yields it in
  order. Python's sort is stable, also with \<open>reverse\<close>.\<close>

definition py_sorted :: "('a \<Rightarrow> 'k::linorder) \<Rightarrow> bool \<Rightarrow> 'a list \<Rightarrow> 'a list" where
  "py_sorted key reverse xs = (if reverse then rev (sort_key key (rev xs)) else sort_key key xs)"

definition sort_by :: "('a \<Rightarrow> 'k::linorder) \<Rightarrow> bool \<Rightarrow> 'a pipeline \<Rightarrow> 'a pipeline option" where
  "sort_by key reverse p = map_option (\<lambda>(xs, _). Source (followed_by (py_sorted key reverse xs) Ended)) (to_list p)"

section \<open>What a chain yields\<close>

text \<open>The iterator at the bottom, and what the operators make of a list of its records.\<close>

fun source_of :: "'a pipeline \<Rightarrow> 'a records" where
  "source_of (Source rs) = rs"
| "source_of (Where P p) = source_of p"
| "source_of (Select f p) = source_of p"
| "source_of (Islice n p) = source_of p"

fun yields :: "'a pipeline \<Rightarrow> 'a list \<Rightarrow> 'a list" where
  "yields (Source rs) xs = xs"
| "yields (Where P p) xs = filter P (yields p xs)"
| "yields (Select f p) xs = map f (yields p xs)"
| "yields (Islice n p) xs = take n (yields p xs)"

fun depth :: "'a pipeline \<Rightarrow> nat" where
  "depth (Source rs) = 0"
| "depth (Where P p) = Suc (depth p)"
| "depth (Select f p) = Suc (depth p)"
| "depth (Islice n p) = Suc (depth p)"

lemma yields_Nil [simp]: "yields p [] = []"
  by (induction p) auto

text \<open>A pull that yields a record has read the source to the record that gave it, and no further.\<close>

definition pulls :: "'a pipeline \<Rightarrow> 'a list \<Rightarrow> 'a \<Rightarrow> 'a list \<Rightarrow> 'a list \<Rightarrow> 'a pipeline \<Rightarrow> bool" where
  "pulls p xs y us vs p' \<longleftrightarrow> pull p = Some (Some y, p') \<and> depth p' = depth p \<and> (\<exists>x. xs = us @ x # vs \<and> yields p us = [] \<and>
     (\<forall>zs. yields p (us @ x # zs) = y # yields p' zs))"

lemma pull_yields:
  assumes "source_of p = followed_by xs rest" "yields p xs = y # ys"
  shows "\<exists>us vs p'. pulls p xs y us vs p' \<and> source_of p' = followed_by vs rest"
  using assms
proof (induction "depth p + length xs" arbitrary: p xs y ys rule: less_induct)
  case less
  show ?case
  proof (cases p)
    case (Source rs)
    with less.prems show ?thesis
      by (intro exI[of _ "[]"] exI[of _ ys] exI[of _ "Source (followed_by ys rest)"])
        (simp add: pulls_def, subst pull.simps, simp)
  next
    case (Select f p0)
    with less.prems obtain y0 ys0 where y0: "yields p0 xs = y0 # ys0" "y = f y0" by auto
    from less.hyps[OF _ _ y0(1)] less.prems(1) Select obtain us vs p' where
      "pulls p0 xs y0 us vs p'" "source_of p' = followed_by vs rest" by auto
    with Select y0(2) show ?thesis
      by (intro exI[of _ us] exI[of _ vs] exI[of _ "Select f p'"]) (auto simp: pulls_def pull.simps[of "Select f p0"])
  next
    case (Islice n p0)
    with less.prems obtain ys0 where n: "n > 0" "yields p0 xs = y # ys0" by (cases n; cases "yields p0 xs") auto
    from less.hyps[OF _ _ n(2)] less.prems(1) Islice obtain us vs p' where
      "pulls p0 xs y us vs p'" "source_of p' = followed_by vs rest" by auto
    moreover from this have "pull p = Some (Some y, Islice (n - 1) p')"
      unfolding Islice using n(1) by (subst pull.simps) (simp add: pulls_def)
    moreover obtain m where "n = Suc m" using n(1) by (cases n) simp_all
    ultimately have "pulls p xs y us vs (Islice (n - 1) p')" using Islice by (auto simp: pulls_def)
    with \<open>source_of p' = followed_by vs rest\<close> show ?thesis by (metis source_of.simps(4))
  next
    case (Where P p0)
    with less.prems obtain y0 ys0 where y0: "yields p0 xs = y0 # ys0" by (cases "yields p0 xs") auto
    from less.hyps[OF _ _ y0] less.prems(1) Where obtain us vs p' where
      p': "pulls p0 xs y0 us vs p'" "source_of p' = followed_by vs rest" by auto
    then obtain x where x: "pull p0 = Some (Some y0, p')" "depth p' = depth p0" "xs = us @ x # vs" "yields p0 us = []"
      "\<And>zs. yields p0 (us @ x # zs) = y0 # yields p' zs" by (auto simp: pulls_def)
    show ?thesis
    proof (cases "P y0")
      case True
      with less.prems(2) Where x y0 have "y = y0" by simp
      with True Where x p'(2) show ?thesis
        by (intro exI[of _ us] exI[of _ vs] exI[of _ "Where P p'"]) (auto simp: pulls_def pull.simps[of "Where P p0"])
    next
      case False
      have run: "pull p = pull (Where P p')" unfolding Where by (subst pull.simps) (simp add: x(1) False)
      have "yields (Where P p') vs = y # ys" using less.prems(2) Where x False by simp
      moreover have "depth (Where P p') + length vs < depth p + length xs" using Where x(2,3) by simp
      ultimately obtain us' vs' q where q: "pulls (Where P p') vs y us' vs' q" "source_of q = followed_by vs' rest"
        using less.hyps[of "Where P p'" vs] p'(2) by auto
      then obtain x' where x': "pull (Where P p') = Some (Some y, q)" "depth q = Suc (depth p')" "vs = us' @ x' # vs'"
        "filter P (yields p' us') = []" "\<And>zs. filter P (yields p' (us' @ x' # zs)) = y # yields q zs"
        by (auto simp: pulls_def)
      then have "pulls p xs y (us @ x # us') vs' q"
        using Where x False run by (simp add: pulls_def)
      with q(2) show ?thesis by blast
    qed
  qed
qed

lemma pull_ends:
  assumes "source_of p = followed_by xs Ended" "yields p xs = []"
  shows "\<exists>p'. pull p = Some (None, p')"
  using assms
proof (induction "depth p + length xs" arbitrary: p xs rule: less_induct)
  case less
  show ?case
  proof (cases p)
    case (Source rs)
    with less.prems show ?thesis by (subst pull.simps) simp
  next
    case (Select f p0)
    with less.hyps[of p0 xs] less.prems show ?thesis by (auto simp: pull.simps[of "Select f p0"])
  next
    case (Islice n p0)
    with less.hyps[of p0 xs] less.prems show ?thesis by (auto simp: pull.simps[of "Islice n p0"])
  next
    case (Where P p0)
    show ?thesis
    proof (cases "yields p0 xs")
      case Nil
      with less.hyps[of p0 xs] less.prems Where show ?thesis by (auto simp: pull.simps[of "Where P p0"])
    next
      case (Cons y0 ys0)
      with Where less.prems pull_yields[of p0 xs Ended y0 ys0] obtain us vs p' where
        p': "pulls p0 xs y0 us vs p'" "source_of p' = followed_by vs Ended" by auto
      then obtain x where x: "pull p0 = Some (Some y0, p')" "depth p' = depth p0" "xs = us @ x # vs"
        "\<And>zs. yields p0 (us @ x # zs) = y0 # yields p' zs" by (auto simp: pulls_def)
      have "\<not> P y0" using less.prems(2) Where Cons by (simp split: if_splits)
      then have "pull p = pull (Where P p')" unfolding Where by (subst pull.simps) (simp add: x(1))
      moreover have "yields (Where P p') vs = []" using less.prems(2) Where x by (simp split: if_splits)
      moreover have "depth (Where P p') + length vs < depth p + length xs" using Where x(2,3) by simp
      ultimately show ?thesis using less.hyps[of "Where P p'" vs] p'(2) by simp
    qed
  qed
qed

text \<open>Draining a chain that is cut at \<open>n\<close> records, when so many can be had or the source ends: what is read is the
  least prefix of the source that gives them.\<close>

definition read_for :: "'a pipeline \<Rightarrow> 'a list \<Rightarrow> nat \<Rightarrow> nat \<Rightarrow> bool" where
  "read_for p xs n k \<longleftrightarrow> k \<le> length xs \<and> n \<le> length (yields p (take k xs)) \<and> (k > 0 \<longrightarrow> length (yields p (take (k - 1) xs)) < n)"

lemma drain_cut:
  assumes "source_of p = followed_by xs rest" "n \<le> length (yields p xs) \<or> rest = Ended"
  shows "\<exists>q. drain (Islice n p) = Some (take n (yields p xs), q) \<and>
    (n \<le> length (yields p xs) \<longrightarrow> (\<exists>k. read_for p xs n k \<and> source_of q = followed_by (drop k xs) rest))"
  using assms
proof (induction n arbitrary: p xs)
  case 0
  have "pull (Islice 0 p) = Some (None, Islice 0 p)" by (subst pull.simps) simp
  then have "drain (Islice 0 p) = Some ([], Islice 0 p)" by (subst drain.simps) simp
  with 0 show ?case by (auto simp: read_for_def intro: exI[of _ 0])
next
  case (Suc n)
  show ?case
  proof (cases "yields p xs")
    case Nil
    with Suc.prems have rest: "source_of p = followed_by xs Ended" by simp
    from pull_ends[OF this Nil] obtain p' where "pull p = Some (None, p')" by blast
    then have "pull (Islice (Suc n) p) = Some (None, Islice 0 p')" by (subst pull.simps) simp
    then have "drain (Islice (Suc n) p) = Some ([], Islice 0 p')" by (subst drain.simps) simp
    with Nil show ?thesis by simp
  next
    case (Cons y ys)
    from pull_yields[OF Suc.prems(1) Cons] obtain us vs p' where
      p': "pulls p xs y us vs p'" "source_of p' = followed_by vs rest" by blast
    then obtain x where x: "pull p = Some (Some y, p')" "xs = us @ x # vs" "yields p us = []"
      "\<And>zs. yields p (us @ x # zs) = y # yields p' zs" by (auto simp: pulls_def)
    have ys: "ys = yields p' vs" using x(2,4) Cons by simp
    with Suc.prems(2) Cons have "n \<le> length (yields p' vs) \<or> rest = Ended" by simp
    from Suc.IH[OF p'(2) this] obtain q where q: "drain (Islice n p') = Some (take n ys, q)"
      "n \<le> length ys \<Longrightarrow> \<exists>k. read_for p' vs n k \<and> source_of q = followed_by (drop k vs) rest" unfolding ys by blast
    have "pull (Islice (Suc n) p) = Some (Some y, Islice n p')" by (subst pull.simps) (simp add: x(1))
    then have run: "drain (Islice (Suc n) p) = Some (take (Suc n) (yields p xs), q)"
      by (subst drain.simps) (simp add: q(1) Cons)
    have "\<exists>k. read_for p xs (Suc n) k \<and> source_of q = followed_by (drop k xs) rest" if enough: "Suc n \<le> length (yields p xs)"
    proof -
      obtain k where k: "read_for p' vs n k" "source_of q = followed_by (drop k vs) rest" using q(2) enough Cons by auto
      have "take (length us + Suc k) xs = us @ x # take k vs" "drop (length us + Suc k) xs = drop k vs"
        "take (length us + Suc k - 1) xs = us @ (if k = 0 then [] else x # take (k - 1) vs)"
        unfolding x(2) by (cases k, simp_all)+
      with k x have "read_for p xs (Suc n) (length us + Suc k) \<and> source_of q = followed_by (drop (length us + Suc k) xs) rest"
        by (auto simp: read_for_def)
      then show ?thesis by blast
    qed
    with run show ?thesis by blast
  qed
qed

lemma drain_finite:
  assumes "source_of p = followed_by xs Ended"
  shows "\<exists>q. drain p = Some (yields p xs, q)"
  using assms
proof (induction "length (yields p xs)" arbitrary: p xs)
  case 0
  with pull_ends[of p xs] show ?case by (subst drain.simps) auto
next
  case (Suc n)
  then obtain y ys where ys: "yields p xs = y # ys" by (cases "yields p xs") auto
  from pull_yields[OF Suc.prems ys] obtain us vs p' where
    p': "pulls p xs y us vs p'" "source_of p' = followed_by vs Ended" by blast
  then have x: "pull p = Some (Some y, p')" "yields p' vs = ys" using ys by (auto simp: pulls_def)
  moreover have "n = length (yields p' vs)" using Suc.hyps(2) ys x(2) by simp
  from Suc.hyps(1)[OF this p'(2)] obtain q where "drain p' = Some (yields p' vs, q)" by blast
  ultimately show ?case using ys by (subst drain.simps) simp
qed

lemma first_loop_yields:
  assumes "source_of p = followed_by xs rest"
    "(\<exists>x \<in> set (yields p xs). case predicate of None \<Rightarrow> True | Some P \<Rightarrow> P x) \<or> rest = Ended"
  shows "\<exists>q. first_loop predicate fallback p =
     Some (case find (\<lambda>x. case predicate of None \<Rightarrow> True | Some P \<Rightarrow> P x) (yields p xs) of
             None \<Rightarrow> fallback | Some x \<Rightarrow> x, q)"
  using assms
proof (induction "length (yields p xs)" arbitrary: p xs)
  case 0
  with pull_ends[of p xs] show ?case by (subst first_loop.simps) auto
next
  case (Suc n)
  then obtain y ys where ys: "yields p xs = y # ys" by (cases "yields p xs") auto
  from pull_yields[OF Suc.prems(1) ys] obtain us vs p' where
    p': "pulls p xs y us vs p'" "source_of p' = followed_by vs rest" by blast
  then have x: "pull p = Some (Some y, p')" "yields p' vs = ys" using ys by (auto simp: pulls_def)
  let ?P = "\<lambda>x. case predicate of None \<Rightarrow> True | Some P \<Rightarrow> P x"
  show ?case
  proof (cases "?P y")
    case True
    with x(1) ys show ?thesis by (subst first_loop.simps) simp
  next
    case False
    have "n = length (yields p' vs)" using Suc.hyps(2) ys x(2) by simp
    moreover have "(\<exists>x \<in> set (yields p' vs). ?P x) \<or> rest = Ended" using Suc.prems(2) ys x(2) False by auto
    ultimately obtain q where "first_loop predicate fallback p' =
        Some (case find ?P (yields p' vs) of None \<Rightarrow> fallback | Some x \<Rightarrow> x, q)" using Suc.hyps(1) p'(2) by blast
    with x ys False show ?thesis by (subst first_loop.simps) simp
  qed
qed

lemma py_sorted_sorted: "sorted_wrt (\<lambda>x y. if reverse then key y \<le> key x else key x \<le> key y) (py_sorted key reverse xs)"
proof (cases reverse)
  case True
  have "sorted (map key (sort_key key (rev xs)))" by simp
  with True show ?thesis by (simp add: py_sorted_def sorted_wrt_rev sorted_map)
next
  case False
  have "sorted (map key (sort_key key xs))" by simp
  with False show ?thesis by (simp add: py_sorted_def sorted_map)
qed

lemma py_sorted_stable:
  "filter (\<lambda>x. key x = k) (py_sorted key reverse xs) = filter (\<lambda>x. key x = k) xs"
  by (simp add: py_sorted_def rev_filter[symmetric] sort_key_stable)

lemma set_py_sorted [simp]: "set (py_sorted key reverse xs) = set xs"
  by (simp add: py_sorted_def)

text \<open>\<open>itertools.count(n)\<close>: a source without end, each beginning of which is a range.\<close>

primcorec count_from :: "nat \<Rightarrow> nat records" where
  "count_from n = Record n (count_from (Suc n))"

lemma count_from_unfold: "count_from n = followed_by [n..<n + m] (count_from (n + m))"
proof (induction m arbitrary: n)
  case (Suc m)
  have "[n..<n + Suc m] = n # [Suc n..<Suc n + m]" by (simp add: upt_conv_Cons)
  with Suc[of "Suc n"] show ?case by (subst count_from.code) simp
qed simp

end
