(* ===== verification/Enums.thy ===== *)
theory Enums
  imports Py_Errors
begin

text \<open>
  The enumerations of \<open>domain/enums.py\<close> the modelled parts use, and the tables that translate them. A
  \<open>str\<close> enumeration is a datatype with the table of its values; \<open>parse_enum\<close> is the call of the class on a
  value, with what the caller makes of an unknown one. The locale \<open>enum_table\<close> is the contract of a table
  that translates both ways: every key and every member once, and no member left out.
\<close>

section \<open>Tables\<close>

definition parse_enum :: "('k \<times> 's) list \<Rightarrow> 's \<Rightarrow> 'k \<Rightarrow> 's" where
  "parse_enum names missing text = (case map_of names text of Some s \<Rightarrow> s | None \<Rightarrow> missing)"

text \<open>The inverse table, \<open>{v: k for k, v in table.items()}\<close>, looked up at a member.\<close>

definition key_of :: "('k \<times> 's) list \<Rightarrow> 's \<Rightarrow> 'k option" where
  "key_of table m = map_of (map (\<lambda>(k, s). (s, k)) table) m"

locale enum_table =
  fixes table :: "('k \<times> 's) list"
  assumes keys_distinct: "distinct (map fst table)"
    and members_distinct: "distinct (map snd table)"
    and members_total: "m \<in> snd ` set table"
begin

lemma key_of_iff: "key_of table m = Some k \<longleftrightarrow> (k, m) \<in> set table"
proof -
  have "distinct (map fst (map (\<lambda>(k, s). (s, k)) table))"
    using members_distinct by (simp add: comp_def case_prod_unfold)
  then show ?thesis by (auto simp: key_of_def)
qed

lemma key_of_total: "\<exists>k. key_of table m = Some k"
  using members_total[of m] by (auto simp: key_of_iff)

lemma lookup_key_of: "key_of table m = Some k \<longleftrightarrow> map_of table k = Some m"
  using keys_distinct by (simp add: key_of_iff)

lemma parse_key_of: "key_of table m = Some k \<Longrightarrow> parse_enum table missing k = m"
  by (simp add: lookup_key_of parse_enum_def)

lemma key_of_parse:
  assumes "k \<in> fst ` set table"
  shows "key_of table (parse_enum table missing k) = Some k"
proof -
  from assms obtain s where s: "(k, s) \<in> set table" by auto
  then have "map_of table k = Some s" using keys_distinct by simp
  with s show ?thesis by (simp add: parse_enum_def key_of_iff)
qed

lemma parse_unknown: "k \<notin> fst ` set table \<Longrightarrow> parse_enum table missing k = missing"
  by (auto simp: parse_enum_def map_of_eq_None_iff[THEN iffD2])

end

section \<open>Processes and connections\<close>

datatype process_status =
    Proc_Running | Proc_Sleeping | Proc_Disk_Sleep | Proc_Stopped | Proc_Tracing_Stop | Proc_Zombie
  | Proc_Dead | Proc_Wake_Kill | Proc_Waking | Proc_Parked | Proc_Idle | Proc_Locked | Proc_Waiting
  | Proc_Suspended | Proc_Unknown

definition process_status_names :: "(pystr \<times> process_status) list" where
  "process_status_names =
     [(u ''running'', Proc_Running), (u ''sleeping'', Proc_Sleeping), (u ''disk-sleep'', Proc_Disk_Sleep),
      (u ''stopped'', Proc_Stopped), (u ''tracing-stop'', Proc_Tracing_Stop), (u ''zombie'', Proc_Zombie),
      (u ''dead'', Proc_Dead), (u ''wake-kill'', Proc_Wake_Kill), (u ''waking'', Proc_Waking),
      (u ''parked'', Proc_Parked), (u ''idle'', Proc_Idle), (u ''locked'', Proc_Locked),
      (u ''waiting'', Proc_Waiting), (u ''suspended'', Proc_Suspended), (u ''unknown'', Proc_Unknown)]"

datatype address_family = Family_IPv4 | Family_IPv6 | Family_Other

datatype transport_protocol = Proto_TCP | Proto_UDP

datatype connection_state =
    Conn_Established | Conn_Syn_Sent | Conn_Syn_Recv | Conn_Fin_Wait1 | Conn_Fin_Wait2 | Conn_Time_Wait
  | Conn_Close | Conn_Close_Wait | Conn_Last_Ack | Conn_Listen | Conn_Closing | Conn_None

definition connection_state_names :: "(pystr \<times> connection_state) list" where
  "connection_state_names =
     [(u ''ESTABLISHED'', Conn_Established), (u ''SYN_SENT'', Conn_Syn_Sent), (u ''SYN_RECV'', Conn_Syn_Recv),
      (u ''FIN_WAIT1'', Conn_Fin_Wait1), (u ''FIN_WAIT2'', Conn_Fin_Wait2), (u ''TIME_WAIT'', Conn_Time_Wait),
      (u ''CLOSE'', Conn_Close), (u ''CLOSE_WAIT'', Conn_Close_Wait), (u ''LAST_ACK'', Conn_Last_Ack),
      (u ''LISTEN'', Conn_Listen), (u ''CLOSING'', Conn_Closing), (u ''NONE'', Conn_None)]"

section \<open>Registry\<close>

datatype registry_hive = HKCR | HKCU | HKLM | HKU | HKCC

datatype registry_value_type =
    REG_NONE | REG_SZ | REG_EXPAND_SZ | REG_BINARY | REG_DWORD | REG_DWORD_BIG_ENDIAN | REG_LINK
  | REG_MULTI_SZ | REG_RESOURCE_LIST | REG_FULL_RESOURCE_DESCRIPTOR | REG_RESOURCE_REQUIREMENTS_LIST | REG_QWORD

section \<open>Services, events, tasks\<close>

datatype service_state =
    Service_Stopped | Service_Start_Pending | Service_Stop_Pending | Service_Running
  | Service_Continue_Pending | Service_Pause_Pending | Service_Paused

datatype start_type = Start_Boot | Start_System | Start_Automatic | Start_Manual | Start_Disabled

datatype service_kind =
    Kernel_Driver | File_System_Driver | Adapter_Driver | Recognizer_Driver | Own_Process | Share_Process
  | Interactive_Process

datatype event_level =
    Level_Log_Always | Level_Critical | Level_Error | Level_Warning | Level_Information | Level_Verbose

datatype task_state = Task_Unknown | Task_Disabled | Task_Queued | Task_Ready | Task_Running

datatype run_level = LIMITED | HIGHEST

datatype logon_type = INTERACTIVE_TOKEN | SERVICE_ACCOUNT | S4U

datatype multiple_instances = PARALLEL | QUEUE | IGNORE_NEW | STOP_EXISTING

section \<open>Identity and access\<close>

datatype integrity_level =
    Integrity_Untrusted | Integrity_Low | Integrity_Medium | Integrity_High | Integrity_System | Integrity_Protected

datatype ace_type = Ace_Allow | Ace_Deny

datatype acl_kind = Kind_Trustee | Kind_Owner | Kind_User | Kind_Owning_Group | Kind_Group | Kind_Mask | Kind_Other

end
