(* ===== verification/Scheduling.thy ===== *)
theory Scheduling
  imports Enums
begin

text \<open>
  \<open>domain/scheduling.py\<close>: who a scheduled task runs as, when it fires and its settings. The two
  identity patterns are written out as recognisers, a validator as a function that returns the stored
  value or raises. A \<open>timedelta\<close> is its number of microseconds, an aware \<open>datetime\<close> its number of
  microseconds from the epoch (\<open>astimezone(utc)\<close> keeps the instant).
\<close>

section \<open>Identities\<close>

abbreviation dash :: nat where "dash \<equiv> 45"

definition number_text :: "pystr \<Rightarrow> bool" where
  "number_text s \<longleftrightarrow> s \<noteq> [] \<and> (\<forall>c \<in> set s. is_digit c)"

text \<open>\<open>_SID.fullmatch\<close>: \<open>S-1-\<close>, digits, then one or more times a dash and digits.\<close>

definition is_sid :: "pystr \<Rightarrow> bool" where
  "is_sid text = (case split_on dash text of
      s # one # subs \<Rightarrow> s = u ''S'' \<and> one = u ''1'' \<and> 2 \<le> length subs \<and> (\<forall>p \<in> set subs. number_text p)
    | _ \<Rightarrow> False)"

text \<open>\<open>_UID.fullmatch\<close>: \<open>0\<close>, or a digit from 1 to 9 and at most nine digits.\<close>

definition uid_pattern :: "pystr \<Rightarrow> bool" where
  "uid_pattern text \<longleftrightarrow> text = u ''0'' \<or>
     (text \<noteq> [] \<and> (\<forall>c \<in> set text. is_digit c) \<and> hd text \<noteq> ch CHR ''0'' \<and> length text \<le> 10)"

definition uid_max :: nat where "uid_max = 4294967295"

definition is_uid :: "pystr \<Rightarrow> bool" where
  "is_uid text \<longleftrightarrow> uid_pattern text \<and> digits_value text \<le> uid_max"

datatype well_known_sid =
    EVERYONE | LOCAL_SYSTEM | LOCAL_SERVICE | NETWORK_SERVICE | AUTHENTICATED_USERS
  | ADMINISTRATORS | USERS | GUESTS | POWER_USERS | REMOTE_DESKTOP_USERS

fun sid_value :: "well_known_sid \<Rightarrow> pystr" where
  "sid_value EVERYONE = u ''S-1-1-0''"
| "sid_value LOCAL_SYSTEM = u ''S-1-5-18''"
| "sid_value LOCAL_SERVICE = u ''S-1-5-19''"
| "sid_value NETWORK_SERVICE = u ''S-1-5-20''"
| "sid_value AUTHENTICATED_USERS = u ''S-1-5-11''"
| "sid_value ADMINISTRATORS = u ''S-1-5-32-544''"
| "sid_value USERS = u ''S-1-5-32-545''"
| "sid_value GUESTS = u ''S-1-5-32-546''"
| "sid_value POWER_USERS = u ''S-1-5-32-547''"
| "sid_value REMOTE_DESKTOP_USERS = u ''S-1-5-32-555''"

definition service_sids :: "pystr set" where
  "service_sids = {sid_value LOCAL_SYSTEM, sid_value LOCAL_SERVICE, sid_value NETWORK_SERVICE}"

text \<open>What a caller may pass for a \<open>user_id\<close>.\<close>

datatype identity_input = NoIdentity | SidMember well_known_sid | TextInput pystr | OtherInput

definition identity :: "identity_input \<Rightarrow> pystr option res" where
  "identity v = (let refused = raise_error ValueError ''not a SID or a decimal uid'' in
     case v of
       NoIdentity \<Rightarrow> Inr None
     | SidMember m \<Rightarrow> (let text = sid_value m in if is_sid text \<or> is_uid text then Inr (Some text) else refused)
     | TextInput text \<Rightarrow> if is_sid text \<or> is_uid text then Inr (Some text) else refused
     | OtherInput \<Rightarrow> refused)"

section \<open>Principals\<close>

record task_principal =
  user_id :: "pystr option"
  principal_logon_type :: "logon_type option"
  principal_run_level :: run_level

definition new_principal :: "identity_input \<Rightarrow> logon_type option \<Rightarrow> run_level \<Rightarrow> task_principal res" where
  "new_principal who logon level =
     map_sum id (\<lambda>v. \<lparr>user_id = v, principal_logon_type = logon, principal_run_level = level\<rparr>) (identity who)"

definition system_principal :: task_principal where
  "system_principal = \<lparr>user_id = Some (sid_value LOCAL_SYSTEM), principal_logon_type = None,
                       principal_run_level = HIGHEST\<rparr>"

definition default_principal :: task_principal where
  "default_principal = \<lparr>user_id = None, principal_logon_type = None, principal_run_level = LIMITED\<rparr>"

definition principal_is_sid :: "task_principal \<Rightarrow> bool" where
  "principal_is_sid p = (case user_id p of None \<Rightarrow> False | Some v \<Rightarrow> is_sid v)"

definition principal_is_uid :: "task_principal \<Rightarrow> bool" where
  "principal_is_uid p = (case user_id p of None \<Rightarrow> False | Some v \<Rightarrow> is_uid v)"

definition is_service_account :: "task_principal \<Rightarrow> bool" where
  "is_service_account p = (case user_id p of None \<Rightarrow> False | Some v \<Rightarrow> v \<in> service_sids)"

definition effective_logon_type :: "task_principal \<Rightarrow> logon_type" where
  "effective_logon_type p = (case principal_logon_type p of
      Some t \<Rightarrow> t
    | None \<Rightarrow> if user_id p = None then INTERACTIVE_TOKEN
              else if is_service_account p then SERVICE_ACCOUNT
              else S4U)"

section \<open>Triggers and settings\<close>

datatype task_trigger =
    OnceTrigger int
  | DailyTrigger int int
  | BootTrigger int
  | LogonTrigger "pystr option"

definition new_daily_trigger :: "int \<Rightarrow> int \<Rightarrow> task_trigger res" where
  "new_daily_trigger at days =
     (if 1 \<le> days \<and> days \<le> 365 then Inr (DailyTrigger at days) else raise_error ValueError ''every_days'')"

definition new_boot_trigger :: "int \<Rightarrow> task_trigger res" where
  "new_boot_trigger d =
     (if d < 0 then raise_error ValueError ''delay must not be negative'' else Inr (BootTrigger d))"

definition new_logon_trigger :: "identity_input \<Rightarrow> task_trigger res" where
  "new_logon_trigger who = map_sum id LogonTrigger (identity who)"

record task_settings =
  allow_start_if_on_batteries :: "bool option"
  stop_if_going_on_batteries :: "bool option"
  execution_time_limit :: "int option"
  multiple_instances_policy :: "multiple_instances option"
  allow_hard_terminate :: "bool option"
  allow_demand_start :: "bool option"

definition second :: int where "second = 1000000"

definition max_execution_time_limit :: int where
  "max_execution_time_limit = 2147483647 * second"

definition check_time_limit :: "int option \<Rightarrow> int option res" where
  "check_time_limit limit = (case limit of
      None \<Rightarrow> Inr None
    | Some v \<Rightarrow>
        if v < 0 then raise_error ValueError ''execution_time_limit must not be negative''
        else if v mod second \<noteq> 0 then raise_error ValueError ''execution_time_limit must be whole seconds''
        else if v > max_execution_time_limit then raise_error ValueError ''execution_time_limit too long''
        else Inr (Some v))"

definition new_settings :: "task_settings \<Rightarrow> task_settings res" where
  "new_settings s =
     map_sum id (\<lambda>limit. s\<lparr>execution_time_limit := limit\<rparr>) (check_time_limit (execution_time_limit s))"

section \<open>Facts\<close>

lemma decimal_first: "hd (decimal n) = 48 \<longleftrightarrow> n = 0"
  using decimal_hd[of n] by (cases "n = 0") auto

lemma digits_value_snoc: "digits_value (s @ [c]) = 10 * digits_value s + (c - 48)"
  by (simp add: digits_value_def)

text \<open>A digit text without a leading zero is the decimal text of its value.\<close>

lemma decimal_digits_value:
  assumes "s \<noteq> []" "\<forall>c \<in> set s. is_digit c" "hd s \<noteq> 48 \<or> length s = 1"
  shows "decimal (digits_value s) = s"
  using assms
proof (induction s rule: rev_induct)
  case (snoc c s)
  have c: "48 \<le> c" "c \<le> 57" using snoc.prems(2) by (auto simp: is_digit_def)
  show ?case
  proof (cases "s = []")
    case True
    then have "digits_value (s @ [c]) = c - 48" by (simp add: digits_value_def)
    with c True show ?thesis by (simp add: decimal.simps[of "c - 48"])
  next
    case False
    then have ih: "decimal (digits_value s) = s" using snoc by auto
    have "hd s \<noteq> 48" using snoc.prems(3) False by auto
    then have "0 < digits_value s" using ih by (cases "digits_value s = 0") auto
    define d where "d = c - 48"
    have d: "d < 10" "c = 48 + d" using c by (auto simp: d_def)
    have "decimal (10 * digits_value s + d) = s @ [48 + d]"
      using d(1) ih \<open>0 < digits_value s\<close> by (subst decimal.simps) simp
    with d show ?thesis by (simp add: digits_value_snoc)
  qed
qed simp

lemma length_decimal: "n < 10 ^ k \<Longrightarrow> 0 < k \<Longrightarrow> length (decimal n) \<le> k"
proof (induction k arbitrary: n)
  case (Suc k)
  show ?case
  proof (cases "n < 10")
    case False
    with Suc.prems have "n div 10 < 10 ^ k" "0 < k" by (auto intro: gr0I simp: less_mult_imp_div_less)
    with Suc.IH False show ?thesis by (simp add: decimal.simps[of n])
  qed (simp add: decimal.simps[of n])
qed simp

text \<open>The uids are exactly the decimal texts of the \<open>uid_t\<close> values: one spelling per account.\<close>

lemma is_uid_decimal: "is_uid s \<longleftrightarrow> (\<exists>n \<le> uid_max. s = decimal n)"
proof
  assume s: "is_uid s"
  then have "decimal (digits_value s) = s"
    by (intro decimal_digits_value) (auto simp: is_uid_def uid_pattern_def u_def is_digit_def)
  with s show "\<exists>n \<le> uid_max. s = decimal n" by (metis is_uid_def)
next
  assume "\<exists>n \<le> uid_max. s = decimal n"
  then obtain n where n: "n \<le> uid_max" "s = decimal n" by blast
  moreover have "length (decimal n) \<le> 10"
    using n(1) by (intro length_decimal) (auto simp: uid_max_def)
  moreover have "digits_value [48] = 0" by (simp add: digits_value_def)
  ultimately show "is_uid s"
    using decimal_digits[of n] decimal_hd[of n]
    by (cases "n = 0") (auto simp: is_uid_def uid_pattern_def decimal_value u_def)
qed

lemma sid_not_uid: "is_sid s \<Longrightarrow> \<not> is_uid s"
proof
  assume "is_sid s" "is_uid s"
  then have "\<forall>c \<in> set s. is_digit c" by (auto simp: is_uid_decimal decimal_digits)
  then have "dash \<notin> set s" by (auto simp: is_digit_def)
  with \<open>is_sid s\<close> show False by (simp add: is_sid_def split_on_no_sep)
qed

lemma well_known_sids: "is_sid (sid_value m)"
  by (cases m) (simp_all add: is_sid_def u_def number_text_def is_digit_def)

lemma identity_accepts:
  "identity v = Inr r \<longleftrightarrow>
     (case v of NoIdentity \<Rightarrow> r = None
      | SidMember m \<Rightarrow> r = Some (sid_value m)
      | TextInput text \<Rightarrow> (is_sid text \<or> is_uid text) \<and> r = Some text
      | OtherInput \<Rightarrow> False)"
  using well_known_sids by (cases v) (auto simp: identity_def)

lemma check_time_limit_ok:
  "check_time_limit (Some v) = Inr (Some v) \<longleftrightarrow> (\<exists>s. 0 \<le> s \<and> s \<le> 2147483647 \<and> v = s * second)"
proof -
  have "(\<exists>s. 0 \<le> s \<and> s \<le> 2147483647 \<and> v = s * second) \<longleftrightarrow>
      0 \<le> v \<and> v mod second = 0 \<and> v \<le> 2147483647 * second"
    by (auto simp: second_def intro!: exI[of _ "v div 1000000"])
  then show ?thesis by (auto simp: check_time_limit_def max_execution_time_limit_def)
qed

end
