(* ===== verification/Native_Errors.thy ===== *)
theory Native_Errors
  imports Py_Errors "HOL-Library.Word"
begin

text \<open>
  How a caught native failure becomes pwshpy's own error: the second half of
  \<open>adapters/native/marshal.py\<close>. An exception is a record of what the code reads of it; exceptions refer
  to each other (\<open>__cause__\<close>, \<open>__context__\<close>) through a store, so a chain may loop back on itself. An
  HRESULT is the Python int the code computes with, masked to 32 bits where the code masks it.
\<close>

unbundle bit_operations_syntax

section \<open>Exceptions as the code reads them\<close>

datatype py_object =
    PyNone | PyBool bool | PyInt int | PyStr pystr | PyTuple "py_object list" | PyOther

text \<open>
  \<open>os_error\<close> is \<open>isinstance(exc, OSError)\<close>; \<open>native_call\<close> holds the error when the exception is pwshpy's
  own \<open>NativeCallError\<close>. An attribute the object does not have reads as \<open>PyNone\<close>, as \<open>getattr\<close> with that
  default does.
\<close>

record 'r raised =
  class_name :: pystr
  class_module :: pystr
  os_error :: bool
  native_call :: "pwshpy_error option"
  hresult_attr :: py_object
  winerror_attr :: py_object
  excepinfo_attr :: py_object
  strerror_attr :: py_object
  errno_attr :: "int option"
  exc_args :: "py_object list"
  cause_link :: "'r option"
  context_link :: "'r option"
  suppress_context :: bool

type_synonym 'r raised_store = "'r \<Rightarrow> 'r raised"

text \<open>The error that is raised, with the \<open>errno\<close> a \<open>NativeAccessDeniedError\<close> keeps.\<close>

record native_failure = pwshpy_error +
  failure_errno :: "int option"

section \<open>Codes of a pywin32 error\<close>

definition com_error_names :: "pystr set" where
  "com_error_names = {u ''com_error'', u ''error''}"

definition pywintypes_module :: pystr where "pywintypes_module = u ''pywintypes''"
definition hresult_mask :: int where "hresult_mask = 0xFFFFFFFF"
definition disp_e_exception :: int where "disp_e_exception = 0x80020009"
definition facility_win32_failure :: int where "facility_win32_failure = 0x80070000"
definition win32_code_max :: int where "win32_code_max = 0xFFFF"
definition e_accessdenied :: int where "e_accessdenied = 0x80070005"
definition denied_errnos :: "int set" where "denied_errnos = {13, 1}"

definition is_com_error :: "'r raised \<Rightarrow> bool" where
  "is_com_error e \<longleftrightarrow> class_name e \<in> com_error_names \<and> class_module e = pywintypes_module"

fun as_int :: "py_object \<Rightarrow> int option" where
  "as_int (PyInt i) = Some i"
| "as_int v = None"

definition arg :: "'r raised \<Rightarrow> nat \<Rightarrow> py_object" where
  "arg e i = (if length (exc_args e) > i then exc_args e ! i else PyNone)"

definition own_hresult :: "'r raised \<Rightarrow> int option" where
  "own_hresult e =
     (let code = as_int (hresult_attr e);
          code = (if code = None \<and> class_name e = u ''com_error'' then as_int (arg e 0) else code)
      in map_option (\<lambda>c. c AND hresult_mask) code)"

definition win32_code :: "'r raised \<Rightarrow> int option" where
  "win32_code e =
     (let code = as_int (winerror_attr e) in
      if code = None \<and> class_name e = u ''error'' then as_int (arg e 0) else code)"

definition callee_excepinfo :: "'r raised \<Rightarrow> int option \<Rightarrow> py_object list option" where
  "callee_excepinfo e own =
     (if own \<noteq> Some disp_e_exception then None
      else case (if excepinfo_attr e = PyNone then arg e 2 else excepinfo_attr e) of
          PyTuple xs \<Rightarrow> if length xs > 5 then Some xs else None
        | _ \<Rightarrow> None)"

definition callee_scode :: "py_object list option \<Rightarrow> int option" where
  "callee_scode info = (case info of
      None \<Rightarrow> None
    | Some fs \<Rightarrow> (case as_int (fs ! 5) of
        None \<Rightarrow> None
      | Some scode \<Rightarrow> if scode AND hresult_mask = 0 then None else Some (scode AND hresult_mask)))"

definition win32_to_hresult :: "int \<Rightarrow> int" where
  "win32_to_hresult code =
     (if 0 < code \<and> code \<le> win32_code_max then facility_win32_failure OR code else code AND hresult_mask)"

definition com_outer_hresult :: "'r raised \<Rightarrow> int option" where
  "com_outer_hresult e =
     (if \<not> is_com_error e then None
      else case own_hresult e of
          Some own \<Rightarrow> Some own
        | None \<Rightarrow> map_option win32_to_hresult (win32_code e))"

definition com_hresult :: "'r raised \<Rightarrow> int option" where
  "com_hresult e = (case com_outer_hresult e of
      None \<Rightarrow> None
    | Some outer \<Rightarrow> (case callee_scode (callee_excepinfo e (Some outer)) of
        None \<Rightarrow> Some outer | Some scode \<Rightarrow> Some scode))"

fun text_of :: "py_object \<Rightarrow> pystr" where
  "text_of (PyStr s) = s"
| "text_of v = []"

definition strerror_arg :: "pystr \<Rightarrow> nat" where
  "strerror_arg name = (if name = u ''com_error'' then 1 else 2)"

definition com_error_text :: "'r raised \<Rightarrow> pystr" where
  "com_error_text e =
     (if \<not> is_com_error e then []
      else let description = (case callee_excepinfo e (com_outer_hresult e) of
                 None \<Rightarrow> [] | Some xs \<Rightarrow> text_of (xs ! 2))
           in if description \<noteq> [] then description
              else text_of (if strerror_attr e = PyNone then arg e (strerror_arg (class_name e))
                            else strerror_attr e))"

section \<open>The chain of causes\<close>

definition max_chain_links :: nat where "max_chain_links = 4"

definition is_code_carrier :: "'r raised \<Rightarrow> bool" where
  "is_code_carrier e \<longleftrightarrow> is_com_error e \<or> os_error e \<or> native_call e \<noteq> None"

definition next_link :: "'r raised \<Rightarrow> 'r option" where
  "next_link e = (if cause_link e \<noteq> None then cause_link e
                  else if suppress_context e then context_link e else None)"

fun walk :: "nat \<Rightarrow> 'r raised_store \<Rightarrow> 'r option \<Rightarrow> 'r list" where
  "walk 0 s link = []"
| "walk (Suc n) s None = []"
| "walk (Suc n) s (Some r) = r # (if is_code_carrier (s r) then [] else walk n s (next_link (s r)))"

definition walked_links :: "'r raised_store \<Rightarrow> 'r \<Rightarrow> 'r list" where
  "walked_links s r = walk (max_chain_links + 1) s (Some r)"

section \<open>The error that is raised\<close>

definition cause_hresult :: "'r raised \<Rightarrow> int option" where
  "cause_hresult e =
     (if is_com_error e then com_hresult e
      else map_option win32_to_hresult (if os_error e then as_int (winerror_attr e) else None))"

definition is_psutil_denied :: "'r raised \<Rightarrow> bool" where
  "is_psutil_denied e \<longleftrightarrow>
     class_name e = u ''AccessDenied'' \<and> hd (split_on (ch CHR ''.'') (class_module e)) = u ''psutil''"

definition judge :: "'r raised \<Rightarrow> int option \<times> bool" where
  "judge e = (case native_call e of
      Some p \<Rightarrow> (err_hresult p, catches NativeAccessDeniedError (err_class p))
    | None \<Rightarrow> (case cause_hresult e of
        Some h \<Rightarrow> (Some h, h = e_accessdenied)
      | None \<Rightarrow> (None, os_error e \<and> (\<exists>n \<in> denied_errnos. errno_attr e = Some n))))"

text \<open>\<open>native\<close>, the exception whose code counts.\<close>

definition effective :: "'r raised_store \<Rightarrow> 'r \<Rightarrow> 'r" where
  "effective s r = (let l = last (walked_links s r) in if is_code_carrier (s l) then l else r)"

definition failure :: "error_class \<Rightarrow> string \<Rightarrow> int option \<Rightarrow> int option \<Rightarrow> native_failure" where
  "failure c why hresult errno =
     \<lparr>err_class = c, err_reason = why, err_hresult = hresult, dbus_error_name = None, failure_errno = errno\<rparr>"

definition wrap_native :: "'r raised_store \<Rightarrow> string \<Rightarrow> 'r \<Rightarrow> error_class \<Rightarrow> native_failure" where
  "wrap_native s why r kind =
     (let native = s (effective s r); (hresult, refused) = judge native;
          denied = (refused \<or> (\<exists>l \<in> set (walked_links s r). is_psutil_denied (s l)))
      in if kind \<noteq> NativeCallError \<or> \<not> denied then failure kind why hresult None
         else failure NativeAccessDeniedError why hresult (if os_error native then errno_attr native else None))"

definition wrap_hresult :: "string \<Rightarrow> int option \<Rightarrow> native_failure" where
  "wrap_hresult why hresult =
     failure (if hresult = Some e_accessdenied then NativeAccessDeniedError else NativeCallError) why hresult None"

section \<open>HRESULTs\<close>

lemma and_hresult_mask: "c AND hresult_mask = take_bit 32 c"
  by (simp add: hresult_mask_def take_bit_eq_mask mask_eq_exp_minus_1)

definition is_hresult :: "int \<Rightarrow> bool" where
  "is_hresult h \<longleftrightarrow> 0 \<le> h \<and> h < 2 ^ 32"

lemma masked_is_hresult [simp]: "is_hresult (c AND hresult_mask)"
  using take_bit_int_less_exp[of 32 c] unfolding is_hresult_def and_hresult_mask by simp

lemma masked_hresult: "is_hresult h \<Longrightarrow> h AND hresult_mask = h"
  by (simp add: is_hresult_def and_hresult_mask take_bit_int_eq_self)

lemma push_and_take: "push_bit n (a :: int) AND take_bit n b = 0"
  by (rule bit_eqI) (auto simp: bit_simps)

lemma win32_hresult_or:
  assumes "0 < code" "code \<le> win32_code_max"
  shows "facility_win32_failure OR code = facility_win32_failure + code"
proof -
  have f: "facility_win32_failure = push_bit 16 (0x8007 :: int)"
    by (simp add: facility_win32_failure_def push_bit_eq_mult)
  have "take_bit 16 code = code" using assms by (simp add: win32_code_max_def take_bit_int_eq_self)
  then have "facility_win32_failure AND code = 0" using push_and_take[where n = 16 and a = "0x8007" and b = code] by (simp only: f)
  then show ?thesis by (simp add: disjunctive_add_eq_or)
qed

lemma win32_to_hresult_cases:
  "win32_to_hresult code =
     (if 0 < code \<and> code \<le> win32_code_max then facility_win32_failure + code else code AND hresult_mask)"
  by (simp add: win32_to_hresult_def win32_hresult_or)

lemma win32_is_hresult [simp]: "is_hresult (win32_to_hresult code)"
  by (auto simp: win32_to_hresult_cases is_hresult_def facility_win32_failure_def win32_code_max_def)
     (use masked_is_hresult[of code] in \<open>auto simp: is_hresult_def\<close>)

text \<open>E_ACCESSDENIED stands for ERROR_ACCESS_DENIED and for that HRESULT itself, signed or unsigned.\<close>

lemma win32_denied:
  "win32_to_hresult code = e_accessdenied \<longleftrightarrow> code = 5 \<or> code AND hresult_mask = e_accessdenied"
proof -
  have "code AND hresult_mask = code" if "0 < code" "code \<le> win32_code_max"
    using that by (simp add: masked_hresult is_hresult_def win32_code_max_def)
  then show ?thesis
    by (auto simp: win32_to_hresult_cases e_accessdenied_def facility_win32_failure_def win32_code_max_def)
qed

lemma own_is_hresult: "own_hresult e = Some h \<Longrightarrow> is_hresult h"
  by (auto simp: own_hresult_def Let_def)

lemma outer_is_hresult: "com_outer_hresult e = Some h \<Longrightarrow> is_hresult h"
  by (auto simp: com_outer_hresult_def own_is_hresult split: if_splits option.splits)

lemma scode_is_hresult: "callee_scode info = Some h \<Longrightarrow> is_hresult h"
  by (auto simp: callee_scode_def split: option.splits if_splits)

lemma com_is_hresult: "com_hresult e = Some h \<Longrightarrow> is_hresult h"
  by (auto simp: com_hresult_def outer_is_hresult scode_is_hresult split: option.splits)

lemma cause_is_hresult: "cause_hresult e = Some h \<Longrightarrow> is_hresult h"
  by (auto simp: cause_hresult_def com_is_hresult split: if_splits)

section \<open>Walking the chain\<close>

lemma walk_bound: "length (walk n s link) \<le> n"
  by (induction n s link rule: walk.induct) auto

lemma walk_Nil: "walk n s link = [] \<longleftrightarrow> n = 0 \<or> link = None"
  by (cases n; cases link) auto

lemma walk_carrier_last: "r \<in> set (butlast (walk n s link)) \<Longrightarrow> \<not> is_code_carrier (s r)"
  by (induction n s link rule: walk.induct) (auto split: if_splits)

text \<open>\<open>k\<close> wrappers, none of them a code carrier, lead from \<open>r\<close> to the carrier \<open>c\<close>.\<close>

fun wrapped :: "nat \<Rightarrow> 'r raised_store \<Rightarrow> 'r \<Rightarrow> 'r \<Rightarrow> bool" where
  "wrapped 0 s r c \<longleftrightarrow> r = c \<and> is_code_carrier (s c)"
| "wrapped (Suc k) s r c \<longleftrightarrow> \<not> is_code_carrier (s r) \<and>
     (case next_link (s r) of None \<Rightarrow> False | Some r' \<Rightarrow> wrapped k s r' c)"

lemma wrapped_carrier: "wrapped k s r c \<Longrightarrow> is_code_carrier (s c)"
  by (induction k arbitrary: r) (auto split: option.splits)

lemma walk_wrapped:
  "wrapped k s r c \<Longrightarrow> k < n \<Longrightarrow> \<exists>ws. walk n s (Some r) = ws @ [c] \<and> c \<notin> set ws \<and> (\<forall>l \<in> set ws. \<not> is_code_carrier (s l))"
proof (induction k arbitrary: r n)
  case 0
  then show ?case by (cases n) auto
next
  case (Suc k)
  then obtain m r' where n: "n = Suc m" and r': "next_link (s r) = Some r'" "wrapped k s r' c"
    by (cases n) (auto split: option.splits)
  from Suc.IH[OF r'(2), of m] Suc.prems(2) n obtain ws where
    "walk m s (Some r') = ws @ [c]" "c \<notin> set ws" "\<forall>l \<in> set ws. \<not> is_code_carrier (s l)" by auto
  moreover have "is_code_carrier (s c)" using Suc.prems(1) by (rule wrapped_carrier)
  ultimately show ?case using Suc.prems(1) n r' by (intro exI[of _ "r # ws"]) auto
qed

lemma walk_too_deep:
  "wrapped k s r c \<Longrightarrow> n \<le> k \<Longrightarrow> l \<in> set (walk n s (Some r)) \<Longrightarrow> \<not> is_code_carrier (s l)"
proof (induction k arbitrary: r n)
  case (Suc k)
  then show ?case by (cases n) (auto split: option.splits)
qed auto

lemma effective_wrapped:
  assumes "wrapped k s r c"
  shows "effective s r = (if k \<le> max_chain_links then c else r)"
proof (cases "k \<le> max_chain_links")
  case True
  with walk_wrapped[OF assms, of "max_chain_links + 1"] wrapped_carrier[OF assms] show ?thesis
    by (auto simp: effective_def walked_links_def Let_def simp del: walk.simps)
next
  case False
  have "walked_links s r \<noteq> []" by (simp add: walked_links_def walk_Nil)
  then have "\<not> is_code_carrier (s (last (walked_links s r)))"
    using walk_too_deep[OF assms, of "max_chain_links + 1"] False last_in_set
    by (simp add: walked_links_def)
  with False show ?thesis by (simp add: effective_def Let_def)
qed

lemma judge_no_carrier: "\<not> is_code_carrier e \<Longrightarrow> judge e = (None, False)"
  by (auto simp: judge_def is_code_carrier_def cause_hresult_def split: option.splits)

text \<open>Two stores that differ in implicit contexts only - a context no \<open>from None\<close> suppressed, or one
  beside an explicit cause.\<close>

definition read_context :: "'r raised \<Rightarrow> 'r raised" where
  "read_context e = e\<lparr>context_link := if suppress_context e \<and> cause_link e = None then context_link e else None\<rparr>"

definition same_but_implicit :: "'r raised_store \<Rightarrow> 'r raised_store \<Rightarrow> bool" where
  "same_but_implicit s t \<longleftrightarrow> (\<forall>r. read_context (s r) = read_context (t r))"

lemma context_not_read:
  "cause_hresult (e\<lparr>context_link := l\<rparr>) = cause_hresult e" "judge (e\<lparr>context_link := l\<rparr>) = judge e"
  "is_code_carrier (e\<lparr>context_link := l\<rparr>) = is_code_carrier e"
  "is_psutil_denied (e\<lparr>context_link := l\<rparr>) = is_psutil_denied e"
proof -
  let ?e = "e\<lparr>context_link := l\<rparr>"
  have arg: "arg ?e i = arg e i" for i by (simp add: arg_def)
  have "own_hresult ?e = own_hresult e" "win32_code ?e = win32_code e"
    by (simp_all add: own_hresult_def win32_code_def Let_def arg cong: if_cong)
  then have outer: "com_outer_hresult ?e = com_outer_hresult e"
    by (simp add: com_outer_hresult_def is_com_error_def split: option.split)
  have "callee_excepinfo ?e own = callee_excepinfo e own" for own
    by (simp add: callee_excepinfo_def arg cong: if_cong)
  then have "com_hresult ?e = com_hresult e" by (simp only: com_hresult_def outer)
  then show h: "cause_hresult ?e = cause_hresult e" by (simp add: cause_hresult_def is_com_error_def)
  show "judge ?e = judge e" by (simp add: judge_def h split: option.split)
qed (simp_all add: is_code_carrier_def is_com_error_def is_psutil_denied_def)

lemma read_context_reads:
  "next_link (read_context e) = next_link e"
  "is_code_carrier (read_context e) = is_code_carrier e"
  "judge (read_context e) = judge e"
  "is_psutil_denied (read_context e) = is_psutil_denied e"
  "os_error (read_context e) = os_error e" "errno_attr (read_context e) = errno_attr e"
  by (simp_all add: read_context_def context_not_read next_link_def)

lemma same_but_implicit_reads:
  assumes "same_but_implicit s t"
  shows "next_link (s r) = next_link (t r)" "is_code_carrier (s r) = is_code_carrier (t r)"
    "judge (s r) = judge (t r)" "is_psutil_denied (s r) = is_psutil_denied (t r)"
    "os_error (s r) = os_error (t r)" "errno_attr (s r) = errno_attr (t r)"
  using assms read_context_reads unfolding same_but_implicit_def by metis+

lemma walk_same: "same_but_implicit s t \<Longrightarrow> walk n s link = walk n t link"
  by (induction n s link rule: walk.induct) (auto simp: same_but_implicit_reads)

lemma wrap_same:
  assumes "same_but_implicit s t"
  shows "wrap_native s why r kind = wrap_native t why r kind"
proof -
  note reads = same_but_implicit_reads[OF assms]
  have "walked_links s r = walked_links t r" by (simp only: walked_links_def walk_same[OF assms])
  moreover from this have "effective s r = effective t r" by (simp only: effective_def reads)
  ultimately show ?thesis by (simp add: wrap_native_def Let_def reads cong: if_cong)
qed

lemma failure_simps [simp]:
  "err_class (failure c why h n) = c" "err_hresult (failure c why h n) = h"
  "failure_errno (failure c why h n) = n" "dbus_error_name (failure c why h n) = None"
  "err_reason (failure c why h n) = why"
  by (simp_all add: failure_def)

lemma walk_single: "is_code_carrier (s r) \<Longrightarrow> walked_links s r = [r]"
  by (simp add: walked_links_def)

lemma effective_carrier: "is_code_carrier (s r) \<Longrightarrow> effective s r = r"
  by (simp add: effective_def walk_single)

lemma native_call_carrier: "native_call e = Some p \<Longrightarrow> is_code_carrier e"
  by (simp add: is_code_carrier_def)

lemma wrap_native_call:
  assumes "native_call (s r) = Some p" "\<not> is_psutil_denied (s r)"
  shows "wrap_native s why r NativeCallError =
    (if catches NativeAccessDeniedError (err_class p)
     then failure NativeAccessDeniedError why (err_hresult p) (if os_error (s r) then errno_attr (s r) else None)
     else failure NativeCallError why (err_hresult p) None)"
  using assms by (simp add: wrap_native_def native_call_carrier effective_carrier walk_single judge_def)

lemma wrap_wrapped:
  assumes "wrapped k s r c" "\<forall>l \<in> set (walked_links s r). l \<noteq> c \<longrightarrow> \<not> is_psutil_denied (s l)"
  shows "wrap_native s why r kind = (if k \<le> max_chain_links then wrap_native s why c kind else failure kind why None None)"
proof (cases "k \<le> max_chain_links")
  case True
  have c: "is_code_carrier (s c)" using assms(1) by (rule wrapped_carrier)
  obtain ws where ws: "walked_links s r = ws @ [c]"
    using walk_wrapped[OF assms(1), of "max_chain_links + 1"] True by (auto simp: walked_links_def simp del: walk.simps)
  have "(\<exists>l \<in> set (walked_links s r). is_psutil_denied (s l)) = is_psutil_denied (s c)"
    using ws assms(2) by auto
  with True c show ?thesis
    by (simp add: wrap_native_def effective_wrapped[OF assms(1)] effective_carrier walk_single)
next
  case False
  have "c \<notin> set (walked_links s r)"
    using walk_too_deep[OF assms(1), of "max_chain_links + 1" c] False wrapped_carrier[OF assms(1)]
    by (auto simp: walked_links_def simp del: walk.simps)
  then have "\<not> (\<exists>l \<in> set (walked_links s r). is_psutil_denied (s l))" using assms(2) by metis
  moreover have "\<not> is_code_carrier (s r)" using assms(1) False by (cases k) auto
  ultimately show ?thesis using False
    by (simp add: wrap_native_def effective_wrapped[OF assms(1)] judge_no_carrier)
qed

lemma judge_hresult:
  "judge e = (Some h, d) \<Longrightarrow> (\<And>p. native_call e = Some p \<Longrightarrow> err_hresult p = Some h \<Longrightarrow> is_hresult h) \<Longrightarrow> is_hresult h"
  by (auto simp: judge_def cause_is_hresult split: option.splits)

text \<open>A caught \<open>OSError\<close> that carries an \<open>errno\<close> and no Windows code: the one failure a POSIX call reports.\<close>

definition posix_failure :: "int \<Rightarrow> 'r raised" where
  "posix_failure n = \<lparr>class_name = u ''OSError'', class_module = u ''builtins'', os_error = True, native_call = None,
     hresult_attr = PyNone, winerror_attr = PyNone, excepinfo_attr = PyNone, strerror_attr = PyNone,
     errno_attr = Some n, exc_args = [], cause_link = None, context_link = None, suppress_context = False\<rparr>"

lemma posix_not_com: "class_name e = u ''OSError'' \<Longrightarrow> \<not> is_com_error e" "class_name e = u ''OSError'' \<Longrightarrow> \<not> is_psutil_denied e"
  by (auto simp: is_com_error_def com_error_names_def is_psutil_denied_def u_def)

lemma wrap_posix_failure:
  assumes "s r = posix_failure n"
  shows "wrap_native s why r NativeCallError =
     (if n \<in> denied_errnos then failure NativeAccessDeniedError why None (Some n) else failure NativeCallError why None None)"
proof -
  have c: "is_code_carrier (s r)" by (simp add: assms is_code_carrier_def posix_failure_def)
  have "judge (posix_failure n :: 'a raised) = (None, n \<in> denied_errnos)"
    by (auto simp: judge_def cause_hresult_def posix_failure_def posix_not_com)
  moreover have "\<not> is_psutil_denied (posix_failure n :: 'a raised)"
    by (rule posix_not_com) (simp add: posix_failure_def)
  ultimately show ?thesis
    using c by (simp add: wrap_native_def effective_carrier walk_single assms) (simp add: posix_failure_def)
qed

section \<open>System calls that fail\<close>

text \<open>What a call raises: an \<open>OSError\<close> with its \<open>errno\<close>, or another exception, which pwshpy lets through
  (\<open>KeyError\<close> of the account database apart).\<close>

datatype os_fault = Os_Errno int | Os_Raises error_class

text \<open>An \<open>except OSError\<close> clause that wraps with \<open>native_error\<close>, and one for \<open>(KeyError, OSError)\<close>. The
  \<open>errno\<close> of a raised denial is left out.\<close>

definition posix_error :: "string \<Rightarrow> int \<Rightarrow> pwshpy_error" where
  "posix_error why n = pwshpy_error.truncate (wrap_native (\<lambda>_. posix_failure n) why () NativeCallError)"

fun except_os :: "string \<Rightarrow> os_fault \<Rightarrow> pwshpy_error" where
  "except_os why (Os_Errno n) = posix_error why n"
| "except_os why (Os_Raises c) = make_error c why"

fun except_key_os :: "string \<Rightarrow> os_fault \<Rightarrow> pwshpy_error" where
  "except_key_os why (Os_Errno n) = posix_error why n"
| "except_key_os why (Os_Raises c) = make_error (if c = KeyError then NativeCallError else c) why"

end
