(* ===== verification/Py_Digits.thy ===== *)
theory Py_Digits
  imports Py_Errors
begin

text \<open>
  Python's digits: \<open>str.isdigit\<close> and \<open>int\<close> of a text of digits. The tables are those of CPython 3.11
  (Unicode 14): the zeros of the decimal digits, each starting a run of ten, which \<open>int\<close> reads; and the
  runs of the digits that are no decimal digits (superscripts, circled numbers), which \<open>isdigit\<close>
  accepts and \<open>int\<close> refuses. \<open>int\<close> also refuses more than 4300 digits.
\<close>

definition decimal_zeros :: "nat list" where
  "decimal_zeros = [48, 1632, 1776, 1984, 2406, 2534, 2662, 2790, 2918, 3046, 3174, 3302, 3430, 3558, 3664, 3792,
     3872, 4160, 4240, 6112, 6160, 6470, 6608, 6784, 6800, 6992, 7088, 7232, 7248, 42528, 43216, 43264, 43472,
     43504, 43600, 44016, 65296, 66720, 68912, 69734, 69872, 69942, 70096, 70384, 70736, 70864, 71248, 71360,
     71472, 71904, 72016, 72784, 73040, 73120, 92768, 92864, 93008, 120782, 120792, 120802, 120812, 120822,
     123200, 123632, 125264, 130032]"

definition other_digits :: "(nat \<times> nat) list" where
  "other_digits = [(178, 179), (185, 185), (4969, 4977), (6618, 6618), (8304, 8304), (8308, 8313), (8320, 8329),
     (9312, 9320), (9332, 9340), (9352, 9360), (9450, 9450), (9461, 9469), (9471, 9471), (10102, 10110),
     (10112, 10120), (10122, 10130), (68160, 68163), (69216, 69224), (69714, 69722), (127232, 127242)]"

definition digit_value :: "nat \<Rightarrow> nat option" where
  "digit_value c = map_option (\<lambda>z. c - z) (find (\<lambda>z. z \<le> c \<and> c \<le> z + 9) decimal_zeros)"

definition isdigit :: "pystr \<Rightarrow> bool" where
  "isdigit s \<longleftrightarrow> s \<noteq> [] \<and>
     (\<forall>c \<in> set s. digit_value c \<noteq> None \<or> (\<exists>(a, b) \<in> set other_digits. a \<le> c \<and> c \<le> b))"

definition max_str_digits :: nat where "max_str_digits = 4300"

definition int_of_digits :: "pystr \<Rightarrow> nat option" where
  "int_of_digits s =
     (if s = [] \<or> length s > max_str_digits \<or> (\<exists>c \<in> set s. digit_value c = None) then None
      else Some (foldl (\<lambda>v c. 10 * v + the (digit_value c)) 0 s))"

lemma digit_value_ascii: "is_digit c \<Longrightarrow> digit_value c = Some (c - 48)"
  by (simp add: digit_value_def decimal_zeros_def is_digit_def)

lemma digit_value_below: "c < 48 \<Longrightarrow> digit_value c = None"
  by (simp add: digit_value_def decimal_zeros_def)

lemma isdigit_ascii: "s \<noteq> [] \<Longrightarrow> \<forall>c \<in> set s. is_digit c \<Longrightarrow> isdigit s"
  by (auto simp: isdigit_def digit_value_ascii)

lemma int_of_digits_ascii:
  assumes "s \<noteq> []" "\<forall>c \<in> set s. is_digit c" "length s \<le> max_str_digits"
  shows "int_of_digits s = Some (digits_value s)"
proof -
  have "foldl (\<lambda>v c. 10 * v + the (digit_value c)) a s = foldl (\<lambda>v c. 10 * v + (c - 48)) a s" for a
    using assms(2) by (induction s arbitrary: a) (auto simp: digit_value_ascii)
  moreover have "\<not> (\<exists>c \<in> set s. digit_value c = None)" using assms(2) digit_value_ascii by fastforce
  ultimately show ?thesis using assms by (simp add: int_of_digits_def digits_value_def)
qed

lemma int_of_decimal: "length (decimal n) \<le> max_str_digits \<Longrightarrow> int_of_digits (decimal n) = Some n"
  using int_of_digits_ascii[of "decimal n"] decimal_digits by (simp add: decimal_value)

end
