(* ===== verification/Systemd_World.thy ===== *)
theory Systemd_World
  imports Native_Errors Py_Digits
begin

text \<open>
  The world the systemd adapters act on, and computations over it. systemd, the D-Bus connection, the
  clock and the account database are not part of the repository: they are the fields of a \<open>system\<close>
  record, an argument of every definition that uses them, over a state \<open>'m\<close> of their own. The model's
  own state is the directory \<open>/etc/systemd/system\<close> as pwshpy reads, writes and unlinks the regular unit
  files in it (the links systemd itself keeps there are part of \<open>'m\<close>) and the trace of what was done.

  A computation (\<open>io\<close>) may raise; a generator (\<open>gen\<close>) yields records and then returns or raises. The
  predicate \<open>keeps R f\<close> says that \<open>f\<close> relates the world before to the world after by \<open>R\<close>; the locale
  \<open>io_relation\<close> proves once that the combinators keep every reflexive and transitive relation.
\<close>

section \<open>Values, messages, files\<close>

datatype dvalue =
    DStr pystr
  | DBool bool
  | DInt int
  | DArray "dvalue list"
  | DStruct "dvalue list"

datatype manager_method =
    GetUnit | LoadUnit | ListUnits | ListUnitFilesByPatterns | ListUnitFiles | GetUnitFileState
  | StartUnit | StopUnit | RestartUnit | EnableUnitFiles | DisableUnitFiles | Reload

datatype iface = UNIT_IFACE | TIMER_IFACE | SERVICE_IFACE

datatype message =
    ManagerCall manager_method "dvalue list"
  | GetProperty pystr iface pystr

text \<open>A reply: an error with its name (empty when it has none), a body, or a broken connection.\<close>

datatype reply = ErrorReply pystr | BodyReply "dvalue list" | SendFailed

datatype connection = Connected | NoJeepney | ConnectFailed bool

text \<open>The native failures an adapter wraps: an \<open>OSError\<close> (a refusal for lack of rights or another), a
  decoding error, or a pwshpy error it caught.\<close>

datatype native_cause = OsFailure bool | DecodeFailure | NativeCause pwshpy_error

text \<open>What is at a name of a directory: a file whose text can be read, a file or link that cannot.\<close>

datatype unit_file = TextFile pystr | UnreadableFile native_cause | DanglingLink

type_synonym directory = "pystr \<rightharpoonup> unit_file"

datatype event =
    BusOpened | BusClosed | Sent message reply | WroteFile pystr pystr | RemovedFile pystr
  | Warned string pystr | Slept

record 'm world =
  unit_dir :: directory
  outside :: 'm
  trace :: "event list"

text \<open>
  \<open>write_fault\<close> and \<open>unlink_fault\<close> say when writing or unlinking a unit file fails: the cause (denied or
  not) and, for a write, what the failed write leaves at the name. \<open>read_elsewhere\<close> reads a path outside
  the unit directory. \<open>show_value\<close> is \<open>str\<close> of an array or a struct. Times are microseconds.
\<close>

record 'm system =
  connect :: "'m \<Rightarrow> connection"
  respond :: "directory \<Rightarrow> message \<Rightarrow> 'm \<Rightarrow> reply \<times> 'm"
  write_fault :: "pystr \<Rightarrow> pystr \<Rightarrow> 'm \<Rightarrow> (bool \<times> unit_file option) option"
  unlink_fault :: "pystr \<Rightarrow> 'm \<Rightarrow> bool option"
  read_elsewhere :: "pystr \<Rightarrow> 'm \<Rightarrow> unit_file option"
  passwd_uid :: "pystr \<Rightarrow> int option"
  show_value :: "dvalue \<Rightarrow> pystr"
  monotonic :: "'m \<Rightarrow> int"
  sleep_for :: "int \<Rightarrow> 'm \<Rightarrow> 'm"
  pwshpy_version :: pystr

section \<open>Computations\<close>

type_synonym ('m, 'a) io = "'m world \<Rightarrow> 'a res \<times> 'm world"

definition io_return :: "'a \<Rightarrow> ('m, 'a) io" where
  "io_return x w = (Inr x, w)"

definition io_raise :: "pwshpy_error \<Rightarrow> ('m, 'a) io" where
  "io_raise e w = (Inl e, w)"

definition io_lift :: "'a res \<Rightarrow> ('m, 'a) io" where
  "io_lift r w = (r, w)"

definition io_bind :: "('m, 'a) io \<Rightarrow> ('a \<Rightarrow> ('m, 'b) io) \<Rightarrow> ('m, 'b) io" where
  "io_bind m f w = (case m w of (Inl e, w') \<Rightarrow> (Inl e, w') | (Inr x, w') \<Rightarrow> f x w')"

definition io_then :: "('m, 'a) io \<Rightarrow> ('m, 'b) io \<Rightarrow> ('m, 'b) io" where
  "io_then m k = io_bind m (\<lambda>_. k)"

text \<open>\<open>try ... except\<close>: the handler decides, and raises again what it does not handle.\<close>

definition io_catch :: "('m, 'a) io \<Rightarrow> (pwshpy_error \<Rightarrow> ('m, 'a) io) \<Rightarrow> ('m, 'a) io" where
  "io_catch m handler w = (case m w of (Inl e, w') \<Rightarrow> handler e w' | (Inr x, w') \<Rightarrow> (Inr x, w'))"

definition io_finally :: "('m, 'a) io \<Rightarrow> ('m, unit) io \<Rightarrow> ('m, 'a) io" where
  "io_finally m final w = (case m w of (r, w') \<Rightarrow>
     (case final w' of (Inl e, w'') \<Rightarrow> (Inl e, w'') | (Inr _, w'') \<Rightarrow> (r, w'')))"

definition io_reads :: "('m world \<Rightarrow> 'a) \<Rightarrow> ('m, 'a) io" where
  "io_reads f w = (Inr (f w), w)"

definition io_log :: "event \<Rightarrow> ('m, unit) io" where
  "io_log e w = (Inr (), w\<lparr>trace := trace w @ [e]\<rparr>)"

fun io_each :: "('x \<Rightarrow> ('m, unit) io) \<Rightarrow> 'x list \<Rightarrow> ('m, unit) io" where
  "io_each f [] = io_return ()"
| "io_each f (x # xs) = io_then (f x) (io_each f xs)"

section \<open>Generators\<close>

type_synonym ('m, 'y, 'a) gen = "'m world \<Rightarrow> ('y list \<times> 'a res) \<times> 'm world"

definition gen_io :: "('m, 'a) io \<Rightarrow> ('m, 'y, 'a) gen" where
  "gen_io m w = (case m w of (r, w') \<Rightarrow> (([], r), w'))"

definition gen_yield :: "'y list \<Rightarrow> ('m, 'y, unit) gen" where
  "gen_yield ys w = ((ys, Inr ()), w)"

definition gen_bind :: "('m, 'y, 'a) gen \<Rightarrow> ('a \<Rightarrow> ('m, 'y, 'b) gen) \<Rightarrow> ('m, 'y, 'b) gen" where
  "gen_bind g f w = (case g w of
      ((ys, Inl e), w') \<Rightarrow> ((ys, Inl e), w')
    | ((ys, Inr x), w') \<Rightarrow> (case f x w' of ((zs, r), w'') \<Rightarrow> ((ys @ zs, r), w'')))"

definition gen_finally :: "('m, 'y, 'a) gen \<Rightarrow> ('m, unit) io \<Rightarrow> ('m, 'y, 'a) gen" where
  "gen_finally g final w = (case g w of ((ys, r), w') \<Rightarrow>
     (case final w' of (Inl e, w'') \<Rightarrow> ((ys, Inl e), w'') | (Inr _, w'') \<Rightarrow> ((ys, r), w'')))"

text \<open>A \<open>for\<close> loop whose body yields and updates a local state.\<close>

fun gen_loop :: "('x \<Rightarrow> 's \<Rightarrow> ('m, 'y, 's) gen) \<Rightarrow> 'x list \<Rightarrow> 's \<Rightarrow> ('m, 'y, 's) gen" where
  "gen_loop body [] s = gen_io (io_return s)"
| "gen_loop body (x # xs) s = gen_bind (body x s) (gen_loop body xs)"

section \<open>Native errors\<close>

text \<open>The exception behind each cause, as \<open>marshal.native_error\<close> reads it. Here and below the \<open>errno\<close> of the
  raised error is left out: the systemd modules read none.\<close>

fun caught :: "native_cause \<Rightarrow> unit raised" where
  "caught (OsFailure denied) = posix_failure (if denied then 13 else 5)"
| "caught DecodeFailure = (posix_failure 0)\<lparr>class_name := u ''UnicodeDecodeError'', os_error := False\<rparr>"
| "caught (NativeCause e) = (posix_failure 0)\<lparr>class_name := u ''NativeCallError'',
     os_error := catches NativeAccessDeniedError (err_class e), native_call := Some e\<rparr>"

definition native_error :: "string \<Rightarrow> native_cause \<Rightarrow> pwshpy_error" where
  "native_error why cause = pwshpy_error.truncate (wrap_native (\<lambda>_. caught cause) why () NativeCallError)"

lemma not_com_or_psutil:
  "class_module e = u ''builtins'' \<Longrightarrow> \<not> is_com_error e" "class_module e = u ''builtins'' \<Longrightarrow> \<not> is_psutil_denied e"
  by (auto simp: is_com_error_def pywintypes_module_def is_psutil_denied_def u_def)

lemma native_error_simps [simp]:
  "native_error why (OsFailure denied) =
     make_error (if denied then NativeAccessDeniedError else NativeCallError) why"
  "native_error why DecodeFailure = make_error NativeCallError why"
  "native_error why (NativeCause e) =
     (make_error (if catches NativeAccessDeniedError (err_class e) then NativeAccessDeniedError
                  else NativeCallError) why)\<lparr>err_hresult := err_hresult e\<rparr>"
proof -
  show "native_error why (OsFailure denied) =
     make_error (if denied then NativeAccessDeniedError else NativeCallError) why"
    by (simp add: native_error_def wrap_posix_failure denied_errnos_def failure_def make_error_def pwshpy_error.truncate_def)
  let ?d = "caught DecodeFailure"
  have m: "class_module ?d = u ''builtins''" by (simp add: posix_failure_def)
  then have "\<not> is_code_carrier ?d" using not_com_or_psutil[OF m] by (simp add: is_code_carrier_def posix_failure_def)
  moreover from this have "walked_links (\<lambda>_. ?d) () = [()]"
    by (simp add: walked_links_def max_chain_links_def next_link_def posix_failure_def numeral_eq_Suc)
  ultimately show "native_error why DecodeFailure = make_error NativeCallError why"
    using not_com_or_psutil[OF m]
    by (simp add: native_error_def wrap_native_def effective_def judge_no_carrier failure_def make_error_def
        pwshpy_error.truncate_def)
  let ?c = "caught (NativeCause e)"
  have "class_module ?c = u ''builtins''" by (simp add: posix_failure_def)
  moreover have "native_call ?c = Some e" by simp
  ultimately show "native_error why (NativeCause e) =
     (make_error (if catches NativeAccessDeniedError (err_class e) then NativeAccessDeniedError
                  else NativeCallError) why)\<lparr>err_hresult := err_hresult e\<rparr>"
    using wrap_native_call[of "\<lambda>_. ?c" "()" e why] not_com_or_psutil[of ?c]
    by (simp add: native_error_def failure_def make_error_def pwshpy_error.truncate_def)
qed

text \<open>\<open>skip_or_raise\<close>: raise under \<open>strict\<close>, otherwise log a warning and go on.\<close>

definition skip_or_raise :: "string \<Rightarrow> pystr \<Rightarrow> native_cause \<Rightarrow> bool \<Rightarrow> ('m, unit) io" where
  "skip_or_raise what item cause strict =
     (if strict then io_raise (native_error what cause) else io_log (Warned what item))"

section \<open>Reading values\<close>

definition int_of_text :: "pystr \<Rightarrow> int option" where
  "int_of_text s =
     (let t = strip s;
          negative = (t \<noteq> [] \<and> hd t = ch CHR ''-'');
          digits = (if t \<noteq> [] \<and> hd t \<in> set (u ''+-'') then tl t else t);
          groups = split_on (ch CHR ''_'') digits
      in if [] \<in> set groups then None
         else map_option (\<lambda>n. (if negative then -1 else 1) * int n) (int_of_digits (concat groups)))"

fun py_int :: "dvalue \<Rightarrow> int res" where
  "py_int (DInt i) = Inr i"
| "py_int (DBool b) = Inr (if b then 1 else 0)"
| "py_int (DStr s) = (case int_of_text s of Some i \<Rightarrow> Inr i | None \<Rightarrow> raise_error ValueError ''int'')"
| "py_int (DArray vs) = raise_error TypeError ''int''"
| "py_int (DStruct vs) = raise_error TypeError ''int''"

definition int_text :: "int \<Rightarrow> pystr" where
  "int_text i = (if i < 0 then ch CHR ''-'' # decimal (nat (- i)) else decimal (nat i))"

fun py_str :: "'m system \<Rightarrow> dvalue \<Rightarrow> pystr" where
  "py_str sd (DStr s) = s"
| "py_str sd (DInt i) = int_text i"
| "py_str sd (DBool b) = (if b then u ''True'' else u ''False'')"
| "py_str sd v = show_value sd v"

text \<open>Unpacking a one-element body, \<open>(value,) = ...\<close>.\<close>

definition single :: "dvalue list \<Rightarrow> dvalue res" where
  "single body = (case body of [v] \<Rightarrow> Inr v | _ \<Rightarrow> raise_error ValueError ''unpack'')"

fun iterable :: "dvalue \<Rightarrow> dvalue list res" where
  "iterable (DArray vs) = Inr vs"
| "iterable (DStruct vs) = Inr vs"
| "iterable (DStr s) = Inr (map (\<lambda>c. DStr [c]) s)"
| "iterable v = raise_error TypeError ''not iterable''"

definition item :: "dvalue \<Rightarrow> nat \<Rightarrow> dvalue res" where
  "item v i = (case v of
      DArray vs \<Rightarrow> if i < length vs then Inr (vs ! i) else raise_error IndexError ''index''
    | DStruct vs \<Rightarrow> if i < length vs then Inr (vs ! i) else raise_error IndexError ''index''
    | DStr s \<Rightarrow> if i < length s then Inr (DStr [s ! i]) else raise_error IndexError ''index''
    | _ \<Rightarrow> raise_error TypeError ''not subscriptable'')"

section \<open>What a computation keeps\<close>

named_theorems io_keeps

definition keeps :: "('w \<Rightarrow> 'w \<Rightarrow> bool) \<Rightarrow> ('w \<Rightarrow> 'x \<times> 'w) \<Rightarrow> bool" where
  "keeps R f \<longleftrightarrow> (\<forall>w. R w (snd (f w)))"

locale io_relation =
  fixes R :: "'m world \<Rightarrow> 'm world \<Rightarrow> bool"
  assumes refl: "R w w"
    and trans: "R v w \<Longrightarrow> R w x \<Longrightarrow> R v x"
begin

lemma pure: "keeps R (io_return x)" "keeps R (io_raise e)" "keeps R (io_lift r)" "keeps R (io_reads h)"
  by (simp_all add: keeps_def io_return_def io_raise_def io_lift_def io_reads_def refl)

lemma step: "keeps R f \<Longrightarrow> f w = (r, w') \<Longrightarrow> R w w'"
  by (metis keeps_def snd_conv)

lemma step_trans: "keeps R f \<Longrightarrow> f w' = (r, w'') \<Longrightarrow> R w w' \<Longrightarrow> R w w''"
  by (blast intro: trans step)

lemma keepsI: "(\<And>w r w'. f w = (r, w') \<Longrightarrow> R w w') \<Longrightarrow> keeps R f"
  by (simp add: keeps_def) (metis prod.collapse)

lemma bind: "keeps R m \<Longrightarrow> (\<And>x. keeps R (f x)) \<Longrightarrow> keeps R (io_bind m f)"
  by (rule keepsI) (auto simp: io_bind_def split: prod.splits sum.splits intro: step step_trans)

lemma seq: "keeps R m \<Longrightarrow> keeps R k \<Longrightarrow> keeps R (io_then m k)"
  unfolding io_then_def by (rule bind)

lemma catch: "keeps R m \<Longrightarrow> (\<And>e. keeps R (h e)) \<Longrightarrow> keeps R (io_catch m h)"
  by (rule keepsI) (auto simp: io_catch_def split: prod.splits sum.splits intro: step step_trans)

lemma final: "keeps R m \<Longrightarrow> keeps R f \<Longrightarrow> keeps R (io_finally m f)"
  by (rule keepsI) (auto simp: io_finally_def split: prod.splits sum.splits intro: step_trans dest: step)

lemma each: "(\<And>x. keeps R (f x)) \<Longrightarrow> keeps R (io_each f xs)"
  by (induction xs) (simp_all add: pure seq)

lemma gen_pure: "keeps R m \<Longrightarrow> keeps R (gen_io m)" "keeps R (gen_yield ys)"
  by (rule keepsI; auto simp: gen_io_def gen_yield_def refl split: prod.splits intro: step)+

lemma gen_seq: "keeps R g \<Longrightarrow> (\<And>x. keeps R (f x)) \<Longrightarrow> keeps R (gen_bind g f)"
  by (rule keepsI) (auto simp: gen_bind_def split: prod.splits sum.splits intro: step step_trans)

lemma gen_final: "keeps R g \<Longrightarrow> keeps R f \<Longrightarrow> keeps R (gen_finally g f)"
  by (rule keepsI) (auto simp: gen_finally_def split: prod.splits sum.splits intro: step_trans dest: step)

lemma loop: "(\<And>x s. keeps R (body x s)) \<Longrightarrow> keeps R (gen_loop body xs s)"
  by (induction xs arbitrary: s) (simp_all add: gen_pure pure gen_seq)

lemmas combinators = pure bind seq catch final each gen_pure gen_seq gen_final loop

end

text \<open>The relation the properties use: the trace only grows, by allowed events, and only the unit files
  in \<open>units\<close> may change.\<close>

definition confined :: "(event \<Rightarrow> bool) \<Rightarrow> pystr set \<Rightarrow> 'm world \<Rightarrow> 'm world \<Rightarrow> bool" where
  "confined allowed units w w' \<longleftrightarrow>
     (\<forall>name. name \<notin> units \<longrightarrow> unit_dir w' name = unit_dir w name) \<and>
     (\<exists>es. trace w' = trace w @ es \<and> (\<forall>e \<in> set es. allowed e))"

lemma confined_refl: "confined allowed units w w"
  by (simp add: confined_def)

lemma confined_trans:
  "confined allowed units v w \<Longrightarrow> confined allowed units w x \<Longrightarrow> confined allowed units v x"
  by (auto simp: confined_def)

interpretation confined: io_relation "confined allowed units" for allowed units
  by unfold_locales (blast intro: confined_refl confined_trans)+

lemma confined_weaken:
  "confined allowed units w w' \<Longrightarrow> (\<And>e. allowed e \<Longrightarrow> allowed' e) \<Longrightarrow> units \<subseteq> units' \<Longrightarrow>
   confined allowed' units' w w'"
  by (auto simp: confined_def)

lemma keeps_weaken:
  assumes "keeps (confined allowed units) f" "\<And>e. allowed e \<Longrightarrow> allowed' e" "units \<subseteq> units'"
  shows "keeps (confined allowed' units') f"
  unfolding keeps_def
proof
  fix w
  have "confined allowed units w (snd (f w))" using assms(1) by (simp add: keeps_def)
  then show "confined allowed' units' w (snd (f w))"
    by (rule confined_weaken) (use assms(2,3) in auto)
qed

declare confined.combinators [io_keeps]

lemma log_confined [io_keeps]: "allowed e \<Longrightarrow> keeps (confined allowed units) (io_log e)"
  by (auto simp: keeps_def io_log_def confined_def)

lemma if_keeps [io_keeps]:
  "keeps R f \<Longrightarrow> keeps R g \<Longrightarrow> keeps R (if b then f else g)"
  by simp

lemma option_keeps [io_keeps]:
  "keeps R f \<Longrightarrow> (\<And>x. keeps R (g x)) \<Longrightarrow> keeps R (case v of None \<Rightarrow> f | Some x \<Rightarrow> g x)"
  by (cases v) simp_all

lemma prod_keeps [io_keeps]: "(\<And>x y. keeps R (g x y)) \<Longrightarrow> keeps R (case p of (x, y) \<Rightarrow> g x y)"
  by (cases p) simp

lemma skip_or_raise_confined [io_keeps]:
  "(\<And>i. allowed (Warned what i)) \<Longrightarrow> keeps (confined allowed units) (skip_or_raise what which cause strict)"
  by (simp add: skip_or_raise_def io_keeps)

section \<open>Running computations\<close>

lemma io_run [simp]:
  "io_return x w = (Inr x, w)"
  "io_raise e w = (Inl e, w)"
  "io_lift r w = (r, w)"
  "io_reads h w = (Inr (h w), w)"
  by (simp_all add: io_return_def io_raise_def io_lift_def io_reads_def)

lemma io_bind_Inr:
  "io_bind m f w = (Inr y, w'') \<longleftrightarrow> (\<exists>x w'. m w = (Inr x, w') \<and> f x w' = (Inr y, w''))"
  by (auto simp: io_bind_def split: prod.splits sum.splits)

lemma io_then_Inr:
  "io_then m k w = (Inr y, w'') \<longleftrightarrow> (\<exists>x w'. m w = (Inr x, w') \<and> k w' = (Inr y, w''))"
  by (simp add: io_then_def io_bind_Inr)

lemma io_bind_run [simp]:
  "m w = (Inr x, w') \<Longrightarrow> io_bind m f w = f x w'"
  "m w = (Inl e, w') \<Longrightarrow> io_bind m f w = (Inl e, w')"
  by (simp_all add: io_bind_def)

lemma io_then_run [simp]:
  "m w = (Inr x, w') \<Longrightarrow> io_then m k w = k w'"
  "m w = (Inl e, w') \<Longrightarrow> io_then m k w = (Inl e, w')"
  by (simp_all add: io_then_def)

end
