(* ===== verification/Systemd_Dbus.thy ===== *)
theory Systemd_Dbus
  imports Systemd_World Enums
begin

text \<open>
  \<open>adapters/native/systemd_dbus.py\<close> and \<open>dbus_errors.py\<close>: the typed unit states, one Manager call, and
  the lookups and reads the listings and the controllers are made of. A property's default is an
  option: \<open>None\<close> is Python's \<open>None\<close>. Two facts are proved of every function: it only reads
  (\<open>reads\<close>), and a refusal by systemd is never turned into an answer (\<open>honest\<close>).
\<close>

section \<open>States\<close>

datatype load_state =
    Load_Stub | Load_Loaded | Load_Not_Found | Load_Bad_Setting | Load_Error | Load_Merged
  | Load_Masked | Load_Unknown

datatype systemd_active_state =
    Active_Active | Active_Reloading | Active_Inactive | Active_Failed | Active_Activating
  | Active_Deactivating | Active_Maintenance | Active_Refreshing | Active_Unknown

datatype systemd_file_state =
    File_Enabled | File_Enabled_Runtime | File_Linked | File_Linked_Runtime | File_Alias
  | File_Masked | File_Masked_Runtime | File_Static | File_Indirect | File_Disabled
  | File_Generated | File_Transient | File_Bad | File_Empty | File_Unknown

definition load_state_names :: "(pystr \<times> load_state) list" where
  "load_state_names =
     [(u ''stub'', Load_Stub), (u ''loaded'', Load_Loaded), (u ''not-found'', Load_Not_Found),
      (u ''bad-setting'', Load_Bad_Setting), (u ''error'', Load_Error), (u ''merged'', Load_Merged),
      (u ''masked'', Load_Masked), (u ''unknown'', Load_Unknown)]"

definition active_state_names :: "(pystr \<times> systemd_active_state) list" where
  "active_state_names =
     [(u ''active'', Active_Active), (u ''reloading'', Active_Reloading), (u ''inactive'', Active_Inactive),
      (u ''failed'', Active_Failed), (u ''activating'', Active_Activating),
      (u ''deactivating'', Active_Deactivating), (u ''maintenance'', Active_Maintenance),
      (u ''refreshing'', Active_Refreshing), (u ''unknown'', Active_Unknown)]"

definition unit_file_state_names :: "(pystr \<times> systemd_file_state) list" where
  "unit_file_state_names =
     [(u ''enabled'', File_Enabled), (u ''enabled-runtime'', File_Enabled_Runtime), (u ''linked'', File_Linked),
      (u ''linked-runtime'', File_Linked_Runtime), (u ''alias'', File_Alias), (u ''masked'', File_Masked),
      (u ''masked-runtime'', File_Masked_Runtime), (u ''static'', File_Static), (u ''indirect'', File_Indirect),
      (u ''disabled'', File_Disabled), (u ''generated'', File_Generated), (u ''transient'', File_Transient),
      (u ''bad'', File_Bad), ([], File_Empty), (u ''unknown'', File_Unknown)]"

text \<open>The enum call: the member with that value, else the one \<open>_missing_\<close> returns.\<close>

definition load_state_of :: "pystr \<Rightarrow> load_state" where
  "load_state_of = parse_enum load_state_names Load_Unknown"

definition active_state_of :: "pystr \<Rightarrow> systemd_active_state" where
  "active_state_of = parse_enum active_state_names Active_Unknown"

definition unit_file_state_of :: "pystr \<Rightarrow> systemd_file_state" where
  "unit_file_state_of = parse_enum unit_file_state_names File_Unknown"

definition unlisted_load_states :: "load_state set" where
  "unlisted_load_states = {Load_Not_Found, Load_Masked}"

definition running_active_states :: "systemd_active_state set" where
  "running_active_states = {Active_Active, Active_Activating, Active_Deactivating, Active_Reloading}"

definition unlisted_file_states :: "systemd_file_state set" where
  "unlisted_file_states = {File_Masked, File_Masked_Runtime, File_Alias}"

definition is_unlisted_unit :: "load_state \<Rightarrow> systemd_active_state \<Rightarrow> bool" where
  "is_unlisted_unit load active \<longleftrightarrow> load \<in> unlisted_load_states \<and> active \<notin> running_active_states"

section \<open>The bus\<close>

definition denied_error_names :: "pystr set" where
  "denied_error_names = {u ''org.freedesktop.DBus.Error.AccessDenied'',
     u ''org.freedesktop.DBus.Error.InteractiveAuthorizationRequired''}"

definition no_such_unit :: pystr where
  "no_such_unit = u ''org.freedesktop.systemd1.NoSuchUnit''"

definition reply_error :: "string \<Rightarrow> pystr \<Rightarrow> pwshpy_error" where
  "reply_error what name =
     (make_error (if name \<in> denied_error_names then NativeAccessDeniedError else NativeCallError) what)
       \<lparr>dbus_error_name := (if name = [] then None else Some name)\<rparr>"

definition open_bus :: "'m system \<Rightarrow> ('m, unit) io" where
  "open_bus sd = io_bind (io_reads (\<lambda>w. connect sd (outside w))) (\<lambda>c. case c of
      NoJeepney \<Rightarrow> io_raise (make_error PlatformUnsupportedError ''jeepney'')
    | ConnectFailed denied \<Rightarrow> io_raise (native_error ''cannot connect to the system D-Bus'' (OsFailure denied))
    | Connected \<Rightarrow> io_log BusOpened)"

definition close_bus :: "('m, unit) io" where
  "close_bus = io_log BusClosed"

text \<open>\<open>send_and_get_reply\<close>; a broken connection raises out of it.\<close>

definition send :: "'m system \<Rightarrow> message \<Rightarrow> ('m, reply) io" where
  "send sd msg w = (case respond sd (unit_dir w) msg (outside w) of (r, m') \<Rightarrow>
     (case r of SendFailed \<Rightarrow> Inl (make_error OSError ''connection'') | _ \<Rightarrow> Inr r,
      w\<lparr>outside := m', trace := trace w @ [Sent msg r]\<rparr>))"

definition call :: "'m system \<Rightarrow> manager_method \<Rightarrow> dvalue list \<Rightarrow> ('m, dvalue list) io" where
  "call sd method body = io_bind (send sd (ManagerCall method body)) (\<lambda>r. case r of
      ErrorReply name \<Rightarrow> io_raise (reply_error ''systemd call'' name)
    | BodyReply values \<Rightarrow> io_return values
    | SendFailed \<Rightarrow> io_raise (make_error OSError ''connection''))"

text \<open>A call whose body is one value, \<open>(value,) = call(...)\<close>.\<close>

definition call_one :: "'m system \<Rightarrow> manager_method \<Rightarrow> dvalue list \<Rightarrow> ('m, dvalue) io" where
  "call_one sd method body = io_bind (call sd method body) (\<lambda>values. io_lift (single values))"

section \<open>Lookups and reads\<close>

definition unit_path :: "'m system \<Rightarrow> pystr \<Rightarrow> ('m, pystr option) io" where
  "unit_path sd name =
     io_catch (io_bind (call_one sd GetUnit [DStr name]) (\<lambda>path. io_return (Some (py_str sd path))))
       (\<lambda>e. if catches NativeCallError (err_class e) \<and> dbus_error_name e = Some no_such_unit
            then io_return None else io_raise e)"

record listed_unit =
  lu_name :: pystr
  lu_description :: pystr
  lu_load_state :: load_state
  lu_active_state :: systemd_active_state
  lu_path :: pystr

definition listed_unit_of :: "'m system \<Rightarrow> dvalue \<Rightarrow> listed_unit res" where
  "listed_unit_of sd entry =
     and_then (item entry 0) (\<lambda>name. and_then (item entry 1) (\<lambda>description.
     and_then (item entry 2) (\<lambda>load. and_then (item entry 3) (\<lambda>active.
     and_then (item entry 6) (\<lambda>path. Inr
       \<lparr>lu_name = py_str sd name, lu_description = py_str sd description,
        lu_load_state = load_state_of (py_str sd load), lu_active_state = active_state_of (py_str sd active),
        lu_path = py_str sd path\<rparr>)))))"

definition list_units :: "'m system \<Rightarrow> ('m, listed_unit list) io" where
  "list_units sd = io_bind (call_one sd ListUnits []) (\<lambda>units.
     io_lift (and_then (iterable units) (map_res (listed_unit_of sd))))"

definition property_value :: "dvalue list \<Rightarrow> dvalue res" where
  "property_value body = (case body of
      [] \<Rightarrow> raise_error IndexError ''body''
    | DStruct vs # _ \<Rightarrow> if vs = [] then raise_error IndexError ''variant'' else Inr (last vs)
    | v # _ \<Rightarrow> Inr v)"

definition path_property ::
    "'m system \<Rightarrow> pystr option \<Rightarrow> pystr \<Rightarrow> iface \<Rightarrow> dvalue option \<Rightarrow> ('m, dvalue option) io" where
  "path_property sd path prop interface fallback = (case path of
      None \<Rightarrow> io_return fallback
    | Some p \<Rightarrow> io_bind (send sd (GetProperty p interface prop)) (\<lambda>r. case r of
        ErrorReply name \<Rightarrow>
          (let error = reply_error ''systemd Get'' name
           in if catches NativeAccessDeniedError (err_class error) then io_raise error else io_return fallback)
      | BodyReply body \<Rightarrow> io_lift (map_sum id Some (property_value body))
      | SendFailed \<Rightarrow> io_raise (make_error OSError ''connection'')))"

definition live_property :: "'m system \<Rightarrow> pystr option \<Rightarrow> pystr \<Rightarrow> dvalue \<Rightarrow> ('m, dvalue) io" where
  "live_property sd path prop fallback = (case path of
      None \<Rightarrow> io_return fallback
    | Some p \<Rightarrow> io_bind (send sd (GetProperty p UNIT_IFACE prop)) (\<lambda>r. case r of
        ErrorReply name \<Rightarrow> io_raise (reply_error ''systemd Get'' name)
      | BodyReply body \<Rightarrow> io_lift (property_value body)
      | SendFailed \<Rightarrow> io_raise (make_error OSError ''connection'')))"

text \<open>\<open>str\<close> of what a read with a text default returns.\<close>

definition text_property ::
    "'m system \<Rightarrow> pystr option \<Rightarrow> pystr \<Rightarrow> iface \<Rightarrow> pystr \<Rightarrow> ('m, pystr) io" where
  "text_property sd path prop interface fallback =
     io_bind (path_property sd path prop interface (Some (DStr fallback)))
       (\<lambda>v. io_return (case v of Some x \<Rightarrow> py_str sd x | None \<Rightarrow> u ''None''))"

definition unit_property ::
    "'m system \<Rightarrow> pystr \<Rightarrow> pystr \<Rightarrow> iface \<Rightarrow> dvalue option \<Rightarrow> ('m, dvalue option) io" where
  "unit_property sd name prop interface fallback =
     io_bind (unit_path sd name) (\<lambda>path. path_property sd path prop interface fallback)"

record loaded_unit =
  ld_path :: pystr
  ld_state :: load_state

definition load_unit_state :: "'m system \<Rightarrow> pystr \<Rightarrow> ('m, loaded_unit option) io" where
  "load_unit_state sd name =
     io_bind (call_one sd LoadUnit [DStr name]) (\<lambda>path.
       (let resolved = py_str sd path in
        io_bind (path_property sd (Some resolved) (u ''LoadState'') UNIT_IFACE None) (\<lambda>load. case load of
            None \<Rightarrow> io_raise (make_error NativeCallError ''cannot read the LoadState'')
          | Some v \<Rightarrow> (let state = load_state_of (py_str sd v) in
              io_return (if state = Load_Not_Found then None
                         else Some \<lparr>ld_path = resolved, ld_state = state\<rparr>)))))"

definition load_unit :: "'m system \<Rightarrow> pystr \<Rightarrow> ('m, pystr option) io" where
  "load_unit sd name =
     io_bind (load_unit_state sd name) (\<lambda>loaded. io_return (map_option ld_path loaded))"

definition load_unit_path :: "'m system \<Rightarrow> pystr \<Rightarrow> ('m, pystr option) io" where
  "load_unit_path sd name = io_catch (load_unit sd name)
     (\<lambda>e. if catches NativeAccessDeniedError (err_class e) then io_raise e
          else if catches NativeCallError (err_class e) then io_return None else io_raise e)"

definition file_name_of :: "pystr \<Rightarrow> pystr" where
  "file_name_of path = last (split_on (ch CHR ''/'') path)"

text \<open>One \<open>(path, state)\<close> entry of the unit-file reply.\<close>

definition unit_file_of :: "'m system \<Rightarrow> dvalue \<Rightarrow> (pystr \<times> systemd_file_state) res" where
  "unit_file_of sd entry = and_then (iterable entry) (\<lambda>fields. case fields of
      [path, state] \<Rightarrow> Inr (file_name_of (py_str sd path), unit_file_state_of (py_str sd state))
    | _ \<Rightarrow> raise_error ValueError ''unpack'')"

definition unit_files :: "'m system \<Rightarrow> pystr \<Rightarrow> ('m, (pystr \<times> systemd_file_state) list) io" where
  "unit_files sd ending =
     io_bind
       (io_catch (call_one sd ListUnitFilesByPatterns [DArray [], DArray [DStr (u ''*'' @ ending)]])
         (\<lambda>e. if catches NativeCallError (err_class e) then call_one sd ListUnitFiles [] else io_raise e))
       (\<lambda>files. io_lift (and_then (iterable files) (\<lambda>entries.
          and_then (map_res (unit_file_of sd) entries) (\<lambda>named.
            Inr (filter (\<lambda>(name, _). endswith name ending \<and> \<not> endswith name (u ''@'' @ ending)) named)))))"

definition path_active_state :: "'m system \<Rightarrow> pystr option \<Rightarrow> ('m, systemd_active_state) io" where
  "path_active_state sd path =
     io_bind (text_property sd path (u ''ActiveState'') UNIT_IFACE (u ''inactive''))
       (\<lambda>text. io_return (active_state_of text))"

definition live_active_state :: "'m system \<Rightarrow> pystr option \<Rightarrow> ('m, systemd_active_state) io" where
  "live_active_state sd path =
     io_bind (live_property sd path (u ''ActiveState'') (DStr (u ''inactive'')))
       (\<lambda>v. io_return (active_state_of (py_str sd v)))"

definition active_state :: "'m system \<Rightarrow> pystr \<Rightarrow> ('m, systemd_active_state) io" where
  "active_state sd name = io_bind (unit_path sd name) (live_active_state sd)"

definition no_job :: dvalue where "no_job = DStruct [DInt 0, DStr (u ''/'')]"

definition has_pending_job :: "'m system \<Rightarrow> pystr \<Rightarrow> ('m, bool) io" where
  "has_pending_job sd name =
     io_bind (unit_path sd name) (\<lambda>path. io_bind (live_property sd path (u ''Job'') no_job) (\<lambda>job. case job of
         DStruct (first # _) \<Rightarrow> io_bind (io_lift (py_int first)) (\<lambda>i. io_return (i \<noteq> 0))
       | _ \<Rightarrow> io_return False))"

definition no_unit_file_names :: "pystr set" where
  "no_unit_file_names = {u ''org.freedesktop.DBus.Error.FileNotFound'', u ''org.freedesktop.DBus.Error.InvalidArgs''}"

definition unit_file_state :: "'m system \<Rightarrow> pystr \<Rightarrow> ('m, systemd_file_state option) io" where
  "unit_file_state sd name = io_catch
     (io_bind (call_one sd GetUnitFileState [DStr name]) (\<lambda>s. io_return (Some (unit_file_state_of (py_str sd s)))))
     (\<lambda>e. if catches NativeAccessDeniedError (err_class e) then io_raise e
          else if catches NativeCallError (err_class e) then io_return None else io_raise e)"

definition live_unit_file_state :: "'m system \<Rightarrow> pystr \<Rightarrow> ('m, systemd_file_state option) io" where
  "live_unit_file_state sd name = io_catch
     (io_bind (call_one sd GetUnitFileState [DStr name]) (\<lambda>s. io_return (Some (unit_file_state_of (py_str sd s)))))
     (\<lambda>e. if catches NativeCallError (err_class e) \<and>
             (case dbus_error_name e of None \<Rightarrow> False | Some n \<Rightarrow> n \<in> no_unit_file_names)
          then io_return None else io_raise e)"

section \<open>Every lookup only reads\<close>

fun read_message :: "message \<Rightarrow> bool" where
  "read_message (ManagerCall method _) \<longleftrightarrow>
     method \<in> {GetUnit, LoadUnit, ListUnits, ListUnitFilesByPatterns, ListUnitFiles, GetUnitFileState}"
| "read_message (GetProperty _ _ _) \<longleftrightarrow> True"

definition read_event :: "event \<Rightarrow> bool" where
  "read_event e \<longleftrightarrow> (case e of Sent m _ \<Rightarrow> read_message m | _ \<Rightarrow> False)"

definition reads :: "('m world \<Rightarrow> 'x \<times> 'm world) \<Rightarrow> bool" where
  "reads f \<longleftrightarrow> keeps (confined read_event {}) f"

lemma send_confined [io_keeps]:
  "(\<And>r. allowed (Sent msg r)) \<Longrightarrow> keeps (confined allowed units) (send sd msg)"
  by (auto simp: keeps_def send_def confined_def split: prod.splits)

lemma reply_keeps [io_keeps]:
  assumes "\<And>n. keeps R (f n)" "\<And>b. keeps R (g b)" "keeps R h"
  shows "keeps R (case r of ErrorReply n \<Rightarrow> f n | BodyReply b \<Rightarrow> g b | SendFailed \<Rightarrow> h)"
  using assms by (cases r) simp_all

lemma dvalue_keeps [io_keeps]:
  assumes "\<And>x xs. keeps R (f x xs)" "keeps R g"
  shows "keeps R (case v of DStruct (x # xs) \<Rightarrow> f x xs | _ \<Rightarrow> g)"
  using assms by (auto split: dvalue.splits list.splits)

lemma connection_keeps [io_keeps]:
  assumes "keeps R f" "keeps R g" "\<And>d. keeps R (h d)"
  shows "keeps R (case c of Connected \<Rightarrow> f | NoJeepney \<Rightarrow> g | ConnectFailed d \<Rightarrow> h d)"
  using assms by (cases c) simp_all

lemma call_confined [io_keeps]:
  "(\<And>r. allowed (Sent (ManagerCall method body) r)) \<Longrightarrow> keeps (confined allowed units) (call sd method body)"
  unfolding call_def by (intro io_keeps) auto

lemma call_one_confined [io_keeps]:
  "(\<And>r. allowed (Sent (ManagerCall method body) r)) \<Longrightarrow> keeps (confined allowed units) (call_one sd method body)"
  unfolding call_one_def by (intro io_keeps)

lemma open_bus_confined [io_keeps]: "allowed BusOpened \<Longrightarrow> keeps (confined allowed units) (open_bus sd)"
  unfolding open_bus_def by (intro io_keeps)

lemma close_bus_confined [io_keeps]: "allowed BusClosed \<Longrightarrow> keeps (confined allowed units) close_bus"
  unfolding close_bus_def by (intro io_keeps)

text \<open>A lookup is confined to read events, whatever else is allowed.\<close>

named_theorems io_lookups

definition lookup :: "('m world \<Rightarrow> 'x \<times> 'm world) \<Rightarrow> bool" where
  "lookup f \<longleftrightarrow> (\<forall>allowed units. (\<forall>e. read_event e \<longrightarrow> allowed e) \<longrightarrow> keeps (confined allowed units) f)"

lemma lookup_reads: "lookup f \<longleftrightarrow> reads f"
  by (auto simp: lookup_def reads_def intro: keeps_weaken)

lemma lookup_confined: "lookup f \<Longrightarrow> (\<And>e. read_event e \<Longrightarrow> allowed e) \<Longrightarrow> keeps (confined allowed units) f"
  by (simp add: lookup_def)

lemma path_property_lookup [io_lookups]: "lookup (path_property sd path prop interface fallback)"
  unfolding lookup_def path_property_def Let_def
  by (intro allI impI io_keeps) (auto simp: read_event_def)

lemma live_property_lookup [io_lookups]: "lookup (live_property sd path prop fallback)"
  unfolding lookup_def live_property_def
  by (intro allI impI io_keeps) (auto simp: read_event_def)

lemma call_one_lookup [io_lookups]: "read_message (ManagerCall method body) \<Longrightarrow> lookup (call_one sd method body)"
  unfolding lookup_def
  by (intro allI impI io_keeps) (auto simp: read_event_def)

lemma lookup_bind [io_lookups]: "lookup m \<Longrightarrow> (\<And>x. lookup (f x)) \<Longrightarrow> lookup (io_bind m f)"
  unfolding lookup_def by (blast intro: io_keeps)

lemma lookup_then [io_lookups]: "lookup m \<Longrightarrow> lookup k \<Longrightarrow> lookup (io_then m k)"
  unfolding lookup_def by (blast intro: io_keeps)

lemma lookup_catch [io_lookups]: "lookup m \<Longrightarrow> (\<And>e. lookup (h e)) \<Longrightarrow> lookup (io_catch m h)"
  unfolding lookup_def by (blast intro: io_keeps)

lemma lookup_pure [io_lookups]:
  "lookup (io_return x)" "lookup (io_raise e)" "lookup (io_lift r)" "lookup (io_reads h)"
  unfolding lookup_def by (blast intro: io_keeps)+

lemma lookup_if [io_lookups]: "lookup f \<Longrightarrow> lookup g \<Longrightarrow> lookup (if b then f else g)"
  by simp

lemma lookup_option [io_lookups]:
  "lookup f \<Longrightarrow> (\<And>x. lookup (g x)) \<Longrightarrow> lookup (case v of None \<Rightarrow> f | Some x \<Rightarrow> g x)"
  by (cases v) simp_all

lemma lookup_dvalue [io_lookups]:
  "(\<And>x xs. lookup (f x xs)) \<Longrightarrow> lookup g \<Longrightarrow> lookup (case v of DStruct (x # xs) \<Rightarrow> f x xs | _ \<Rightarrow> g)"
  by (auto split: dvalue.splits list.splits)

lemma dbus_lookups [io_lookups]:
  "lookup (unit_path sd name)"
  "lookup (list_units sd)"
  "lookup (text_property sd path prop interface text)"
  "lookup (unit_property sd name prop interface fallback)"
  "lookup (load_unit_state sd name)"
  "lookup (load_unit sd name)"
  "lookup (load_unit_path sd name)"
  "lookup (unit_files sd ending)"
  "lookup (path_active_state sd path)"
  "lookup (live_active_state sd path)"
  "lookup (active_state sd name)"
  "lookup (has_pending_job sd name)"
  "lookup (unit_file_state sd name)"
  "lookup (live_unit_file_state sd name)"
  unfolding unit_path_def list_units_def text_property_def unit_property_def load_unit_def load_unit_path_def
    load_unit_state_def unit_files_def path_active_state_def live_active_state_def active_state_def
    has_pending_job_def unit_file_state_def live_unit_file_state_def Let_def
  by (intro io_lookups; simp; fail)+

section \<open>A refusal is never an answer\<close>

text \<open>When systemd refused one of the calls of a computation, the computation raises the refusal.\<close>

definition denied_event :: "event \<Rightarrow> bool" where
  "denied_event e \<longleftrightarrow> (case e of Sent _ (ErrorReply name) \<Rightarrow> name \<in> denied_error_names | _ \<Rightarrow> False)"

definition refusal :: "pwshpy_error \<Rightarrow> bool" where
  "refusal x \<longleftrightarrow> err_class x = NativeAccessDeniedError \<and>
     (\<exists>name \<in> denied_error_names. dbus_error_name x = Some name)"

definition honest :: "('m, 'a) io \<Rightarrow> bool" where
  "honest m \<longleftrightarrow> (\<forall>w r w'. m w = (r, w') \<longrightarrow>
     (\<exists>es. trace w' = trace w @ es \<and>
        ((\<exists>e \<in> set es. denied_event e) \<longrightarrow> (\<exists>x. r = Inl x \<and> refusal x))))"

named_theorems io_honest

lemma honestI:
  assumes "\<And>w r w'. m w = (r, w') \<Longrightarrow> \<exists>es. trace w' = trace w @ es \<and>
        ((\<exists>e \<in> set es. denied_event e) \<longrightarrow> (\<exists>x. r = Inl x \<and> refusal x))"
  shows "honest m"
  using assms by (simp add: honest_def)

lemma honestE:
  assumes "honest m" "m w = (r, w')"
  obtains es where "trace w' = trace w @ es"
    "(\<exists>e \<in> set es. denied_event e) \<longrightarrow> (\<exists>x. r = Inl x \<and> refusal x)"
  using assms unfolding honest_def by blast

lemma honest_pure [io_honest]:
  "honest (io_return x)" "honest (io_raise e)" "honest (io_lift r)" "honest (io_reads h)"
  by (auto simp: honest_def)

lemma honest_bind [io_honest]:
  assumes "honest m" "\<And>x. honest (f x)"
  shows "honest (io_bind m f)"
proof (rule honestI)
  fix w r w'' assume run: "io_bind m f w = (r, w'')"
  obtain r1 w1 where m: "m w = (r1, w1)" by fastforce
  from honestE[OF assms(1) m] obtain es where es: "trace w1 = trace w @ es"
    "(\<exists>e \<in> set es. denied_event e) \<longrightarrow> (\<exists>x. r1 = Inl x \<and> refusal x)" .
  show "\<exists>es. trace w'' = trace w @ es \<and>
      ((\<exists>e \<in> set es. denied_event e) \<longrightarrow> (\<exists>x. r = Inl x \<and> refusal x))"
  proof (cases r1)
    case (Inl e)
    with run m es show ?thesis by auto
  next
    case (Inr x)
    with run m have "f x w1 = (r, w'')" by simp
    from honestE[OF assms(2) this] obtain es' where "trace w'' = trace w1 @ es'"
      "(\<exists>e \<in> set es'. denied_event e) \<longrightarrow> (\<exists>x. r = Inl x \<and> refusal x)" .
    with es Inr show ?thesis by auto
  qed
qed

lemma honest_catch [io_honest]:
  assumes "honest m" "\<And>x. refusal x \<Longrightarrow> h x = io_raise x"
    "\<And>x. \<not> refusal x \<Longrightarrow> honest (h x)"
  shows "honest (io_catch m h)"
proof (rule honestI)
  fix w r w'' assume run: "io_catch m h w = (r, w'')"
  obtain r1 w1 where m: "m w = (r1, w1)" by fastforce
  from honestE[OF assms(1) m] obtain es where es: "trace w1 = trace w @ es"
    "(\<exists>e \<in> set es. denied_event e) \<longrightarrow> (\<exists>x. r1 = Inl x \<and> refusal x)" .
  show "\<exists>es. trace w'' = trace w @ es \<and>
      ((\<exists>e \<in> set es. denied_event e) \<longrightarrow> (\<exists>x. r = Inl x \<and> refusal x))"
  proof (cases "\<exists>e. r1 = Inl e \<and> \<not> refusal e")
    case True
    then obtain e where e: "r1 = Inl e" "\<not> refusal e" by blast
    with run m have "h e w1 = (r, w'')" by (simp add: io_catch_def)
    from honestE[OF assms(3)[OF e(2)] this] obtain es' where "trace w'' = trace w1 @ es'"
      "(\<exists>e \<in> set es'. denied_event e) \<longrightarrow> (\<exists>x. r = Inl x \<and> refusal x)" .
    with es e show ?thesis by auto
  next
    case False
    with run m assms(2) have "r = r1 \<and> w'' = w1"
      by (cases r1) (auto simp: io_catch_def)
    with es show ?thesis by auto
  qed
qed

lemma honest_option [io_honest]:
  "honest f \<Longrightarrow> (\<And>x. honest (g x)) \<Longrightarrow> honest (case v of None \<Rightarrow> f | Some x \<Rightarrow> g x)"
  by (cases v) simp_all

lemma honest_dvalue [io_honest]:
  "(\<And>x xs. honest (f x xs)) \<Longrightarrow> honest g \<Longrightarrow> honest (case v of DStruct (x # xs) \<Rightarrow> f x xs | _ \<Rightarrow> g)"
  by (auto split: dvalue.splits list.splits)

lemma send_then_honest:
  assumes "\<And>name. name \<notin> denied_error_names \<Longrightarrow> honest (f (ErrorReply name))"
    "\<And>body. honest (f (BodyReply body))"
    "\<And>name. name \<in> denied_error_names \<Longrightarrow>
       \<exists>x. f (ErrorReply name) = io_raise x \<and> refusal x"
  shows "honest (io_bind (send sd msg) f)"
proof (rule honestI)
  fix w r w'' assume run: "io_bind (send sd msg) f w = (r, w'')"
  obtain a m' where a: "respond sd (unit_dir w) msg (outside w) = (a, m')" by fastforce
  define w1 where "w1 = w\<lparr>outside := m', trace := trace w @ [Sent msg a]\<rparr>"
  have t: "trace w1 = trace w @ [Sent msg a]" by (simp add: w1_def)
  show "\<exists>es. trace w'' = trace w @ es \<and>
      ((\<exists>e \<in> set es. denied_event e) \<longrightarrow> (\<exists>x. r = Inl x \<and> refusal x))"
  proof (cases "(\<exists>name. a = ErrorReply name \<and> name \<in> denied_error_names) \<or> a = SendFailed")
    case True
    then show ?thesis
    proof
      assume "\<exists>name. a = ErrorReply name \<and> name \<in> denied_error_names"
      then obtain x where x: "f a = io_raise x" "refusal x" and "a \<noteq> SendFailed" using assms(3) by auto
      with run a have "r = Inl x" "w'' = w1" by (auto simp: io_bind_def send_def w1_def split: reply.splits)
      with x t show ?thesis by auto
    next
      assume "a = SendFailed"
      with run a have "w'' = w1" by (auto simp: io_bind_def send_def w1_def)
      with t \<open>a = SendFailed\<close> show ?thesis by (auto simp: denied_event_def)
    qed
  next
    case False
    with run a have "f a w1 = (r, w'')" by (cases a) (auto simp: io_bind_def send_def w1_def)
    moreover have "honest (f a)" using False assms(1,2) by (cases a) auto
    ultimately obtain es' where "trace w'' = trace w1 @ es'"
      "(\<exists>e \<in> set es'. denied_event e) \<longrightarrow> (\<exists>x. r = Inl x \<and> refusal x)"
      using honestE by blast
    moreover have "\<not> denied_event (Sent msg a)" using False by (auto simp: denied_event_def split: reply.splits)
    ultimately show ?thesis using t by auto
  qed
qed

lemma denied_names_not_empty: "[] \<notin> denied_error_names"
  by (simp add: denied_error_names_def u_def)

lemma reply_error_refusal:
  "name \<in> denied_error_names \<Longrightarrow> refusal (reply_error what name)"
  using denied_names_not_empty by (auto simp: reply_error_def refusal_def)

lemma reply_error_class:
  "err_class (reply_error what name) =
     (if name \<in> denied_error_names then NativeAccessDeniedError else NativeCallError)"
  by (simp add: reply_error_def)

text \<open>The names a handler answers for are none of the refusals' names.\<close>

lemma answered_names:
  "no_such_unit \<notin> denied_error_names" "name \<in> no_unit_file_names \<Longrightarrow> name \<notin> denied_error_names"
  by (auto simp: no_such_unit_def denied_error_names_def no_unit_file_names_def u_def)

lemma refusal_caught:
  "refusal x \<Longrightarrow> catches NativeAccessDeniedError (err_class x)"
  "refusal x \<Longrightarrow> dbus_error_name x \<noteq> Some no_such_unit"
  "refusal x \<Longrightarrow> \<not> (case dbus_error_name x of None \<Rightarrow> False | Some n \<Rightarrow> n \<in> no_unit_file_names)"
  using answered_names by (auto simp: refusal_def catches_NativeAccessDeniedError)

lemma call_honest [io_honest]: "honest (call sd method body)"
  unfolding call_def by (rule send_then_honest) (auto simp: io_honest reply_error_refusal)

lemma call_one_honest [io_honest]: "honest (call_one sd method body)"
  unfolding call_one_def by (intro io_honest)

lemma path_property_honest [io_honest]: "honest (path_property sd path prop interface fallback)"
  unfolding path_property_def
  by (intro io_honest send_then_honest)
    (auto simp: io_honest reply_error_class reply_error_refusal catches_NativeAccessDeniedError)

lemma live_property_honest [io_honest]: "honest (live_property sd path prop fallback)"
  unfolding live_property_def
  by (intro io_honest send_then_honest) (auto simp: io_honest reply_error_refusal)

lemma unit_path_honest [io_honest]: "honest (unit_path sd name)"
  unfolding unit_path_def
  by (rule honest_catch) (auto intro!: io_honest simp: refusal_caught)

lemma list_units_honest [io_honest]: "honest (list_units sd)"
  unfolding list_units_def by (intro io_honest)

lemma text_property_honest [io_honest]: "honest (text_property sd path prop interface text)"
  unfolding text_property_def by (intro io_honest)

lemma unit_property_honest [io_honest]: "honest (unit_property sd name prop interface fallback)"
  unfolding unit_property_def by (intro io_honest)

lemma load_unit_state_honest [io_honest]: "honest (load_unit_state sd name)"
  unfolding load_unit_state_def Let_def by (intro io_honest)

lemma load_unit_honest [io_honest]: "honest (load_unit sd name)"
  unfolding load_unit_def by (intro io_honest)

lemma load_unit_path_honest [io_honest]: "honest (load_unit_path sd name)"
  unfolding load_unit_path_def
  by (rule honest_catch) (auto intro: io_honest simp: refusal_caught)

lemma active_state_honest [io_honest]:
  "honest (path_active_state sd path)" "honest (live_active_state sd path)" "honest (active_state sd name)"
  unfolding path_active_state_def live_active_state_def active_state_def by (intro io_honest)+

lemma has_pending_job_honest [io_honest]: "honest (has_pending_job sd name)"
  unfolding has_pending_job_def by (intro io_honest)

lemma unit_file_state_honest [io_honest]: "honest (unit_file_state sd name)"
  unfolding unit_file_state_def
  by (rule honest_catch) (auto intro!: io_honest simp: refusal_caught)

lemma live_unit_file_state_honest [io_honest]: "honest (live_unit_file_state sd name)"
  unfolding live_unit_file_state_def
  by (rule honest_catch) (auto intro!: io_honest simp: refusal_caught)

end
