(* ===== verification/Systemd_Units.thy ===== *)
theory Systemd_Units
  imports Scheduling Systemd_Dbus
begin

text \<open>
  The pure part of \<open>adapters/native/systemd_timers.py\<close>: the mappings from systemd's values to a task
  record, the names of units, and the text of the unit files pwshpy writes. A regular expression is
  written out as the recogniser it denotes; a \<open>datetime\<close> is its microseconds from the epoch.
\<close>

section \<open>States\<close>

definition timer_states :: "(systemd_active_state \<times> task_state) list" where
  "timer_states =
     [(Active_Active, Task_Ready), (Active_Activating, Task_Queued), (Active_Inactive, Task_Disabled),
      (Active_Deactivating, Task_Disabled), (Active_Failed, Task_Disabled)]"

definition enabled_file_states :: "systemd_file_state set" where
  "enabled_file_states = {File_Enabled, File_Enabled_Runtime, File_Static}"

definition service_running_states :: "systemd_active_state set" where
  "service_running_states = {Active_Active, Active_Activating}"

definition timer_to_task_state :: "systemd_active_state \<Rightarrow> task_state" where
  "timer_to_task_state active = (case map_of timer_states active of Some s \<Rightarrow> s | None \<Rightarrow> Task_Unknown)"

definition timer_enabled :: "systemd_file_state \<Rightarrow> bool" where
  "timer_enabled state \<longleftrightarrow> state \<in> enabled_file_states"

definition timer_task_state :: "systemd_active_state \<Rightarrow> bool \<Rightarrow> task_state" where
  "timer_task_state active enabled =
     (if active = Active_Inactive \<and> enabled then Task_Ready else timer_to_task_state active)"

datatype timer_base =
    On_Active | On_Boot | On_Startup | On_Unit_Active | On_Unit_Inactive | On_Unknown

definition timer_base_names :: "(pystr \<times> timer_base) list" where
  "timer_base_names =
     [(u ''OnActiveUSec'', On_Active), (u ''OnBootUSec'', On_Boot), (u ''OnStartupUSec'', On_Startup),
      (u ''OnUnitActiveUSec'', On_Unit_Active), (u ''OnUnitInactiveUSec'', On_Unit_Inactive),
      (u ''unknown'', On_Unknown)]"

definition timer_base_of :: "pystr \<Rightarrow> timer_base" where
  "timer_base_of = parse_enum timer_base_names On_Unknown"

definition boot_relative :: "timer_base set" where
  "boot_relative = {On_Boot, On_Startup}"

definition starts_when_armed :: "timer_base list \<Rightarrow> bool" where
  "starts_when_armed bases \<longleftrightarrow> boot_relative \<inter> set bases = {}"

definition service_task_state :: "systemd_active_state \<Rightarrow> task_state" where
  "service_task_state active = (if active \<in> service_running_states then Task_Running else Task_Ready)"

section \<open>Run information\<close>

definition usec_infinity :: int where "usec_infinity = 2 ^ 64 - 1"

text \<open>\<open>_EPOCH + timedelta(microseconds=value)\<close>: the last instant a \<open>datetime\<close> holds is the end of the
  year 9999, the first one the start of the year 1; beyond them the sum raises \<open>OverflowError\<close>.\<close>

definition last_datetime :: int where "last_datetime = 253402300799999999"
definition first_datetime :: int where "first_datetime = -62135596800000000"

definition usec_to_datetime :: "int \<Rightarrow> int option res" where
  "usec_to_datetime v =
     (if v = 0 \<or> v = usec_infinity then Inr None
      else if first_datetime \<le> v \<and> v \<le> last_datetime then Inr (Some v)
      else raise_error OverflowError ''date value out of range'')"

definition service_last_result :: "int \<Rightarrow> int \<Rightarrow> int \<Rightarrow> int option" where
  "service_last_result exec_code exec_status started_usec =
     (if started_usec = 0 \<or> exec_code = 0 then None
      else Some (if exec_code = 1 then exec_status else 128 + exec_status))"

definition latest_usec :: "int list \<Rightarrow> int" where
  "latest_usec vs = (case filter (\<lambda>v. v \<noteq> 0 \<and> v \<noteq> usec_infinity) vs of [] \<Rightarrow> 0 | xs \<Rightarrow> Max (set xs))"

definition canonical_uid :: "pystr \<Rightarrow> pystr option" where
  "canonical_uid text = (case new_principal (TextInput text) None LIMITED of
      Inl _ \<Rightarrow> None | Inr who \<Rightarrow> if principal_is_uid who then Some text else None)"

definition service_user_id :: "(pystr \<Rightarrow> int option) \<Rightarrow> pystr option \<Rightarrow> pystr" where
  "service_user_id resolve configured = (case configured of
      None \<Rightarrow> []
    | Some text \<Rightarrow>
        if text = [] then u ''0''
        else (case canonical_uid text of
                Some uid \<Rightarrow> uid
              | None \<Rightarrow> (case resolve text of None \<Rightarrow> [] | Some uid \<Rightarrow> int_text uid)))"

section \<open>Settings read back\<close>

definition systemd_true :: "pystr set" where
  "systemd_true = u ` {''1'', ''yes'', ''y'', ''true'', ''t'', ''on''}"

definition is_systemd_true :: "pystr \<Rightarrow> bool" where
  "is_systemd_true text \<longleftrightarrow> lower text \<in> systemd_true"

text \<open>\<open>_is_struct(entry, (str, bool, bool, str, int))\<close>, with the fields the loop unpacks.\<close>

fun condition_entry :: "dvalue \<Rightarrow> (pystr \<times> bool \<times> bool \<times> pystr) option" where
  "condition_entry (DStruct [DStr kind, DBool trigger, DBool negate, DStr parameter, DInt state]) =
     Some (kind, trigger, negate, parameter)"
| "condition_entry v = None"

definition battery_start_allowed :: "dvalue option \<Rightarrow> bool option" where
  "battery_start_allowed conditions = (case conditions of
      Some (DArray entries) \<Rightarrow>
        if \<exists>e \<in> set entries. condition_entry e = None then None
        else Some (\<not> (\<exists>e \<in> set entries. case condition_entry e of
            Some (kind, trigger, negate, parameter) \<Rightarrow>
              kind = u ''ConditionACPower'' \<and> \<not> trigger \<and> \<not> negate \<and> is_systemd_true parameter
          | None \<Rightarrow> False))
    | _ \<Rightarrow> None)"

definition start_time_limit :: "dvalue option \<Rightarrow> dvalue option \<Rightarrow> int option" where
  "start_time_limit service_type timeout = (case (service_type, timeout) of
      (Some (DStr t), Some (DInt v)) \<Rightarrow>
        if t \<noteq> u ''oneshot'' then None else if v = usec_infinity then Some 0 else Some v
    | _ \<Rightarrow> None)"

section \<open>Names\<close>

definition is_hex :: "nat \<Rightarrow> bool" where
  "is_hex c \<longleftrightarrow> is_digit c \<or> c \<in> set (u ''abcdefABCDEF'')"

text \<open>systemd's escape at the start of a text: a backslash, \<open>x\<close> and two hex digits.\<close>

definition escape_at :: "pystr \<Rightarrow> bool" where
  "escape_at s \<longleftrightarrow> 4 \<le> length s \<and> s ! 0 = backslash \<and> s ! 1 = ch CHR ''x'' \<and> is_hex (s ! 2) \<and> is_hex (s ! 3)"

definition folder_separator_at :: "pystr \<Rightarrow> bool" where
  "folder_separator_at s \<longleftrightarrow> s \<noteq> [] \<and> (hd s = ch CHR ''/'' \<or> (hd s = backslash \<and> \<not> escape_at s))"

definition windows_folder_separator_at :: "pystr \<Rightarrow> bool" where
  "windows_folder_separator_at s \<longleftrightarrow> s \<noteq> [] \<and> hd s \<in> {backslash, ch CHR ''/''}"

definition folder_separator :: "pystr \<Rightarrow> pystr \<Rightarrow> bool" where
  "folder_separator path =
     (if startswith path [backslash] then windows_folder_separator_at else folder_separator_at)"

fun search_at :: "(pystr \<Rightarrow> bool) \<Rightarrow> pystr \<Rightarrow> bool" where
  "search_at found [] = found []"
| "search_at found (c # cs) \<longleftrightarrow> found (c # cs) \<or> search_at found cs"

text \<open>\<open>Pattern.split\<close> by a one-character match.\<close>

fun split_at :: "(pystr \<Rightarrow> bool) \<Rightarrow> pystr \<Rightarrow> pystr list" where
  "split_at found [] = [[]]"
| "split_at found (c # cs) =
     (if found (c # cs) then [] # split_at found cs
      else (case split_at found cs of [] \<Rightarrow> [[c]] | p # ps \<Rightarrow> (c # p) # ps))"

definition check_task_name :: "pystr \<Rightarrow> unit res" where
  "check_task_name task_name =
     (if task_name = [] then raise_error ConfigurationError ''task_name must not be empty''
      else let stripped = strip task_name in
        if search_at (folder_separator stripped) stripped
        then raise_error ConfigurationError ''task_name contains a folder'' else Inr ())"

definition without_suffix :: "pystr \<Rightarrow> pystr" where
  "without_suffix name =
     (if endswith name (u ''.timer'') then take (length name - 6) name
      else if endswith name (u ''.service'') then take (length name - 8) name
      else name)"

definition base_name :: "pystr \<Rightarrow> pystr" where
  "base_name task_path =
     (let path = strip task_path in without_suffix (last (split_at (folder_separator path) path)))"

definition unit_name_char :: "nat \<Rightarrow> bool" where
  "unit_name_char c \<longleftrightarrow> is_ascii_alpha c \<or> is_digit c \<or> c \<in> set (u '':_.-'')"

definition unit_name_max :: nat where "unit_name_max = 255"

definition within_unit_name_max :: "pystr \<Rightarrow> pystr res" where
  "within_unit_name_max base =
     (if length base + length (u ''.service'') > unit_name_max
      then raise_error ConfigurationError ''unit name too long'' else Inr base)"

definition unit_base :: "pystr \<Rightarrow> pystr res" where
  "unit_base task_path =
     (let base = base_name task_path in
      if \<not> (base \<noteq> [] \<and> (\<forall>c \<in> set base. unit_name_char c))
      then raise_error ConfigurationError ''not a systemd unit name''
      else within_unit_name_max base)"

text \<open>\<open>(?:[...]|\\x[0-9A-Fa-f]{2})+\<close> matched in full; a plain character is never a backslash.\<close>

function escaped_name :: "(nat \<Rightarrow> bool) \<Rightarrow> pystr \<Rightarrow> bool" where
  "escaped_name plain [] = True"
| "escaped_name plain (c # cs) =
     (if plain c then escaped_name plain cs
      else escape_at (c # cs) \<and> escaped_name plain (drop 3 cs))"
  by pat_completeness auto
termination by (relation "measure (\<lambda>(plain, s). length s)") auto

definition instance_char :: "nat \<Rightarrow> bool" where
  "instance_char c \<longleftrightarrow> unit_name_char c \<or> c = ch CHR ''@''"

definition existing_unit_base :: "pystr \<Rightarrow> pystr res" where
  "existing_unit_base task_path =
     (let base = base_name task_path; (stem, has_at, inst) = partition_at (ch CHR ''@'') base in
      if \<not> (stem \<noteq> [] \<and> escaped_name unit_name_char stem)
      then raise_error ConfigurationError ''not a systemd unit name''
      else if \<not> has_at then within_unit_name_max base
      else if inst = [] then raise_error ConfigurationError ''a template, not a unit''
      else if \<not> escaped_name instance_char inst
      then raise_error ConfigurationError ''not a systemd unit name''
      else within_unit_name_max base)"

section \<open>Values of a unit file\<close>

definition is_control :: "nat \<Rightarrow> bool" where
  "is_control c \<longleftrightarrow> c < 32 \<or> c = 127"

definition single_line :: "pystr \<Rightarrow> pystr res" where
  "single_line text =
     (if newline \<in> set text \<or> 13 \<in> set text \<or> 0 \<in> set text
      then raise_error ConfigurationError ''line break or NUL''
      else if \<exists>c \<in> set text. is_control c then raise_error ConfigurationError ''control character''
      else Inr text)"

abbreviation percent :: nat where "percent \<equiv> 37"

definition unit_value :: "pystr \<Rightarrow> pystr res" where
  "unit_value text = map_sum id (replace_char percent [percent, percent]) (single_line text)"

definition exec_prefixes :: "pystr" where
  "exec_prefixes = u ''@-:+!|''"

definition exec_program :: "pystr \<Rightarrow> pystr res" where
  "exec_program given = and_then (unit_value given) (\<lambda>program.
     if program = [] then raise_error ConfigurationError ''program must not be empty''
     else if program = u '';'' then raise_error ConfigurationError ''program must not be a separator''
     else if hd program \<in> set exec_prefixes then raise_error ConfigurationError ''program prefix''
     else Inr ([dquote] @ replace_char dquote [backslash, dquote]
                 (replace_char backslash [backslash, backslash] program) @ [dquote]))"

definition is_daily :: "task_trigger \<Rightarrow> bool" where
  "is_daily t = (case t of DailyTrigger _ _ \<Rightarrow> True | _ \<Rightarrow> False)"

definition is_boot :: "task_trigger \<Rightarrow> bool" where
  "is_boot t = (case t of BootTrigger _ \<Rightarrow> True | _ \<Rightarrow> False)"

definition check_settings :: "task_settings option \<Rightarrow> task_trigger list \<Rightarrow> unit res" where
  "check_settings settings triggers = (case settings of
      None \<Rightarrow> Inr ()
    | Some s \<Rightarrow>
        if stop_if_going_on_batteries s = Some True
        then raise_error PlatformUnsupportedError ''stop_if_going_on_batteries''
        else (case multiple_instances_policy s of
            None \<Rightarrow> Inr ()
          | Some policy \<Rightarrow>
              if policy \<noteq> IGNORE_NEW then raise_error PlatformUnsupportedError ''multiple_instances''
              else if \<exists>t \<in> set triggers. is_daily t
              then raise_error PlatformUnsupportedError ''multiple_instances with a daily trigger''
              else Inr ()))"

text \<open>A line of a unit file, with its newline.\<close>

definition unit_line :: "pystr \<Rightarrow> pystr" where
  "unit_line s = s @ [newline]"

definition settings_keys :: "task_settings option \<Rightarrow> pystr \<times> pystr" where
  "settings_keys settings = (case settings of
      None \<Rightarrow> ([], [])
    | Some s \<Rightarrow>
        ((if allow_start_if_on_batteries s = Some False then unit_line (u ''ConditionACPower=true'') else []) @
         (if allow_demand_start s = Some False then unit_line (u ''RefuseManualStart=yes'') else []),
         (case execution_time_limit s of
            None \<Rightarrow> []
          | Some limit \<Rightarrow>
              unit_line (u ''TimeoutStartSec='' @
                (if limit div second \<noteq> 0 then int_text (limit div second) else u ''infinity''))) @
         (if allow_hard_terminate s = Some False then unit_line (u ''SendSIGKILL=no'') else [])))"

definition ownership_key :: pystr where "ownership_key = u ''X-PwshPy''"

definition unit_head :: "pystr \<Rightarrow> pystr \<Rightarrow> pystr \<Rightarrow> pystr res" where
  "unit_head version description extra = and_then (unit_value description) (\<lambda>text.
     let described = (if text = [] then u ''pwshpy task'' else text) in
     Inr (unit_line (u ''[Unit]'') @ unit_line (u ''Description='' @ described) @
          unit_line (ownership_key @ u ''='' @ version) @ extra @ [newline]))"

definition service_unit ::
    "pystr \<Rightarrow> pystr \<Rightarrow> pystr \<Rightarrow> pystr \<Rightarrow> pystr option \<Rightarrow> task_settings option \<Rightarrow> pystr res" where
  "service_unit version program arguments description user settings =
     and_then (check_settings settings []) (\<lambda>_.
     and_then (exec_program program) (\<lambda>word.
     and_then (unit_value arguments) (\<lambda>args.
       let exec_line = (if args = [] then word else word @ u '' '' @ args);
           user_line = (case user of None \<Rightarrow> [] | Some uid \<Rightarrow> unit_line (u ''User='' @ uid));
           (unit_keys, service_keys) = settings_keys settings
       in and_then (unit_head version description unit_keys) (\<lambda>head.
            Inr (head @ unit_line (u ''[Service]'') @ unit_line (u ''Type=oneshot'') @ user_line @
                 unit_line (u ''ExecStart='' @ exec_line) @ service_keys)))))"

text \<open>The loop of \<open>is_pwshpy_unit\<close> with its current section.\<close>

fun owned_lines :: "pystr \<Rightarrow> pystr list \<Rightarrow> bool" where
  "owned_lines section [] = False"
| "owned_lines section (raw # raws) =
     (let line = strip raw in
      if startswith line (u ''['') \<and> endswith line (u '']'') then owned_lines (butlast (tl line)) raws
      else if section = u ''Unit'' \<and> strip (hd (split_on equals_sign line)) = ownership_key \<and>
              equals_sign \<in> set line then True
      else owned_lines section raws)"

definition is_pwshpy_unit :: "pystr \<Rightarrow> bool" where
  "is_pwshpy_unit text = owned_lines [] (splitlines text)"

section \<open>Timers\<close>

text \<open>\<open>strftime\<close> of an instant in UTC (the proleptic Gregorian calendar of \<open>datetime\<close>).\<close>

definition day_of :: "int \<Rightarrow> int" where "day_of t = t div (86400 * second)"
definition second_of_day :: "int \<Rightarrow> int" where "second_of_day t = (t div second) mod 86400"

definition civil_from_days :: "int \<Rightarrow> int \<times> int \<times> int" where
  "civil_from_days days =
     (let z = days + 719468; era = z div 146097; doe = z mod 146097;
          yoe = (doe - doe div 1460 + doe div 36524 - doe div 146096) div 365;
          doy = doe - (365 * yoe + yoe div 4 - yoe div 100);
          mp = (5 * doy + 2) div 153;
          m = (if mp < 10 then mp + 3 else mp - 9)
      in (yoe + era * 400 + (if m \<le> 2 then 1 else 0), m, doy - (153 * mp + 2) div 5 + 1))"

definition two_digits :: "int \<Rightarrow> pystr" where
  "two_digits n = (if n < 10 then u ''0'' else []) @ int_text n"

definition date_text :: "int \<Rightarrow> pystr" where
  "date_text t = (case civil_from_days (day_of t) of (y, m, d) \<Rightarrow>
     int_text y @ u ''-'' @ two_digits m @ u ''-'' @ two_digits d)"

definition time_text :: "int \<Rightarrow> pystr" where
  "time_text t = (let s = second_of_day t in
     two_digits (s div 3600) @ u '':'' @ two_digits (s div 60 mod 60) @ u '':'' @ two_digits (s mod 60))"

fun timer_line :: "task_trigger \<Rightarrow> pystr res" where
  "timer_line (OnceTrigger t) = Inr (u ''OnCalendar='' @ date_text t @ u '' '' @ time_text t @ u '' UTC'')"
| "timer_line (DailyTrigger t days) =
     (if days \<noteq> 1 then raise_error PlatformUnsupportedError ''every-N-days''
      else Inr (u ''OnCalendar=*-*-* '' @ time_text t @ u '' UTC''))"
| "timer_line (BootTrigger d) = Inr (u ''OnBootSec='' @ int_text (d div second) @ u ''s'')"
| "timer_line (LogonTrigger _) = raise_error PlatformUnsupportedError ''logon trigger''"

definition timer_unit :: "pystr \<Rightarrow> pystr \<Rightarrow> pystr \<Rightarrow> task_trigger list \<Rightarrow> pystr res" where
  "timer_unit version base description triggers =
     and_then (map_res timer_line triggers) (\<lambda>ls.
     and_then (single_line base) (\<lambda>name.
     and_then (unit_head version description []) (\<lambda>head.
       Inr (head @ unit_line (u ''[Timer]'') @ concat (map unit_line ls) @ unit_line (u ''AccuracySec=1s'') @
            unit_line (u ''Unit='' @ name @ u ''.service'') @ unit_line [] @
            unit_line (u ''[Install]'') @ unit_line (u ''WantedBy=timers.target'')))))"

definition arms_on_register :: "task_trigger list \<Rightarrow> bool res" where
  "arms_on_register triggers =
     (if (\<exists>t \<in> set triggers. is_boot t) \<and> \<not> (\<forall>t \<in> set triggers. is_boot t)
      then raise_error PlatformUnsupportedError ''boot and calendar triggers''
      else Inr (starts_when_armed (map (\<lambda>_. On_Boot) (filter is_boot triggers))))"

definition linux_user :: "task_principal \<Rightarrow> pystr option res" where
  "linux_user p =
     (if principal_logon_type p \<noteq> None then raise_error PlatformUnsupportedError ''logon_type''
      else if user_id p = None \<or> user_id p = Some (sid_value LOCAL_SYSTEM) then Inr None
      else if \<not> principal_is_uid p then raise_error PlatformUnsupportedError ''not a decimal uid''
      else if principal_run_level p = HIGHEST \<and> user_id p \<noteq> Some (u ''0'')
      then raise_error PlatformUnsupportedError ''run level HIGHEST''
      else Inr (user_id p))"

end
