(* ===== verification/Systemd_Unit_Facts.thy ===== *)
theory Systemd_Unit_Facts
  imports Systemd_Units
begin

text \<open>
  Facts on the names and the texts of \<open>Systemd_Units\<close>: what a written value is read back as, which lines
  a unit file has, which texts carry the ownership key, and which names the verbs reach. The readers
  (\<open>undouble\<close>, \<open>read_exec_word\<close>) are systemd's documented rules for a specifier and a quoted word.
\<close>

section \<open>Values\<close>

fun undouble :: "pystr \<Rightarrow> pystr" where
  "undouble [] = []"
| "undouble [c] = [c]"
| "undouble (c # d # cs) = (if c = percent \<and> d = percent then c # undouble cs else c # undouble (d # cs))"

lemma undouble_plain: "c \<noteq> percent \<Longrightarrow> undouble (c # s) = c # undouble s"
  by (cases s) auto

lemma undouble_replace: "undouble (replace_char percent [percent, percent] s) = s"
  by (induction s) (auto simp: undouble_plain)

fun read_quoted :: "pystr \<Rightarrow> pystr option" where
  "read_quoted [] = None"
| "read_quoted (c # cs) =
     (if c = dquote then (if cs = [] then Some [] else None)
      else if c = backslash then (case cs of [] \<Rightarrow> None | d # ds \<Rightarrow> map_option (Cons d) (read_quoted ds))
      else map_option (Cons c) (read_quoted cs))"

definition read_exec_word :: "pystr \<Rightarrow> pystr option" where
  "read_exec_word s = (case s of [] \<Rightarrow> None | c # cs \<Rightarrow>
     if c = dquote then map_option undouble (read_quoted cs) else None)"

lemma read_quoted_escaped:
  "read_quoted (replace_char dquote [backslash, dquote]
      (replace_char backslash [backslash, backslash] p) @ [dquote]) = Some p"
  by (induction p) auto

lemma single_line_Inr: "single_line s = Inr t \<longleftrightarrow> t = s \<and> (\<forall>c \<in> set s. \<not> is_control c)"
  by (auto simp: single_line_def is_control_def)

lemma unit_value_Inr:
  "unit_value s = Inr t \<longleftrightarrow> (\<forall>c \<in> set s. \<not> is_control c) \<and> t = replace_char percent [percent, percent] s"
  by (cases "single_line s") (auto simp: unit_value_def single_line_Inr, auto simp: single_line_def is_control_def split: if_splits)

lemma unit_value_plain:
  "unit_value s = Inr t \<Longrightarrow> (\<forall>c \<in> set t. \<not> is_control c) \<and> undouble t = s"
  using set_replace_char[of percent "[percent, percent]" s]
  by (auto simp: unit_value_Inr undouble_replace is_control_def)

lemma no_newline: "\<forall>c \<in> set t. \<not> is_control c \<Longrightarrow> newline \<notin> set t"
  by (auto simp: is_control_def)

lemma exec_program_word:
  assumes "exec_program p = Inr word"
  shows "read_exec_word word = Some p" "newline \<notin> set word"
    "p \<noteq> [] \<and> p \<noteq> u '';'' \<and> hd p \<notin> set exec_prefixes"
proof -
  from assms obtain t where t: "unit_value p = Inr t" "t \<noteq> []" "t \<noteq> u '';''" "hd t \<notin> set exec_prefixes"
    and word: "word = [dquote] @ replace_char dquote [backslash, dquote]
                 (replace_char backslash [backslash, backslash] t) @ [dquote]"
    by (auto simp: exec_program_def and_then_Inr split: if_splits)
  have plain: "undouble t = p" "newline \<notin> set t" using unit_value_plain[OF t(1)] no_newline by auto
  show "read_exec_word word = Some p"
    using read_quoted_escaped[of t] plain by (simp add: word read_exec_word_def)
  show "newline \<notin> set word"
    using plain(2) subset_trans[OF set_replace_char[of dquote "[backslash, dquote]" "replace_char backslash [backslash, backslash] t"]
      Un_mono[OF subset_refl set_replace_char[of backslash "[backslash, backslash]" t]]]
    unfolding word by (fastforce dest!: subsetD)
  have "t = replace_char percent [percent, percent] p" using t(1) by (simp add: unit_value_Inr)
  then show "p \<noteq> [] \<and> p \<noteq> u '';'' \<and> hd p \<notin> set exec_prefixes"
    using t by (cases p) (auto simp: u_def split: if_splits)
qed

section \<open>Lines\<close>

abbreviation lines_text :: "pystr list \<Rightarrow> pystr" where
  "lines_text ls \<equiv> concat (map unit_line ls)"

lemma split_lines_text:
  "\<forall>l \<in> set ls. newline \<notin> set l \<Longrightarrow> split_on newline (lines_text ls) = ls @ [[]]"
proof (induction ls)
  case (Cons l ls)
  have "lines_text (l # ls) = l @ newline # lines_text ls" by (simp add: unit_line_def)
  moreover have "split_on newline (l @ newline # lines_text ls) = l # split_on newline (lines_text ls)"
    using Cons.prems by (intro split_on_sep) simp
  ultimately show ?case using Cons by simp
qed simp

definition unit_setting_lines :: "task_settings option \<Rightarrow> pystr list" where
  "unit_setting_lines settings = (case settings of None \<Rightarrow> [] | Some s \<Rightarrow>
     (if allow_start_if_on_batteries s = Some False then [u ''ConditionACPower=true''] else []) @
     (if allow_demand_start s = Some False then [u ''RefuseManualStart=yes''] else []))"

definition service_setting_lines :: "task_settings option \<Rightarrow> pystr list" where
  "service_setting_lines settings = (case settings of None \<Rightarrow> [] | Some s \<Rightarrow>
     (case execution_time_limit s of None \<Rightarrow> [] | Some limit \<Rightarrow>
        [u ''TimeoutStartSec='' @
          (if limit div second \<noteq> 0 then int_text (limit div second) else u ''infinity'')]) @
     (if allow_hard_terminate s = Some False then [u ''SendSIGKILL=no''] else []))"

lemma settings_keys_lines:
  "settings_keys settings = (lines_text (unit_setting_lines settings), lines_text (service_setting_lines settings))"
  by (auto simp: settings_keys_def unit_setting_lines_def service_setting_lines_def split: option.splits)

lemma int_text_no_newline: "newline \<notin> set (int_text i)"
proof -
  have "newline \<notin> set (decimal n)" for n using decimal_digits[of n] by (auto simp: is_digit_def)
  then show ?thesis by (simp add: int_text_def)
qed

lemma setting_lines_no_newline:
  "\<forall>l \<in> set (unit_setting_lines settings @ service_setting_lines settings). newline \<notin> set l"
  using int_text_no_newline
  by (auto simp: unit_setting_lines_def service_setting_lines_def u_def split: option.splits if_splits)

definition described :: "pystr \<Rightarrow> pystr" where
  "described text = (if text = [] then u ''pwshpy task'' else text)"

definition head_lines :: "pystr \<Rightarrow> pystr \<Rightarrow> pystr list \<Rightarrow> pystr list" where
  "head_lines version text extra =
     [u ''[Unit]'', u ''Description='' @ described text, ownership_key @ u ''='' @ version] @ extra @ [[]]"

lemma unit_head_lines:
  "unit_head version description (lines_text extra) = Inr head \<longleftrightarrow>
     (\<exists>text. unit_value description = Inr text \<and> head = lines_text (head_lines version text extra))"
  by (auto simp: unit_head_def and_then_Inr head_lines_def described_def unit_line_def)

definition service_lines ::
    "pystr \<Rightarrow> pystr \<Rightarrow> pystr \<Rightarrow> pystr \<Rightarrow> pystr option \<Rightarrow> task_settings option \<Rightarrow> pystr list" where
  "service_lines version word args text user settings =
     head_lines version text (unit_setting_lines settings) @
     [u ''[Service]'', u ''Type=oneshot''] @ (case user of None \<Rightarrow> [] | Some uid \<Rightarrow> [u ''User='' @ uid]) @
     [u ''ExecStart='' @ (if args = [] then word else word @ u '' '' @ args)] @ service_setting_lines settings"

lemma service_unit_Inr:
  "service_unit version program arguments description user settings = Inr t \<longleftrightarrow>
     check_settings settings [] = Inr () \<and>
     (\<exists>word args text. exec_program program = Inr word \<and> unit_value arguments = Inr args \<and>
        unit_value description = Inr text \<and> t = lines_text (service_lines version word args text user settings))"
  by (auto simp: service_unit_def and_then_Inr Let_def settings_keys_lines unit_head_lines service_lines_def
      unit_line_def split: option.splits)

lemma value_no_newline: "unit_value s = Inr t \<Longrightarrow> newline \<notin> set t"
  using unit_value_plain no_newline by blast

lemma service_unit_split:
  assumes "service_unit version program arguments description user settings = Inr t"
    "newline \<notin> set version" "\<forall>uid. user = Some uid \<longrightarrow> newline \<notin> set uid"
  shows "\<exists>word args text. split_on newline t = service_lines version word args text user settings @ [[]] \<and>
    read_exec_word word = Some program \<and> undouble args = arguments \<and> undouble text = description"
proof -
  from assms(1) obtain word args desc where w: "exec_program program = Inr word"
    and v: "unit_value arguments = Inr args" "unit_value description = Inr desc"
    and t: "t = lines_text (service_lines version word args desc user settings)"
    by (auto simp: service_unit_Inr)
  have "\<forall>l \<in> set (service_lines version word args desc user settings). newline \<notin> set l"
    using assms(2,3) setting_lines_no_newline[of settings] exec_program_word(2)[OF w]
      value_no_newline[OF v(1)] value_no_newline[OF v(2)]
    by (auto simp: service_lines_def head_lines_def described_def ownership_key_def u_def split: option.splits)
  with t have "split_on newline t = service_lines version word args desc user settings @ [[]]"
    by (simp add: split_lines_text)
  with exec_program_word(1)[OF w] unit_value_plain[OF v(1)] unit_value_plain[OF v(2)] show ?thesis by blast
qed

section \<open>Ownership\<close>

lemma lines_text_unlines: "lines_text ls = unlines ls"
  by (induction ls) (simp_all add: unit_line_def)

lemma strip_key: "strip (ownership_key @ s) = ownership_key @ rstrip s" if "s \<noteq> []" "\<not> py_isspace (hd s)" for s
proof -
  have "rstrip (ownership_key @ s) = ownership_key @ rstrip s"
    using that unfolding ownership_key_def rstrip_def u_def
    by (auto simp: py_isspace_def dropWhile_append)
  moreover have "lstrip (ownership_key @ s) = ownership_key @ s"
    by (simp add: lstrip_def ownership_key_def u_def py_isspace_def)
  ultimately show ?thesis by (simp add: strip_def)
qed

text \<open>The key line is recognised whatever the version is, up to the line break that ends it.\<close>

lemma key_line:
  "strip (ownership_key @ u ''='' @ v) = ownership_key @ u ''='' @ rstrip v"
  "hd (split_on equals_sign (ownership_key @ u ''='' @ v)) = ownership_key"
proof -
  have "rstrip (u ''='' @ v) = u ''='' @ rstrip v"
    by (auto simp: rstrip_def u_def dropWhile_append py_isspace_def)
  then show "strip (ownership_key @ u ''='' @ v) = ownership_key @ u ''='' @ rstrip v"
    using strip_key[of "u ''='' @ v"] by (simp add: u_def py_isspace_def)
  have "equals_sign \<notin> set ownership_key" by (simp add: ownership_key_def u_def)
  then show "hd (split_on equals_sign (ownership_key @ u ''='' @ v)) = ownership_key"
    using split_on_sep[of equals_sign ownership_key v] by (simp add: u_def)
qed

lemma key_word_not_key:
  assumes "prefix (u w @ u ''='') l" "equals_sign \<notin> set (u w)" "w \<noteq> []" "\<forall>c \<in> set w. \<not> py_isspace (ch c)"
    "u w \<noteq> ownership_key" "hd (u w) \<noteq> 91"
  shows "owned_lines section (l # ls) = owned_lines section ls"
proof -
  obtain r where l: "l = u w @ u ''='' @ r" using assms(1) by (auto simp: prefix_def)
  note e = assms(2)
  have space: "\<forall>c \<in> set (u w). \<not> py_isspace c" using assms(4) by (auto simp: u_def)
  have "strip l = u w @ u ''='' @ rstrip r"
  proof -
    have "rstrip l = u w @ u ''='' @ rstrip r"
      by (auto simp: l rstrip_def u_def dropWhile_append py_isspace_def)
    moreover have "lstrip l = l"
      using assms(3) space by (cases w) (auto simp: l lstrip_def u_def)
    ultimately show ?thesis by (simp add: strip_def)
  qed
  moreover have "hd (split_on equals_sign (u w @ u ''='' @ rstrip r)) = u w"
    using split_on_sep[OF e, of "rstrip r"] by (simp add: u_def)
  moreover have "strip (u w) = u w" using space by (rule strip_no_space)
  moreover have "\<not> startswith (u w @ u ''='' @ rstrip r) (u ''['')"
    using assms(3,6) by (cases w) (auto simp: u_def)
  ultimately show ?thesis using assms(5) by (simp add: Let_def)
qed

lemma no_breaks_replace:
  "no_breaks s \<Longrightarrow> no_breaks (replace_char percent [percent, percent] s)"
  using set_replace_char[of percent "[percent, percent]" s]
  by (auto simp: no_breaks_def is_line_break_def)

lemma head_owned:
  assumes "no_breaks text" "no_breaks version"
  shows "is_pwshpy_unit (lines_text (head_lines version text extra) @ rest)"
proof -
  let ?first = "[u ''[Unit]'', u ''Description='' @ described text, ownership_key @ u ''='' @ version]"
  have nb: "\<forall>l \<in> set ?first. no_breaks l"
    using assms by (auto simp: described_def no_breaks_def u_def ownership_key_def is_line_break_def)
  have "lines_text (head_lines version text extra) @ rest = unlines ?first @ lines_text (extra @ [[]]) @ rest"
    by (simp add: head_lines_def lines_text_unlines unit_line_def)
  then have "splitlines (lines_text (head_lines version text extra) @ rest) =
      ?first @ splitlines (lines_text (extra @ [[]]) @ rest)"
    using splitlines_unlines_append[OF nb] by simp
  moreover have "owned_lines [] (u ''[Unit]'' # ls) = owned_lines (u ''Unit'') ls" for ls
    by (simp add: Let_def strip_def lstrip_def rstrip_def u_def py_isspace_def suffix_def)
  moreover have "owned_lines sect ((u ''Description='' @ d) # ls) = owned_lines sect ls" for sect d ls
    by (rule key_word_not_key[of "''Description''"]) (auto simp: u_def prefix_def py_isspace_def ownership_key_def)
  moreover have "owned_lines (u ''Unit'') ((ownership_key @ u ''='' @ v) # ls)" for v ls
  proof -
    have "hd (split_on equals_sign (ownership_key @ u ''='' @ rstrip v)) = ownership_key"
      by (rule key_line)
    moreover have "strip ownership_key = ownership_key"
      by (rule strip_no_space) (simp add: ownership_key_def u_def py_isspace_def)
    moreover have "\<not> startswith (ownership_key @ u ''='' @ rstrip v) (u ''['')"
      by (simp add: ownership_key_def u_def)
    ultimately show ?thesis by (simp add: Let_def key_line(1)) (simp add: u_def)
  qed
  ultimately show ?thesis by (simp add: is_pwshpy_unit_def del: owned_lines.simps)
qed

lemma service_unit_owned:
  assumes "service_unit version program arguments description user settings = Inr t"
    "no_breaks description" "no_breaks version"
  shows "is_pwshpy_unit t"
proof -
  from assms(1) obtain word args desc where "unit_value description = Inr desc"
    and t: "t = lines_text (service_lines version word args desc user settings)"
    by (auto simp: service_unit_Inr)
  then have "no_breaks desc" using assms(2) by (simp add: unit_value_Inr no_breaks_replace)
  then show ?thesis
    using head_owned[OF _ assms(3)] by (simp add: t service_lines_def)
qed

lemma timer_unit_Inr:
  "timer_unit version base description triggers = Inr t \<longleftrightarrow>
     (\<exists>ls text. map_res timer_line triggers = Inr ls \<and> single_line base = Inr base \<and>
        unit_value description = Inr text \<and>
        t = lines_text (head_lines version text [] @ [u ''[Timer]''] @ ls @
              [u ''AccuracySec=1s'', u ''Unit='' @ base @ u ''.service'', [], u ''[Install]'',
               u ''WantedBy=timers.target'']))"
  using unit_head_lines[of version description "[]"]
  by (auto simp: timer_unit_def and_then_Inr single_line_Inr unit_line_def)

lemma timer_unit_owned:
  assumes "timer_unit version base description triggers = Inr t" "no_breaks description" "no_breaks version"
  shows "is_pwshpy_unit t"
proof -
  from assms(1) obtain ls desc where "unit_value description = Inr desc"
    and t: "t = lines_text (head_lines version desc [] @ [u ''[Timer]''] @ ls @
              [u ''AccuracySec=1s'', u ''Unit='' @ base @ u ''.service'', [], u ''[Install]'',
               u ''WantedBy=timers.target''])"
    by (auto simp: timer_unit_Inr)
  then have "no_breaks desc" using assms(2) by (simp add: unit_value_Inr no_breaks_replace)
  then show ?thesis
    using head_owned[OF _ assms(3), of desc "[]"] by (simp add: t)
qed

text \<open>A description that holds U+2028 is written (it is no ASCII control character), yet the reader of
  the key breaks lines there: the unit is then not recognised as pwshpy's own.\<close>

definition separator_description :: pystr where
  "separator_description = [97, 8232] @ u ''[b]''"

lemma separator_description_not_owned:
  "\<exists>t. service_unit (u ''1.6.0'') (u ''/bin/true'') [] separator_description None None = Inr t \<and>
     \<not> is_pwshpy_unit t"
proof -
  let ?t = "lines_text (service_lines (u ''1.6.0'') (u ''\"/bin/true\"'') [] separator_description None None)"
  have "service_unit (u ''1.6.0'') (u ''/bin/true'') [] separator_description None None = Inr ?t"
    by (auto simp: service_unit_Inr unit_value_Inr check_settings_def exec_program_def separator_description_def
        u_def is_control_def exec_prefixes_def and_then_Inr)
  moreover have "splitlines ?t = [u ''[Unit]'', u ''Description=a'', u ''[b]'', u ''X-PwshPy=1.6.0'', [],
      u ''[Service]'', u ''Type=oneshot'', u ''ExecStart=\"/bin/true\"'']"
    by (simp add: service_lines_def head_lines_def described_def separator_description_def unit_setting_lines_def
        service_setting_lines_def ownership_key_def u_def unit_line_def is_line_break_def)
  moreover have "\<not> owned_lines [] [u ''[Unit]'', u ''Description=a'', u ''[b]'', u ''X-PwshPy=1.6.0'', [],
      u ''[Service]'', u ''Type=oneshot'', u ''ExecStart=\"/bin/true\"'']"
    by (simp add: Let_def strip_def lstrip_def rstrip_def u_def py_isspace_def suffix_def ownership_key_def)
  ultimately show ?thesis by (auto simp: is_pwshpy_unit_def)
qed

section \<open>Names\<close>

lemma split_at_no_match: "\<not> search_at found s \<Longrightarrow> split_at found s = [s]"
  by (induction s) auto

text \<open>The guard and the splitter agree: what \<open>check_task_name\<close> lets through has no folder to drop.\<close>

lemma checked_name_kept:
  assumes "check_task_name task_name = Inr ()"
  shows "base_name task_name = without_suffix (strip task_name)"
  using assms split_at_no_match[of "folder_separator (strip task_name)" "strip task_name"]
  by (auto simp: check_task_name_def base_name_def Let_def split: if_splits)

lemma unit_base_Inr:
  "unit_base task_path = Inr base \<longleftrightarrow>
     base = base_name task_path \<and> base \<noteq> [] \<and> (\<forall>c \<in> set base. unit_name_char c) \<and> length base \<le> 247"
  by (auto simp: unit_base_def within_unit_name_max_def Let_def unit_name_max_def)

lemma escaped_name_plain: "\<forall>c \<in> set s. plain c \<Longrightarrow> escaped_name plain s"
  by (induction s) auto

text \<open>Every name that can be registered can be run, stopped, enabled and disabled.\<close>

lemma registered_name_reached:
  assumes "unit_base task_path = Inr base"
  shows "existing_unit_base task_path = Inr base"
proof -
  from assms have b: "base = base_name task_path" "base \<noteq> []" "\<forall>c \<in> set base. unit_name_char c"
    "length base \<le> 247" by (auto simp: unit_base_Inr)
  have "ch CHR ''@'' \<notin> set base"
    using b(3) by (auto simp: unit_name_char_def is_ascii_alpha_def is_digit_def u_def)
  then have "partition_at (ch CHR ''@'') base = (base, False, [])" by (rule partition_at_absent)
  with b escaped_name_plain[of base unit_name_char] show ?thesis
    by (simp add: existing_unit_base_def Let_def within_unit_name_max_def unit_name_max_def)
qed

lemma unit_name_char_no_control: "unit_name_char c \<Longrightarrow> \<not> is_control c \<and> c \<noteq> newline \<and> c \<noteq> 47"
  by (auto simp: unit_name_char_def is_ascii_alpha_def is_digit_def u_def is_control_def)

lemma unit_base_single_line: "unit_base task_path = Inr base \<Longrightarrow> single_line base = Inr base"
  using unit_name_char_no_control by (auto simp: unit_base_Inr single_line_Inr)

section \<open>Users and arming\<close>

lemma linux_user_Inr:
  "linux_user p = Inr r \<longleftrightarrow> principal_logon_type p = None \<and>
     (if user_id p = None \<or> user_id p = Some (sid_value LOCAL_SYSTEM) then r = None
      else \<exists>uid. user_id p = Some uid \<and> is_uid uid \<and> r = Some uid \<and>
             (principal_run_level p = HIGHEST \<longrightarrow> uid = u ''0''))"
  by (cases "user_id p") (auto simp: linux_user_def principal_is_uid_def split: if_splits)

lemma starts_when_armed_boot:
  "starts_when_armed (map (\<lambda>_. On_Boot) (filter is_boot triggers)) \<longleftrightarrow> \<not> (\<exists>t \<in> set triggers. is_boot t)"
  by (induction triggers) (auto simp: starts_when_armed_def boot_relative_def)

lemma arms_on_register_Inr:
  "arms_on_register triggers = Inr now \<longleftrightarrow>
     (now \<longleftrightarrow> \<not> (\<exists>t \<in> set triggers. is_boot t)) \<and>
     ((\<exists>t \<in> set triggers. is_boot t) \<longrightarrow> (\<forall>t \<in> set triggers. is_boot t))"
  by (auto simp: arms_on_register_def starts_when_armed_boot)

end
