(* ===== verification/Systemd_Tasks.thy ===== *)
theory Systemd_Tasks
  imports Systemd_Unit_Facts Surrogates
begin

text \<open>
  \<open>adapters/native/systemd_timers.py\<close>, part one: the records of a timer and of an on-demand service, and
  the listing \<open>iter_timers\<close> (a generator). The unit directory is \<open>/etc/systemd/system\<close>; a path in it is
  read from the model's directory, any other path through \<open>read_elsewhere\<close>.
\<close>

section \<open>Records\<close>

record task_info =
  ti_name :: pystr
  ti_path :: pystr
  ti_state :: task_state
  ti_enabled :: bool
  ti_author :: pystr
  ti_description :: pystr
  ti_user_id :: pystr
  ti_run_level :: "run_level option"
  ti_last_run_time :: "int option"
  ti_last_task_result :: "int option"
  ti_next_run_time :: "int option"
  ti_settings :: task_settings

definition root_path :: pystr where "root_path = u ''/''"

definition service_user :: "'m system \<Rightarrow> pystr option \<Rightarrow> ('m, pystr) io" where
  "service_user sd path =
     io_bind (path_property sd path (u ''User'') SERVICE_IFACE None) (\<lambda>configured.
       io_return (service_user_id (passwd_uid sd) (map_option (py_str sd) configured)))"

definition bool_of :: "dvalue option \<Rightarrow> bool option" where
  "bool_of v = (case v of Some (DBool b) \<Rightarrow> Some b | _ \<Rightarrow> None)"

definition service_settings :: "'m system \<Rightarrow> pystr option \<Rightarrow> ('m, task_settings) io" where
  "service_settings sd path =
     io_bind (path_property sd path (u ''Type'') SERVICE_IFACE None) (\<lambda>service_type.
     io_bind (path_property sd path (u ''SendSIGKILL'') SERVICE_IFACE None) (\<lambda>send_sigkill.
     io_bind (path_property sd path (u ''RefuseManualStart'') UNIT_IFACE None) (\<lambda>refuse_manual_start.
     io_bind (path_property sd path (u ''Conditions'') UNIT_IFACE None) (\<lambda>conditions.
     io_bind (if service_type = Some (DStr (u ''oneshot''))
              then path_property sd path (u ''TimeoutStartUSec'') SERVICE_IFACE None
              else io_return None) (\<lambda>timeout.
     io_return
       \<lparr>allow_start_if_on_batteries = battery_start_allowed conditions,
        stop_if_going_on_batteries = Some False,
        execution_time_limit = start_time_limit service_type timeout,
        multiple_instances_policy = None,
        allow_hard_terminate = bool_of send_sigkill,
        allow_demand_start = map_option Not (bool_of refuse_manual_start)\<rparr>)))))"

text \<open>\<open>int(path_property(..., 0))\<close>.\<close>

definition int_property :: "'m system \<Rightarrow> pystr option \<Rightarrow> pystr \<Rightarrow> iface \<Rightarrow> ('m, int) io" where
  "int_property sd path prop interface =
     io_bind (path_property sd path prop interface (Some (DInt 0))) (\<lambda>v. io_lift (case v of
       Some x \<Rightarrow> py_int x | None \<Rightarrow> raise_error TypeError ''int''))"

definition service_run :: "'m system \<Rightarrow> pystr option \<Rightarrow> ('m, int option \<times> int) io" where
  "service_run sd path =
     io_bind (int_property sd path (u ''ExecMainStartTimestamp'') SERVICE_IFACE) (\<lambda>started.
     io_bind (int_property sd path (u ''ExecMainCode'') SERVICE_IFACE) (\<lambda>exec_code.
     io_bind (int_property sd path (u ''ExecMainStatus'') SERVICE_IFACE) (\<lambda>exec_status.
     io_return (service_last_result exec_code exec_status started, started))))"

record run_info =
  ri_last_run_time :: "int option"
  ri_last_task_result :: "int option"
  ri_next_run_time :: "int option"
  ri_user_id :: pystr
  ri_settings :: task_settings

definition timer_run_info :: "'m system \<Rightarrow> pystr option \<Rightarrow> pystr \<Rightarrow> ('m, run_info) io" where
  "timer_run_info sd timer_path base =
     io_bind (text_property sd timer_path (u ''Unit'') TIMER_IFACE (base @ u ''.service'')) (\<lambda>service.
     io_bind (load_unit_path sd service) (\<lambda>service_path.
     io_bind (service_run sd service_path) (\<lambda>(result, started).
     io_bind (int_property sd timer_path (u ''LastTriggerUSec'') TIMER_IFACE) (\<lambda>triggered.
     io_bind (io_lift (usec_to_datetime (latest_usec [triggered, started]))) (\<lambda>last_run.
     io_bind (int_property sd timer_path (u ''NextElapseUSecRealtime'') TIMER_IFACE) (\<lambda>elapse.
     io_bind (io_lift (usec_to_datetime elapse)) (\<lambda>next_run.
     io_bind (service_user sd service_path) (\<lambda>user.
     io_bind (service_settings sd service_path) (\<lambda>settings.
     io_return \<lparr>ri_last_run_time = last_run, ri_last_task_result = result, ri_next_run_time = next_run,
                ri_user_id = user, ri_settings = settings\<rparr>)))))))))"

definition timer_task ::
    "'m system \<Rightarrow> pystr \<Rightarrow> pystr option \<Rightarrow> systemd_file_state \<Rightarrow> systemd_active_state \<Rightarrow> pystr \<Rightarrow> ('m, task_info) io" where
  "timer_task sd name path file_state active description =
     (let base = take (length name - 6) name; enabled = timer_enabled file_state in
      io_bind (timer_run_info sd path base) (\<lambda>run. io_return
        \<lparr>ti_name = base, ti_path = root_path, ti_state = timer_task_state active enabled, ti_enabled = enabled,
         ti_author = [], ti_description = description, ti_user_id = ri_user_id run, ti_run_level = None,
         ti_last_run_time = ri_last_run_time run, ti_last_task_result = ri_last_task_result run,
         ti_next_run_time = ri_next_run_time run, ti_settings = ri_settings run\<rparr>))"

definition timer_task_at ::
    "'m system \<Rightarrow> pystr \<Rightarrow> pystr option \<Rightarrow> systemd_file_state \<Rightarrow>
     ('m system \<Rightarrow> pystr option \<Rightarrow> ('m, systemd_active_state) io) \<Rightarrow> ('m, task_info) io" where
  "timer_task_at sd name path file_state read_state =
     io_bind (text_property sd path (u ''Description'') UNIT_IFACE []) (\<lambda>description.
     io_bind (read_state sd path) (\<lambda>active. timer_task sd name path file_state active description))"

definition service_task ::
    "'m system \<Rightarrow> pystr \<Rightarrow> pystr option \<Rightarrow>
     ('m system \<Rightarrow> pystr option \<Rightarrow> ('m, systemd_active_state) io) \<Rightarrow> ('m, task_info) io" where
  "service_task sd base path read_state =
     io_bind (service_run sd path) (\<lambda>(result, started).
     io_bind (read_state sd path) (\<lambda>active.
     io_bind (text_property sd path (u ''Description'') UNIT_IFACE []) (\<lambda>description.
     io_bind (service_user sd path) (\<lambda>user.
     io_bind (io_lift (usec_to_datetime started)) (\<lambda>last_run.
     io_bind (service_settings sd path) (\<lambda>settings. io_return
        \<lparr>ti_name = base, ti_path = root_path, ti_state = service_task_state active, ti_enabled = True,
         ti_author = [], ti_description = description, ti_user_id = user, ti_run_level = None,
         ti_last_run_time = last_run, ti_last_task_result = result, ti_next_run_time = None,
         ti_settings = settings\<rparr>))))))"

section \<open>One named task\<close>

definition is_absent :: "'m system \<Rightarrow> loaded_unit \<Rightarrow> systemd_file_state \<Rightarrow> ('m, bool) io" where
  "is_absent sd loaded file_state =
     (let load = (if file_state \<in> unlisted_file_states then Load_Masked else ld_state loaded) in
      io_bind (path_active_state sd (Some (ld_path loaded))) (\<lambda>active.
        io_return (is_unlisted_unit load active)))"

definition load_named_unit :: "'m system \<Rightarrow> pystr \<Rightarrow> ('m, loaded_unit option) io" where
  "load_named_unit sd name =
     io_bind (load_unit_state sd name) (\<lambda>l. case l of
       None \<Rightarrow> io_return None
     | Some loaded \<Rightarrow>
         io_bind (path_property sd (Some (ld_path loaded)) (u ''Id'') UNIT_IFACE None) (\<lambda>unit_id. case unit_id of
           None \<Rightarrow> io_raise (make_error NativeCallError ''cannot read the Id'')
         | Some v \<Rightarrow> io_return (if py_str sd v = name then Some loaded else None)))"

definition unit_dir_prefix :: pystr where "unit_dir_prefix = u ''/etc/systemd/system/''"

definition file_at :: "'m system \<Rightarrow> pystr \<Rightarrow> 'm world \<Rightarrow> unit_file option" where
  "file_at sd path w =
     (if startswith path unit_dir_prefix \<and> ch CHR ''/'' \<notin> set (drop (length unit_dir_prefix) path)
      then unit_dir w (drop (length unit_dir_prefix) path)
      else read_elsewhere sd path (outside w))"

fun read_text :: "unit_file option \<Rightarrow> native_cause + pystr" where
  "read_text (Some (TextFile text)) = Inr text"
| "read_text (Some (UnreadableFile cause)) = Inl cause"
| "read_text (Some DanglingLink) = Inl (OsFailure False)"
| "read_text None = Inl (OsFailure False)"

definition owned_service :: "'m system \<Rightarrow> pystr \<Rightarrow> pystr \<Rightarrow> bool \<Rightarrow> ('m, bool) io" where
  "owned_service sd name path strict =
     io_bind
       (io_catch (io_bind (path_property sd (Some path) (u ''FragmentPath'') UNIT_IFACE None) (\<lambda>v. io_return (Some v)))
         (\<lambda>e. if catches NativeAccessDeniedError (err_class e)
              then io_then (skip_or_raise ''cannot read the unit file path'' name (NativeCause e) strict) (io_return None)
              else io_raise e))
       (\<lambda>answer. case answer of
          None \<Rightarrow> io_return False
        | Some None \<Rightarrow>
            io_then (skip_or_raise ''cannot read the unit file path'' name
              (NativeCause (make_error NativeCallError ''FragmentPath'')) strict) (io_return False)
        | Some (Some v) \<Rightarrow>
            (let fragment = py_str sd v in
             if fragment = [] then io_return False
             else io_bind (io_reads (\<lambda>w. read_text (file_at sd fragment w))) (\<lambda>r. case r of
               Inl cause \<Rightarrow> io_then (skip_or_raise ''cannot read the unit file'' name cause strict) (io_return False)
             | Inr text \<Rightarrow> io_return (is_pwshpy_unit text))))"

definition unless_refused :: "('m, task_info) io \<Rightarrow> pystr \<Rightarrow> bool \<Rightarrow> ('m, task_info list) io" where
  "unless_refused read name strict =
     io_catch (io_bind read (\<lambda>task. io_return [task]))
       (\<lambda>e. if catches NativeAccessDeniedError (err_class e)
            then io_then (skip_or_raise ''systemd refused a read'' name (NativeCause e) strict) (io_return [])
            else io_raise e)"

definition or_empty :: "systemd_file_state option \<Rightarrow> systemd_file_state" where
  "or_empty s = (case s of None \<Rightarrow> File_Empty | Some v \<Rightarrow> v)"

definition listed_timer :: "'m system \<Rightarrow> listed_unit \<Rightarrow> ('m, task_info) io" where
  "listed_timer sd entry =
     io_bind (unit_file_state sd (lu_name entry)) (\<lambda>state.
       timer_task sd (lu_name entry) (Some (lu_path entry)) (or_empty state)
         (lu_active_state entry) (lu_description entry))"

definition resolve_named :: "'m system \<Rightarrow> pystr \<Rightarrow> ('m, (loaded_unit \<times> systemd_file_state) option) io" where
  "resolve_named sd name =
     io_bind (unit_file_state sd name) (\<lambda>s. let state = or_empty s in
       if state = File_Alias then io_return None
       else io_bind (load_named_unit sd name) (\<lambda>l. case l of
         None \<Rightarrow> io_return None
       | Some loaded \<Rightarrow> io_bind (is_absent sd loaded state) (\<lambda>absent.
           io_return (if absent then None else Some (loaded, state)))))"

text \<open>\<open>_lookup_unit\<close>: the loop over the two unit names; \<open>None\<close> ends it.\<close>

fun lookup_units :: "'m system \<Rightarrow> pystr \<Rightarrow> bool \<Rightarrow> pystr list \<Rightarrow> ('m, task_info list) io" where
  "lookup_units sd base strict [] = io_return []"
| "lookup_units sd base strict (name # names) =
     io_bind
       (io_catch (io_bind (resolve_named sd name) (\<lambda>r. io_return (Some r)))
         (\<lambda>e. if catches NativeCallError (err_class e)
              then io_then (skip_or_raise ''cannot load unit'' name (NativeCause e) strict) (io_return None)
              else io_raise e))
       (\<lambda>answer. case answer of
          None \<Rightarrow> io_return []
        | Some None \<Rightarrow> lookup_units sd base strict names
        | Some (Some (loaded, state)) \<Rightarrow>
            if endswith name (u ''.timer'')
            then unless_refused (timer_task_at sd name (Some (ld_path loaded)) state path_active_state) name strict
            else io_bind (owned_service sd name (ld_path loaded) strict) (\<lambda>owned.
              if owned then unless_refused (service_task sd base (Some (ld_path loaded)) path_active_state) name strict
              else io_return []))"

definition lookup_unit :: "'m system \<Rightarrow> pystr \<Rightarrow> bool \<Rightarrow> ('m, task_info list) io" where
  "lookup_unit sd base strict = lookup_units sd base strict [base @ u ''.timer'', base @ u ''.service'']"

section \<open>The listing\<close>

text \<open>\<open>_timer_files\<close> and \<open>_service_files\<close>: every unit file of a kind, none when no listing answers.\<close>

definition files_or_none :: "'m system \<Rightarrow> pystr \<Rightarrow> bool \<Rightarrow> ('m, (pystr \<times> systemd_file_state) list) io" where
  "files_or_none sd ending strict =
     io_catch (unit_files sd ending)
       (\<lambda>e. if catches NativeCallError (err_class e)
            then io_then (skip_or_raise ''cannot list the unit files'' ending (NativeCause e) strict) (io_return [])
            else io_raise e)"

text \<open>\<open>_timer_file_path\<close> and \<open>_service_file_path\<close>.\<close>

definition file_path :: "'m system \<Rightarrow> pystr \<Rightarrow> bool \<Rightarrow> ('m, pystr option) io" where
  "file_path sd name strict =
     io_catch (load_unit sd name)
       (\<lambda>e. if catches NativeCallError (err_class e)
            then io_then (skip_or_raise ''cannot load unit'' name (NativeCause e) strict) (io_return None)
            else io_raise e)"

text \<open>
  The two passes both listings make, over what reads a loaded entry and a loaded file of the kind:
  the loaded units, then the unit files not among them. \<open>seen\<close> is the set of names listed so far.
\<close>

definition loaded_pass ::
    "pystr \<Rightarrow> (listed_unit \<Rightarrow> ('m, 'y list) io) \<Rightarrow> listed_unit \<Rightarrow> pystr set \<Rightarrow> ('m, 'y, pystr set) gen" where
  "loaded_pass ending listed entry seen =
     (if \<not> endswith (lu_name entry) ending \<or> is_unlisted_unit (lu_load_state entry) (lu_active_state entry)
      then gen_io (io_return seen)
      else gen_bind (gen_io (listed entry)) (\<lambda>records.
        gen_bind (gen_yield records) (\<lambda>_. gen_io (io_return (insert (lu_name entry) seen)))))"

definition file_pass ::
    "(pystr \<Rightarrow> ('m, pystr option) io) \<Rightarrow> (pystr \<Rightarrow> pystr \<Rightarrow> systemd_file_state \<Rightarrow> ('m, 'y list) io) \<Rightarrow>
     pystr \<times> systemd_file_state \<Rightarrow> pystr set \<Rightarrow> ('m, 'y, pystr set) gen" where
  "file_pass path_of record_of entry seen = (case entry of (name, state) \<Rightarrow>
     if name \<in> seen \<or> state \<in> unlisted_file_states then gen_io (io_return seen)
     else gen_bind (gen_io (path_of name)) (\<lambda>path. case path of
         None \<Rightarrow> gen_io (io_return (insert name seen))
       | Some p \<Rightarrow> gen_bind (gen_io (record_of name p state)) (\<lambda>records.
           gen_bind (gen_yield records) (\<lambda>_. gen_io (io_return (insert name seen))))))"

definition listed_units ::
    "'m system \<Rightarrow> pystr \<Rightarrow> bool \<Rightarrow> (listed_unit \<Rightarrow> ('m, 'y list) io) \<Rightarrow>
     (pystr \<Rightarrow> pystr \<Rightarrow> systemd_file_state \<Rightarrow> ('m, 'y list) io) \<Rightarrow> ('m, 'y, unit) gen" where
  "listed_units sd ending strict listed record_of =
     gen_bind (gen_io (list_units sd)) (\<lambda>entries.
     gen_bind (gen_loop (loaded_pass ending listed) entries {}) (\<lambda>seen.
     gen_bind (gen_io (files_or_none sd ending strict)) (\<lambda>files.
     gen_bind (gen_loop (file_pass (\<lambda>name. file_path sd name strict) record_of) files seen) (\<lambda>_.
     gen_io (io_return ())))))"

text \<open>A listing between opening and closing its connection.\<close>

definition gen_with_bus :: "'m system \<Rightarrow> ('m, 'y, unit) gen \<Rightarrow> ('m, 'y, unit) gen" where
  "gen_with_bus sd body = gen_bind (gen_io (open_bus sd)) (\<lambda>_. gen_finally body close_bus)"

definition iter_units ::
    "'m system \<Rightarrow> pystr \<Rightarrow> bool \<Rightarrow> (listed_unit \<Rightarrow> ('m, 'y list) io) \<Rightarrow>
     (pystr \<Rightarrow> pystr \<Rightarrow> systemd_file_state \<Rightarrow> ('m, 'y list) io) \<Rightarrow> ('m, 'y, unit) gen" where
  "iter_units sd ending strict listed record_of = gen_with_bus sd (listed_units sd ending strict listed record_of)"

definition timer_ending :: pystr where "timer_ending = u ''.timer''"

definition iter_timers :: "'m system \<Rightarrow> bool \<Rightarrow> pystr option \<Rightarrow> ('m, task_info, unit) gen" where
  "iter_timers sd strict task_name = (case task_name of
      Some name \<Rightarrow>
        gen_bind (gen_io (io_lift (and_then (check_task_name name) (\<lambda>_. existing_unit_base name)))) (\<lambda>base.
        gen_with_bus sd (gen_bind (gen_io (lookup_unit sd base strict)) gen_yield))
    | None \<Rightarrow> iter_units sd timer_ending strict
        (\<lambda>entry. unless_refused (listed_timer sd entry) (lu_name entry) strict)
        (\<lambda>name path state.
           unless_refused (timer_task_at sd name (Some path) state path_active_state) name strict))"

end
