(* ===== verification/Systemd_Timers.thy ===== *)
theory Systemd_Timers
  imports Systemd_Tasks
begin

text \<open>
  \<open>adapters/native/systemd_timers.py\<close>, part two: \<open>SystemdScheduledTaskController\<close> - register, unregister,
  run, stop, enable and disable. Everything that can be refused from the arguments alone is computed
  before the bus is opened (\<open>plan\<close>); then the two unit files are checked, stopped, written and loaded.
\<close>

section \<open>Unit files\<close>

text \<open>\<open>Path.exists\<close>: false for a dangling link.\<close>

definition file_exists :: "unit_file option \<Rightarrow> bool" where
  "file_exists f \<longleftrightarrow> f \<noteq> None \<and> f \<noteq> Some DanglingLink"

definition service_name :: "pystr \<Rightarrow> pystr" where "service_name base = base @ u ''.service''"
definition timer_name :: "pystr \<Rightarrow> pystr" where "timer_name base = base @ u ''.timer''"

definition owned_unit_file :: "pystr \<Rightarrow> ('m, bool) io" where
  "owned_unit_file name =
     io_bind (io_reads (\<lambda>w. unit_dir w name)) (\<lambda>f. case f of
       None \<Rightarrow> io_return False
     | Some file \<Rightarrow> (case read_text (Some file) of
         Inl cause \<Rightarrow> io_raise (native_error ''cannot read the unit file'' cause)
       | Inr text \<Rightarrow> if is_pwshpy_unit text then io_return True
                     else io_raise (make_error NativeCallError ''not written by pwshpy'')))"

definition require_free_or_owned :: "'m system \<Rightarrow> pystr \<Rightarrow> ('m, unit) io" where
  "require_free_or_owned sd name =
     io_bind (owned_unit_file name) (\<lambda>owned.
       if owned then io_return ()
       else io_bind (load_unit sd name) (\<lambda>path.
         if path \<noteq> None then io_raise (make_error NativeCallError ''systemd already has the unit'')
         else io_return ()))"

definition has_timer :: "'m system \<Rightarrow> pystr \<Rightarrow> ('m, bool) io" where
  "has_timer sd base =
     io_bind (live_unit_file_state sd (timer_name base)) (\<lambda>state.
       if state \<noteq> None then io_return True
       else io_reads (\<lambda>w. file_exists (unit_dir w (timer_name base))))"

definition set_file :: "pystr \<Rightarrow> unit_file option \<Rightarrow> event \<Rightarrow> 'm world \<Rightarrow> 'm world" where
  "set_file name file e w = w\<lparr>unit_dir := (unit_dir w)(name := file), trace := trace w @ [e]\<rparr>"

text \<open>\<open>_write\<close>. Opening for writing truncates; a text with a lone surrogate then fails to encode with a
  \<open>UnicodeEncodeError\<close>, a \<open>ValueError\<close> that the handler for \<open>OSError\<close> lets through.\<close>

definition write_unit :: "'m system \<Rightarrow> pystr \<Rightarrow> pystr \<Rightarrow> ('m, unit) io" where
  "write_unit sd name text w = (case write_fault sd name text (outside w) of
      Some (denied, left) \<Rightarrow>
        (Inl (native_error ''cannot write unit'' (OsFailure denied)), set_file name left (WroteFile name text) w)
    | None \<Rightarrow>
        if \<exists>c \<in> set text. is_surrogate c
        then (raise_error ValueError ''surrogates not allowed'', set_file name (Some (TextFile [])) (WroteFile name []) w)
        else (Inr (), set_file name (Some (TextFile text)) (WroteFile name text) w))"

definition remove_unit :: "'m system \<Rightarrow> pystr \<Rightarrow> ('m, unit) io" where
  "remove_unit sd name w = (case unlink_fault sd name (outside w) of
      Some denied \<Rightarrow>
        (Inl (native_error ''cannot delete unit'' (OsFailure denied)),
         set_file name (unit_dir w name) (RemovedFile name) w)
    | None \<Rightarrow> (Inr (), set_file name None (RemovedFile name) w))"

definition do_call :: "'m system \<Rightarrow> manager_method \<Rightarrow> dvalue list \<Rightarrow> ('m, unit) io" where
  "do_call sd method body = io_then (call sd method body) (io_return ())"

definition replace_body :: "pystr \<Rightarrow> dvalue list" where
  "replace_body name = [DStr name, DStr (u ''replace'')]"

definition enable_body :: "pystr \<Rightarrow> dvalue list" where
  "enable_body name = [DArray [DStr name], DBool False, DBool False]"

definition disable_body :: "pystr \<Rightarrow> dvalue list" where
  "disable_body name = [DArray [DStr name], DBool False]"

definition stop_if_loaded :: "'m system \<Rightarrow> pystr \<Rightarrow> ('m, unit) io" where
  "stop_if_loaded sd name =
     io_catch (do_call sd StopUnit (replace_body name))
       (\<lambda>e. if catches NativeCallError (err_class e) \<and> dbus_error_name e = Some no_such_unit
            then io_return () else io_raise e)"

definition retire_timer :: "'m system \<Rightarrow> pystr \<Rightarrow> bool \<Rightarrow> ('m, unit) io" where
  "retire_timer sd timer remove =
     io_then (stop_if_loaded sd timer)
       (if \<not> remove then io_return ()
        else io_then (do_call sd DisableUnitFiles (disable_body timer)) (remove_unit sd timer))"

definition monotonic_bases :: "'m system \<Rightarrow> pystr \<Rightarrow> ('m, timer_base list option) io" where
  "monotonic_bases sd timer =
     io_bind (load_unit_path sd timer) (\<lambda>path.
     io_bind (path_property sd path (u ''TimersMonotonic'') TIMER_IFACE None) (\<lambda>raw. case raw of
         Some (DArray entries) \<Rightarrow>
           io_lift (map_sum id Some
             (map_res (\<lambda>entry. map_sum id (\<lambda>v. timer_base_of (py_str sd v)) (item entry 0)) entries))
       | _ \<Rightarrow> io_return None))"

definition with_bus :: "'m system \<Rightarrow> ('m, 'a) io \<Rightarrow> ('m, 'a) io" where
  "with_bus sd body = io_then (open_bus sd) (io_finally body close_bus)"

section \<open>The snapshot a verb returns\<close>

definition info :: "'m system \<Rightarrow> pystr \<Rightarrow> ('m, task_info) io" where
  "info sd base =
     io_bind (has_timer sd base) (\<lambda>timed.
       if timed then
         io_bind (live_unit_file_state sd (timer_name base)) (\<lambda>state.
         io_bind (load_unit sd (timer_name base)) (\<lambda>path.
           timer_task_at sd (timer_name base) path (or_empty state) live_active_state))
       else io_bind (load_unit sd (service_name base)) (\<lambda>path.
         service_task sd base path live_active_state))"

section \<open>Register\<close>

record registration =
  rg_program :: pystr
  rg_arguments :: pystr
  rg_description :: pystr
  rg_principal :: "task_principal option"
  rg_triggers :: "task_trigger list"
  rg_settings :: "task_settings option"

record unit_plan =
  pl_base :: pystr
  pl_service :: pystr
  pl_timer :: "pystr option"
  pl_arm_now :: bool

text \<open>Everything \<open>register\<close> computes before it opens the bus.\<close>

definition plan :: "pystr \<Rightarrow> pystr \<Rightarrow> registration \<Rightarrow> unit_plan res" where
  "plan version task_path r =
     and_then (unit_base task_path) (\<lambda>base.
     and_then (check_settings (rg_settings r) (rg_triggers r)) (\<lambda>_.
     and_then (linux_user (case rg_principal r of None \<Rightarrow> default_principal | Some p \<Rightarrow> p)) (\<lambda>user.
     and_then (service_unit version (rg_program r) (rg_arguments r) (rg_description r) user (rg_settings r)) (\<lambda>service_text.
     and_then (if rg_triggers r \<noteq> []
               then map_sum id Some (timer_unit version base (rg_description r) (rg_triggers r))
               else Inr None) (\<lambda>timer_text.
     and_then (arms_on_register (rg_triggers r)) (\<lambda>arm_now.
       Inr \<lparr>pl_base = base, pl_service = service_text, pl_timer = timer_text, pl_arm_now = arm_now\<rparr>))))))"

text \<open>The body of \<open>register\<close> between opening and closing the bus.\<close>

definition install :: "'m system \<Rightarrow> unit_plan \<Rightarrow> ('m, task_info) io" where
  "install sd p =
     (let base = pl_base p; service = service_name base; timer = timer_name base in
      io_then (io_each (require_free_or_owned sd) [service, timer])
     (io_bind (io_reads (\<lambda>w. file_exists (unit_dir w timer))) (\<lambda>present.
      io_then (if present then retire_timer sd timer (pl_timer p = None) else io_return ())
     (io_then (write_unit sd service (pl_service p))
     (io_then (case pl_timer p of None \<Rightarrow> io_return () | Some text \<Rightarrow> write_unit sd timer text)
     (io_then (do_call sd Reload [])
     (io_then (if pl_timer p = None then io_return ()
               else io_then (do_call sd EnableUnitFiles (enable_body timer))
                   (io_then (do_call sd Reload [])
                     (if pl_arm_now p then do_call sd StartUnit (replace_body timer) else io_return ())))
      (info sd base))))))))"

definition register :: "'m system \<Rightarrow> pystr \<Rightarrow> registration \<Rightarrow> ('m, task_info) io" where
  "register sd task_path r =
     io_bind (io_lift (plan (pwshpy_version sd) task_path r)) (\<lambda>p. with_bus sd (install sd p))"

section \<open>The other verbs\<close>

text \<open>\<open>unregister\<close>: both ownerships are read, and may refuse, before the bus is opened.\<close>

definition unregister :: "'m system \<Rightarrow> pystr \<Rightarrow> ('m, unit) io" where
  "unregister sd task_path =
     io_bind (io_lift (unit_base task_path)) (\<lambda>base.
     io_bind (owned_unit_file (timer_name base)) (\<lambda>timer_owned.
     io_bind (owned_unit_file (service_name base)) (\<lambda>service_owned.
       if \<not> (timer_owned \<or> service_owned) then io_raise (make_error NativeCallError ''no such task'')
       else with_bus sd
         (io_then (if timer_owned then retire_timer sd (timer_name base) True else io_return ())
         (io_then (if service_owned
                   then io_then (stop_if_loaded sd (service_name base)) (remove_unit sd (service_name base))
                   else io_return ())
          (do_call sd Reload []))))))"

definition start_stop :: "'m system \<Rightarrow> pystr \<Rightarrow> manager_method \<Rightarrow> ('m, unit) io" where
  "start_stop sd base method = with_bus sd (do_call sd method (replace_body (service_name base)))"

definition run_task :: "'m system \<Rightarrow> pystr \<Rightarrow> ('m, unit) io" where
  "run_task sd task_path =
     io_bind (io_lift (existing_unit_base task_path)) (\<lambda>base. start_stop sd base StartUnit)"

definition stop_task :: "'m system \<Rightarrow> pystr \<Rightarrow> ('m, unit) io" where
  "stop_task sd task_path =
     io_bind (io_lift (existing_unit_base task_path)) (\<lambda>base. start_stop sd base StopUnit)"

definition require_timer :: "'m system \<Rightarrow> pystr \<Rightarrow> ('m, unit) io" where
  "require_timer sd base =
     io_bind (has_timer sd base) (\<lambda>timed.
       if \<not> timed then io_raise (make_error NativeCallError ''on-demand task'')
       else io_bind (live_unit_file_state sd (timer_name base)) (\<lambda>state.
         if state = Some File_Static then io_raise (make_error NativeCallError ''static timer'')
         else io_return ()))"

definition enable_task :: "'m system \<Rightarrow> pystr \<Rightarrow> ('m, task_info) io" where
  "enable_task sd task_path =
     io_bind (io_lift (existing_unit_base task_path)) (\<lambda>base. let timer = timer_name base in with_bus sd
       (io_then (require_timer sd base)
       (io_bind (monotonic_bases sd timer) (\<lambda>bases.
        io_then (do_call sd EnableUnitFiles (enable_body timer))
       (io_then (do_call sd Reload [])
       (io_then (case bases of
           None \<Rightarrow> io_return ()
         | Some bs \<Rightarrow> if starts_when_armed bs then do_call sd StartUnit (replace_body timer) else io_return ())
        (info sd base)))))))"

definition disable_task :: "'m system \<Rightarrow> pystr \<Rightarrow> ('m, task_info) io" where
  "disable_task sd task_path =
     io_bind (io_lift (existing_unit_base task_path)) (\<lambda>base. let timer = timer_name base in with_bus sd
       (io_then (require_timer sd base)
       (io_then (do_call sd StopUnit (replace_body timer))
       (io_then (do_call sd DisableUnitFiles (disable_body timer))
       (io_then (do_call sd Reload [])
        (info sd base))))))"

end
