(* ===== verification/Systemd_Timer_Facts.thy ===== *)
theory Systemd_Timer_Facts
  imports Systemd_Timers
begin

text \<open>
  Facts on the task listing and the controller: what each computation may do (\<open>keeps\<close>), what a
  successful run has done in which order (\<open>does\<close>), that a lenient listing agrees with a strict one
  that succeeds (\<open>agrees\<close>), and that a refused read is never an answer (\<open>honest\<close>).
\<close>

section \<open>Reads\<close>

lemma task_lookups [io_lookups]:
  "lookup (service_user sd path)"
  "lookup (service_settings sd path)"
  "lookup (int_property sd path prop interface)"
  "lookup (load_named_unit sd name)"
  "lookup (is_absent sd loaded state)"
  "lookup (has_timer sd base)"
  "lookup (monotonic_bases sd timer)"
  "lookup (owned_unit_file name)"
proof -
  show "lookup (service_user sd path)" unfolding service_user_def by (intro io_lookups)
  show "lookup (service_settings sd path)" unfolding service_settings_def by (intro io_lookups)
  show "lookup (int_property sd path prop interface)" unfolding int_property_def by (intro io_lookups)
  show "lookup (load_named_unit sd name)" unfolding load_named_unit_def by (intro io_lookups)
  show "lookup (is_absent sd loaded state)" unfolding is_absent_def Let_def by (intro io_lookups)
  show "lookup (has_timer sd base)" unfolding has_timer_def by (intro io_lookups)
  show "lookup (monotonic_bases sd timer)" unfolding monotonic_bases_def
    by (intro io_lookups) (auto intro!: io_lookups split: option.splits dvalue.splits)
  show "lookup (owned_unit_file name)" unfolding owned_unit_file_def
    by (intro io_lookups) (auto intro!: io_lookups split: sum.splits)
qed

lemma lookup_pair [io_lookups]: "(\<And>x y. lookup (f x y)) \<Longrightarrow> lookup (case p of (x, y) \<Rightarrow> f x y)"
  by (cases p) simp

lemma service_run_lookup [io_lookups]: "lookup (service_run sd path)"
  unfolding service_run_def by (intro io_lookups)

lemma timer_run_info_lookup [io_lookups]: "lookup (timer_run_info sd path base)"
  unfolding timer_run_info_def by (intro io_lookups)

lemma timer_task_lookup [io_lookups]: "lookup (timer_task sd name path file_state active description)"
  unfolding timer_task_def Let_def by (intro io_lookups)

lemma timer_task_at_lookup [io_lookups]:
  "(\<And>p. lookup (read_state sd p)) \<Longrightarrow> lookup (timer_task_at sd name path file_state read_state)"
  unfolding timer_task_at_def by (intro io_lookups)

lemma service_task_lookup [io_lookups]:
  "(\<And>p. lookup (read_state sd p)) \<Longrightarrow> lookup (service_task sd base path read_state)"
  unfolding service_task_def by (intro io_lookups)

lemma more_lookups [io_lookups]:
  "lookup (listed_timer sd entry)"
  "lookup (resolve_named sd name)"
  "lookup (info sd base)"
  "lookup (require_timer sd base)"
  "lookup (require_free_or_owned sd name)"
  unfolding listed_timer_def resolve_named_def info_def require_timer_def require_free_or_owned_def Let_def
  by (intro io_lookups)+

section \<open>The listing changes nothing\<close>

definition listing_event :: "event \<Rightarrow> bool" where
  "listing_event e \<longleftrightarrow> read_event e \<or> (\<exists>what name. e = Warned what name)"

lemma listing_lookup: "lookup f \<Longrightarrow> keeps (confined listing_event units) f"
  by (rule lookup_confined) (simp_all add: listing_event_def)

lemma listing_events [simp]: "listing_event (Warned what name)"
  by (simp add: listing_event_def)

lemma sum_keeps [io_keeps]:
  "(\<And>x. keeps R (f x)) \<Longrightarrow> (\<And>y. keeps R (g y)) \<Longrightarrow> keeps R (case v of Inl x \<Rightarrow> f x | Inr y \<Rightarrow> g y)"
  by (cases v) simp_all

lemma unless_refused_listing [io_keeps]:
  "lookup read \<Longrightarrow> keeps (confined listing_event {}) (unless_refused read name strict)"
  unfolding unless_refused_def
  by (intro io_keeps listing_events) (rule listing_lookup)

lemma owned_service_listing [io_keeps]:
  "keeps (confined listing_event {}) (owned_service sd name path strict)"
  unfolding owned_service_def Let_def
  by ((intro io_keeps listing_events) | (rule listing_lookup, intro io_lookups))+

lemma files_or_none_listing [io_keeps]: "keeps (confined listing_event {}) (files_or_none sd ending strict)"
  unfolding files_or_none_def
  by ((intro io_keeps listing_events) | (rule listing_lookup, intro io_lookups))+

lemma file_path_listing [io_keeps]: "keeps (confined listing_event {}) (file_path sd name strict)"
  unfolding file_path_def
  by ((intro io_keeps listing_events) | (rule listing_lookup, intro io_lookups))+

lemma lookup_units_listing [io_keeps]: "keeps (confined listing_event {}) (lookup_units sd base strict names)"
proof (induction names)
  case Nil
  show ?case by (simp only: lookup_units.simps) (intro io_keeps)
next
  case (Cons name names)
  show ?case
    unfolding lookup_units.simps
    by ((intro io_keeps listing_events Cons.IH) | (intro io_lookups; fail) | (rule listing_lookup, intro io_lookups))+
qed

lemma loaded_pass_listing [io_keeps]:
  assumes "\<And>entry. keeps (confined listing_event {}) (listed entry)"
  shows "keeps (confined listing_event {}) (loaded_pass ending listed entry seen)"
  unfolding loaded_pass_def by (intro io_keeps assms)

lemma file_pass_listing [io_keeps]:
  assumes "\<And>name. keeps (confined listing_event {}) (path_of name)"
    "\<And>name path state. keeps (confined listing_event {}) (record_of name path state)"
  shows "keeps (confined listing_event {}) (file_pass path_of record_of entry seen)"
  unfolding file_pass_def by (intro io_keeps assms)

lemma listed_units_listing [io_keeps]:
  assumes "\<And>entry. keeps (confined listing_event {}) (listed entry)"
    "\<And>name path state. keeps (confined listing_event {}) (record_of name path state)"
  shows "keeps (confined listing_event {}) (listed_units sd ending strict listed record_of)"
  unfolding listed_units_def
  by ((intro io_keeps listing_events assms) | (rule listing_lookup, intro io_lookups))+

text \<open>The listing of timers is its body between opening and closing the connection, or an error.\<close>

definition timers_body :: "'m system \<Rightarrow> bool \<Rightarrow> pystr option \<Rightarrow> pystr \<Rightarrow> ('m, task_info, unit) gen" where
  "timers_body sd strict task_name base = (case task_name of
      Some name \<Rightarrow> gen_bind (gen_io (lookup_unit sd base strict)) gen_yield
    | None \<Rightarrow> listed_units sd timer_ending strict
        (\<lambda>entry. unless_refused (listed_timer sd entry) (lu_name entry) strict)
        (\<lambda>name path state.
           unless_refused (timer_task_at sd name (Some path) state path_active_state) name strict))"

lemma timers_body_listing: "keeps (confined listing_event {}) (timers_body sd strict task_name base)"
  unfolding timers_body_def lookup_unit_def
  by ((intro io_keeps listing_events) | (intro io_lookups; fail))+

lemma iter_timers_cases:
  obtains (refused) name e where "task_name = Some name"
      "iter_timers sd strict task_name = gen_io (io_raise e)"
  | (listed) base where "iter_timers sd strict task_name = gen_with_bus sd (timers_body sd strict task_name base)"
proof (cases task_name)
  case None
  then show thesis using listed by (simp add: iter_timers_def timers_body_def iter_units_def)
next
  case (Some name)
  define checked where "checked = and_then (check_task_name name) (\<lambda>_. existing_unit_base name)"
  have run: "iter_timers sd strict task_name = gen_bind (gen_io (io_lift checked))
      (\<lambda>base. gen_with_bus sd (timers_body sd strict task_name base))"
    by (simp add: iter_timers_def timers_body_def checked_def Some)
  show thesis
  proof (cases checked)
    case (Inl e)
    with run have "iter_timers sd strict task_name = gen_io (io_raise e)"
      by (auto simp: fun_eq_iff gen_bind_def gen_io_def io_lift_def io_raise_def)
    with Some show thesis by (rule refused)
  next
    case (Inr base)
    with run have "iter_timers sd strict task_name = gen_with_bus sd (timers_body sd strict task_name base)"
      by (auto simp: fun_eq_iff gen_bind_def gen_io_def io_lift_def split: prod.splits sum.splits)
    then show thesis by (rule listed)
  qed
qed

section \<open>What the controller may touch\<close>

text \<open>The events of a verb on the task \<open>base\<close>: reads, changes to its two units, reloads.\<close>

definition unit_names :: "pystr \<Rightarrow> pystr set" where
  "unit_names base = {service_name base, timer_name base}"

fun about_units :: "pystr set \<Rightarrow> message \<Rightarrow> bool" where
  "about_units units (GetProperty _ _ _) \<longleftrightarrow> True"
| "about_units units (ManagerCall method body) \<longleftrightarrow>
     read_message (ManagerCall method body) \<or> method = Reload \<or>
     (\<exists>name \<in> units. body \<in> {replace_body name, enable_body name, disable_body name})"

definition unit_event :: "pystr set \<Rightarrow> event \<Rightarrow> bool" where
  "unit_event units e \<longleftrightarrow> (case e of
      Sent m _ \<Rightarrow> about_units units m
    | WroteFile name _ \<Rightarrow> name \<in> units
    | RemovedFile name \<Rightarrow> name \<in> units
    | Warned _ _ \<Rightarrow> False
    | Slept \<Rightarrow> False
    | _ \<Rightarrow> True)"

definition bus_event :: "event \<Rightarrow> bool" where
  "bus_event e \<longleftrightarrow> e = BusOpened \<or> e = BusClosed"

definition task_event :: "pystr set \<Rightarrow> event \<Rightarrow> bool" where
  "task_event units e \<longleftrightarrow> unit_event units e \<and> \<not> bus_event e"

lemma read_task_event: "read_event e \<Longrightarrow> task_event units e"
proof (cases e)
  case (Sent m r)
  assume "read_event e"
  with Sent show ?thesis by (cases m) (auto simp: read_event_def task_event_def unit_event_def bus_event_def)
qed (auto simp: read_event_def)

lemma task_lookup: "lookup f \<Longrightarrow> keeps (confined (task_event units) names) f"
  by (rule lookup_confined) (simp_all add: read_task_event)

lemma write_confined [io_keeps]:
  "name \<in> units \<Longrightarrow> keeps (confined (task_event units) units) (write_unit sd name text)"
  by (auto simp: keeps_def write_unit_def confined_def set_file_def task_event_def unit_event_def bus_event_def
      split: option.splits)

lemma remove_confined [io_keeps]:
  "name \<in> units \<Longrightarrow> keeps (confined (task_event units) units) (remove_unit sd name)"
  by (auto simp: keeps_def remove_unit_def confined_def set_file_def task_event_def unit_event_def bus_event_def
      split: option.splits)

lemma do_call_confined [io_keeps]:
  assumes "method = Reload \<or> (\<exists>name \<in> units. body \<in> {replace_body name, enable_body name, disable_body name})"
  shows "keeps (confined (task_event units) names) (do_call sd method body)"
  unfolding do_call_def
  by (intro io_keeps) (use assms in \<open>auto simp: task_event_def unit_event_def bus_event_def\<close>)

lemma stop_if_loaded_confined [io_keeps]:
  "name \<in> units \<Longrightarrow> keeps (confined (task_event units) names) (stop_if_loaded sd name)"
  unfolding stop_if_loaded_def by (intro io_keeps) auto

lemma retire_timer_confined [io_keeps]:
  "name \<in> units \<Longrightarrow> keeps (confined (task_event units) units) (retire_timer sd name remove)"
  unfolding retire_timer_def by (intro io_keeps) auto

lemma unit_names_mem [simp]: "service_name base \<in> unit_names base" "timer_name base \<in> unit_names base"
  by (simp_all add: unit_names_def)

text \<open>After the checks, \<open>install\<close> stays within the two units of the plan.\<close>

definition install_rest :: "'m system \<Rightarrow> unit_plan \<Rightarrow> ('m, task_info) io" where
  "install_rest sd p =
     (let base = pl_base p; service = service_name base; timer = timer_name base in
      io_bind (io_reads (\<lambda>w. file_exists (unit_dir w timer))) (\<lambda>present.
      io_then (if present then retire_timer sd timer (pl_timer p = None) else io_return ())
     (io_then (write_unit sd service (pl_service p))
     (io_then (case pl_timer p of None \<Rightarrow> io_return () | Some text \<Rightarrow> write_unit sd timer text)
     (io_then (do_call sd Reload [])
     (io_then (if pl_timer p = None then io_return ()
               else io_then (do_call sd EnableUnitFiles (enable_body timer))
                   (io_then (do_call sd Reload [])
                     (if pl_arm_now p then do_call sd StartUnit (replace_body timer) else io_return ())))
      (info sd base)))))))"

lemma install_split:
  "install sd p = io_then (io_each (require_free_or_owned sd) [service_name (pl_base p), timer_name (pl_base p)])
     (install_rest sd p)"
  by (simp add: install_def install_rest_def Let_def)

lemma install_rest_confined:
  "keeps (confined (task_event (unit_names (pl_base p))) (unit_names (pl_base p))) (install_rest sd p)"
  unfolding install_rest_def Let_def
  by (intro io_keeps) (auto intro!: task_lookup io_lookups simp: unit_names_def)

section \<open>Ownership\<close>

definition ours :: "unit_file option \<Rightarrow> bool" where
  "ours f \<longleftrightarrow> f = None \<or> (\<exists>text. f = Some (TextFile text) \<and> is_pwshpy_unit text)"

lemma owned_unit_file_run:
  "owned_unit_file name w =
     (case unit_dir w name of
        None \<Rightarrow> Inr False
      | Some (TextFile text) \<Rightarrow>
          if is_pwshpy_unit text then Inr True else raise_error NativeCallError ''not written by pwshpy''
      | Some f \<Rightarrow> (case read_text (Some f) of
          Inl cause \<Rightarrow> Inl (native_error ''cannot read the unit file'' cause) | Inr _ \<Rightarrow> Inr True), w)"
  by (auto simp: owned_unit_file_def io_bind_def split: option.splits unit_file.splits)

lemma owned_unit_file_Inr:
  "owned_unit_file name w = (Inr owned, w') \<longleftrightarrow>
     w' = w \<and> ours (unit_dir w name) \<and> (owned \<longleftrightarrow> unit_dir w name \<noteq> None)"
  by (auto simp: owned_unit_file_run ours_def split: option.splits unit_file.splits)

lemma lookup_run:
  assumes "lookup f" "f w = (r, w')"
  shows "unit_dir w' = unit_dir w" "\<exists>es. trace w' = trace w @ es \<and> (\<forall>e \<in> set es. read_event e)"
proof -
  have "confined read_event {} w (snd (f w))"
    using assms(1) by (simp add: lookup_reads reads_def keeps_def)
  then show "unit_dir w' = unit_dir w" "\<exists>es. trace w' = trace w @ es \<and> (\<forall>e \<in> set es. read_event e)"
    using assms(2) by (auto simp: confined_def)
qed

lemma require_free_or_owned_Inr:
  assumes "require_free_or_owned sd name w = (Inr x, w')"
  shows "ours (unit_dir w name)"
  using assms by (auto simp: require_free_or_owned_def io_bind_Inr owned_unit_file_Inr)

lemma checks_ours:
  assumes "io_each (require_free_or_owned sd) names w = (Inr x, w')"
  shows "\<forall>name \<in> set names. ours (unit_dir w name)"
  using assms
proof (induction names arbitrary: w)
  case (Cons name names)
  then obtain y w1 where first: "require_free_or_owned sd name w = (Inr y, w1)"
    and rest: "io_each (require_free_or_owned sd) names w1 = (Inr x, w')"
    by (auto simp: io_then_Inr)
  have "unit_dir w1 = unit_dir w" by (rule lookup_run(1)[where f = "require_free_or_owned sd name", OF more_lookups(5) first])
  with Cons.IH[OF rest] require_free_or_owned_Inr[OF first] show ?case by simp
qed simp

lemma each_lookup [io_lookups]: "(\<And>x. lookup (f x)) \<Longrightarrow> lookup (io_each f xs)"
  by (induction xs) (simp_all add: io_lookups)

text \<open>Either both units are free or pwshpy's own, or nothing but reads has happened.\<close>

lemma install_outcome:
  assumes "install sd p w = (r, w')"
  shows "(\<forall>name \<in> unit_names (pl_base p). ours (unit_dir w name)) \<and>
      confined (task_event (unit_names (pl_base p))) (unit_names (pl_base p)) w w' \<or>
    (\<exists>e. r = Inl e) \<and> confined read_event {} w w'"
proof -
  let ?checks = "io_each (require_free_or_owned sd) [service_name (pl_base p), timer_name (pl_base p)]"
  have l: "lookup ?checks" by (intro io_lookups)
  obtain c w1 where c: "?checks w = (c, w1)" by fastforce
  have reads: "confined read_event {} w w1"
    using l c by (metis keeps_def lookup_reads reads_def snd_conv)
  show ?thesis
  proof (cases c)
    case (Inl e)
    with c assms have "r = Inl e" "w' = w1" by (auto simp: install_split io_then_def io_bind_def)
    with reads show ?thesis by blast
  next
    case (Inr x)
    with c assms have "install_rest sd p w1 = (r, w')" by (simp add: install_split)
    then have "confined (task_event (unit_names (pl_base p))) (unit_names (pl_base p)) w1 w'"
      using install_rest_confined[of p sd] by (metis keeps_def snd_conv)
    moreover have "confined (task_event (unit_names (pl_base p))) (unit_names (pl_base p)) w w1"
      using reads read_task_event by (rule confined_weaken) auto
    moreover have "\<forall>name \<in> unit_names (pl_base p). ours (unit_dir w name)"
      using checks_ours[of sd "[service_name (pl_base p), timer_name (pl_base p)]" w x w1] c Inr
      by (simp add: unit_names_def)
    ultimately show ?thesis using confined_trans by blast
  qed
qed

end
