(* ===== verification/Systemd_Actions.thy ===== *)
theory Systemd_Actions
  imports Systemd_Timer_Facts
begin

text \<open>
  What a successful run of a controller verb has done: the list of its actions, in order, where an
  action is an event that is no read (the reply of a call left out), and the unit directory as the
  actions leave it. \<open>performs m actions\<close> composes along the combinators, so each verb's list is read off
  its definition.
\<close>

section \<open>Actions\<close>

fun forget_reply :: "event \<Rightarrow> event" where
  "forget_reply (Sent m r) = Sent m (BodyReply [])"
| "forget_reply e = e"

definition acts :: "event list \<Rightarrow> event list" where
  "acts es = map forget_reply (filter (\<lambda>e. \<not> read_event e) es)"

fun apply_action :: "event \<Rightarrow> directory \<Rightarrow> directory" where
  "apply_action (WroteFile name text) d = d(name \<mapsto> TextFile text)"
| "apply_action (RemovedFile name) d = d(name := None)"
| "apply_action e d = d"

definition sent :: "manager_method \<Rightarrow> dvalue list \<Rightarrow> event" where
  "sent method body = Sent (ManagerCall method body) (BodyReply [])"

lemma apply_sent [simp]: "apply_action (sent method body) = id"
  by (simp add: sent_def fun_eq_iff)

lemma acts_append [simp]: "acts (es @ fs) = acts es @ acts fs"
  by (simp add: acts_def)

definition performs :: "('m, 'a) io \<Rightarrow> event list \<Rightarrow> bool" where
  "performs m actions \<longleftrightarrow> (\<forall>w x w'. m w = (Inr x, w') \<longrightarrow>
     unit_dir w' = fold apply_action actions (unit_dir w) \<and>
     (\<exists>es. trace w' = trace w @ es \<and> acts es = actions))"

named_theorems io_performs

lemma performsI:
  assumes "\<And>w x w'. m w = (Inr x, w') \<Longrightarrow>
     unit_dir w' = fold apply_action actions (unit_dir w) \<and>
     (\<exists>es. trace w' = trace w @ es \<and> acts es = actions)"
  shows "performs m actions"
  using assms unfolding performs_def by blast

lemma performsD:
  assumes "performs m actions" "m w = (Inr x, w')"
  shows "unit_dir w' = fold apply_action actions (unit_dir w)"
    "\<exists>es. trace w' = trace w @ es \<and> acts es = actions"
  using assms unfolding performs_def by blast+

lemma performs_lookup: "lookup m \<Longrightarrow> performs m []"
proof (rule performsI)
  fix w x w' assume l: "lookup m" "m w = (Inr x, w')"
  have "unit_dir w' = unit_dir w" by (rule lookup_run(1)[where f = m, OF l])
  moreover have "\<exists>es. trace w' = trace w @ es \<and> (\<forall>e \<in> set es. read_event e)"
    by (rule lookup_run(2)[where f = m, OF l])
  then have "\<exists>es. trace w' = trace w @ es \<and> acts es = []"
    by (auto simp: acts_def filter_empty_conv)
  ultimately show "unit_dir w' = fold apply_action [] (unit_dir w) \<and>
      (\<exists>es. trace w' = trace w @ es \<and> acts es = [])" by simp
qed

lemma performs_bind [io_performs]:
  assumes "performs m as" "\<And>x. performs (f x) bs"
  shows "performs (io_bind m f) (as @ bs)"
proof (rule performsI)
  fix w x w'' assume "io_bind m f w = (Inr x, w'')"
  then obtain y w' where m: "m w = (Inr y, w')" and f: "f y w' = (Inr x, w'')"
    by (auto simp: io_bind_Inr)
  from performsD(2)[OF assms(1) m] performsD(2)[OF assms(2) f]
  have "\<exists>es. trace w'' = trace w @ es \<and> acts es = as @ bs"
    by (metis acts_append append.assoc)
  with performsD(1)[OF assms(1) m] performsD(1)[OF assms(2) f]
  show "unit_dir w'' = fold apply_action (as @ bs) (unit_dir w) \<and>
      (\<exists>es. trace w'' = trace w @ es \<and> acts es = as @ bs)" by simp
qed

lemma performs_then [io_performs]:
  "performs m as \<Longrightarrow> performs k bs \<Longrightarrow> performs (io_then m k) (as @ bs)"
  unfolding io_then_def by (rule performs_bind)

lemma performs_if [io_performs]:
  "performs f as \<Longrightarrow> performs g bs \<Longrightarrow> performs (if c then f else g) (if c then as else bs)"
  by simp

lemma performs_option [io_performs]:
  "performs f as \<Longrightarrow> (\<And>x. performs (g x) (bs x)) \<Longrightarrow>
   performs (case v of None \<Rightarrow> f | Some x \<Rightarrow> g x) (case v of None \<Rightarrow> as | Some x \<Rightarrow> bs x)"
  by (cases v) simp_all

lemma performs_return [io_performs]: "performs (io_return x) []"
  by (rule performs_lookup) (intro io_lookups)

lemma performs_write [io_performs]: "performs (write_unit sd name text) [WroteFile name text]"
  by (rule performsI)
    (auto simp: write_unit_def set_file_def acts_def read_event_def split: option.splits if_splits)

lemma performs_remove [io_performs]: "performs (remove_unit sd name) [RemovedFile name]"
  by (rule performsI) (auto simp: remove_unit_def set_file_def acts_def read_event_def split: option.splits)

lemma send_run:
  "send sd msg w = (r, w') \<Longrightarrow>
   unit_dir w' = unit_dir w \<and> (\<exists>a. trace w' = trace w @ [Sent msg a])"
  by (auto simp: send_def split: prod.splits)

lemma call_run:
  assumes "call sd method body w = (r, w')"
  shows "unit_dir w' = unit_dir w \<and> (\<exists>a. trace w' = trace w @ [Sent (ManagerCall method body) a])"
proof -
  obtain s w1 where s: "send sd (ManagerCall method body) w = (s, w1)" by fastforce
  have "w' = w1"
    using assms s by (cases s) (auto simp: call_def io_bind_def split: reply.splits)
  with send_run[OF s] show ?thesis by simp
qed

lemma do_call_run:
  assumes "do_call sd method body w = (r, w')"
  shows "unit_dir w' = unit_dir w \<and> (\<exists>a. trace w' = trace w @ [Sent (ManagerCall method body) a])"
proof -
  obtain s w1 where s: "call sd method body w = (s, w1)" by fastforce
  have "w' = w1" using assms s by (cases s) (auto simp: do_call_def)
  with call_run[OF s] show ?thesis by simp
qed

lemma performs_do_call [io_performs]:
  assumes "\<not> read_message (ManagerCall method body)"
  shows "performs (do_call sd method body) [sent method body]"
proof (rule performsI)
  fix w x w' assume "do_call sd method body w = (Inr x, w')"
  from do_call_run[OF this] assms show "unit_dir w' = fold apply_action [sent method body] (unit_dir w) \<and>
      (\<exists>es. trace w' = trace w @ es \<and> acts es = [sent method body])"
    by (auto simp: acts_def read_event_def sent_def)
qed

lemma performs_stop [io_performs]: "performs (stop_if_loaded sd name) [sent StopUnit (replace_body name)]"
proof (rule performsI)
  fix w x w' assume run: "stop_if_loaded sd name w = (Inr x, w')"
  obtain s w1 where s: "do_call sd StopUnit (replace_body name) w = (s, w1)" by fastforce
  have "w' = w1" using run s by (cases s) (auto simp: stop_if_loaded_def io_catch_def split: if_splits)
  with do_call_run[OF s] show "unit_dir w' = fold apply_action [sent StopUnit (replace_body name)] (unit_dir w) \<and>
      (\<exists>es. trace w' = trace w @ es \<and> acts es = [sent StopUnit (replace_body name)])"
    by (auto simp: acts_def read_event_def sent_def)
qed

section \<open>The verbs\<close>

definition retire_actions :: "pystr \<Rightarrow> bool \<Rightarrow> event list" where
  "retire_actions timer remove =
     sent StopUnit (replace_body timer) #
     (if remove then [sent DisableUnitFiles (disable_body timer), RemovedFile timer] else [])"

lemma performs_retire [io_performs]: "performs (retire_timer sd timer remove) (retire_actions timer remove)"
proof (cases remove)
  case True
  have "performs (retire_timer sd timer True)
      ([sent StopUnit (replace_body timer)] @ [sent DisableUnitFiles (disable_body timer)] @ [RemovedFile timer])"
    unfolding retire_timer_def by (simp del: append.simps, intro io_performs) simp
  with True show ?thesis by (simp add: retire_actions_def)
next
  case False
  have "performs (retire_timer sd timer False) ([sent StopUnit (replace_body timer)] @ [])"
    unfolding retire_timer_def by (simp del: append.simps append_Nil2, intro io_performs)
  with False show ?thesis by (simp add: retire_actions_def)
qed

text \<open>What a successful \<open>register\<close> does, given whether a timer file was there before.\<close>

definition install_actions :: "unit_plan \<Rightarrow> bool \<Rightarrow> event list" where
  "install_actions p present =
     (let service = service_name (pl_base p); timer = timer_name (pl_base p) in
      (if present then retire_actions timer (pl_timer p = None) else []) @
      [WroteFile service (pl_service p)] @
      (case pl_timer p of None \<Rightarrow> [] | Some text \<Rightarrow> [WroteFile timer text]) @
      [sent Reload []] @
      (if pl_timer p = None then []
       else [sent EnableUnitFiles (enable_body timer)] @ [sent Reload []] @
            (if pl_arm_now p then [sent StartUnit (replace_body timer)] else [])) @ [])"

lemma install_rest_performs:
  assumes "install_rest sd p w = (Inr x, w')"
  shows "unit_dir w' = fold apply_action
      (install_actions p (file_exists (unit_dir w (timer_name (pl_base p))))) (unit_dir w)"
    "\<exists>es. trace w' = trace w @ es \<and>
      acts es = install_actions p (file_exists (unit_dir w (timer_name (pl_base p))))"
proof -
  let ?timer = "timer_name (pl_base p)"
  define present where "present = file_exists (unit_dir w ?timer)"
  define rest where "rest =
     io_then (if present then retire_timer sd ?timer (pl_timer p = None) else io_return ())
     (io_then (write_unit sd (service_name (pl_base p)) (pl_service p))
     (io_then (case pl_timer p of None \<Rightarrow> io_return () | Some text \<Rightarrow> write_unit sd ?timer text)
     (io_then (do_call sd Reload [])
     (io_then (if pl_timer p = None then io_return ()
               else io_then (do_call sd EnableUnitFiles (enable_body ?timer))
                   (io_then (do_call sd Reload [])
                     (if pl_arm_now p then do_call sd StartUnit (replace_body ?timer) else io_return ())))
      (info sd (pl_base p))))))"
  have run: "rest w = (Inr x, w')"
    using assms by (simp add: install_rest_def Let_def io_bind_def rest_def present_def)
  have info: "performs (info sd (pl_base p)) []" by (rule performs_lookup) (rule more_lookups)
  have "performs rest (install_actions p present)"
    unfolding rest_def install_actions_def Let_def
    by (intro io_performs info) simp_all
  from performsD[OF this run]
  show "unit_dir w' = fold apply_action
      (install_actions p (file_exists (unit_dir w (timer_name (pl_base p))))) (unit_dir w)"
    "\<exists>es. trace w' = trace w @ es \<and>
      acts es = install_actions p (file_exists (unit_dir w (timer_name (pl_base p))))"
    by (simp_all add: present_def)
qed

section \<open>Around the bus\<close>

definition opened :: "'m world \<Rightarrow> 'm world" where
  "opened w = w\<lparr>trace := trace w @ [BusOpened]\<rparr>"

definition closed :: "'m world \<Rightarrow> 'm world" where
  "closed w = w\<lparr>trace := trace w @ [BusClosed]\<rparr>"

lemma bus_world [simp]:
  "unit_dir (opened w) = unit_dir w" "trace (opened w) = trace w @ [BusOpened]"
  "unit_dir (closed w) = unit_dir w" "trace (closed w) = trace w @ [BusClosed]"
  by (simp_all add: opened_def closed_def)

text \<open>The connection fails and nothing is done, or the body runs between opening and closing.\<close>

lemma with_bus_run:
  assumes "with_bus sd body w = (r, w')"
  shows "(\<exists>e. r = Inl e \<and> w' = w) \<or> (\<exists>w2. body (opened w) = (r, w2) \<and> w' = closed w2)"
proof (cases "connect sd (outside w)")
  case Connected
  then have "open_bus sd w = (Inr (), opened w)"
    by (simp add: open_bus_def io_bind_def io_log_def opened_def)
  with assms have "io_finally body close_bus (opened w) = (r, w')" by (simp add: with_bus_def)
  then show ?thesis
    by (auto simp: io_finally_def close_bus_def io_log_def closed_def split: prod.splits)
qed (use assms in \<open>auto simp: with_bus_def open_bus_def io_bind_def io_then_def\<close>)

lemma acts_bus [simp]: "acts [BusOpened] = [BusOpened]" "acts [BusClosed] = [BusClosed]"
  by (simp_all add: acts_def read_event_def)

text \<open>A plan that is refused costs nothing: no bus, no file.\<close>

lemma register_run:
  assumes "register sd task_path r w = (res, w')"
  shows "(\<exists>e. res = Inl e \<and> w' = w) \<or>
    (\<exists>p w2. plan (pwshpy_version sd) task_path r = Inr p \<and> install sd p (opened w) = (res, w2) \<and> w' = closed w2)"
proof (cases "plan (pwshpy_version sd) task_path r")
  case (Inl e)
  with assms show ?thesis by (auto simp: register_def io_bind_def)
next
  case (Inr p)
  with assms have "with_bus sd (install sd p) w = (res, w')" by (simp add: register_def io_bind_def)
  from with_bus_run[OF this] Inr show ?thesis by blast
qed

lemma plan_base: "plan version task_path r = Inr p \<Longrightarrow> unit_base task_path = Inr (pl_base p)"
  by (auto simp: plan_def and_then_Inr)

lemma install_Inr:
  assumes "install sd p w = (Inr t, w')"
  shows "unit_dir w' = fold apply_action
      (install_actions p (file_exists (unit_dir w (timer_name (pl_base p))))) (unit_dir w)"
    "\<exists>es. trace w' = trace w @ es \<and>
      acts es = install_actions p (file_exists (unit_dir w (timer_name (pl_base p))))"
proof -
  let ?checks = "io_each (require_free_or_owned sd) [service_name (pl_base p), timer_name (pl_base p)]"
  obtain x w1 where c: "?checks w = (Inr x, w1)" and rest: "install_rest sd p w1 = (Inr t, w')"
    using assms by (auto simp only: install_split io_then_Inr)
  have "lookup ?checks" by (intro io_lookups)
  from performsD[OF performs_lookup[OF this] c]
  have "unit_dir w1 = unit_dir w" "\<exists>es. trace w1 = trace w @ es \<and> acts es = []" by simp_all
  then obtain es where es: "unit_dir w1 = unit_dir w" "trace w1 = trace w @ es" "acts es = []" by blast
  from install_rest_performs[OF rest] es(1)
  obtain fs where fs: "trace w' = trace w1 @ fs"
    "acts fs = install_actions p (file_exists (unit_dir w (timer_name (pl_base p))))"
    and d: "unit_dir w' = fold apply_action
      (install_actions p (file_exists (unit_dir w (timer_name (pl_base p))))) (unit_dir w)" by auto
  from d show "unit_dir w' = fold apply_action
      (install_actions p (file_exists (unit_dir w (timer_name (pl_base p))))) (unit_dir w)" .
  show "\<exists>es. trace w' = trace w @ es \<and>
      acts es = install_actions p (file_exists (unit_dir w (timer_name (pl_base p))))"
    using es fs by (intro exI[of _ "es @ fs"]) simp
qed

lemma names_differ [simp]: "service_name base \<noteq> timer_name base" "timer_name base \<noteq> service_name base"
  by (simp_all add: service_name_def timer_name_def u_def)

text \<open>The two files after a successful run.\<close>

lemma install_files:
  assumes "ours (d (timer_name (pl_base p)))"
  shows "fold apply_action (install_actions p (file_exists (d (timer_name (pl_base p))))) d =
    d(service_name (pl_base p) \<mapsto> TextFile (pl_service p),
      timer_name (pl_base p) := map_option TextFile (pl_timer p))"
  using assms
  by (auto simp: install_actions_def retire_actions_def Let_def fun_eq_iff ours_def file_exists_def
      split: option.splits)

definition retire_service_actions :: "pystr \<Rightarrow> event list" where
  "retire_service_actions service = [sent StopUnit (replace_body service)] @ [RemovedFile service]"

definition unregister_actions :: "pystr \<Rightarrow> bool \<Rightarrow> bool \<Rightarrow> event list" where
  "unregister_actions base timer_owned service_owned =
     (if timer_owned then retire_actions (timer_name base) True else []) @
     (if service_owned then retire_service_actions (service_name base) else []) @ [sent Reload []]"

definition remove_both :: "'m system \<Rightarrow> pystr \<Rightarrow> bool \<Rightarrow> bool \<Rightarrow> ('m, unit) io" where
  "remove_both sd base timer_owned service_owned =
     io_then (if timer_owned then retire_timer sd (timer_name base) True else io_return ())
    (io_then (if service_owned
              then io_then (stop_if_loaded sd (service_name base)) (remove_unit sd (service_name base))
              else io_return ())
     (do_call sd Reload []))"

lemma remove_both_performs:
  "performs (remove_both sd base timer_owned service_owned) (unregister_actions base timer_owned service_owned)"
  unfolding remove_both_def unregister_actions_def retire_service_actions_def
  by (intro io_performs) simp

lemma remove_both_confined:
  "keeps (confined (task_event (unit_names base)) (unit_names base)) (remove_both sd base timer_owned service_owned)"
  unfolding remove_both_def by (intro io_keeps) simp_all

lemma unregister_run:
  assumes "unregister sd task_path w = (r, w')"
  shows "(\<exists>e. r = Inl e \<and> w' = w) \<or>
    (\<exists>base w2. unit_base task_path = Inr base \<and> (\<forall>name \<in> unit_names base. ours (unit_dir w name)) \<and>
       remove_both sd base (unit_dir w (timer_name base) \<noteq> None) (unit_dir w (service_name base) \<noteq> None)
         (opened w) = (r, w2) \<and> w' = closed w2)"
proof (cases "unit_base task_path")
  case (Inl e)
  with assms show ?thesis by (auto simp: unregister_def io_bind_def)
next
  case (Inr base)
  obtain t s where run: "owned_unit_file (timer_name base) w = (t, w)"
    "owned_unit_file (service_name base) w = (s, w)"
    by (simp add: owned_unit_file_run)
  show ?thesis
  proof (cases "(\<exists>e. t = Inl e) \<or> (\<exists>e. s = Inl e)")
    case True
    with assms Inr run show ?thesis by (cases t) (auto simp: unregister_def io_bind_def)
  next
    case False
    then obtain a b where ab: "t = Inr a" "s = Inr b" by (cases t; cases s) auto
    with run have o: "ours (unit_dir w (timer_name base))" "a = (unit_dir w (timer_name base) \<noteq> None)"
      "ours (unit_dir w (service_name base))" "b = (unit_dir w (service_name base) \<noteq> None)"
      by (auto simp: owned_unit_file_Inr)
    show ?thesis
    proof (cases "a \<or> b")
      case True
      with assms Inr run ab have "with_bus sd (remove_both sd base a b) w = (r, w')"
        by (cases a; cases b) (auto simp: unregister_def io_bind_def remove_both_def)
      from with_bus_run[OF this] o Inr show ?thesis by (auto simp: unit_names_def)
    next
      case False
      with assms Inr run ab show ?thesis by (auto simp: unregister_def io_bind_def)
    qed
  qed
qed

text \<open>The runs that return.\<close>

lemma register_Inr:
  assumes "register sd task_path r w = (Inr task, w')"
  obtains p es where "plan (pwshpy_version sd) task_path r = Inr p"
    "\<forall>name \<in> unit_names (pl_base p). ours (unit_dir w name)"
    "unit_dir w' = (unit_dir w)(service_name (pl_base p) \<mapsto> TextFile (pl_service p),
                               timer_name (pl_base p) := map_option TextFile (pl_timer p))"
    "trace w' = trace w @ [BusOpened] @ es @ [BusClosed]"
    "acts es = install_actions p (file_exists (unit_dir w (timer_name (pl_base p))))"
proof -
  from register_run[OF assms] obtain p w2 where p: "plan (pwshpy_version sd) task_path r = Inr p"
    and i: "install sd p (opened w) = (Inr task, w2)" and w': "w' = closed w2" by auto
  have o: "\<forall>name \<in> unit_names (pl_base p). ours (unit_dir w name)"
    using install_outcome[OF i] by auto
  from install_Inr[OF i] obtain es where es: "trace w2 = trace w @ [BusOpened] @ es"
    "acts es = install_actions p (file_exists (unit_dir w (timer_name (pl_base p))))"
    and "unit_dir w2 = fold apply_action
      (install_actions p (file_exists (unit_dir w (timer_name (pl_base p))))) (unit_dir w)" by auto
  with install_files[of "unit_dir w" p] o w' have "unit_dir w' = (unit_dir w)(service_name (pl_base p) \<mapsto> TextFile (pl_service p),
      timer_name (pl_base p) := map_option TextFile (pl_timer p))" by (simp add: unit_names_def)
  with that[OF p o] es w' show ?thesis by simp
qed

lemma unregister_files:
  "fold apply_action (unregister_actions base (d (timer_name base) \<noteq> None) (d (service_name base) \<noteq> None)) d =
     d(service_name base := None, timer_name base := None)"
  by (auto simp: unregister_actions_def retire_actions_def retire_service_actions_def fun_eq_iff)

lemma unregister_Inr:
  assumes "unregister sd task_path w = (Inr x, w')"
  obtains base es where "unit_base task_path = Inr base"
    "\<forall>name \<in> unit_names base. ours (unit_dir w name)"
    "\<exists>name \<in> unit_names base. unit_dir w name \<noteq> None"
    "unit_dir w' = (unit_dir w)(service_name base := None, timer_name base := None)"
    "trace w' = trace w @ [BusOpened] @ es @ [BusClosed]"
    "acts es = unregister_actions base (unit_dir w (timer_name base) \<noteq> None) (unit_dir w (service_name base) \<noteq> None)"
proof -
  let ?t = "\<lambda>base. unit_dir w (timer_name base) \<noteq> None" and ?s = "\<lambda>base. unit_dir w (service_name base) \<noteq> None"
  from unregister_run[OF assms] obtain base w2 where base: "unit_base task_path = Inr base"
    and o: "\<forall>name \<in> unit_names base. ours (unit_dir w name)"
    and run: "remove_both sd base (?t base) (?s base) (opened w) = (Inr x, w2)" and w': "w' = closed w2" by auto
  from performsD[OF remove_both_performs run] obtain es where es: "trace w2 = trace w @ [BusOpened] @ es"
    "acts es = unregister_actions base (?t base) (?s base)"
    and "unit_dir w2 = fold apply_action (unregister_actions base (?t base) (?s base)) (unit_dir w)" by auto
  then have d: "unit_dir w' = (unit_dir w)(service_name base := None, timer_name base := None)"
    using unregister_files[where d = "unit_dir w"] w' by simp
  have some: "\<exists>name \<in> unit_names base. unit_dir w name \<noteq> None"
  proof (rule ccontr)
    assume "\<not> ?thesis"
    then have "owned_unit_file (timer_name base) w = (Inr False, w)" "owned_unit_file (service_name base) w = (Inr False, w)"
      by (simp_all add: owned_unit_file_run unit_names_def)
    with assms base show False by (simp add: unregister_def io_bind_def)
  qed
  show ?thesis using that[OF base o some d] es w' by simp
qed

end
