(* ===== verification/Systemd_Services.thy ===== *)
theory Systemd_Services
  imports Systemd_Actions
begin

text \<open>
  \<open>adapters/native/systemd_services.py\<close>: the service listing (the same two passes as the timer listing)
  and \<open>SystemdServiceController\<close>. Waiting for a unit to settle polls until a deadline: the loop is a
  partial function of the clock of the \<open>system\<close> record, and returns (\<open>wait_returns\<close>) when sleeping takes
  time and no call turns the clock back.
\<close>

section \<open>Records\<close>

record service_info =
  si_name :: pystr
  si_display_name :: pystr
  si_status :: service_state
  si_start_type :: "start_type option"
  si_can_stop :: bool
  si_can_pause_continue :: bool

definition active_services :: "(systemd_active_state \<times> service_state) list" where
  "active_services =
     [(Active_Active, Service_Running), (Active_Inactive, Service_Stopped), (Active_Failed, Service_Stopped),
      (Active_Activating, Service_Start_Pending), (Active_Deactivating, Service_Stop_Pending),
      (Active_Reloading, Service_Continue_Pending)]"

definition file_start_types :: "(systemd_file_state \<times> start_type) list" where
  "file_start_types =
     [(File_Enabled, Start_Automatic), (File_Enabled_Runtime, Start_Automatic), (File_Disabled, Start_Disabled),
      (File_Masked, Start_Disabled), (File_Masked_Runtime, Start_Disabled), (File_Static, Start_Manual),
      (File_Indirect, Start_Manual), (File_Generated, Start_Manual), (File_Transient, Start_Manual),
      (File_Linked, Start_Manual), (File_Linked_Runtime, Start_Manual)]"

definition to_service_state :: "systemd_active_state \<Rightarrow> service_state" where
  "to_service_state active = (case map_of active_services active of Some s \<Rightarrow> s | None \<Rightarrow> Service_Stopped)"

definition to_start_type :: "systemd_file_state \<Rightarrow> start_type option" where
  "to_start_type state = map_of file_start_types state"

definition start_type_of :: "'m system \<Rightarrow> pystr \<Rightarrow> ('m, start_type option) io" where
  "start_type_of sd name =
     io_bind (unit_file_state sd name) (\<lambda>state. io_return (Option.bind state to_start_type))"

definition service_record ::
    "'m system \<Rightarrow> pystr \<Rightarrow> pystr option \<Rightarrow> systemd_active_state \<Rightarrow> start_type option \<Rightarrow> ('m, service_info) io" where
  "service_record sd name path active start =
     io_bind (text_property sd path (u ''Description'') UNIT_IFACE []) (\<lambda>description. io_return
       \<lparr>si_name = name, si_display_name = description, si_status = to_service_state active,
        si_start_type = start, si_can_stop = True, si_can_pause_continue = False\<rparr>)"

definition service_at :: "'m system \<Rightarrow> pystr \<Rightarrow> pystr \<Rightarrow> start_type option \<Rightarrow> ('m, service_info) io" where
  "service_at sd name path start =
     io_bind (path_active_state sd (Some path)) (\<lambda>active. service_record sd name (Some path) active start)"

section \<open>The listing\<close>

text \<open>\<open>_skip_refused\<close> around a read: no record when systemd refused it.\<close>

definition service_unless_refused :: "('m, service_info) io \<Rightarrow> pystr \<Rightarrow> bool \<Rightarrow> ('m, service_info list) io" where
  "service_unless_refused read name strict =
     io_catch (io_bind read (\<lambda>s. io_return [s]))
       (\<lambda>e. if catches NativeAccessDeniedError (err_class e)
            then io_then (skip_or_raise ''systemd refused a read'' name (NativeCause e) strict) (io_return [])
            else io_raise e)"

definition listed_service :: "'m system \<Rightarrow> listed_unit \<Rightarrow> bool \<Rightarrow> ('m, service_info list) io" where
  "listed_service sd entry strict =
     service_unless_refused (io_bind (start_type_of sd (lu_name entry)) (\<lambda>start. io_return
       \<lparr>si_name = lu_name entry, si_display_name = lu_description entry,
        si_status = to_service_state (lu_active_state entry), si_start_type = start,
        si_can_stop = True, si_can_pause_continue = False\<rparr>)) (lu_name entry) strict"

definition file_service ::
    "'m system \<Rightarrow> pystr \<Rightarrow> pystr \<Rightarrow> start_type option \<Rightarrow> bool \<Rightarrow> ('m, service_info list) io" where
  "file_service sd name path start strict = service_unless_refused (service_at sd name path start) name strict"

definition service_ending :: pystr where "service_ending = u ''.service''"

definition iter_services :: "'m system \<Rightarrow> bool \<Rightarrow> ('m, service_info, unit) gen" where
  "iter_services sd strict =
     iter_units sd service_ending strict (\<lambda>entry. listed_service sd entry strict)
       (\<lambda>name path state. file_service sd name path (to_start_type state) strict)"

section \<open>The controller\<close>

definition get_one :: "'m system \<Rightarrow> pystr \<Rightarrow> ('m, service_info) io" where
  "get_one sd name =
     io_bind (load_unit_path sd name) (\<lambda>path.
     io_bind (case path of None \<Rightarrow> active_state sd name | Some p \<Rightarrow> live_active_state sd (Some p)) (\<lambda>active.
     io_bind (start_type_of sd name) (\<lambda>start. service_record sd name path active start)))"

definition refuse_a_failed_unit :: "'m system \<Rightarrow> pystr \<Rightarrow> ('m, unit) io" where
  "refuse_a_failed_unit sd name =
     io_bind (active_state sd name) (\<lambda>active.
       if active \<noteq> Active_Failed then io_return ()
       else io_bind (io_catch (unit_property sd name (u ''Result'') SERVICE_IFACE None)
              (\<lambda>e. if catches NativeCallError (err_class e) then io_return None else io_raise e))
            (\<lambda>_. io_raise (make_error NativeCallError ''unit failed'')))"

definition is_settled :: "'m system \<Rightarrow> pystr \<Rightarrow> systemd_active_state set \<Rightarrow> ('m, bool) io" where
  "is_settled sd name settled_states =
     io_bind (has_pending_job sd name) (\<lambda>pending.
       if \<not> pending then io_return True
       else if settled_states = {} then io_return False
       else io_bind (active_state sd name) (\<lambda>active. io_return (active \<in> settled_states)))"

definition poll_interval :: int where "poll_interval = 100000"

definition slept :: "'m system \<Rightarrow> 'm world \<Rightarrow> 'm world" where
  "slept sd w = w\<lparr>outside := sleep_for sd poll_interval (outside w), trace := trace w @ [Slept]\<rparr>"

definition timeout_error :: pwshpy_error where
  "timeout_error = make_error OperationTimeoutError ''unit did not settle''"

text \<open>The \<open>while\<close> of \<open>_wait_until_settled\<close>; \<open>None\<close> would be a loop that never ends.\<close>

partial_function (option) wait_loop ::
    "'m system \<Rightarrow> pystr \<Rightarrow> systemd_active_state set \<Rightarrow> int \<Rightarrow> 'm world \<Rightarrow> (unit res \<times> 'm world) option" where
  "wait_loop sd name settled_states deadline w = (case is_settled sd name settled_states w of
      (Inl e, w') \<Rightarrow> Some (Inl e, w')
    | (Inr settled, w') \<Rightarrow>
        if settled then Some (Inr (), w')
        else if monotonic sd (outside w') \<ge> deadline then Some (Inl timeout_error, w')
        else wait_loop sd name settled_states deadline (slept sd w'))"

definition wait_until_settled ::
    "'m system \<Rightarrow> pystr \<Rightarrow> systemd_active_state set \<Rightarrow> int \<Rightarrow> 'm world \<Rightarrow> (unit res \<times> 'm world) option" where
  "wait_until_settled sd name settled_states timeout w =
     wait_loop sd name settled_states (monotonic sd (outside w) + timeout) w"

text \<open>Computations that may not return.\<close>

type_synonym ('m, 'a) run = "'m world \<Rightarrow> ('a res \<times> 'm world) option"

definition run_io :: "('m, 'a) io \<Rightarrow> ('m, 'a) run" where
  "run_io m w = Some (m w)"

definition run_then :: "('m, 'a) run \<Rightarrow> ('m, 'b) run \<Rightarrow> ('m, 'b) run" where
  "run_then m k w = (case m w of None \<Rightarrow> None
      | Some (Inl e, w') \<Rightarrow> Some (Inl e, w') | Some (Inr _, w') \<Rightarrow> k w')"

definition run_finally :: "('m, 'a) run \<Rightarrow> ('m, unit) io \<Rightarrow> ('m, 'a) run" where
  "run_finally m final w = (case m w of None \<Rightarrow> None
      | Some (r, w') \<Rightarrow> Some (case final w' of (Inl e, w'') \<Rightarrow> (Inl e, w'') | (Inr _, w'') \<Rightarrow> (r, w'')))"

datatype job = Job_Start | Job_Stop | Job_Restart

fun job_method :: "job \<Rightarrow> manager_method" where
  "job_method Job_Start = StartUnit"
| "job_method Job_Stop = StopUnit"
| "job_method Job_Restart = RestartUnit"

definition stopped_states :: "systemd_active_state set" where
  "stopped_states = {Active_Inactive, Active_Failed}"

definition transition :: "'m system \<Rightarrow> pystr \<Rightarrow> job \<Rightarrow> int \<Rightarrow> bool \<Rightarrow> ('m, service_info) run" where
  "transition sd name job timeout wait =
     (let stopping = (job = Job_Stop) in
      run_then (run_io (open_bus sd)) (run_finally
       (run_then (run_io (do_call sd (job_method job) (replace_body name)))
       (run_then (if wait
                  then run_then (wait_until_settled sd name (if stopping then stopped_states else {}) timeout)
                         (if \<not> stopping then run_io (refuse_a_failed_unit sd name) else run_io (io_return ()))
                  else run_io (io_return ()))
        (run_io (get_one sd name))))
       close_bus))"

definition start_service :: "'m system \<Rightarrow> pystr \<Rightarrow> int \<Rightarrow> ('m, service_info) run" where
  "start_service sd name timeout = transition sd name Job_Start timeout True"

definition stop_service :: "'m system \<Rightarrow> pystr \<Rightarrow> int \<Rightarrow> bool \<Rightarrow> ('m, service_info) run" where
  "stop_service sd name timeout wait = transition sd name Job_Stop timeout wait"

definition restart_service :: "'m system \<Rightarrow> pystr \<Rightarrow> int \<Rightarrow> ('m, service_info) run" where
  "restart_service sd name timeout = transition sd name Job_Restart timeout True"

definition set_startup :: "'m system \<Rightarrow> pystr \<Rightarrow> start_type \<Rightarrow> ('m, service_info) io" where
  "set_startup sd name start = with_bus sd
     (io_then (if start = Start_Automatic then do_call sd EnableUnitFiles (enable_body name)
               else if start = Start_Disabled then do_call sd DisableUnitFiles (disable_body name)
               else io_raise (make_error NativeCallError ''no such start type''))
     (io_then (do_call sd Reload []) (get_one sd name)))"

section \<open>Reads and the listing\<close>

lemma service_lookups [io_lookups]:
  "lookup (start_type_of sd name)"
  "lookup (service_record sd name path active start)"
  "lookup (service_at sd name p start)"
  "lookup (get_one sd name)"
  "lookup (is_settled sd name settled_states)"
  "lookup (refuse_a_failed_unit sd name)"
  unfolding start_type_of_def service_record_def service_at_def get_one_def is_settled_def
    refuse_a_failed_unit_def
  by (intro io_lookups)+

lemma service_unless_refused_listing [io_keeps]:
  "lookup read \<Longrightarrow> keeps (confined listing_event {}) (service_unless_refused read name strict)"
  unfolding service_unless_refused_def
  by (intro io_keeps listing_events) (rule listing_lookup)

definition services_body :: "'m system \<Rightarrow> bool \<Rightarrow> ('m, service_info, unit) gen" where
  "services_body sd strict =
     listed_units sd service_ending strict (\<lambda>entry. listed_service sd entry strict)
       (\<lambda>name path state. file_service sd name path (to_start_type state) strict)"

lemma iter_services_body: "iter_services sd strict = gen_with_bus sd (services_body sd strict)"
  by (simp add: iter_services_def iter_units_def services_body_def)

lemma services_body_listing: "keeps (confined listing_event {}) (services_body sd strict)"
  unfolding services_body_def listed_service_def file_service_def
  by ((intro io_keeps) | (intro io_lookups; fail))+

section \<open>Waiting\<close>

text \<open>What the loop relies on: \<open>time.sleep\<close> takes at least the time asked for, and \<open>time.monotonic\<close>
  never goes back, whatever systemd is asked.\<close>

definition clock_runs :: "'m system \<Rightarrow> bool" where
  "clock_runs sd \<longleftrightarrow>
     (\<forall>t m. 0 \<le> t \<longrightarrow> monotonic sd m + t \<le> monotonic sd (sleep_for sd t m)) \<and>
     (\<forall>d msg m. monotonic sd m \<le> monotonic sd (snd (respond sd d msg m)))"

definition clock_forward :: "'m system \<Rightarrow> 'm world \<Rightarrow> 'm world \<Rightarrow> bool" where
  "clock_forward sd w w' \<longleftrightarrow> monotonic sd (outside w) \<le> monotonic sd (outside w')"

interpretation clock: io_relation "clock_forward sd" for sd
  by unfold_locales (auto simp: clock_forward_def)

lemma send_clock: "clock_runs sd \<Longrightarrow> keeps (clock_forward sd) (send sd msg)"
  by (auto simp: keeps_def clock_forward_def send_def clock_runs_def split: prod.splits) (metis snd_conv)

lemma call_one_clock: "clock_runs sd \<Longrightarrow> keeps (clock_forward sd) (call_one sd method body)"
  unfolding call_one_def call_def by (intro clock.combinators reply_keeps send_clock)

lemma live_property_clock: "clock_runs sd \<Longrightarrow> keeps (clock_forward sd) (live_property sd path prop fallback)"
  unfolding live_property_def by (intro clock.combinators reply_keeps option_keeps send_clock)

lemma unit_path_clock: "clock_runs sd \<Longrightarrow> keeps (clock_forward sd) (unit_path sd name)"
  unfolding unit_path_def by (intro clock.combinators if_keeps call_one_clock)

lemma is_settled_clock: "clock_runs sd \<Longrightarrow> keeps (clock_forward sd) (is_settled sd name settled_states)"
  unfolding is_settled_def has_pending_job_def active_state_def live_active_state_def
  by (intro clock.combinators if_keeps dvalue_keeps live_property_clock unit_path_clock)

lemma wait_loop_returns:
  assumes "clock_runs sd"
  shows "\<exists>r. wait_loop sd name settled_states deadline w = Some r"
proof (induction "nat (deadline - monotonic sd (outside w))" arbitrary: w rule: less_induct)
  case less
  obtain r w' where s: "is_settled sd name settled_states w = (r, w')" by fastforce
  have fwd: "monotonic sd (outside w) \<le> monotonic sd (outside w')"
    using clock.step[OF is_settled_clock[OF assms] s] by (simp add: clock_forward_def)
  show ?case
  proof (cases "r = Inr False \<and> monotonic sd (outside w') < deadline")
    case True
    have "monotonic sd (outside w') + poll_interval \<le> monotonic sd (outside (slept sd w'))"
      using assms by (simp add: clock_runs_def slept_def poll_interval_def)
    then have "nat (deadline - monotonic sd (outside (slept sd w'))) < nat (deadline - monotonic sd (outside w))"
      using True fwd by (simp add: poll_interval_def)
    from less[OF this] True s show ?thesis by (simp add: wait_loop.simps[of sd name settled_states deadline w])
  next
    case False
    with s show ?thesis
      by (cases r) (auto simp: wait_loop.simps[of sd name settled_states deadline w])
  qed
qed

text \<open>The worlds the loop polls in, from the one it starts in: each is the last after a read that found the
  unit unsettled, and a sleep.\<close>

inductive polled :: "'m system \<Rightarrow> pystr \<Rightarrow> systemd_active_state set \<Rightarrow> int \<Rightarrow> 'm world \<Rightarrow> 'm world \<Rightarrow> bool"
  for sd name settled_states deadline where
  polled_start: "polled sd name settled_states deadline w w"
| polled_again: "is_settled sd name settled_states w = (Inr False, w1) \<Longrightarrow>
    monotonic sd (outside w1) < deadline \<Longrightarrow>
    polled sd name settled_states deadline (slept sd w1) w2 \<Longrightarrow> polled sd name settled_states deadline w w2"

fun poll_outcome :: "bool res \<Rightarrow> unit res" where
  "poll_outcome (Inl e) = Inl e"
| "poll_outcome (Inr True) = Inr ()"
| "poll_outcome (Inr False) = Inl timeout_error"

lemma poll_outcome_Inr: "poll_outcome a = Inr x \<longleftrightarrow> a = Inr True"
  by (cases a rule: poll_outcome.cases) auto

definition polled_to :: "'m system \<Rightarrow> pystr \<Rightarrow> systemd_active_state set \<Rightarrow> int \<Rightarrow> 'm world \<Rightarrow> unit res \<Rightarrow> 'm world \<Rightarrow> bool" where
  "polled_to sd name settled_states deadline w r w' \<longleftrightarrow> (\<exists>w1 a. polled sd name settled_states deadline w w1 \<and>
     is_settled sd name settled_states w1 = (a, w') \<and> r = poll_outcome a \<and>
     (a = Inr False \<longrightarrow> deadline \<le> monotonic sd (outside w')))"

lemma polled_to_again:
  assumes "is_settled sd name settled_states w = (Inr False, w1)" "monotonic sd (outside w1) < deadline"
    "polled_to sd name settled_states deadline (slept sd w1) r w'"
  shows "polled_to sd name settled_states deadline w r w'"
  using assms unfolding polled_to_def by (blast intro: polled_again)

lemma polled_to_done:
  assumes "is_settled sd name settled_states w = (a, w')" "a = Inr False \<longrightarrow> deadline \<le> monotonic sd (outside w')"
  shows "polled_to sd name settled_states deadline w (poll_outcome a) w'"
  using assms unfolding polled_to_def by (blast intro: polled_start)

lemma wait_loop_result:
  assumes "wait_loop sd name settled_states deadline w = Some p"
  shows "polled_to sd name settled_states deadline w (fst p) (snd p)"
proof (rule wait_loop.raw_induct[where P = "\<lambda>sd name settled_states deadline w p.
    polled_to sd name settled_states deadline w (fst p) (snd p)", OF _ assms])
  fix loop and sd :: "'a system" and name settled_states deadline and w :: "'a world" and p
  assume IH: "\<And>sd name settled_states deadline w p. loop sd name settled_states deadline w = Some p \<Longrightarrow>
      polled_to sd name settled_states deadline w (fst p) (snd p)"
    and run: "(case is_settled sd name settled_states w of
      (Inl e, w') \<Rightarrow> Some (Inl e, w')
    | (Inr settled, w') \<Rightarrow>
        if settled then Some (Inr (), w')
        else if monotonic sd (outside w') \<ge> deadline then Some (Inl timeout_error, w')
        else loop sd name settled_states deadline (slept sd w')) = Some p"
  obtain a w1 where s: "is_settled sd name settled_states w = (a, w1)" by fastforce
  show "polled_to sd name settled_states deadline w (fst p) (snd p)"
  proof (cases "a = Inr False \<and> monotonic sd (outside w1) < deadline")
    case True
    with run s have "loop sd name settled_states deadline (slept sd w1) = Some p" by simp
    then show ?thesis using s True by (intro polled_to_again[OF _ _ IH]) auto
  next
    case False
    then have "a = Inr False \<longrightarrow> deadline \<le> monotonic sd (outside w1)" by auto
    from polled_to_done[OF s this] show ?thesis
      using run s False by (cases a rule: poll_outcome.cases) auto
  qed
qed

lemma wait_Inr:
  assumes "wait_until_settled sd name settled_states timeout w = Some (Inr x, w')"
  obtains w1 where "polled sd name settled_states (monotonic sd (outside w) + timeout) w w1"
    "is_settled sd name settled_states w1 = (Inr True, w')"
proof -
  obtain w1 a where "polled sd name settled_states (monotonic sd (outside w) + timeout) w w1"
    "is_settled sd name settled_states w1 = (a, w')" "Inr x = poll_outcome a"
    using wait_loop_result[OF assms[unfolded wait_until_settled_def]] by (auto simp: polled_to_def)
  with that show thesis by (metis poll_outcome_Inr)
qed

lemma run_then_Some:
  "run_then m k w = Some (Inr y, w'') \<longleftrightarrow> (\<exists>x w'. m w = Some (Inr x, w') \<and> k w' = Some (Inr y, w''))"
  by (auto simp: run_then_def split: option.splits sum.splits)

definition returns :: "('m, 'a) run \<Rightarrow> bool" where
  "returns m \<longleftrightarrow> (\<forall>w. m w \<noteq> None)"

lemma returns_io: "returns (run_io m)"
  by (simp add: returns_def run_io_def)

lemma returns_then: "returns m \<Longrightarrow> returns k \<Longrightarrow> returns (run_then m k)"
  by (auto simp: returns_def run_then_def split: option.splits sum.splits)

lemma returns_if: "returns m \<Longrightarrow> returns k \<Longrightarrow> returns (if c then m else k)"
  by simp

lemma run_finally_close: "run_finally m close_bus w = map_option (\<lambda>(r, w'). (r, closed w')) (m w)"
  by (auto simp: run_finally_def close_bus_def io_log_def closed_def split: option.splits)

lemma returns_finally: "returns m \<Longrightarrow> returns (run_finally m close_bus)"
  by (simp add: returns_def run_finally_close)

lemma wait_returns: "clock_runs sd \<Longrightarrow> returns (wait_until_settled sd name settled_states timeout)"
  using wait_loop_returns by (fastforce simp: returns_def wait_until_settled_def)

lemma transition_returns: "clock_runs sd \<Longrightarrow> returns (transition sd name job timeout wait)"
  unfolding transition_def Let_def
  by (intro returns_then returns_io returns_finally returns_if wait_returns)

text \<open>What a returned start or restart has seen.\<close>

lemma refuse_a_failed_unit_Inr:
  "refuse_a_failed_unit sd name w = (Inr x, w') \<Longrightarrow>
   \<exists>active. active_state sd name w = (Inr active, w') \<and> active \<noteq> Active_Failed"
  by (auto simp: refuse_a_failed_unit_def io_bind_Inr io_catch_def io_raise_def split: if_splits prod.splits)

lemma transition_settled:
  assumes "transition sd name job timeout True w = Some (Inr record, w')"
  shows "\<exists>v w0 w1 w2 w3 w4. open_bus sd w = (Inr (), v) \<and> do_call sd (job_method job) (replace_body name) v = (Inr (), w0) \<and>
    polled sd name (if job = Job_Stop then stopped_states else {}) (monotonic sd (outside w0) + timeout) w0 w1 \<and>
    is_settled sd name (if job = Job_Stop then stopped_states else {}) w1 = (Inr True, w2) \<and>
    (if job = Job_Stop then w3 = w2
     else \<exists>active. active_state sd name w2 = (Inr active, w3) \<and> active \<noteq> Active_Failed) \<and>
    get_one sd name w3 = (Inr record, w4) \<and> w' = closed w4"
proof -
  let ?states = "if job = Job_Stop then stopped_states else {}"
  define check where "check = (if \<not> job = Job_Stop then run_io (refuse_a_failed_unit sd name) else run_io (io_return ()))"
  define tail where "tail = run_then (run_then (wait_until_settled sd name ?states timeout) check) (run_io (get_one sd name))"
  define body where "body = run_then (run_io (do_call sd (job_method job) (replace_body name))) tail"
  have "transition sd name job timeout True = run_then (run_io (open_bus sd)) (run_finally body close_bus)"
    by (simp add: transition_def body_def tail_def check_def)
  with assms obtain v w4 where bus: "open_bus sd w = (Inr (), v)"
    and b: "body v = Some (Inr record, w4)" and w': "w' = closed w4"
    by (auto simp: run_then_Some run_finally_close run_io_def)
  from b obtain w0 where call: "do_call sd (job_method job) (replace_body name) v = (Inr (), w0)"
    and t: "tail w0 = Some (Inr record, w4)"
    by (auto simp: body_def run_then_Some run_io_def)
  from t obtain w2 w3 x where wait: "wait_until_settled sd name ?states timeout w0 = Some (Inr (), w2)"
    and after: "check w2 = Some (Inr x, w3)" and got: "get_one sd name w3 = (Inr record, w4)"
    by (auto simp: tail_def run_then_Some run_io_def)
  obtain w1 where "polled sd name ?states (monotonic sd (outside w0) + timeout) w0 w1"
    "is_settled sd name ?states w1 = (Inr True, w2)"
    using wait by (rule wait_Inr)
  moreover have "if job = Job_Stop then w3 = w2
     else \<exists>active. active_state sd name w2 = (Inr active, w3) \<and> active \<noteq> Active_Failed"
    using after refuse_a_failed_unit_Inr by (fastforce simp: run_io_def check_def io_return_def)
  ultimately show ?thesis using bus call got w' by blast
qed

end
