(* ===== verification/Systemd_Verb_Facts.thy ===== *)
theory Systemd_Verb_Facts
  imports Systemd_Services
begin

text \<open>
  Facts on the verbs and listings as wholes, over the calculi of the theories before: refused reads
  (\<open>honest\<close>), the connection (\<open>one_bus\<close>: opened at most once, and closed), the strict and the lenient
  listing (\<open>agrees\<close>), and what the verbs that write no unit file do.
\<close>

section \<open>Refused reads\<close>

lemma honest_if [io_honest]: "honest f \<Longrightarrow> honest g \<Longrightarrow> honest (if c then f else g)"
  by simp

lemma honest_pair [io_honest]: "(\<And>x y. honest (f x y)) \<Longrightarrow> honest (case p of (x, y) \<Rightarrow> f x y)"
  by (cases p) simp

lemma honest_value [io_honest]:
  "(\<And>vs. honest (f vs)) \<Longrightarrow> honest g \<Longrightarrow> honest (case v of Some (DArray vs) \<Rightarrow> f vs | _ \<Rightarrow> g)"
  by (auto split: option.splits dvalue.splits)

lemma task_reads_honest [io_honest]:
  "honest (service_user sd path)"
  "honest (service_settings sd path)"
  "honest (int_property sd path prop interface)"
  unfolding service_user_def service_settings_def int_property_def by (intro io_honest)+

lemma run_reads_honest [io_honest]:
  "honest (service_run sd path)"
  unfolding service_run_def by (intro io_honest)

lemma timer_run_info_honest [io_honest]: "honest (timer_run_info sd path base)"
  unfolding timer_run_info_def by (intro io_honest)

lemma timer_task_honest [io_honest]: "honest (timer_task sd name path file_state active description)"
  unfolding timer_task_def Let_def by (intro io_honest)

lemma timer_task_at_honest [io_honest]:
  "(\<And>p. honest (read_state sd p)) \<Longrightarrow> honest (timer_task_at sd name path file_state read_state)"
  unfolding timer_task_at_def by (intro io_honest)

lemma service_task_honest [io_honest]:
  "(\<And>p. honest (read_state sd p)) \<Longrightarrow> honest (service_task sd base path read_state)"
  unfolding service_task_def by (intro io_honest)

lemma verb_reads_honest [io_honest]:
  "honest (has_timer sd base)"
  "honest (monotonic_bases sd timer)"
  "honest (start_type_of sd name)"
  "honest (service_record sd name path active start)"
  "honest (is_settled sd name settled_states)"
  unfolding has_timer_def monotonic_bases_def start_type_of_def service_record_def is_settled_def
  by (intro io_honest)+

lemma get_one_honest: "honest (get_one sd name)"
  unfolding get_one_def by (intro io_honest)

lemma info_honest: "honest (info sd base)"
  unfolding info_def by (intro io_honest)

lemma require_timer_honest: "honest (require_timer sd base)"
  unfolding require_timer_def by (intro io_honest)

lemma owned_unit_file_honest [io_honest]: "honest (owned_unit_file name)"
  by (auto simp: honest_def owned_unit_file_run)

lemma require_free_or_owned_honest: "honest (require_free_or_owned sd name)"
  unfolding require_free_or_owned_def by (intro io_honest)

section \<open>The connection\<close>

lemma gen_with_bus_run:
  assumes "gen_with_bus sd body w = (p, w')"
  shows "(\<exists>e. p = ([], Inl e) \<and> w' = w) \<or> (\<exists>w2. body (opened w) = (p, w2) \<and> w' = closed w2)"
proof (cases "connect sd (outside w)")
  case Connected
  then have "open_bus sd w = (Inr (), opened w)"
    by (simp add: open_bus_def io_bind_def io_log_def opened_def)
  with assms have "(case gen_finally body close_bus (opened w) of ((zs, r), w'') \<Rightarrow> (([] @ zs, r), w'')) = (p, w')"
    by (simp add: gen_with_bus_def gen_bind_def gen_io_def)
  then have "gen_finally body close_bus (opened w) = (p, w')" by (auto split: prod.splits)
  then show ?thesis
    by (auto simp: gen_finally_def close_bus_def io_log_def closed_def split: prod.splits)
qed (use assms in \<open>auto simp: gen_with_bus_def gen_bind_def gen_io_def open_bus_def io_bind_def\<close>)

text \<open>\<open>one_bus\<close>: what was opened is closed, once, and nothing happens after that.\<close>

definition one_bus :: "'m world \<Rightarrow> 'm world \<Rightarrow> bool" where
  "one_bus w w' \<longleftrightarrow> (\<exists>before during. (\<forall>e \<in> set (before @ during). \<not> bus_event e) \<and>
     trace w' \<in> {trace w @ before, trace w @ before @ [BusOpened] @ during @ [BusClosed]})"

abbreviation quiet :: "event \<Rightarrow> bool" where "quiet e \<equiv> \<not> bus_event e"

lemma one_bus_same: "one_bus w w"
  unfolding one_bus_def by (intro exI[of _ "[]"]) simp

lemma one_bus_body:
  assumes "confined quiet units (opened w) w2"
  shows "one_bus w (closed w2)"
proof -
  from assms obtain es where "trace w2 = trace w @ [BusOpened] @ es" "\<forall>e \<in> set es. quiet e"
    by (auto simp: confined_def)
  then show ?thesis unfolding one_bus_def
    by (intro exI[of _ "[]"] exI[of _ es]) simp
qed

lemma with_bus_one:
  assumes "keeps (confined quiet units) body"
  shows "one_bus w (snd (with_bus sd body w))"
proof -
  obtain r w' where run: "with_bus sd body w = (r, w')" by fastforce
  from with_bus_run[OF run] show ?thesis
  proof
    assume "\<exists>w2. body (opened w) = (r, w2) \<and> w' = closed w2"
    then obtain w2 where "body (opened w) = (r, w2)" "w' = closed w2" by blast
    with one_bus_body[of units w w2] assms run show ?thesis by (metis keeps_def snd_conv)
  qed (use run one_bus_same in auto)
qed

lemma gen_with_bus_one:
  assumes "keeps (confined quiet units) body"
  shows "one_bus w (snd (gen_with_bus sd body w))"
proof -
  obtain p w' where run: "gen_with_bus sd body w = (p, w')" by fastforce
  from gen_with_bus_run[OF run] show ?thesis
  proof
    assume "\<exists>w2. body (opened w) = (p, w2) \<and> w' = closed w2"
    then obtain w2 where "body (opened w) = (p, w2)" "w' = closed w2" by blast
    with one_bus_body[of units w w2] assms run show ?thesis by (metis keeps_def snd_conv)
  qed (use run one_bus_same in auto)
qed

lemma quiet_events:
  "read_event e \<Longrightarrow> quiet e" "listing_event e \<Longrightarrow> quiet e" "task_event units e \<Longrightarrow> quiet e"
  by (auto simp: bus_event_def listing_event_def task_event_def read_event_def)

lemma quiet_keeps:
  "lookup f \<Longrightarrow> keeps (confined quiet units) f"
  "keeps (confined listing_event names) f \<Longrightarrow> keeps (confined quiet names) f"
  "keeps (confined (task_event units) names) f \<Longrightarrow> keeps (confined quiet names) f"
  using quiet_events by (auto intro: lookup_confined keeps_weaken)

lemma iter_timers_one_bus: "one_bus w (snd (iter_timers sd strict task_name w))"
proof (rule iter_timers_cases[of task_name sd strict])
  fix name e assume "iter_timers sd strict task_name = gen_io (io_raise e)"
  then show ?thesis by (simp add: gen_io_def io_raise_def one_bus_same)
next
  fix base assume "iter_timers sd strict task_name = gen_with_bus sd (timers_body sd strict task_name base)"
  with gen_with_bus_one[OF quiet_keeps(2)[OF timers_body_listing]] show ?thesis by simp
qed

lemma iter_services_one_bus: "one_bus w (snd (iter_services sd strict w))"
  unfolding iter_services_body by (rule gen_with_bus_one[OF quiet_keeps(2)[OF services_body_listing]])

lemma register_one_bus: "one_bus w (snd (register sd task_path r w))"
proof -
  obtain res w' where run: "register sd task_path r w = (res, w')" by fastforce
  from register_run[OF run] show ?thesis
  proof
    assume "\<exists>p w2. plan (pwshpy_version sd) task_path r = Inr p \<and> install sd p (opened w) = (res, w2) \<and>
        w' = closed w2"
    then obtain p w2 where i: "install sd p (opened w) = (res, w2)" and w': "w' = closed w2" by blast
    have "confined quiet (unit_names (pl_base p)) (opened w) w2"
      using install_outcome[OF i] by (auto elim!: confined_weaken simp: quiet_events)
    with w' run show ?thesis by (metis one_bus_body snd_conv)
  qed (use run one_bus_same in auto)
qed

lemma unregister_one_bus: "one_bus w (snd (unregister sd task_path w))"
proof -
  obtain res w' where run: "unregister sd task_path w = (res, w')" by fastforce
  from unregister_run[OF run] show ?thesis
  proof
    assume "\<exists>base w2. unit_base task_path = Inr base \<and> (\<forall>name \<in> unit_names base. ours (unit_dir w name)) \<and>
       remove_both sd base (unit_dir w (timer_name base) \<noteq> None) (unit_dir w (service_name base) \<noteq> None)
         (opened w) = (res, w2) \<and> w' = closed w2"
    then obtain base w2 where r: "remove_both sd base (unit_dir w (timer_name base) \<noteq> None)
        (unit_dir w (service_name base) \<noteq> None) (opened w) = (res, w2)" and w': "w' = closed w2" by blast
    from confined.step[OF quiet_keeps(3)[OF remove_both_confined] r] w' run
    show ?thesis by (metis one_bus_body snd_conv)
  qed (use run one_bus_same in auto)
qed

lemma gen_with_bus_listing:
  assumes "keeps (confined listing_event {}) body"
  shows "confined (\<lambda>e. listing_event e \<or> bus_event e) {} w (snd (gen_with_bus sd body w))"
proof -
  obtain p w' where run: "gen_with_bus sd body w = (p, w')" by fastforce
  from gen_with_bus_run[OF run] show ?thesis
  proof
    assume "\<exists>w2. body (opened w) = (p, w2) \<and> w' = closed w2"
    then obtain w2 where b: "body (opened w) = (p, w2)" and w': "w' = closed w2" by blast
    from confined.step[OF assms b] obtain es where "unit_dir w2 = unit_dir w"
      "trace w2 = trace w @ [BusOpened] @ es" "\<forall>e \<in> set es. listing_event e"
      by (auto simp: confined_def fun_eq_iff)
    with run w' show ?thesis
      by (auto simp: confined_def bus_event_def intro!: exI[of _ "[BusOpened] @ es @ [BusClosed]"])
  qed (use run in \<open>auto simp: confined_refl\<close>)
qed

lemma iter_timers_confined: "confined (\<lambda>e. listing_event e \<or> bus_event e) {} w (snd (iter_timers sd strict task_name w))"
proof (rule iter_timers_cases[of task_name sd strict])
  fix name e assume "iter_timers sd strict task_name = gen_io (io_raise e)"
  then show ?thesis by (simp add: gen_io_def io_raise_def confined_refl)
next
  fix base assume "iter_timers sd strict task_name = gen_with_bus sd (timers_body sd strict task_name base)"
  with gen_with_bus_listing[OF timers_body_listing] show ?thesis by simp
qed

lemma iter_services_confined: "confined (\<lambda>e. listing_event e \<or> bus_event e) {} w (snd (iter_services sd strict w))"
  unfolding iter_services_body by (rule gen_with_bus_listing[OF services_body_listing])

section \<open>Verbs that write no unit file\<close>

lemma task_reads [io_keeps]:
  "keeps (confined (task_event units) names) (info sd base)"
  "keeps (confined (task_event units) names) (require_timer sd base)"
  "keeps (confined (task_event units) names) (monotonic_bases sd timer)"
  "keeps (confined (task_event units) names) (get_one sd name)"
  by (intro task_lookup io_lookups)+

definition enable_body_io :: "'m system \<Rightarrow> pystr \<Rightarrow> ('m, task_info) io" where
  "enable_body_io sd base = (let timer = timer_name base in
     io_then (require_timer sd base)
       (io_bind (monotonic_bases sd timer) (\<lambda>bases.
        io_then (do_call sd EnableUnitFiles (enable_body timer))
       (io_then (do_call sd Reload [])
       (io_then (case bases of
           None \<Rightarrow> io_return ()
         | Some bs \<Rightarrow> if starts_when_armed bs then do_call sd StartUnit (replace_body timer) else io_return ())
        (info sd base))))))"

definition disable_body_io :: "'m system \<Rightarrow> pystr \<Rightarrow> ('m, task_info) io" where
  "disable_body_io sd base = (let timer = timer_name base in
     io_then (require_timer sd base)
       (io_then (do_call sd StopUnit (replace_body timer))
       (io_then (do_call sd DisableUnitFiles (disable_body timer))
       (io_then (do_call sd Reload [])
        (info sd base)))))"

definition set_startup_body :: "'m system \<Rightarrow> pystr \<Rightarrow> start_type \<Rightarrow> ('m, service_info) io" where
  "set_startup_body sd name start =
     io_then (if start = Start_Automatic then do_call sd EnableUnitFiles (enable_body name)
               else if start = Start_Disabled then do_call sd DisableUnitFiles (disable_body name)
               else io_raise (make_error NativeCallError ''no such start type''))
     (io_then (do_call sd Reload []) (get_one sd name))"

lemma verb_bodies:
  "enable_task sd task_path = io_bind (io_lift (existing_unit_base task_path)) (\<lambda>base. with_bus sd (enable_body_io sd base))"
  "disable_task sd task_path = io_bind (io_lift (existing_unit_base task_path)) (\<lambda>base. with_bus sd (disable_body_io sd base))"
  "set_startup sd name start = with_bus sd (set_startup_body sd name start)"
  by (simp_all add: enable_task_def disable_task_def enable_body_io_def disable_body_io_def Let_def
      set_startup_def set_startup_body_def)

lemma verb_bodies_confined:
  "keeps (confined (task_event (unit_names base)) {}) (enable_body_io sd base)"
  "keeps (confined (task_event (unit_names base)) {}) (disable_body_io sd base)"
  "keeps (confined (task_event {name}) {}) (set_startup_body sd name start)"
  "keeps (confined (task_event (unit_names base)) {}) (do_call sd method (replace_body (service_name base)))"
  unfolding enable_body_io_def disable_body_io_def set_startup_body_def Let_def
  by (intro io_keeps; simp add: unit_names_def)+

text \<open>Around the connection.\<close>

definition verb_event :: "pystr set \<Rightarrow> event \<Rightarrow> bool" where
  "verb_event units e \<longleftrightarrow> task_event units e \<or> bus_event e"

lemma with_bus_verb:
  assumes "keeps (confined (task_event units) names) body"
  shows "keeps (confined (verb_event units) names) (with_bus sd body)"
  unfolding with_bus_def
  using keeps_weaken[OF assms, of "verb_event units" names]
  by (intro io_keeps) (auto simp: verb_event_def bus_event_def)

definition verb_units :: "pystr \<Rightarrow> pystr set" where
  "verb_units task_path = (case existing_unit_base task_path of Inl e \<Rightarrow> {} | Inr base \<Rightarrow> unit_names base)"

lemma lifted_keeps:
  assumes "\<And>x. r = Inr x \<Longrightarrow> keeps (confined allowed names) (f x)"
  shows "keeps (confined allowed names) (io_bind (io_lift r) f)"
  using assms by (cases r) (auto simp: keeps_def io_bind_def io_lift_def confined_refl)

lemma task_verbs_confined:
  "keeps (confined (verb_event (verb_units task_path)) {}) (run_task sd task_path)"
  "keeps (confined (verb_event (verb_units task_path)) {}) (stop_task sd task_path)"
  "keeps (confined (verb_event (verb_units task_path)) {}) (enable_task sd task_path)"
  "keeps (confined (verb_event (verb_units task_path)) {}) (disable_task sd task_path)"
  unfolding run_task_def stop_task_def start_stop_def verb_bodies verb_units_def
  by (rule lifted_keeps, simp, intro with_bus_verb verb_bodies_confined)+

lemma lifted_one_bus:
  assumes "\<And>x w. one_bus w (snd (f x w))"
  shows "one_bus w (snd (io_bind (io_lift r) f w))"
  using assms by (cases r) (auto simp: io_bind_def io_lift_def one_bus_same)

lemma task_verbs_one_bus:
  "one_bus w (snd (run_task sd task_path w))"
  "one_bus w (snd (stop_task sd task_path w))"
  "one_bus w (snd (enable_task sd task_path w))"
  "one_bus w (snd (disable_task sd task_path w))"
  "one_bus w (snd (set_startup sd name start w))"
  unfolding run_task_def stop_task_def start_stop_def verb_bodies
  by (rule lifted_one_bus | rule with_bus_one, rule quiet_keeps(3), rule verb_bodies_confined)+

section \<open>What enabling and disabling have done\<close>

definition starts_timer :: "timer_base list option \<Rightarrow> bool" where
  "starts_timer bases = (case bases of None \<Rightarrow> False | Some bs \<Rightarrow> starts_when_armed bs)"

definition enable_actions :: "pystr \<Rightarrow> bool \<Rightarrow> event list" where
  "enable_actions timer start =
     [sent EnableUnitFiles (enable_body timer)] @ [sent Reload []] @
     (if start then [sent StartUnit (replace_body timer)] else []) @ []"

definition disable_actions :: "pystr \<Rightarrow> event list" where
  "disable_actions timer =
     [sent StopUnit (replace_body timer)] @ [sent DisableUnitFiles (disable_body timer)] @ [sent Reload []] @ []"

lemma with_bus_Inr:
  assumes "with_bus sd body w = (Inr x, w')"
  obtains w2 where "body (opened w) = (Inr x, w2)" "w' = closed w2"
  using with_bus_run[OF assms] by blast

lemma lift_Inr: "io_bind (io_lift r) f w = (Inr x, w') \<longleftrightarrow> (\<exists>y. r = Inr y \<and> f y w = (Inr x, w'))"
  by (cases r) (auto simp: io_bind_def io_lift_def)

lemma lookup_same:
  assumes "lookup f" "f w = (r, w')"
  shows "unit_dir w' = unit_dir w" "\<exists>es. trace w' = trace w @ es \<and> acts es = []"
proof -
  show "unit_dir w' = unit_dir w" by (rule lookup_run(1)[OF assms])
  from lookup_run(2)[OF assms] show "\<exists>es. trace w' = trace w @ es \<and> acts es = []"
    by (auto simp: acts_def filter_empty_conv)
qed

lemma enable_rest_performs:
  "performs (io_then (do_call sd EnableUnitFiles (enable_body timer))
       (io_then (do_call sd Reload [])
       (io_then (case bases of
           None \<Rightarrow> io_return ()
         | Some bs \<Rightarrow> if starts_when_armed bs then do_call sd StartUnit (replace_body timer) else io_return ())
        (info sd base)))) (enable_actions timer (starts_timer bases))"
proof -
  have info: "performs (info sd base) []" by (rule performs_lookup) (rule more_lookups)
  have start: "performs (case bases of None \<Rightarrow> io_return ()
         | Some bs \<Rightarrow> if starts_when_armed bs then do_call sd StartUnit (replace_body timer) else io_return ())
       (if starts_timer bases then [sent StartUnit (replace_body timer)] else [])"
    by (cases bases) (auto simp: starts_timer_def intro!: io_performs)
  show ?thesis unfolding enable_actions_def by (intro io_performs start info) simp_all
qed

lemma enable_run:
  assumes "enable_task sd task_path w = (Inr t, w')"
  shows "\<exists>base w1 bases w2 es. existing_unit_base task_path = Inr base \<and>
    monotonic_bases sd (timer_name base) w1 = (Inr bases, w2) \<and> unit_dir w1 = unit_dir w \<and>
    unit_dir w' = unit_dir w \<and> trace w' = trace w @ [BusOpened] @ es @ [BusClosed] \<and>
    acts es = enable_actions (timer_name base) (starts_timer bases)"
proof -
  from assms obtain base where base: "existing_unit_base task_path = Inr base"
    and run: "with_bus sd (enable_body_io sd base) w = (Inr t, w')"
    by (auto simp: verb_bodies lift_Inr)
  from run obtain w4 where body: "enable_body_io sd base (opened w) = (Inr t, w4)" and w': "w' = closed w4"
    by (rule with_bus_Inr)
  from body obtain x w1 bases w2 where timer: "require_timer sd base (opened w) = (Inr x, w1)"
    and read: "monotonic_bases sd (timer_name base) w1 = (Inr bases, w2)"
    and rest: "io_then (do_call sd EnableUnitFiles (enable_body (timer_name base)))
       (io_then (do_call sd Reload [])
       (io_then (case bases of
           None \<Rightarrow> io_return ()
         | Some bs \<Rightarrow> if starts_when_armed bs then do_call sd StartUnit (replace_body (timer_name base)) else io_return ())
        (info sd base))) w2 = (Inr t, w4)"
    by (simp only: enable_body_io_def Let_def io_then_Inr io_bind_Inr) blast
  have l: "lookup (require_timer sd base)" "lookup (monotonic_bases sd (timer_name base))"
    by (intro io_lookups)+
  from lookup_same[OF l(1) timer] obtain e1 where s1: "unit_dir w1 = unit_dir w"
    "trace w1 = trace w @ [BusOpened] @ e1" "acts e1 = []" by auto
  from lookup_same[OF l(2) read] obtain e2 where s2: "unit_dir w2 = unit_dir w1"
    "trace w2 = trace w1 @ e2" "acts e2 = []" by auto
  from performsD[OF enable_rest_performs rest] obtain e3 where s3:
    "unit_dir w4 = fold apply_action (enable_actions (timer_name base) (starts_timer bases)) (unit_dir w2)"
    "trace w4 = trace w2 @ e3" "acts e3 = enable_actions (timer_name base) (starts_timer bases)" by blast
  have "unit_dir w' = unit_dir w" using s1 s2 s3 w' by (simp add: enable_actions_def)
  moreover have "trace w' = trace w @ [BusOpened] @ (e1 @ e2 @ e3) @ [BusClosed]" using s1 s2 s3 w' by simp
  moreover have "acts (e1 @ e2 @ e3) = enable_actions (timer_name base) (starts_timer bases)" using s1 s2 s3 by simp
  ultimately show ?thesis using base read s1(1) by blast
qed

lemma disable_run:
  assumes "disable_task sd task_path w = (Inr t, w')"
  shows "\<exists>base es. existing_unit_base task_path = Inr base \<and> unit_dir w' = unit_dir w \<and>
    trace w' = trace w @ [BusOpened] @ es @ [BusClosed] \<and> acts es = disable_actions (timer_name base)"
proof -
  from assms obtain base where base: "existing_unit_base task_path = Inr base"
    and run: "with_bus sd (disable_body_io sd base) w = (Inr t, w')"
    by (auto simp: verb_bodies lift_Inr)
  from run obtain w4 where body: "disable_body_io sd base (opened w) = (Inr t, w4)" and w': "w' = closed w4"
    by (rule with_bus_Inr)
  have reads: "performs (require_timer sd base) []" "performs (info sd base) []"
    by (intro performs_lookup io_lookups)+
  have "performs (disable_body_io sd base) ([] @ disable_actions (timer_name base))"
    unfolding disable_body_io_def disable_actions_def Let_def by (intro io_performs reads) simp_all
  from performsD[OF this body] obtain es where "unit_dir w4 = unit_dir w"
    "trace w4 = trace w @ [BusOpened] @ es" "acts es = disable_actions (timer_name base)"
    by (auto simp: disable_actions_def)
  with base w' show ?thesis by auto
qed

lemma set_startup_run:
  assumes "set_startup sd name start w = (Inr t, w')"
  shows "\<exists>es w1 w2. start \<in> {Start_Automatic, Start_Disabled} \<and> unit_dir w' = unit_dir w \<and>
    trace w' = trace w @ [BusOpened] @ es @ [BusClosed] \<and>
    acts es = [if start = Start_Automatic then sent EnableUnitFiles (enable_body name)
               else sent DisableUnitFiles (disable_body name), sent Reload []] \<and>
    get_one sd name w1 = (Inr t, w2) \<and> w' = closed w2"
proof -
  from assms obtain w4 where body: "set_startup_body sd name start (opened w) = (Inr t, w4)" and w': "w' = closed w4"
    by (auto simp: verb_bodies elim: with_bus_Inr)
  have ok: "start \<in> {Start_Automatic, Start_Disabled}"
    using body by (auto simp: set_startup_body_def io_then_Inr io_raise_def split: if_splits)
  define first where "first = (if start = Start_Automatic then do_call sd EnableUnitFiles (enable_body name)
      else do_call sd DisableUnitFiles (disable_body name))"
  have b: "set_startup_body sd name start = io_then first (io_then (do_call sd Reload []) (get_one sd name))"
    using ok by (auto simp: set_startup_body_def first_def)
  from body obtain w1 where got: "get_one sd name w1 = (Inr t, w4)" by (auto simp: b io_then_Inr)
  have reads: "performs (get_one sd name) []" by (intro performs_lookup io_lookups)
  have "performs (io_then first (io_then (do_call sd Reload []) (get_one sd name)))
      ((if start = Start_Automatic then [sent EnableUnitFiles (enable_body name)]
        else [sent DisableUnitFiles (disable_body name)]) @ [sent Reload []] @ [])"
    unfolding first_def by (intro io_performs reads) simp_all
  from performsD[OF this body[unfolded b]] obtain es where "unit_dir w4 = unit_dir w"
    "trace w4 = trace w @ [BusOpened] @ es"
    "acts es = [if start = Start_Automatic then sent EnableUnitFiles (enable_body name)
               else sent DisableUnitFiles (disable_body name), sent Reload []]"
    by (auto split: if_splits)
  with ok got w' show ?thesis by auto
qed

section \<open>A registered task is recognised\<close>

lemma registered_owned:
  assumes "register sd task_path r w = (Inr task, w')" "unit_base task_path = Inr base"
    "no_breaks (rg_description r)" "no_breaks (pwshpy_version sd)"
  shows "owned_unit_file (service_name base) w' = (Inr True, w') \<and>
    owned_unit_file (timer_name base) w' = (Inr (rg_triggers r \<noteq> []), w')"
proof -
  obtain p where
    p: "plan (pwshpy_version sd) task_path r = Inr p" and d: "unit_dir w' = (unit_dir w)
      (service_name (pl_base p) \<mapsto> TextFile (pl_service p), timer_name (pl_base p) := map_option TextFile (pl_timer p))"
    using register_Inr[OF assms(1)] by metis
  have base: "pl_base p = base" using plan_base[OF p] assms(2) by simp
  from p obtain user where s: "service_unit (pwshpy_version sd) (rg_program r) (rg_arguments r) (rg_description r)
      user (rg_settings r) = Inr (pl_service p)" by (auto simp: plan_def and_then_Inr)
  from p base have "(if rg_triggers r \<noteq> []
      then map_sum id Some (timer_unit (pwshpy_version sd) base (rg_description r) (rg_triggers r))
      else Inr None) = Inr (pl_timer p)"
    by (auto simp: plan_def and_then_Inr)
  then have "(pl_timer p = None \<longleftrightarrow> rg_triggers r = []) \<and> (\<forall>text. pl_timer p = Some text \<longrightarrow>
      timer_unit (pwshpy_version sd) base (rg_description r) (rg_triggers r) = Inr text)"
    by (cases "timer_unit (pwshpy_version sd) base (rg_description r) (rg_triggers r)")
      (auto split: if_splits dest: sym)
  then have none: "pl_timer p = None \<longleftrightarrow> rg_triggers r = []"
    and some: "\<And>text. pl_timer p = Some text \<Longrightarrow>
      timer_unit (pwshpy_version sd) base (rg_description r) (rg_triggers r) = Inr text" by blast+
  have "is_pwshpy_unit (pl_service p)" using service_unit_owned[OF s assms(3,4)] .
  moreover have "is_pwshpy_unit contents" if "pl_timer p = Some contents" for contents
    using timer_unit_owned[OF some[OF that] assms(3,4)] .
  ultimately show ?thesis
    using d base none by (cases "pl_timer p") (auto simp: owned_unit_file_Inr ours_def)
qed

end
