(* ===== verification/Systemd_Listing_Facts.thy ===== *)
theory Systemd_Listing_Facts
  imports Systemd_Verb_Facts
begin

text \<open>
  The strict and the lenient listing. \<open>agrees m m'\<close>: a run of \<open>m\<close> that raises nothing is a run of \<open>m'\<close>;
  and \<open>skips\<close>, what the two do when systemd refuses a read.
\<close>

definition agrees :: "('m, 'a) io \<Rightarrow> ('m, 'a) io \<Rightarrow> bool" where
  "agrees m m' \<longleftrightarrow> (\<forall>w x w'. m w = (Inr x, w') \<longrightarrow> m' w = (Inr x, w'))"

definition gen_agrees :: "('m, 'y, 'a) gen \<Rightarrow> ('m, 'y, 'a) gen \<Rightarrow> bool" where
  "gen_agrees g g' \<longleftrightarrow> (\<forall>w ys x w'. g w = ((ys, Inr x), w') \<longrightarrow> g' w = ((ys, Inr x), w'))"

named_theorems io_agrees

lemma agrees_refl: "agrees m m"
  by (simp add: agrees_def)

lemma agrees_bind [io_agrees]:
  assumes "agrees m m'" "\<And>x. agrees (f x) (f' x)"
  shows "agrees (io_bind m f) (io_bind m' f')"
  using assms unfolding agrees_def io_bind_Inr by blast

lemma agrees_then [io_agrees]: "agrees m m' \<Longrightarrow> agrees k k' \<Longrightarrow> agrees (io_then m k) (io_then m' k')"
  unfolding io_then_def by (rule agrees_bind)

lemma agrees_catch [io_agrees]:
  "(\<And>e. agrees (h e) (h' e)) \<Longrightarrow> agrees (io_catch m h) (io_catch m h')"
  by (auto simp: agrees_def io_catch_def split: prod.splits sum.splits)

lemma agrees_if [io_agrees]: "agrees f f' \<Longrightarrow> agrees g g' \<Longrightarrow> agrees (if c then f else g) (if c then f' else g')"
  by simp

lemma agrees_option [io_agrees]:
  "agrees f f' \<Longrightarrow> (\<And>x. agrees (g x) (g' x)) \<Longrightarrow>
   agrees (case v of None \<Rightarrow> f | Some x \<Rightarrow> g x) (case v of None \<Rightarrow> f' | Some x \<Rightarrow> g' x)"
  by (cases v) simp_all

lemma agrees_sum [io_agrees]:
  "(\<And>x. agrees (f x) (f' x)) \<Longrightarrow> (\<And>x. agrees (g x) (g' x)) \<Longrightarrow>
   agrees (case v of Inl x \<Rightarrow> f x | Inr x \<Rightarrow> g x) (case v of Inl x \<Rightarrow> f' x | Inr x \<Rightarrow> g' x)"
  by (cases v) simp_all

lemma agrees_pair [io_agrees]:
  "(\<And>x y. agrees (f x y) (f' x y)) \<Longrightarrow> agrees (case p of (x, y) \<Rightarrow> f x y) (case p of (x, y) \<Rightarrow> f' x y)"
  by (cases p) simp

text \<open>A strict skip raises, so it agrees with whatever goes on.\<close>

lemma agrees_skip [io_agrees]: "agrees (skip_or_raise what which cause True) (skip_or_raise what which cause s)"
  by (simp add: agrees_def skip_or_raise_def)

lemma gen_agrees_io [io_agrees]: "agrees m m' \<Longrightarrow> gen_agrees (gen_io m) (gen_io m')"
  by (auto simp: gen_agrees_def gen_io_def agrees_def split: prod.splits)

lemma gen_agrees_yield [io_agrees]: "gen_agrees (gen_yield ys) (gen_yield ys)"
  by (simp add: gen_agrees_def)

lemma gen_bind_Inr:
  "gen_bind g f w = ((zs, Inr y), w'') \<longleftrightarrow>
     (\<exists>ys x w' us. g w = ((ys, Inr x), w') \<and> f x w' = ((us, Inr y), w'') \<and> zs = ys @ us)"
  by (fastforce simp: gen_bind_def split: prod.splits sum.splits)

lemma gen_agrees_bind [io_agrees]:
  assumes "gen_agrees g g'" "\<And>x. gen_agrees (f x) (f' x)"
  shows "gen_agrees (gen_bind g f) (gen_bind g' f')"
  using assms unfolding gen_agrees_def gen_bind_Inr by blast

lemma gen_agrees_finally [io_agrees]:
  "gen_agrees g g' \<Longrightarrow> gen_agrees (gen_finally g f) (gen_finally g' f)"
  by (fastforce simp: gen_agrees_def gen_finally_def split: prod.splits sum.splits)

lemma gen_agrees_loop [io_agrees]:
  assumes "\<And>x s. gen_agrees (body x s) (body' x s)"
  shows "gen_agrees (gen_loop body xs s) (gen_loop body' xs s)"
proof (induction xs arbitrary: s)
  case Nil
  show ?case by (simp add: gen_agrees_def)
next
  case (Cons x xs)
  then show ?case by (simp add: gen_agrees_bind assms)
qed

lemma gen_agrees_if [io_agrees]:
  "gen_agrees f f' \<Longrightarrow> gen_agrees g g' \<Longrightarrow> gen_agrees (if c then f else g) (if c then f' else g')"
  by simp

lemma gen_agrees_option [io_agrees]:
  "gen_agrees f f' \<Longrightarrow> (\<And>x. gen_agrees (g x) (g' x)) \<Longrightarrow>
   gen_agrees (case v of None \<Rightarrow> f | Some x \<Rightarrow> g x) (case v of None \<Rightarrow> f' | Some x \<Rightarrow> g' x)"
  by (cases v) simp_all

lemma gen_agrees_pair [io_agrees]:
  "(\<And>x y. gen_agrees (f x y) (f' x y)) \<Longrightarrow>
   gen_agrees (case p of (x, y) \<Rightarrow> f x y) (case p of (x, y) \<Rightarrow> f' x y)"
  by (cases p) simp

section \<open>The two listings\<close>

lemma agrees_parts [io_agrees]:
  "agrees (unless_refused read name True) (unless_refused read name s)"
  "agrees (owned_service sd name path True) (owned_service sd name path s)"
  "agrees (files_or_none sd ending True) (files_or_none sd ending s)"
  "agrees (file_path sd name True) (file_path sd name s)"
  "agrees (service_unless_refused sread name True) (service_unless_refused sread name s)"
  unfolding unless_refused_def owned_service_def files_or_none_def file_path_def service_unless_refused_def Let_def
  by (intro io_agrees agrees_refl)+

lemma agrees_lookup_units: "agrees (lookup_units sd base True names) (lookup_units sd base s names)"
proof (induction names)
  case Nil
  show ?case by (simp add: agrees_refl)
next
  case (Cons name names)
  show ?case unfolding lookup_units.simps
    by (intro io_agrees agrees_refl Cons.IH)
qed

lemma agrees_listed_units:
  assumes "\<And>entry. agrees (listed entry) (listed' entry)"
    "\<And>name path state. agrees (record_of name path state) (record_of' name path state)"
  shows "gen_agrees (listed_units sd ending True listed record_of) (listed_units sd ending s listed' record_of')"
  unfolding listed_units_def loaded_pass_def file_pass_def
  by (intro io_agrees agrees_refl assms)

lemma agrees_gen_with_bus: "gen_agrees g g' \<Longrightarrow> gen_agrees (gen_with_bus sd g) (gen_with_bus sd g')"
  unfolding gen_with_bus_def by (intro io_agrees agrees_refl)

lemma iter_timers_agrees: "gen_agrees (iter_timers sd True task_name) (iter_timers sd s task_name)"
  unfolding iter_timers_def iter_units_def lookup_unit_def
  by (intro io_agrees agrees_gen_with_bus agrees_listed_units agrees_lookup_units agrees_refl)

lemma iter_services_agrees: "gen_agrees (iter_services sd True) (iter_services sd s)"
  unfolding iter_services_def iter_units_def listed_service_def file_service_def
  by (intro io_agrees agrees_gen_with_bus agrees_listed_units agrees_refl)

section \<open>Nothing is skipped silently\<close>

text \<open>\<open>loud m m'\<close>: a run of the lenient \<open>m'\<close> that logs no warning is a run of the strict \<open>m\<close>, whatever
  it returns or raises.\<close>

definition warning :: "event \<Rightarrow> bool" where
  "warning e \<longleftrightarrow> (\<exists>what name. e = Warned what name)"

definition loud :: "('m world \<Rightarrow> 'x \<times> 'm world) \<Rightarrow> ('m world \<Rightarrow> 'x \<times> 'm world) \<Rightarrow> bool" where
  "loud m m' \<longleftrightarrow> (\<forall>w. \<exists>es. trace (snd (m' w)) = trace w @ es \<and>
     ((\<forall>e \<in> set es. \<not> warning e) \<longrightarrow> m w = m' w))"

named_theorems io_loud

lemma loudI:
  assumes "\<And>w r w'. m' w = (r, w') \<Longrightarrow>
    \<exists>es. trace w' = trace w @ es \<and> ((\<forall>e \<in> set es. \<not> warning e) \<longrightarrow> m w = (r, w'))"
  shows "loud m m'"
  unfolding loud_def
proof
  fix w
  show "\<exists>es. trace (snd (m' w)) = trace w @ es \<and> ((\<forall>e \<in> set es. \<not> warning e) \<longrightarrow> m w = m' w)"
    using assms[of w "fst (m' w)" "snd (m' w)"] by simp
qed

lemma loudD:
  assumes "loud m m'" "m' w = (r, w')"
  obtains es where "trace w' = trace w @ es" "(\<forall>e \<in> set es. \<not> warning e) \<longrightarrow> m w = (r, w')"
  using assms unfolding loud_def by (metis snd_conv)

lemma loud_lookup: "lookup m \<Longrightarrow> loud m m"
  using lookup_run[of m] by (intro loudI) blast

text \<open>Two runs after another, when the first ends the same in both.\<close>

lemma loud_compose:
  assumes "trace w1 = trace w @ es" "(\<forall>e \<in> set es. \<not> warning e) \<longrightarrow> first"
    "loud k k'" "k' w1 = (r, w')"
  shows "\<exists>es. trace w' = trace w @ es \<and> ((\<forall>e \<in> set es. \<not> warning e) \<longrightarrow> first \<and> k w1 = (r, w'))"
proof -
  from loudD[OF assms(3,4)] obtain fs where "trace w' = trace w1 @ fs"
    "(\<forall>e \<in> set fs. \<not> warning e) \<longrightarrow> k w1 = (r, w')" .
  with assms(1,2) show ?thesis by (intro exI[of _ "es @ fs"]) auto
qed

lemma loud_bind [io_loud]:
  assumes "loud m m'" "\<And>x. loud (f x) (f' x)"
  shows "loud (io_bind m f) (io_bind m' f')"
proof (rule loudI)
  fix w r w'' assume run: "io_bind m' f' w = (r, w'')"
  obtain a w1 where first: "m' w = (a, w1)" by fastforce
  from loudD[OF assms(1) first] obtain es where es: "trace w1 = trace w @ es"
    "(\<forall>e \<in> set es. \<not> warning e) \<longrightarrow> m w = (a, w1)" .
  show "\<exists>es. trace w'' = trace w @ es \<and> ((\<forall>e \<in> set es. \<not> warning e) \<longrightarrow> io_bind m f w = (r, w''))"
  proof (cases a)
    case (Inl e)
    with run first es show ?thesis by (intro exI[of _ es]) (auto simp: io_bind_def)
  next
    case (Inr x)
    with run first have "f' x w1 = (r, w'')" by simp
    from loud_compose[OF es assms(2) this] Inr show ?thesis by auto
  qed
qed

lemma loud_then [io_loud]: "loud m m' \<Longrightarrow> loud k k' \<Longrightarrow> loud (io_then m k) (io_then m' k')"
  unfolding io_then_def by (rule loud_bind)

lemma loud_catch [io_loud]:
  assumes "loud m m'" "\<And>e. loud (h e) (h' e)"
  shows "loud (io_catch m h) (io_catch m' h')"
proof (rule loudI)
  fix w r w'' assume run: "io_catch m' h' w = (r, w'')"
  obtain a w1 where first: "m' w = (a, w1)" by fastforce
  from loudD[OF assms(1) first] obtain es where es: "trace w1 = trace w @ es"
    "(\<forall>e \<in> set es. \<not> warning e) \<longrightarrow> m w = (a, w1)" .
  show "\<exists>es. trace w'' = trace w @ es \<and> ((\<forall>e \<in> set es. \<not> warning e) \<longrightarrow> io_catch m h w = (r, w''))"
  proof (cases a)
    case (Inr x)
    with run first es show ?thesis by (intro exI[of _ es]) (auto simp: io_catch_def)
  next
    case (Inl e)
    with run first have "h' e w1 = (r, w'')" by (simp add: io_catch_def)
    from loud_compose[OF es assms(2) this] Inl show ?thesis by (auto simp: io_catch_def)
  qed
qed

lemma loud_if [io_loud]: "loud f f' \<Longrightarrow> loud g g' \<Longrightarrow> loud (if c then f else g) (if c then f' else g')"
  by simp

lemma loud_option [io_loud]:
  "loud f f' \<Longrightarrow> (\<And>x. loud (g x) (g' x)) \<Longrightarrow>
   loud (case v of None \<Rightarrow> f | Some x \<Rightarrow> g x) (case v of None \<Rightarrow> f' | Some x \<Rightarrow> g' x)"
  by (cases v) simp_all

lemma loud_sum [io_loud]:
  "(\<And>x. loud (f x) (f' x)) \<Longrightarrow> (\<And>x. loud (g x) (g' x)) \<Longrightarrow>
   loud (case v of Inl x \<Rightarrow> f x | Inr x \<Rightarrow> g x) (case v of Inl x \<Rightarrow> f' x | Inr x \<Rightarrow> g' x)"
  by (cases v) simp_all

lemma loud_pair [io_loud]:
  "(\<And>x y. loud (f x y) (f' x y)) \<Longrightarrow> loud (case p of (x, y) \<Rightarrow> f x y) (case p of (x, y) \<Rightarrow> f' x y)"
  by (cases p) simp

lemma loud_skip [io_loud]: "loud (skip_or_raise what which cause True) (skip_or_raise what which cause s)"
  by (rule loudI) (auto simp: skip_or_raise_def io_log_def warning_def split: if_splits)

lemma loud_bus [io_loud]: "loud (open_bus sd) (open_bus sd)" "loud close_bus close_bus"
  by (rule loudI; auto simp: open_bus_def close_bus_def io_log_def io_bind_def split: connection.splits)+

lemma loud_gen_io [io_loud]: "loud m m' \<Longrightarrow> loud (gen_io m) (gen_io m')"
  unfolding loud_def gen_io_def by (simp add: split_beta) metis

lemma loud_yield [io_loud]: "loud (gen_yield ys) (gen_yield ys)"
  by (rule loudI) (auto simp: gen_yield_def)

lemma loud_gen_bind [io_loud]:
  assumes "loud g g'" "\<And>x. loud (f x) (f' x)"
  shows "loud (gen_bind g f) (gen_bind g' f')"
proof (rule loudI)
  fix w p w'' assume run: "gen_bind g' f' w = (p, w'')"
  obtain ys a w1 where first: "g' w = ((ys, a), w1)" by (metis prod.exhaust)
  from loudD[OF assms(1) first] obtain es where es: "trace w1 = trace w @ es"
    "(\<forall>e \<in> set es. \<not> warning e) \<longrightarrow> g w = ((ys, a), w1)" .
  show "\<exists>es. trace w'' = trace w @ es \<and> ((\<forall>e \<in> set es. \<not> warning e) \<longrightarrow> gen_bind g f w = (p, w''))"
  proof (cases a)
    case (Inl e)
    with run first es show ?thesis by (intro exI[of _ es]) (auto simp: gen_bind_def)
  next
    case (Inr x)
    obtain zs r w2 where second: "f' x w1 = ((zs, r), w2)" by (metis prod.exhaust)
    with run first Inr have "p = (ys @ zs, r)" "w'' = w2" by (auto simp: gen_bind_def)
    with loud_compose[OF es assms(2) second] Inr show ?thesis by (fastforce simp: gen_bind_def)
  qed
qed

lemma loud_gen_finally [io_loud]:
  assumes "loud g g'" "loud f f"
  shows "loud (gen_finally g f) (gen_finally g' f)"
proof (rule loudI)
  fix w p w'' assume run: "gen_finally g' f w = (p, w'')"
  obtain ys a w1 where first: "g' w = ((ys, a), w1)" by (metis prod.exhaust)
  obtain b w2 where final: "f w1 = (b, w2)" by fastforce
  from loudD[OF assms(1) first] obtain es where es: "trace w1 = trace w @ es"
    "(\<forall>e \<in> set es. \<not> warning e) \<longrightarrow> g w = ((ys, a), w1)" .
  from loud_compose[OF es assms(2) final] obtain fs where "trace w2 = trace w @ fs"
    "(\<forall>e \<in> set fs. \<not> warning e) \<longrightarrow> g w = ((ys, a), w1)" by blast
  with run first final show "\<exists>es. trace w'' = trace w @ es \<and>
      ((\<forall>e \<in> set es. \<not> warning e) \<longrightarrow> gen_finally g f w = (p, w''))"
    by (intro exI[of _ fs]) (auto simp: gen_finally_def split: sum.splits)
qed

lemma loud_loop [io_loud]:
  assumes "\<And>x s. loud (body x s) (body' x s)"
  shows "loud (gen_loop body xs s) (gen_loop body' xs s)"
proof (induction xs arbitrary: s)
  case Nil
  show ?case by (simp only: gen_loop.simps) (intro io_loud loud_lookup io_lookups)
next
  case (Cons x xs)
  then show ?case by (simp add: loud_gen_bind assms)
qed

lemma loud_parts [io_loud]:
  "lookup read \<Longrightarrow> loud (unless_refused read name True) (unless_refused read name s)"
  "loud (owned_service sd name path True) (owned_service sd name path s)"
  "loud (files_or_none sd ending True) (files_or_none sd ending s)"
  "loud (file_path sd name True) (file_path sd name s)"
  "lookup sread \<Longrightarrow> loud (service_unless_refused sread name True) (service_unless_refused sread name s)"
  unfolding unless_refused_def owned_service_def files_or_none_def file_path_def service_unless_refused_def Let_def
  by ((intro io_loud) | (rule loud_lookup, (assumption | intro io_lookups)))+

lemma loud_lookup_units: "loud (lookup_units sd base True names) (lookup_units sd base s names)"
proof (induction names)
  case Nil
  show ?case by (simp only: lookup_units.simps) (intro loud_lookup io_lookups)
next
  case (Cons name names)
  show ?case unfolding lookup_units.simps
    by ((intro io_loud Cons.IH) | (rule loud_lookup, intro io_lookups) | (intro io_lookups; fail))+
qed

lemma loud_listed_units:
  assumes "\<And>entry. loud (listed entry) (listed' entry)"
    "\<And>name path state. loud (record_of name path state) (record_of' name path state)"
  shows "loud (listed_units sd ending True listed record_of) (listed_units sd ending s listed' record_of')"
  unfolding listed_units_def loaded_pass_def file_pass_def
  by ((intro io_loud assms) | (rule loud_lookup, intro io_lookups))+

lemma loud_gen_with_bus: "loud g g' \<Longrightarrow> loud (gen_with_bus sd g) (gen_with_bus sd g')"
  unfolding gen_with_bus_def by (intro io_loud)

lemma iter_timers_loud: "loud (iter_timers sd True task_name) (iter_timers sd s task_name)"
  unfolding iter_timers_def iter_units_def lookup_unit_def
  by ((intro io_loud loud_gen_with_bus loud_listed_units loud_lookup_units) |
      (rule loud_lookup, intro io_lookups) | (intro io_lookups; fail))+

lemma iter_services_loud: "loud (iter_services sd True) (iter_services sd s)"
  unfolding iter_services_def iter_units_def listed_service_def file_service_def
  by ((intro io_loud loud_gen_with_bus loud_listed_units) | (intro io_lookups; fail))+

end
