(* ===== verification/Systemd_Sample.thy ===== *)
theory Systemd_Sample
  imports Systemd_Listing_Facts
begin

text \<open>
  A small systemd for the witnesses: every unit whose file is in the directory is loaded, its other
  properties read 0, and no call, write or unlink fails. \<open>answers P m\<close> says that \<open>m\<close> never
  raises and what it returns satisfies \<open>P\<close>.
\<close>

section \<open>The system\<close>

fun sample_reply :: "directory \<Rightarrow> message \<Rightarrow> reply" where
  "sample_reply d (ManagerCall method body) = (case body of
      [DStr name] \<Rightarrow> if method = GetUnitFileState then BodyReply [DStr (u ''enabled'')] else BodyReply [DStr name]
    | _ \<Rightarrow> BodyReply [])"
| "sample_reply d (GetProperty path interface prop) =
     (if prop = u ''LoadState''
      then BodyReply [DStruct [DStr (u ''s''), DStr (if d path = None then u ''not-found'' else u ''loaded'')]]
      else BodyReply [DInt 0])"

definition sample_systemd :: "unit system" where
  "sample_systemd = \<lparr>connect = (\<lambda>_. Connected), respond = (\<lambda>d msg m. (sample_reply d msg, m)),
     write_fault = (\<lambda>_ _ _. None), unlink_fault = (\<lambda>_ _. None), read_elsewhere = (\<lambda>_ _. None),
     passwd_uid = (\<lambda>_. None), show_value = (\<lambda>_. []), monotonic = (\<lambda>_. 0), sleep_for = (\<lambda>_ m. m),
     pwshpy_version = u ''1.6.0''\<rparr>"

lemma sample_systemd_simps [simp]:
  "connect sample_systemd m = Connected"
  "respond sample_systemd d msg m = (sample_reply d msg, m)"
  "write_fault sample_systemd name text m = None"
  "unlink_fault sample_systemd name m = None"
  "pwshpy_version sample_systemd = u ''1.6.0''"
  by (simp_all add: sample_systemd_def)

definition sample_world :: "directory \<Rightarrow> unit world" where
  "sample_world d = \<lparr>unit_dir = d, outside = (), trace = []\<rparr>"

section \<open>What it answers\<close>

definition answers :: "('a \<Rightarrow> bool) \<Rightarrow> ('m, 'a) io \<Rightarrow> bool" where
  "answers P m \<longleftrightarrow> (\<forall>w. \<exists>x w'. m w = (Inr x, w') \<and> P x)"

abbreviation never_fails :: "('m, 'a) io \<Rightarrow> bool" where
  "never_fails \<equiv> answers (\<lambda>_. True)"

named_theorems io_answers

lemma answersI: "(\<And>w. \<exists>x w'. m w = (Inr x, w') \<and> P x) \<Longrightarrow> answers P m"
  by (simp add: answers_def)

lemma answers_bind:
  assumes "answers P m" "\<And>x. P x \<Longrightarrow> answers Q (f x)"
  shows "answers Q (io_bind m f)"
proof (rule answersI)
  fix w
  from assms(1) obtain x w1 where "m w = (Inr x, w1)" "P x" unfolding answers_def by blast
  moreover from assms(2)[OF this(2)] obtain y w2 where "f x w1 = (Inr y, w2)" "Q y" unfolding answers_def by blast
  ultimately show "\<exists>x w'. io_bind m f w = (Inr x, w') \<and> Q x" by auto
qed

lemma never_fails_bind [io_answers]:
  "never_fails m \<Longrightarrow> (\<And>x. never_fails (f x)) \<Longrightarrow> never_fails (io_bind m f)"
  by (rule answers_bind)

lemma never_fails_then [io_answers]: "never_fails m \<Longrightarrow> never_fails k \<Longrightarrow> never_fails (io_then m k)"
  unfolding io_then_def by (rule never_fails_bind)

lemma never_fails_pure [io_answers]: "never_fails (io_return x)" "never_fails (io_reads h)"
  by (auto simp: answers_def)

lemma never_fails_if [io_answers]: "never_fails f \<Longrightarrow> never_fails g \<Longrightarrow> never_fails (if c then f else g)"
  by simp

lemma never_fails_option [io_answers]:
  "never_fails f \<Longrightarrow> (\<And>x. never_fails (g x)) \<Longrightarrow> never_fails (case v of None \<Rightarrow> f | Some x \<Rightarrow> g x)"
  by (cases v) simp_all

lemma never_fails_pair [io_answers]: "(\<And>x y. never_fails (f x y)) \<Longrightarrow> never_fails (case p of (x, y) \<Rightarrow> f x y)"
  by (cases p) simp

lemma never_fails_catch [io_answers]:
  assumes "never_fails m"
  shows "never_fails (io_catch m h)"
proof (rule answersI)
  fix w
  from assms obtain x w' where "m w = (Inr x, w')" unfolding answers_def by blast
  then show "\<exists>x w'. io_catch m h w = (Inr x, w') \<and> True" by (simp add: io_catch_def)
qed

lemma sample_path_property:
  assumes "prop \<noteq> u ''LoadState''"
  shows "answers (\<lambda>v. v = fallback \<or> v = Some (DInt 0)) (path_property sample_systemd path prop i fallback)"
  using assms by (cases path) (auto simp: answers_def path_property_def send_def io_bind_def property_value_def)

lemma sample_load_state:
  "answers (\<lambda>v. v \<noteq> None) (path_property sample_systemd (Some p) (u ''LoadState'') i fallback)"
  by (auto simp: answers_def path_property_def send_def io_bind_def property_value_def)

lemma never_fails_property [io_answers]: "never_fails (path_property sample_systemd path prop i fallback)"
  by (cases path) (auto simp: answers_def path_property_def send_def io_bind_def property_value_def)

lemma never_fails_live_property [io_answers]: "never_fails (live_property sample_systemd path prop fallback)"
  by (cases path) (auto simp: answers_def live_property_def send_def io_bind_def property_value_def)

lemma sample_calls [io_answers]:
  "never_fails (do_call sample_systemd method body)"
  "never_fails (call_one sample_systemd LoadUnit [DStr name])"
  "never_fails (call_one sample_systemd GetUnitFileState [DStr name])"
  by (rule answersI; auto simp: do_call_def call_one_def call_def io_then_def io_bind_def send_def single_def
      split: list.split dvalue.split)+

lemma sample_load_unit [io_answers]: "never_fails (load_unit sample_systemd name)"
proof -
  have "never_fails (load_unit_state sample_systemd name)"
    unfolding load_unit_state_def Let_def
    by (rule never_fails_bind[OF sample_calls(2)], rule answers_bind[OF sample_load_state])
      (auto simp: answers_def)
  then show ?thesis unfolding load_unit_def by (intro io_answers)
qed

lemma sample_helpers [io_answers]:
  "never_fails (load_unit_path sample_systemd name)"
  "never_fails (live_unit_file_state sample_systemd name)"
  "never_fails (live_active_state sample_systemd path)"
  "never_fails (text_property sample_systemd path prop i text)"
  "never_fails (service_user sample_systemd path)"
  "never_fails (service_settings sample_systemd path)"
  unfolding load_unit_path_def live_unit_file_state_def live_active_state_def service_user_def
    service_settings_def text_property_def
  by (intro io_answers)+

lemma sample_int_property:
  assumes "prop \<noteq> u ''LoadState''"
  shows "answers (\<lambda>v. v = 0) (int_property sample_systemd path prop i)"
  unfolding int_property_def
  by (rule answers_bind[OF sample_path_property[OF assms]]) (auto simp: answers_def)

lemma sample_service_run: "answers (\<lambda>r. snd r = 0) (service_run sample_systemd path)"
  unfolding service_run_def
  by (rule answers_bind[OF sample_int_property], simp add: u_def)+ (simp add: answers_def)

lemma sample_date: "never_fails (io_lift (usec_to_datetime 0))"
  by (simp add: answers_def usec_to_datetime_def)

lemma sample_timer_run_info [io_answers]: "never_fails (timer_run_info sample_systemd path base)"
proof -
  have triggered: "answers (\<lambda>v. v = 0) (int_property sample_systemd path (u ''LastTriggerUSec'') TIMER_IFACE)"
    and elapse: "answers (\<lambda>v. v = 0) (int_property sample_systemd path (u ''NextElapseUSecRealtime'') TIMER_IFACE)"
    by (rule sample_int_property, simp add: u_def)+
  have rest: "never_fails (io_bind (int_property sample_systemd path (u ''NextElapseUSecRealtime'') TIMER_IFACE)
      (\<lambda>elapse. io_bind (io_lift (usec_to_datetime elapse)) k))" if "\<And>x. never_fails (k x)" for k :: "_ \<Rightarrow> (unit, run_info) io"
    by (rule answers_bind[OF elapse]) (use that sample_date in \<open>auto intro: never_fails_bind\<close>)
  have mid: "never_fails (io_bind (int_property sample_systemd path (u ''LastTriggerUSec'') TIMER_IFACE)
      (\<lambda>triggered. io_bind (io_lift (usec_to_datetime (latest_usec [triggered, 0]))) k))"
    if "\<And>x. never_fails (k x)" for k :: "_ \<Rightarrow> (unit, run_info) io"
    by (rule answers_bind[OF triggered]) (use that sample_date in \<open>auto intro: never_fails_bind simp: latest_usec_def\<close>)
  show ?thesis
    unfolding timer_run_info_def
    by (rule never_fails_bind[OF sample_helpers(4)], rule never_fails_bind[OF sample_helpers(1)],
        rule answers_bind[OF sample_service_run])
      (clarify, simp only: snd_conv prod.case, rule mid, rule rest, intro io_answers)
qed

lemma sample_service_task [io_answers]:
  "(\<And>p. never_fails (read_state sample_systemd p)) \<Longrightarrow> never_fails (service_task sample_systemd base path read_state)"
  unfolding service_task_def
  by (rule answers_bind[OF sample_service_run])
    (auto intro!: io_answers intro: sample_date)

lemma sample_info [io_answers]: "never_fails (info sample_systemd base)"
  unfolding info_def timer_task_at_def timer_task_def has_timer_def Let_def
  by (intro io_answers)

section \<open>Registering and removing a task on it\<close>

lemma sample_write [io_answers]:
  "\<forall>c \<in> set text. \<not> is_surrogate c \<Longrightarrow> never_fails (write_unit sample_systemd name text)"
  by (simp add: answers_def write_unit_def)

lemma sample_remove [io_answers]: "never_fails (remove_unit sample_systemd name)"
  by (simp add: answers_def remove_unit_def)

lemma sample_retire [io_answers]:
  "never_fails (stop_if_loaded sample_systemd name)"
  "never_fails (retire_timer sample_systemd timer remove)"
  unfolding stop_if_loaded_def retire_timer_def by (intro io_answers)+

lemma sample_install_rest:
  assumes "\<forall>c \<in> set (pl_service p). \<not> is_surrogate c"
    "\<forall>text. pl_timer p = Some text \<longrightarrow> (\<forall>c \<in> set text. \<not> is_surrogate c)"
  shows "never_fails (install_rest sample_systemd p)"
proof -
  have t: "never_fails (case pl_timer p of None \<Rightarrow> io_return () | Some text \<Rightarrow> write_unit sample_systemd name text)" for name
    using assms(2) by (cases "pl_timer p") (simp_all add: io_answers)
  show ?thesis unfolding install_rest_def Let_def by (rule t | rule io_answers assms(1))+
qed

lemma sample_not_loaded:
  assumes "unit_dir w name = None"
  shows "\<exists>w'. load_unit sample_systemd name w = (Inr None, w') \<and> unit_dir w' = unit_dir w"
proof -
  have "load_state_of (u ''not-found'') = Load_Not_Found"
    by (simp add: load_state_of_def parse_enum_def load_state_names_def u_def)
  with assms show ?thesis
    by (simp add: load_unit_def load_unit_state_def Let_def io_bind_def call_one_def call_def send_def
        path_property_def single_def property_value_def)
qed

lemma sample_require_free:
  assumes "unit_dir w name = None"
  shows "\<exists>w'. require_free_or_owned sample_systemd name w = (Inr (), w') \<and> unit_dir w' = unit_dir w"
  using sample_not_loaded[OF assms] assms
  by (auto simp: require_free_or_owned_def io_bind_def owned_unit_file_run)

lemma sample_install:
  assumes "\<forall>name \<in> unit_names (pl_base p). unit_dir w name = None"
    "\<forall>c \<in> set (pl_service p). \<not> is_surrogate c"
    "\<forall>text. pl_timer p = Some text \<longrightarrow> (\<forall>c \<in> set text. \<not> is_surrogate c)"
  shows "\<exists>t w'. install sample_systemd p w = (Inr t, w')"
proof -
  from assms(1) obtain w1 where first: "require_free_or_owned sample_systemd (service_name (pl_base p)) w = (Inr (), w1)"
    "unit_dir w1 = unit_dir w" using sample_require_free[of w "service_name (pl_base p)"] by (auto simp: unit_names_def)
  with assms(1) obtain w2 where "require_free_or_owned sample_systemd (timer_name (pl_base p)) w1 = (Inr (), w2)"
    using sample_require_free[of w1 "timer_name (pl_base p)"] by (auto simp: unit_names_def)
  moreover obtain t w' where "install_rest sample_systemd p w2 = (Inr t, w')"
    using sample_install_rest[OF assms(2,3)] unfolding answers_def by blast
  ultimately show ?thesis using first by (simp add: install_split)
qed

definition sample_registration :: registration where
  "sample_registration = \<lparr>rg_program = u ''/bin/true'', rg_arguments = [], rg_description = u ''job'',
     rg_principal = None, rg_triggers = [BootTrigger 0], rg_settings = None\<rparr>"

definition job :: pystr where "job = u ''job''"

lemma sample_base: "unit_base job = Inr job"
  by (simp add: unit_base_Inr base_name_def Let_def folder_separator_def without_suffix_def job_def
      folder_separator_at_def strip_def lstrip_def rstrip_def py_isspace_def u_def suffix_to_prefix
      unit_name_char_def is_ascii_alpha_def is_digit_def)

lemma sample_texts:
  "\<exists>t. service_unit (u ''1.6.0'') (u ''/bin/true'') [] (u ''job'') None None = Inr t \<and> (\<forall>c \<in> set t. \<not> is_surrogate c)"
  "\<exists>t. timer_unit (u ''1.6.0'') job (u ''job'') [BootTrigger 0] = Inr t \<and> (\<forall>c \<in> set t. \<not> is_surrogate c)"
proof -
  have w: "exec_program (u ''/bin/true'') = Inr (u ''\"/bin/true\"'')"
    by (simp add: exec_program_def and_then_Inr unit_value_Inr is_control_def exec_prefixes_def u_def)
  show "\<exists>t. service_unit (u ''1.6.0'') (u ''/bin/true'') [] (u ''job'') None None = Inr t \<and>
      (\<forall>c \<in> set t. \<not> is_surrogate c)"
    by (simp add: service_unit_Inr unit_value_Inr check_settings_def w)
      (simp add: u_def is_control_def service_lines_def head_lines_def described_def unit_setting_lines_def
        service_setting_lines_def ownership_key_def unit_line_def is_surrogate_def)
  show "\<exists>t. timer_unit (u ''1.6.0'') job (u ''job'') [BootTrigger 0] = Inr t \<and> (\<forall>c \<in> set t. \<not> is_surrogate c)"
    by (simp add: timer_unit_Inr unit_value_Inr single_line_Inr map_res.simps and_then_def)
      (simp add: u_def is_control_def head_lines_def described_def job_def int_text_def decimal.simps
        ownership_key_def unit_line_def is_surrogate_def)
qed

lemma sample_plan:
  "\<exists>p. plan (u ''1.6.0'') job sample_registration = Inr p \<and> pl_base p = job \<and> pl_timer p \<noteq> None \<and>
     (\<forall>c \<in> set (pl_service p). \<not> is_surrogate c) \<and>
     (\<forall>text. pl_timer p = Some text \<longrightarrow> (\<forall>c \<in> set text. \<not> is_surrogate c))"
  using sample_base sample_texts
  by (auto simp: plan_def and_then_Inr sample_registration_def check_settings_def linux_user_def
      default_principal_def arms_on_register_def and_then_def is_boot_def)

lemma with_bus_success:
  assumes "body (opened w) = (Inr x, w2)" "connect sd (outside w) = Connected"
  shows "with_bus sd body w = (Inr x, closed w2)"
proof -
  have "open_bus sd w = (Inr (), opened w)"
    using assms(2) by (simp add: open_bus_def io_bind_def io_log_def opened_def)
  with assms(1) show ?thesis
    by (simp add: with_bus_def io_finally_def close_bus_def io_log_def closed_def)
qed

lemma sample_register:
  assumes "\<forall>name \<in> unit_names job. unit_dir w name = None"
  shows "\<exists>t w'. register sample_systemd job sample_registration w = (Inr t, w')"
proof -
  obtain p where p: "plan (u ''1.6.0'') job sample_registration = Inr p" "pl_base p = job"
    "\<forall>c \<in> set (pl_service p). \<not> is_surrogate c"
    "\<forall>text. pl_timer p = Some text \<longrightarrow> (\<forall>c \<in> set text. \<not> is_surrogate c)"
    using sample_plan by blast
  obtain t w2 where "install sample_systemd p (opened w) = (Inr t, w2)"
    using sample_install[of p "opened w"] p assms by auto
  from with_bus_success[where body = "install sample_systemd p", OF this] p(1) show ?thesis by (simp add: register_def)
qed

lemma sample_first: "\<exists>t w'. register sample_systemd job sample_registration (sample_world (\<lambda>_. None)) = (Inr t, w')"
  by (rule sample_register) (simp add: sample_world_def)

lemma sample_no_breaks: "no_breaks (u ''job'')" "no_breaks (u ''1.6.0'')"
  by (simp_all add: no_breaks_def u_def is_line_break_def)

lemma sample_unregister:
  assumes "ours (unit_dir w (service_name job))" "ours (unit_dir w (timer_name job))"
    "unit_dir w (service_name job) \<noteq> None"
  shows "\<exists>w'. unregister sample_systemd job w = (Inr (), w')"
proof -
  let ?t = "unit_dir w (timer_name job) \<noteq> None"
  have "never_fails (remove_both sample_systemd job ?t True)"
    unfolding remove_both_def by (intro io_answers)
  then obtain w2 where "remove_both sample_systemd job ?t True (opened w) = (Inr (), w2)"
    unfolding answers_def by auto
  from with_bus_success[where body = "remove_both sample_systemd job ?t True", OF this]
  have "with_bus sample_systemd (remove_both sample_systemd job ?t True) w = (Inr (), closed w2)"
    by simp
  moreover have "owned_unit_file (timer_name job) w = (Inr ?t, w)" "owned_unit_file (service_name job) w = (Inr True, w)"
    using assms by (auto simp: owned_unit_file_Inr)
  ultimately show ?thesis
    by (simp add: unregister_def sample_base remove_both_def)
qed

lemma sample_require_timer [io_answers]: "never_fails (require_timer sample_systemd base)"
proof -
  have enabled: "answers (\<lambda>s. s = Some File_Enabled) (live_unit_file_state sample_systemd name)" for name
    by (simp add: answers_def live_unit_file_state_def io_catch_def io_bind_def call_one_def call_def send_def
        single_def unit_file_state_of_def parse_enum_def unit_file_state_names_def u_def)
  have timed: "answers (\<lambda>b. b) (has_timer sample_systemd base)"
    unfolding has_timer_def by (rule answers_bind[OF enabled]) (auto simp: answers_def)
  show ?thesis unfolding require_timer_def
    by (rule answers_bind[OF timed], simp, rule answers_bind[OF enabled]) (simp add: answers_def)
qed

lemma sample_monotonic_bases [io_answers]: "never_fails (monotonic_bases sample_systemd timer)"
  unfolding monotonic_bases_def
  by (rule never_fails_bind[OF sample_helpers(1)], rule answers_bind[OF sample_path_property])
    (auto simp: u_def answers_def)

lemma sample_enable: "\<exists>task w'. enable_task sample_systemd job w = (Inr task, w')"
proof -
  have "never_fails (enable_body_io sample_systemd job)"
    unfolding enable_body_io_def Let_def by (intro io_answers)
  then obtain task w2 where "enable_body_io sample_systemd job (opened w) = (Inr task, w2)"
    unfolding answers_def by blast
  from with_bus_success[where body = "enable_body_io sample_systemd job", OF this]
  show ?thesis by (simp add: verb_bodies registered_name_reached[OF sample_base])
qed

lemma sample_disable: "\<exists>task w'. disable_task sample_systemd job w = (Inr task, w')"
proof -
  have "never_fails (disable_body_io sample_systemd job)"
    unfolding disable_body_io_def Let_def by (intro io_answers)
  then obtain task w2 where "disable_body_io sample_systemd job (opened w) = (Inr task, w2)"
    unfolding answers_def by blast
  from with_bus_success[where body = "disable_body_io sample_systemd job", OF this]
  show ?thesis by (simp add: verb_bodies registered_name_reached[OF sample_base])
qed

section \<open>Services on it\<close>

lemma sample_unit_path [io_answers]: "never_fails (unit_path sample_systemd name)"
  by (rule answersI) (auto simp: unit_path_def io_catch_def io_bind_def call_one_def call_def send_def single_def)

lemma sample_job: "answers (\<lambda>v. v = no_job \<or> v = DInt 0) (live_property sample_systemd path (u ''Job'') no_job)"
  by (cases path) (auto simp: answers_def live_property_def send_def io_bind_def property_value_def u_def)

lemma sample_no_job: "answers (\<lambda>pending. \<not> pending) (has_pending_job sample_systemd name)"
  unfolding has_pending_job_def
  by (rule answers_bind[OF sample_unit_path], rule answers_bind[OF sample_job]) (auto simp: answers_def no_job_def)

lemma sample_settled: "answers (\<lambda>settled. settled) (is_settled sample_systemd name settled_states)"
  unfolding is_settled_def by (rule answers_bind[OF sample_no_job]) (auto simp: answers_def)

lemma sample_active: "answers (\<lambda>s. s \<noteq> Active_Failed) (active_state sample_systemd name)"
proof -
  have "answers (\<lambda>v. v = DStr (u ''inactive'') \<or> v = DInt 0)
      (live_property sample_systemd path (u ''ActiveState'') (DStr (u ''inactive'')))" for path
    by (cases path) (auto simp: answers_def live_property_def send_def io_bind_def property_value_def u_def)
  then have "answers (\<lambda>s. s \<noteq> Active_Failed) (live_active_state sample_systemd path)" for path
    unfolding live_active_state_def
    by (rule answers_bind) (auto simp: answers_def active_state_of_def parse_enum_def active_state_names_def
      u_def int_text_def decimal.simps)
  then show ?thesis unfolding active_state_def by (intro answers_bind[OF sample_unit_path])
qed

lemma sample_get_one [io_answers]: "never_fails (get_one sample_systemd name)"
proof -
  have "never_fails (unit_file_state sample_systemd name)"
    unfolding unit_file_state_def by (intro io_answers)
  moreover have "never_fails (active_state sample_systemd name)"
    using sample_active[of name] by (fastforce simp: answers_def)
  ultimately show ?thesis
    unfolding get_one_def start_type_of_def service_record_def
    by (intro io_answers) (auto intro!: io_answers)
qed

lemma sample_not_failed: "never_fails (refuse_a_failed_unit sample_systemd name)"
  unfolding refuse_a_failed_unit_def by (rule answers_bind[OF sample_active]) (simp add: io_answers)

lemma sample_start:
  "\<exists>service w'. transition sample_systemd name Job_Start timeout True w = Some (Inr service, w')"
proof -
  obtain x w1 where call: "do_call sample_systemd StartUnit (replace_body name) (opened w) = (Inr x, w1)"
    using sample_calls(1) unfolding answers_def by blast
  obtain w2 where settled: "is_settled sample_systemd name {} w1 = (Inr True, w2)"
    using sample_settled[of name "{}"] unfolding answers_def by (metis (full_types))
  obtain y w3 where ok: "refuse_a_failed_unit sample_systemd name w2 = (Inr y, w3)"
    using sample_not_failed unfolding answers_def by blast
  obtain service w4 where got: "get_one sample_systemd name w3 = (Inr service, w4)"
    using sample_get_one unfolding answers_def by blast
  have "open_bus sample_systemd w = (Inr (), opened w)"
    by (simp add: open_bus_def io_bind_def io_log_def opened_def)
  moreover have "wait_until_settled sample_systemd name {} timeout w1 = Some (Inr (), w2)"
    by (simp add: wait_until_settled_def wait_loop.simps settled)
  ultimately show ?thesis
    using call ok got
    by (simp add: transition_def run_then_def run_io_def run_finally_close)
qed

lemma sample_set_startup:
  "\<exists>service w'. set_startup sample_systemd name Start_Disabled w = (Inr service, w')"
proof -
  have "never_fails (set_startup_body sample_systemd name Start_Disabled)"
    unfolding set_startup_body_def by (simp, intro io_answers)
  then obtain service w2 where "set_startup_body sample_systemd name Start_Disabled (opened w) = (Inr service, w2)"
    unfolding answers_def by blast
  from with_bus_success[where body = "set_startup_body sample_systemd name Start_Disabled", OF this]
  show ?thesis by (simp add: verb_bodies)
qed

end
