(* ===== verification/Systemd_Properties.thy ===== *)
theory Systemd_Properties
  imports Systemd_Sample
begin

text \<open>
  The properties of the systemd task controller, its listings and the service controller. Each property
  with a hypothesis is followed by the witness that applies it on the systemd of the theory before.
\<close>

section \<open>Registering\<close>

definition named_units :: "pystr \<Rightarrow> pystr set" where
  "named_units task_path = (case unit_base task_path of Inl e \<Rightarrow> {} | Inr base \<Rightarrow> unit_names base)"

definition changed_files :: "'m world \<Rightarrow> 'm world \<Rightarrow> pystr set" where
  "changed_files w w' = {name. unit_dir w' name \<noteq> unit_dir w name}"

lemma confined_changed: "confined allowed units w w' \<Longrightarrow> changed_files w w' \<subseteq> units"
  by (auto simp: confined_def changed_files_def)

lemma confined_bus:
  assumes "confined (task_event units) names (opened w) w2"
  shows "confined (verb_event units) names w (closed w2)"
proof -
  from assms obtain es where "\<forall>name. name \<notin> names \<longrightarrow> unit_dir w2 name = unit_dir w name"
    "trace w2 = trace w @ [BusOpened] @ es" "\<forall>e \<in> set es. task_event units e"
    by (auto simp: confined_def)
  then show ?thesis
    by (auto simp: confined_def verb_event_def bus_event_def intro!: exI[of _ "[BusOpened] @ es @ [BusClosed]"])
qed

lemma read_task_events: "confined read_event {} w w' \<Longrightarrow> confined (task_event units) names w w'"
  by (erule confined_weaken) (auto simp: read_task_event)

lemma register_confined:
  "confined (verb_event (named_units task_path))
     {name \<in> named_units task_path. \<forall>n \<in> named_units task_path. ours (unit_dir w n)}
     w (snd (register sd task_path r w))"
proof -
  obtain res w' where run: "register sd task_path r w = (res, w')" by fastforce
  show ?thesis
    using register_run[OF run]
  proof
    assume "\<exists>p w2. plan (pwshpy_version sd) task_path r = Inr p \<and> install sd p (opened w) = (res, w2) \<and>
        w' = closed w2"
    then obtain p w2 where p: "plan (pwshpy_version sd) task_path r = Inr p"
      and i: "install sd p (opened w) = (res, w2)" and w': "w' = closed w2" by blast
    have n: "named_units task_path = unit_names (pl_base p)"
      using plan_base[OF p] by (simp add: named_units_def)
    have "confined (task_event (unit_names (pl_base p)))
        {name \<in> unit_names (pl_base p). \<forall>n \<in> unit_names (pl_base p). ours (unit_dir w n)} (opened w) w2"
      using install_outcome[OF i]
    proof
      assume a: "(\<forall>name \<in> unit_names (pl_base p). ours (unit_dir (opened w) name)) \<and>
        confined (task_event (unit_names (pl_base p))) (unit_names (pl_base p)) (opened w) w2"
      then have "{name \<in> unit_names (pl_base p). \<forall>n \<in> unit_names (pl_base p). ours (unit_dir w n)} =
          unit_names (pl_base p)" by auto
      with a show ?thesis by simp
    qed (simp add: read_task_events)
    from confined_bus[OF this] show ?thesis by (simp add: run w' n)
  qed (use run in \<open>auto simp: confined_refl\<close>)
qed

text \<open>C3: Registering never changes a unit file that is not pwshpy's own: whatever it returns or raises,
  the files that changed are among the two units of the task, both of which were free or carried
  pwshpy's ownership key before, and everything it did is about those two units.\<close>

theorem register_spares_foreign_units:
  "changed_files w (snd (register sd task_path r w)) \<subseteq>
     {name \<in> named_units task_path. named_units task_path \<subseteq> {n. ours (unit_dir w n)}} \<and>
   (\<exists>es. trace (snd (register sd task_path r w)) = trace w @ es \<and>
      set es \<subseteq> {e. verb_event (named_units task_path) e})"
proof
  show "changed_files w (snd (register sd task_path r w)) \<subseteq>
     {name \<in> named_units task_path. named_units task_path \<subseteq> {n. ours (unit_dir w n)}}"
    using confined_changed[OF register_confined[of task_path w sd r]] by blast
  show "\<exists>es. trace (snd (register sd task_path r w)) = trace w @ es \<and>
      set es \<subseteq> {e. verb_event (named_units task_path) e}"
    using register_confined[of task_path w sd r] by (auto simp: confined_def)
qed

text \<open>C8: A registration that is refused has done nothing: a plan refused from the arguments costs
  neither a connection nor a call, and when one of the two units is foreign or unreadable only systemd
  was read before the refusal.\<close>

theorem register_refuses_before_acting:
  "case plan (pwshpy_version sd) task_path r of
     Inl e \<Rightarrow> register sd task_path r w = (Inl e, w)
   | Inr p \<Rightarrow> (\<exists>name \<in> unit_names (pl_base p). \<not> ours (unit_dir w name)) \<longrightarrow>
       (\<exists>e. fst (register sd task_path r w) = Inl e) \<and>
       confined (\<lambda>e. read_event e \<or> bus_event e) {} w (snd (register sd task_path r w))"
proof (cases "plan (pwshpy_version sd) task_path r")
  case (Inl e)
  then show ?thesis by (simp add: register_def io_bind_def)
next
  case p: (Inr p)
  obtain res w' where run: "register sd task_path r w = (res, w')" by fastforce
  have "(\<exists>e. res = Inl e) \<and> confined (\<lambda>e. read_event e \<or> bus_event e) {} w w'"
    if foreign: "\<exists>name \<in> unit_names (pl_base p). \<not> ours (unit_dir w name)"
    using register_run[OF run]
  proof
    assume "\<exists>q w2. plan (pwshpy_version sd) task_path r = Inr q \<and> install sd q (opened w) = (res, w2) \<and>
        w' = closed w2"
    with p obtain w2 where i: "install sd p (opened w) = (res, w2)" and w': "w' = closed w2" by auto
    have e: "\<exists>e. res = Inl e" and c: "confined read_event {} (opened w) w2"
      using install_outcome[OF i] foreign by auto
    from c obtain es where "unit_dir w2 = unit_dir w" "trace w2 = trace w @ [BusOpened] @ es"
      "\<forall>e \<in> set es. read_event e" by (auto simp: confined_def fun_eq_iff)
    with e w' show ?thesis
      by (auto simp: confined_def bus_event_def intro!: exI[of _ "[BusOpened] @ es @ [BusClosed]"])
  qed (auto simp: confined_refl)
  with p run show ?thesis by simp
qed

lemma sample_task_path: "unit_base job = Inr job"
  by (rule sample_base)

definition foreign_files :: directory where
  "foreign_files = (\<lambda>name. if name = service_name job then Some DanglingLink else None)"

theorem register_refuses_before_acting_witness:
  "\<exists>e. fst (register sample_systemd job sample_registration (sample_world foreign_files)) = Inl e"
proof -
  obtain p where p: "plan (u ''1.6.0'') job sample_registration = Inr p" "pl_base p = job"
    using sample_plan by blast
  have "\<not> ours (unit_dir (sample_world foreign_files) (service_name job))"
    by (simp add: sample_world_def foreign_files_def ours_def)
  then show ?thesis
    using register_refuses_before_acting[of sample_systemd job sample_registration "sample_world foreign_files"]
      p unit_names_mem(1)[of job] by auto
qed

text \<open>C4: A registration that returns has done exactly this, in this order, on one connection that it
  closed: a timer file that was there is stopped (and disabled and deleted when the task has no trigger
  now), the service file is written, then the timer file, systemd is reloaded, the timer enabled, systemd
  reloaded again, and the timer started unless it is boot relative. The two unit files then hold the
  planned texts, and no other file has changed.\<close>

theorem register_installs_the_plan:
  assumes "register sd task_path r w = (Inr task, w')"
  shows "\<exists>p es. plan (pwshpy_version sd) task_path r = Inr p \<and>
    unit_dir w' = (unit_dir w)(service_name (pl_base p) \<mapsto> TextFile (pl_service p),
                               timer_name (pl_base p) := map_option TextFile (pl_timer p)) \<and>
    trace w' = trace w @ [BusOpened] @ es @ [BusClosed] \<and>
    acts es = install_actions p (file_exists (unit_dir w (timer_name (pl_base p))))"
  using register_Inr[OF assms] by blast

theorem register_installs_the_plan_witness:
  "\<exists>task w'. register sample_systemd job sample_registration (sample_world (\<lambda>_. None)) = (Inr task, w') \<and>
    (\<exists>p es. plan (pwshpy_version sample_systemd) job sample_registration = Inr p \<and>
      unit_dir w' = (unit_dir (sample_world (\<lambda>_. None)))(service_name (pl_base p) \<mapsto> TextFile (pl_service p),
                               timer_name (pl_base p) := map_option TextFile (pl_timer p)) \<and>
      trace w' = trace (sample_world (\<lambda>_. None)) @ [BusOpened] @ es @ [BusClosed] \<and>
      acts es = install_actions p (file_exists (unit_dir (sample_world (\<lambda>_. None)) (timer_name (pl_base p)))))"
proof -
  from sample_first obtain t w' where
    run: "register sample_systemd job sample_registration (sample_world (\<lambda>_. None)) = (Inr t, w')" by blast
  show ?thesis by (rule exI, rule exI, rule conjI[OF run register_installs_the_plan[OF run]])
qed

text \<open>C5: What was registered is recognised: when neither the description nor the version holds a line
  separator, both unit files carry the ownership key afterwards, so the task can be registered again and
  unregistered (the timer counts as present exactly when the task has a trigger).\<close>

theorem registered_units_are_owned:
  assumes "register sd task_path r w = (Inr task, w')" "unit_base task_path = Inr base"
    "no_breaks (rg_description r)" "no_breaks (pwshpy_version sd)"
  shows "owned_unit_file (service_name base) w' = (Inr True, w') \<and>
    owned_unit_file (timer_name base) w' = (Inr (rg_triggers r \<noteq> []), w')"
  by (rule registered_owned[OF assms])

theorem registered_units_are_owned_witness:
  "\<exists>w'. owned_unit_file (timer_name job) w' = (Inr True, w' :: unit world)"
proof -
  from sample_first obtain t w' where
    run: "register sample_systemd job sample_registration (sample_world (\<lambda>_. None)) = (Inr t, w')" by blast
  from registered_units_are_owned[OF run sample_base] sample_no_breaks show ?thesis
    by (auto simp: sample_registration_def)
qed

section \<open>Unregistering\<close>

lemma unregister_confined:
  "confined (verb_event (named_units task_path))
     {name \<in> named_units task_path. \<forall>n \<in> named_units task_path. ours (unit_dir w n)}
     w (snd (unregister sd task_path w))"
proof -
  obtain res w' where run: "unregister sd task_path w = (res, w')" by fastforce
  show ?thesis
    using unregister_run[OF run]
  proof
    assume "\<exists>base w2. unit_base task_path = Inr base \<and> (\<forall>name \<in> unit_names base. ours (unit_dir w name)) \<and>
       remove_both sd base (unit_dir w (timer_name base) \<noteq> None) (unit_dir w (service_name base) \<noteq> None)
         (opened w) = (res, w2) \<and> w' = closed w2"
    then obtain base w2 where b: "unit_base task_path = Inr base" "\<forall>name \<in> unit_names base. ours (unit_dir w name)"
      and r: "remove_both sd base (unit_dir w (timer_name base) \<noteq> None) (unit_dir w (service_name base) \<noteq> None)
         (opened w) = (res, w2)" and w': "w' = closed w2" by blast
    have n: "named_units task_path = unit_names base"
      "{name \<in> unit_names base. \<forall>n \<in> unit_names base. ours (unit_dir w n)} = unit_names base"
      using b by (auto simp: named_units_def)
    from confined_bus[OF confined.step[OF remove_both_confined r]] show ?thesis by (simp add: run w' n)
  qed (use run in \<open>auto simp: confined_refl\<close>)
qed

text \<open>Unregistering never changes a unit file that is not pwshpy's own, whatever it returns or raises,
  and everything it does is about the two units of the task.\<close>

theorem unregister_spares_foreign_units:
  "changed_files w (snd (unregister sd task_path w)) \<subseteq>
     {name \<in> named_units task_path. named_units task_path \<subseteq> {n. ours (unit_dir w n)}} \<and>
   (\<exists>es. trace (snd (unregister sd task_path w)) = trace w @ es \<and>
      set es \<subseteq> {e. verb_event (named_units task_path) e})"
proof
  show "changed_files w (snd (unregister sd task_path w)) \<subseteq>
     {name \<in> named_units task_path. named_units task_path \<subseteq> {n. ours (unit_dir w n)}}"
    using confined_changed[OF unregister_confined[of task_path w sd]] by blast
  show "\<exists>es. trace (snd (unregister sd task_path w)) = trace w @ es \<and>
      set es \<subseteq> {e. verb_event (named_units task_path) e}"
    using unregister_confined[of task_path w sd] by (auto simp: confined_def)
qed

text \<open>C9: An unregistration that returns found at least one of the two units, both pwshpy's own or free;
  it stopped, disabled and deleted the timer, stopped and deleted the service - each only when its file
  was there - and reloaded systemd, on one connection that it closed. Both files are gone and no other
  file has changed.\<close>

theorem unregister_removes_the_task:
  assumes "unregister sd task_path w = (Inr x, w')"
  shows "\<exists>base es. unit_base task_path = Inr base \<and>
    unit_dir w' = (unit_dir w)(service_name base := None, timer_name base := None) \<and>
    {name \<in> unit_names base. unit_dir w name \<noteq> None} \<noteq> {} \<and> unit_names base \<subseteq> {n. ours (unit_dir w n)} \<and>
    trace w' = trace w @ [BusOpened] @ es @ [BusClosed] \<and>
    acts es = unregister_actions base (unit_dir w (timer_name base) \<noteq> None) (unit_dir w (service_name base) \<noteq> None)"
  by (rule unregister_Inr[OF assms]) auto

definition owned_text :: pystr where
  "owned_text = u ''[Unit]'' @ [newline] @ ownership_key @ u ''=1''"

lemma owned_text: "is_pwshpy_unit owned_text"
proof -
  have "splitlines owned_text = [u ''[Unit]'', ownership_key @ u ''=1'']"
    by (simp add: owned_text_def u_def ownership_key_def is_line_break_def)
  moreover have "owned_lines [] [u ''[Unit]'', ownership_key @ u ''=1'']"
    by (simp add: u_def ownership_key_def strip_def lstrip_def rstrip_def py_isspace_def suffix_to_prefix)
  ultimately show ?thesis by (simp add: is_pwshpy_unit_def)
qed

definition owned_files :: directory where
  "owned_files = (\<lambda>name. if name = service_name job then Some (TextFile owned_text) else None)"

theorem unregister_removes_the_task_witness:
  "\<exists>w'. unregister sample_systemd job (sample_world owned_files) = (Inr (), w') \<and>
     unit_dir w' (service_name job) = None"
proof -
  obtain w' where run: "unregister sample_systemd job (sample_world owned_files) = (Inr (), w')"
    using sample_unregister[of "sample_world owned_files"] owned_text
    by (auto simp: sample_world_def owned_files_def ours_def)
  from unregister_removes_the_task[OF run] run sample_base show ?thesis by auto
qed

section \<open>Every verb and listing\<close>

text \<open>Running, stopping, enabling and disabling a task change no unit file, and all they do besides
  reading is calls on the two units of that task, reloads and the connection itself.\<close>

theorem verbs_touch_no_file:
  "confined (verb_event (verb_units task_path)) {} w (snd (run_task sd task_path w)) \<and>
   confined (verb_event (verb_units task_path)) {} w (snd (stop_task sd task_path w)) \<and>
   confined (verb_event (verb_units task_path)) {} w (snd (enable_task sd task_path w)) \<and>
   confined (verb_event (verb_units task_path)) {} w (snd (disable_task sd task_path w))"
  using task_verbs_confined[of task_path sd] by (simp add: keeps_def)

text \<open>Every verb of both controllers and both listings open the connection at most once and close what
  they opened, however they end - a refusal or a broken connection in the middle included.\<close>

theorem connection_closed:
  "one_bus w (snd (register sd task_path r w)) \<and> one_bus w (snd (unregister sd task_path w)) \<and>
   one_bus w (snd (run_task sd task_path w)) \<and> one_bus w (snd (stop_task sd task_path w)) \<and>
   one_bus w (snd (enable_task sd task_path w)) \<and> one_bus w (snd (disable_task sd task_path w)) \<and>
   one_bus w (snd (set_startup sd name start w)) \<and>
   one_bus w (snd (iter_timers sd strict task_name w)) \<and> one_bus w (snd (iter_services sd strict w))"
  by (intro conjI register_one_bus unregister_one_bus task_verbs_one_bus iter_timers_one_bus iter_services_one_bus)

text \<open>Enabling a task that has a timer enables it, reloads systemd and starts the timer exactly when
  its trigger bases could be read and none of them counts from boot; no file changes.\<close>

theorem enable_starts_unless_boot_relative:
  assumes "enable_task sd task_path w = (Inr task, w')"
  shows "\<exists>base w1 bases w2 es. existing_unit_base task_path = Inr base \<and>
    monotonic_bases sd (timer_name base) w1 = (Inr bases, w2) \<and> unit_dir w' = unit_dir w \<and>
    trace w' = trace w @ [BusOpened] @ es @ [BusClosed] \<and>
    acts es = enable_actions (timer_name base) (case bases of None \<Rightarrow> False | Some bs \<Rightarrow> {On_Boot, On_Startup} \<inter> set bs = {})"
  using enable_run[OF assms] by (auto simp: starts_timer_def starts_when_armed_def boot_relative_def cong: option.case_cong)

theorem enable_starts_unless_boot_relative_witness:
  "\<exists>task w'. enable_task sample_systemd job (sample_world owned_files) = (Inr task, w') \<and>
     unit_dir w' = unit_dir (sample_world owned_files)"
proof -
  from sample_enable[of "sample_world owned_files"] obtain task w' where
    run: "enable_task sample_systemd job (sample_world owned_files) = (Inr task, w')" by blast
  from enable_starts_unless_boot_relative[OF run] run show ?thesis by blast
qed

text \<open>Disabling a task stops its timer before it disables it and reloads systemd afterwards; no file
  changes, so the task can be enabled again.\<close>

theorem disable_stops_then_disables:
  assumes "disable_task sd task_path w = (Inr task, w')"
  shows "\<exists>base es. existing_unit_base task_path = Inr base \<and> unit_dir w' = unit_dir w \<and>
    trace w' = trace w @ [BusOpened] @ es @ [BusClosed] \<and> acts es = disable_actions (timer_name base)"
  by (rule disable_run[OF assms])

theorem disable_stops_then_disables_witness:
  "\<exists>task w' es. disable_task sample_systemd job (sample_world owned_files) = (Inr task, w') \<and>
     acts es = disable_actions (timer_name job)"
proof -
  from sample_disable[of "sample_world owned_files"] obtain task w' where
    run: "disable_task sample_systemd job (sample_world owned_files) = (Inr task, w')" by blast
  from disable_stops_then_disables[OF run] run registered_name_reached[OF sample_base] show ?thesis by auto
qed

text \<open>C31: A read systemd refused for lack of rights is never taken for an answer: in the snapshot of a task
  or of a service, in the check of who owns a unit and in the check for a timer, a refused call ends in
  the refusal itself (a \<open>NativeAccessDeniedError\<close> with its D-Bus name), whatever the default of the read.\<close>

theorem refused_read_is_no_answer:
  "honest (info sd base) \<and> honest (get_one sd name) \<and> honest (require_free_or_owned sd name) \<and>
   honest (require_timer sd base) \<and> honest (monotonic_bases sd timer) \<and> honest (is_settled sd name settled_states)"
  by (intro conjI info_honest get_one_honest require_free_or_owned_honest require_timer_honest verb_reads_honest)

text \<open>Listing the tasks, one named task, or the services only reads and warns: no unit file changes,
  nothing is started, stopped, enabled or reloaded.\<close>

theorem listings_change_nothing:
  "confined (\<lambda>e. listing_event e \<or> bus_event e) {} w (snd (iter_timers sd strict task_name w)) \<and>
   confined (\<lambda>e. listing_event e \<or> bus_event e) {} w (snd (iter_services sd strict w))"
  by (intro conjI iter_timers_confined iter_services_confined)

text \<open>The strict and the lenient listing differ only in what is said about what could not be read: a
  strict listing that raises nothing yields exactly what the lenient one yields, and a lenient listing
  that logs no warning is the strict one - no record is left out silently.\<close>

theorem strict_and_lenient_listings:
  "gen_agrees (iter_timers sd True task_name) (iter_timers sd False task_name) \<and>
   loud (iter_timers sd True task_name) (iter_timers sd False task_name) \<and>
   gen_agrees (iter_services sd True) (iter_services sd False) \<and>
   loud (iter_services sd True) (iter_services sd False)"
  by (intro conjI iter_timers_agrees iter_timers_loud iter_services_agrees iter_services_loud)

section \<open>Services\<close>

text \<open>C30: A start, stop or restart returns - with the service, or an error - when sleeping takes at least the
  time asked for and no call turns the monotonic clock back: the polling loop ends at its deadline.\<close>

theorem transition_terminates:
  assumes "clock_runs sd"
  shows "\<exists>result. transition sd name which timeout wait w = Some result"
  using transition_returns[OF assms, of name which timeout wait] by (auto simp: returns_def)

definition ticking_systemd :: "int system" where
  "ticking_systemd = \<lparr>connect = (\<lambda>_. Connected), respond = (\<lambda>d msg m. (BodyReply [DStruct [DInt 1]], m + 1)),
     write_fault = (\<lambda>_ _ _. None), unlink_fault = (\<lambda>_ _. None), read_elsewhere = (\<lambda>_ _. None),
     passwd_uid = (\<lambda>_. None), show_value = (\<lambda>_. []), monotonic = id, sleep_for = (\<lambda>t m. m + t),
     pwshpy_version = u ''1.6.0''\<rparr>"

theorem transition_terminates_witness:
  "\<exists>result. transition ticking_systemd job Job_Stop 30000000 True
     \<lparr>unit_dir = (\<lambda>_. None), outside = 0, trace = []\<rparr> = Some result"
  by (rule transition_terminates) (simp add: clock_runs_def ticking_systemd_def)

text \<open>C10: A waited transition that returns a service sent its job first, then polled, sleeping between the polls; each
  poll that found the unit not settled came before the deadline, and the last one found no pending job or, for a
  stop, a unit that is inactive or failed, its job perhaps still pending. A start or restart then read a state
  other than failed. The service is what a further read of the unit gave, so its state may have changed since,
  and the connection is closed.\<close>

theorem transition_returns_settled:
  assumes "transition sd name which timeout True w = Some (Inr service, w')"
  shows "\<exists>v w0 w1 w2 w3 w4. open_bus sd w = (Inr (), v) \<and> do_call sd (job_method which) (replace_body name) v = (Inr (), w0) \<and>
    polled sd name (if which = Job_Stop then stopped_states else {}) (monotonic sd (outside w0) + timeout) w0 w1 \<and>
    is_settled sd name (if which = Job_Stop then stopped_states else {}) w1 = (Inr True, w2) \<and>
    (if which = Job_Stop then w3 = w2
     else \<exists>active. active_state sd name w2 = (Inr active, w3) \<and> active \<noteq> Active_Failed) \<and>
    get_one sd name w3 = (Inr service, w4) \<and> w' = closed w4"
  by (rule transition_settled[OF assms])

theorem transition_returns_settled_witness:
  "\<exists>service w' v w0 w1 w2. transition sample_systemd job Job_Start 30000000 True (sample_world owned_files) =
      Some (Inr service, w') \<and> open_bus sample_systemd (sample_world owned_files) = (Inr (), v) \<and>
      is_settled sample_systemd job {} w1 = (Inr True, w2)"
proof -
  obtain service w' where run: "transition sample_systemd job Job_Start 30000000 True (sample_world owned_files) =
      Some (Inr service, w')" using sample_start by blast
  from transition_returns_settled[OF run] run show ?thesis by auto
qed

text \<open>Changing how a service starts enables or disables its unit file, reloads systemd and returns the
  service read afterwards; any start type systemd has no twin for is refused, and no file pwshpy keeps
  changes.\<close>

theorem set_startup_acts:
  assumes "set_startup sd name start w = (Inr service, w')"
  shows "\<exists>es w1 w2. start \<in> {Start_Automatic, Start_Disabled} \<and> unit_dir w' = unit_dir w \<and>
    trace w' = trace w @ [BusOpened] @ es @ [BusClosed] \<and>
    acts es = [if start = Start_Automatic then sent EnableUnitFiles (enable_body name)
               else sent DisableUnitFiles (disable_body name), sent Reload []] \<and>
    get_one sd name w1 = (Inr service, w2) \<and> w' = closed w2"
  by (rule set_startup_run[OF assms])

theorem set_startup_acts_witness:
  "\<exists>service w' es. set_startup sample_systemd job Start_Disabled (sample_world owned_files) = (Inr service, w') \<and>
     acts es = [sent DisableUnitFiles (disable_body job), sent Reload []]"
proof -
  obtain service w' where run: "set_startup sample_systemd job Start_Disabled (sample_world owned_files) =
      (Inr service, w')" using sample_set_startup by blast
  from set_startup_acts[OF run] run show ?thesis by auto
qed

end
