(* ===== verification/Domain_Properties.thy ===== *)
theory Domain_Properties
  imports Surrogates Pipeline Systemd_Properties
begin

text \<open>
  The properties of the small domain modules (\<open>surrogates.py\<close>, \<open>pipeline.py\<close>, \<open>scheduling.py\<close>) and of the
  pure part of \<open>systemd_timers.py\<close>: names, values and the text of unit files. The last section holds
  the behaviours of the code that contradict what it means to do.
\<close>

section \<open>Undecodable names\<close>

text \<open>The repaired names of a record's keys: exactly the undecodable keys are renamed, no two to the same
  name, none to a name another key has, and no new name holds a surrogate; so renaming loses no key.\<close>

theorem repaired_names_are_new:
  assumes "distinct (keys :: 'o py_key list)"
  shows "dom (repaired_key_names keys) = {s. TextKey s \<in> set keys \<and> has_surrogate (TextKey s :: 'o py_key)} \<and>
    inj_on (repaired_key_names keys) (dom (repaired_key_names keys)) \<and>
    ran (repaired_key_names keys) \<inter> {s. TextKey s \<in> set keys} = {} \<and>
    ran (repaired_key_names keys) \<subseteq> {s. \<forall>c \<in> set s. \<not> is_surrogate c}"
proof -
  let ?f = "repaired_key_names keys"
  have d: "dom ?f = {s. TextKey s \<in> set keys \<and> has_surrogate (TextKey s :: 'o py_key)}"
    by (simp add: repaired_key_names_def rename_keys_dom)
  have new: "\<exists>name. ?f s = Some name \<and> name \<notin> set (valid_names keys) \<and> (\<forall>c \<in> set name. \<not> is_surrogate c)"
    if "s \<in> dom ?f" for s
  proof -
    have "TextKey s \<in> set keys" "has_surrogate (TextKey s :: 'o py_key)" using that d by blast+
    from rename_keys_new[OF assms this, of "valid_names keys" Map.empty] show ?thesis
      by (simp add: repaired_key_names_def)
  qed
  have "inj_on ?f (dom ?f)"
  proof (rule inj_onI)
    fix x y assume "x \<in> dom ?f" "y \<in> dom ?f" and eq: "?f x = ?f y"
    then have "TextKey x \<in> set keys" "has_surrogate (TextKey x :: 'o py_key)"
      "TextKey y \<in> set keys" "has_surrogate (TextKey y :: 'o py_key)" using d by blast+
    from rename_keys_inject[OF assms this(1,3,2,4)] eq show "x = y" by (simp add: repaired_key_names_def)
  qed
  moreover have "\<forall>name \<in> ran ?f. name \<notin> set (valid_names keys) \<and> (\<forall>c \<in> set name. \<not> is_surrogate c)"
  proof
    fix name assume "name \<in> ran ?f"
    then obtain s where "?f s = Some name" by (auto simp: ran_def)
    with new[of s] show "name \<notin> set (valid_names keys) \<and> (\<forall>c \<in> set name. \<not> is_surrogate c)" by auto
  qed
  ultimately show ?thesis
    using d by (auto simp: valid_names_set has_surrogate_text)
qed

theorem repaired_names_are_new_witness:
  "dom (repaired_key_names [TextKey [0xD800], TextKey [0xFFFD], OtherKey ()]) = {[0xD800]}"
proof -
  have "dom (repaired_key_names [TextKey [0xD800], TextKey [0xFFFD], OtherKey ()]) =
      {s. TextKey s \<in> set [TextKey [0xD800], TextKey [0xFFFD], OtherKey ()] \<and> has_surrogate (TextKey s :: unit py_key)}"
    by (rule repaired_names_are_new[THEN conjunct1]) simp
  then show ?thesis by (auto simp: has_surrogate_text is_surrogate_def)
qed

section \<open>Pipelines\<close>

text \<open>C32: Taking \<open>count\<close> records of a pipeline and listing them ends as soon as the source, which need not end, gave
  enough for them, and gives the first of what the operators make of it - filtered, mapped, cut, in order, none for
  a negative count; when the source ends first, all there are. No record is read beyond the one that gave the
  last; a \<open>where\<close> before it may have read more records than were taken.\<close>

theorem pipeline_delivers:
  assumes "source_of p = followed_by xs rest" "nat count \<le> length (yields p xs) \<or> rest = Ended"
  shows "\<exists>q. to_list (take_records count p) = Some (take (nat count) (yields p xs), q) \<and>
    (nat count \<le> length (yields p xs) \<longrightarrow> (\<exists>k \<le> length xs. source_of q = followed_by (drop k xs) rest \<and>
       nat count \<le> length (yields p (take k xs)) \<and> (k > 0 \<longrightarrow> length (yields p (take (k - 1) xs)) < nat count)))"
proof -
  have "take_records count p = Islice (nat count) p" by (cases "count < 0") (simp_all add: take_records_def)
  with drain_cut[OF assms] show ?thesis by (auto simp: to_list_def read_for_def)
qed

text \<open>Three even numbers of \<open>itertools.count()\<close>: five of its numbers are read.\<close>

theorem pipeline_delivers_witness:
  "\<exists>q. to_list (take_records 3 (Where even (Source (count_from 0)))) = Some ([0, 2, 4], q) \<and> source_of q = count_from 5"
proof -
  let ?p = "Where even (Source (count_from 0))"
  have source: "source_of ?p = followed_by [0, 1, 2, 3, 4] (count_from 5)"
    using count_from_unfold[of 0 5] by (simp add: upt_rec eval_nat_numeral)
  have evens: "yields ?p [0, 1, 2, 3, 4] = [0, 2, 4]" by simp
  have "nat 3 \<le> length (yields ?p [0, 1, 2, 3, 4]) \<or> count_from 5 = Ended" unfolding evens by simp
  from pipeline_delivers[OF source this] obtain q k where q: "to_list (take_records 3 ?p) = Some ([0, 2, 4], q)" and
    k: "k \<le> 5" "source_of q = followed_by (drop k [0, 1, 2, 3, 4]) (count_from 5)" "3 \<le> length (yields ?p (take k [0, 1, 2, 3, 4]))"
    unfolding evens by (auto simp: eval_nat_numeral)
  from k(1) have "k = 0 \<or> k = 1 \<or> k = 2 \<or> k = 3 \<or> k = 4 \<or> k = 5" by linarith
  then have "k = 5" using k(3) by (elim disjE) simp_all
  with k(2) q show ?thesis by auto
qed

text \<open>\<open>first\<close> returns the first record the predicate accepts, as soon as the source gave it, or the fallback when the
  source ends without one.\<close>

theorem first_finds:
  assumes "source_of p = followed_by xs rest"
    "(\<exists>x \<in> set (yields p xs). case predicate of None \<Rightarrow> True | Some P \<Rightarrow> P x) \<or> rest = Ended"
  shows "\<exists>q. first predicate fallback p = Some (case find (\<lambda>x. case predicate of None \<Rightarrow> True | Some P \<Rightarrow> P x) (yields p xs) of
       None \<Rightarrow> fallback | Some x \<Rightarrow> x, q)"
  unfolding first_def by (rule first_loop_yields[OF assms])

text \<open>Sorting an ended source gives every record, in key order, equal keys in their old order, also when reversed.\<close>

theorem sort_by_sorts:
  assumes "source_of p = followed_by xs Ended"
  shows "\<exists>ys. sort_by key reverse p = Some (Source (followed_by ys Ended)) \<and> set ys = set (yields p xs) \<and>
    sorted_wrt (\<lambda>x y. if reverse then key y \<le> key x else key x \<le> key y) ys \<and>
    filter (\<lambda>x. key x = k) ys = filter (\<lambda>x. key x = k) (yields p xs)"
proof -
  obtain q where "drain p = Some (yields p xs, q)" using drain_finite[OF assms] by blast
  then show ?thesis using py_sorted_sorted[of reverse key "yields p xs"] py_sorted_stable[of key k reverse "yields p xs"]
    by (intro exI[of _ "py_sorted key reverse (yields p xs)"]) (simp add: sort_by_def to_list_def)
qed

section \<open>Identities and settings\<close>

text \<open>The identities a task accepts: a uid is accepted exactly in its one decimal spelling below \<open>2 ^ 32\<close>,
  no text is both a uid and a SID, and what is stored is what was given.\<close>

theorem identities_are_canonical:
  "(is_uid s \<longleftrightarrow> (\<exists>n \<le> uid_max. s = decimal n)) \<and> \<not> (is_sid s \<and> is_uid s) \<and>
   (identity (TextInput s) = Inr v \<longleftrightarrow> (is_sid s \<or> is_uid s) \<and> v = Some s) \<and>
   (identity (SidMember m) = Inr (Some (sid_value m)))"
  using is_uid_decimal sid_not_uid by (auto simp: identity_accepts)

text \<open>An execution time limit is accepted exactly when it is a whole number of seconds from none to
  \<open>2 ^ 31 - 1\<close>, and is stored unchanged.\<close>

theorem time_limit_bounds:
  "(\<exists>s. 0 \<le> s \<and> s \<le> 2147483647 \<and> v = s * second) \<longleftrightarrow> check_time_limit (Some v) = Inr (Some v)"
  by (simp only: check_time_limit_ok)

text \<open>The user a task runs as on Linux: root for no principal and for the system account, else exactly the
  given decimal uid; a logon type, a SID other than the system's and a raised run level for anyone but
  root are refused.\<close>

theorem linux_user_of_principal:
  "linux_user p = Inr r \<longleftrightarrow> principal_logon_type p = None \<and>
     (if user_id p = None \<or> user_id p = Some (sid_value LOCAL_SYSTEM) then r = None
      else \<exists>uid. user_id p = Some uid \<and> is_uid uid \<and> r = Some uid \<and>
             \<not> (principal_run_level p = HIGHEST \<and> uid \<noteq> u ''0''))"
  by (auto simp: linux_user_Inr)

section \<open>Unit files\<close>

text \<open>The service file has exactly the lines it means to have - none is split or added by what the caller
  passes - and systemd's reading of the values gives them back: the program word, unquoted and
  unescaped, is the program, and arguments and description are themselves after halving each doubled
  percent sign.\<close>

theorem service_file_lines:
  assumes "service_unit version program arguments description user settings = Inr t"
    "newline \<notin> set version" "\<forall>uid. user = Some uid \<longrightarrow> newline \<notin> set uid"
  shows "\<exists>word args desc. split_on newline t = service_lines version word args desc user settings @ [[]] \<and>
    read_exec_word word = Some program \<and> undouble args = arguments \<and> undouble desc = description"
  by (rule service_unit_split[OF assms])

theorem service_file_lines_witness:
  "\<exists>t. service_unit (u ''1.6.0'') (u ''/bin/true'') [] (u ''job'') None None = Inr t \<and>
    (\<exists>word args desc. split_on newline t = service_lines (u ''1.6.0'') word args desc None None @ [[]])"
proof -
  obtain t where t: "service_unit (u ''1.6.0'') (u ''/bin/true'') [] (u ''job'') None None = Inr t"
    using sample_texts(1) by blast
  have "newline \<notin> set (u ''1.6.0'')" by (simp add: u_def)
  from service_file_lines[OF t this] t show ?thesis by blast
qed

text \<open>A name the guard lets through has no folder for the splitter to drop, and every name that can be
  registered is reached by run, stop, enable and disable under the same unit.\<close>

theorem names_are_reached:
  "(check_task_name name = Inr () \<longrightarrow> base_name name = without_suffix (strip name)) \<and>
   (unit_base task_path = Inr base \<longrightarrow> existing_unit_base task_path = Inr base \<and>
      base \<noteq> [] \<and> length base \<le> 247 \<and> (\<forall>c \<in> set base. unit_name_char c))"
  using checked_name_kept registered_name_reached by (auto simp: unit_base_Inr)

theorem names_are_reached_witness:
  "existing_unit_base job = Inr job"
  using names_are_reached[of job job job] sample_base by blast

section \<open>Where the code misses its aim\<close>

text \<open>A description with a Unicode line separator passes every check, and the service file pwshpy writes for
  it is not recognised as pwshpy's own: the ownership reader splits at the separator, takes what
  follows it for a section header and leaves the \<open>[Unit]\<close> section, so the task can no longer be
  registered again or unregistered.\<close>

theorem separator_description_is_disowned:
  "\<exists>t. service_unit (u ''1.6.0'') (u ''/bin/true'') [] separator_description None None = Inr t \<and>
     \<not> ours (Some (TextFile t))"
  using separator_description_not_owned by (auto simp: ours_def)

text \<open>Writing a unit whose text holds a lone surrogate raises a \<open>ValueError\<close> - no error of pwshpy - and
  leaves an empty file behind, which pwshpy does not recognise as its own afterwards.\<close>

theorem surrogate_leaves_an_empty_unit:
  assumes "write_fault sd name text (outside w) = None" "\<exists>c \<in> set text. is_surrogate c"
  shows "fst (write_unit sd name text w) = raise_error ValueError ''surrogates not allowed'' \<and>
    unit_dir (snd (write_unit sd name text w)) name = Some (TextFile []) \<and>
    \<not> ours (unit_dir (snd (write_unit sd name text w)) name)"
proof -
  have "\<not> is_pwshpy_unit []" by (simp add: is_pwshpy_unit_def)
  with assms show ?thesis by (simp add: write_unit_def set_file_def ours_def)
qed

theorem surrogate_leaves_an_empty_unit_witness:
  "unit_dir (snd (write_unit sample_systemd job [0xD800] (sample_world (\<lambda>_. None)))) job = Some (TextFile [])"
  using surrogate_leaves_an_empty_unit[of sample_systemd job "[0xD800]" "sample_world (\<lambda>_. None)"]
  by (simp add: is_surrogate_def)

end
