(* ===== verification/Posix_Acl.thy ===== *)
theory Posix_Acl
  imports Native_Errors Enums Py_Digits "HOL-Library.Product_Lexorder" "HOL-Library.Multiset"
begin

text \<open>
  \<open>adapters/native/posix_acl.py\<close>: the kernel's binary ACL attribute, read and written through fixed-width
  little-endian fields. The system calls and the account database are fields of a \<open>posix_os\<close> record over
  a state \<open>'m\<close> of their own. The fields of an entry are words of their width; the uid or gid an entry
  names is a Python int, which only packing cuts to 32 bits. The locale \<open>fixed_codec\<close> is the contract of
  a \<open>struct\<close> format; its interpretations are the two integer formats and the entry.
\<close>

section \<open>Fixed-width fields\<close>

type_synonym byte = "8 word"

locale fixed_codec =
  fixes pack :: "'a \<Rightarrow> byte list" and unpack :: "byte list \<Rightarrow> 'a" and width :: nat
  assumes pack_width [simp]: "length (pack x) = width"
    and unpack_pack [simp]: "unpack (pack x) = x"
begin

lemma take_pack [simp]: "take width (pack x @ rest) = pack x"
  by simp

lemma drop_pack [simp]: "drop width (pack x @ rest) = rest"
  by simp

lemma length_packed: "length (concat (map pack xs)) = width * length xs"
  by (induction xs) auto

lemma unpack_at: "length before = offset \<Longrightarrow> unpack (take width (drop offset (before @ pack x @ rest))) = x"
  by simp

end

definition pack_u16 :: "16 word \<Rightarrow> byte list" where
  "pack_u16 w = [ucast w, ucast (drop_bit 8 w)]"

definition unpack_u16 :: "byte list \<Rightarrow> 16 word" where
  "unpack_u16 bs = ucast (bs ! 0) OR push_bit 8 (ucast (bs ! 1))"

definition pack_u32 :: "32 word \<Rightarrow> byte list" where
  "pack_u32 w = [ucast w, ucast (drop_bit 8 w), ucast (drop_bit 16 w), ucast (drop_bit 24 w)]"

definition unpack_u32 :: "byte list \<Rightarrow> 32 word" where
  "unpack_u32 bs = ucast (bs ! 0) OR push_bit 8 (ucast (bs ! 1)) OR push_bit 16 (ucast (bs ! 2))
     OR push_bit 24 (ucast (bs ! 3))"

interpretation u16: fixed_codec pack_u16 unpack_u16 2
proof
  show "unpack_u16 (pack_u16 x) = x" for x
    by (rule bit_word_eqI) (auto simp: unpack_u16_def pack_u16_def bit_simps)
qed (simp add: pack_u16_def)

interpretation u32: fixed_codec pack_u32 unpack_u32 4
proof
  show "unpack_u32 (pack_u32 x) = x" for x
  proof (rule bit_word_eqI)
    fix n assume "n < LENGTH(32)"
    then show "bit (unpack_u32 (pack_u32 x)) n = bit x n"
      by (cases "n < 16"; cases "n < 24") (auto simp: unpack_u32_def pack_u32_def bit_simps)
  qed
qed (simp add: pack_u32_def)

text \<open>The entry format \<open>"<HHI"\<close>: tag, permissions, id.\<close>

type_synonym raw_entry = "16 word \<times> 16 word \<times> 32 word"

fun pack_raw :: "raw_entry \<Rightarrow> byte list" where
  "pack_raw (tag, perm, eid) = pack_u16 tag @ pack_u16 perm @ pack_u32 eid"

definition unpack_raw :: "byte list \<Rightarrow> raw_entry" where
  "unpack_raw bs = (unpack_u16 (take 2 bs), unpack_u16 (take 2 (drop 2 bs)), unpack_u32 (drop 4 bs))"

interpretation raw: fixed_codec pack_raw unpack_raw 8
proof
  fix x :: raw_entry
  show "length (pack_raw x) = 8" by (cases x) simp
  obtain t p e where x: "x = (t, p, e)" by (cases x)
  have "drop 4 (pack_u16 t @ pack_u16 p @ pack_u32 e) = drop 2 (drop 2 (pack_u16 t @ pack_u16 p @ pack_u32 e))" by simp
  also have "\<dots> = pack_u32 e" by (simp only: u16.drop_pack)
  finally show "unpack_raw (pack_raw x) = x"
    by (simp only: x unpack_raw_def pack_raw.simps u16.take_pack u16.drop_pack u16.unpack_pack u32.unpack_pack)
qed

section \<open>Entries\<close>

datatype acl_tag =
    Tag_User_Obj | Tag_User | Tag_Group_Obj | Tag_Group | Tag_Mask | Tag_Other | Tag_Unknown "16 word"

definition acl_tag_of :: "16 word \<Rightarrow> acl_tag" where
  "acl_tag_of v =
     (if v = 0x01 then Tag_User_Obj else if v = 0x02 then Tag_User else if v = 0x04 then Tag_Group_Obj
      else if v = 0x08 then Tag_Group else if v = 0x10 then Tag_Mask else if v = 0x20 then Tag_Other
      else Tag_Unknown v)"

fun acl_tag_value :: "acl_tag \<Rightarrow> 16 word" where
  "acl_tag_value Tag_User_Obj = 0x01"
| "acl_tag_value Tag_User = 0x02"
| "acl_tag_value Tag_Group_Obj = 0x04"
| "acl_tag_value Tag_Group = 0x08"
| "acl_tag_value Tag_Mask = 0x10"
| "acl_tag_value Tag_Other = 0x20"
| "acl_tag_value (Tag_Unknown v) = v"

text \<open>\<open>_ORDER\<close>: the lookup of an unknown tag is a \<open>KeyError\<close> (here \<open>None\<close>).\<close>

fun acl_order :: "acl_tag \<Rightarrow> nat option" where
  "acl_order Tag_User_Obj = Some 0"
| "acl_order Tag_User = Some 1"
| "acl_order Tag_Group_Obj = Some 2"
| "acl_order Tag_Group = Some 3"
| "acl_order Tag_Mask = Some 4"
| "acl_order Tag_Other = Some 5"
| "acl_order (Tag_Unknown v) = None"

fun acl_kind_of :: "acl_tag \<Rightarrow> acl_kind option" where
  "acl_kind_of Tag_User_Obj = Some Kind_Owner"
| "acl_kind_of Tag_User = Some Kind_User"
| "acl_kind_of Tag_Group_Obj = Some Kind_Owning_Group"
| "acl_kind_of Tag_Group = Some Kind_Group"
| "acl_kind_of Tag_Mask = Some Kind_Mask"
| "acl_kind_of Tag_Other = Some Kind_Other"
| "acl_kind_of (Tag_Unknown v) = None"

record xattr_entry =
  entry_tag :: acl_tag
  entry_perm :: "16 word"
  entry_id :: int

definition undefined_id :: int where "undefined_id = 0xFFFFFFFF"

definition entry_of_raw :: "raw_entry \<Rightarrow> xattr_entry" where
  "entry_of_raw r = (case r of (tag, perm, eid) \<Rightarrow>
     \<lparr>entry_tag = acl_tag_of tag, entry_perm = perm, entry_id = uint eid\<rparr>)"

text \<open>\<open>_ENTRY.pack(e.tag, e.perm, e.entry_id & 0xFFFFFFFF)\<close>.\<close>

definition raw_of_entry :: "xattr_entry \<Rightarrow> raw_entry" where
  "raw_of_entry e = (acl_tag_value (entry_tag e), entry_perm e, word_of_int (entry_id e AND 0xFFFFFFFF))"

definition perm_to_rwx :: "16 word \<Rightarrow> pystr" where
  "perm_to_rwx perm =
     (if perm AND 4 \<noteq> 0 then u ''r'' else u ''-'') @ (if perm AND 2 \<noteq> 0 then u ''w'' else u ''-'')
     @ (if perm AND 1 \<noteq> 0 then u ''x'' else u ''-'')"

definition base_entries :: "int \<Rightarrow> xattr_entry list" where
  "base_entries mode =
     [\<lparr>entry_tag = Tag_User_Obj, entry_perm = word_of_int (drop_bit 6 mode AND 7), entry_id = undefined_id\<rparr>,
      \<lparr>entry_tag = Tag_Group_Obj, entry_perm = word_of_int (drop_bit 3 mode AND 7), entry_id = undefined_id\<rparr>,
      \<lparr>entry_tag = Tag_Other, entry_perm = word_of_int (mode AND 7), entry_id = undefined_id\<rparr>]"

section \<open>The operating system\<close>

record file_stat =
  st_mode :: int
  st_uid :: int
  st_gid :: int

record 'm posix_os =
  getxattr :: "pystr \<Rightarrow> 'm \<Rightarrow> os_fault + byte list"
  setxattr :: "pystr \<Rightarrow> byte list \<Rightarrow> 'm \<Rightarrow> os_fault option \<times> 'm"
  stat_path :: "pystr \<Rightarrow> 'm \<Rightarrow> os_fault + file_stat"
  chown_path :: "pystr \<Rightarrow> int \<Rightarrow> 'm \<Rightarrow> os_fault option \<times> 'm"
  getpwuid :: "int \<Rightarrow> os_fault + pystr"
  getgrgid :: "int \<Rightarrow> os_fault + pystr"
  getpwnam :: "pystr \<Rightarrow> os_fault + int"
  getgrnam :: "pystr \<Rightarrow> os_fault + int"

definition no_extended_acl :: "int set" where "no_extended_acl = {61, 95}"

section \<open>Reading\<close>

function parse_entries :: "byte list \<Rightarrow> nat \<Rightarrow> xattr_entry list res" where
  "parse_entries blob offset =
     (if offset < length blob
      then if length blob < offset + 8 then raise_error StructError ''unpack_from''
           else and_then (parse_entries blob (offset + 8))
                  (\<lambda>es. Inr (entry_of_raw (unpack_raw (take 8 (drop offset blob))) # es))
      else Inr [])"
  by pat_completeness auto
termination by (relation "measure (\<lambda>(blob, offset). length blob - offset)") auto

declare parse_entries.simps [simp del]

definition header_size :: nat where "header_size = 4"

definition read_raw :: "'m posix_os \<Rightarrow> pystr \<Rightarrow> 'm \<Rightarrow> xattr_entry list option res" where
  "read_raw os path m = (case getxattr os path m of
      Inl (Os_Errno n) \<Rightarrow> if n \<in> no_extended_acl then Inr None else Inl (posix_error ''cannot read the ACL'' n)
    | Inl (Os_Raises c) \<Rightarrow> raise_error c ''getxattr''
    | Inr blob \<Rightarrow> and_then (parse_entries blob header_size) (\<lambda>es. Inr (Some es)))"

definition current_acl :: "'m posix_os \<Rightarrow> pystr \<Rightarrow> 'm \<Rightarrow> xattr_entry list res" where
  "current_acl os path m = and_then (read_raw os path m) (\<lambda>entries. case entries of
      Some es \<Rightarrow> Inr es
    | None \<Rightarrow> (case stat_path os path m of
        Inl f \<Rightarrow> Inl (except_os ''cannot stat'' f)
      | Inr info \<Rightarrow> Inr (base_entries (st_mode info))))"

record acl_record =
  acl_path :: pystr
  owner_sid :: pystr
  trustee_sid :: pystr
  acl_rights :: "16 word"
  trustee_name :: pystr
  acl_kind :: acl_kind
  acl_permissions :: pystr

definition name_or_empty :: "os_fault + pystr \<Rightarrow> pystr res" where
  "name_or_empty r = (case r of
      Inr name \<Rightarrow> Inr name
    | Inl (Os_Raises c) \<Rightarrow> if c = KeyError then Inr [] else raise_error c ''account''
    | Inl (Os_Errno n) \<Rightarrow> Inr [])"

definition id_text :: "int \<Rightarrow> pystr" where
  "id_text i = (if i < 0 then ch CHR ''-'' # decimal (nat (- i)) else decimal (nat i))"

definition to_entry :: "'m posix_os \<Rightarrow> pystr \<Rightarrow> file_stat \<Rightarrow> xattr_entry \<Rightarrow> acl_record res" where
  "to_entry os path info e =
     and_then (case entry_tag e of
         Tag_User_Obj \<Rightarrow> and_then (name_or_empty (getpwuid os (st_uid info))) (\<lambda>n. Inr (id_text (st_uid info), n))
       | Tag_User \<Rightarrow> and_then (name_or_empty (getpwuid os (entry_id e))) (\<lambda>n. Inr (id_text (entry_id e), n))
       | Tag_Group_Obj \<Rightarrow> and_then (name_or_empty (getgrgid os (st_gid info))) (\<lambda>n. Inr (id_text (st_gid info), n))
       | Tag_Group \<Rightarrow> and_then (name_or_empty (getgrgid os (entry_id e))) (\<lambda>n. Inr (id_text (entry_id e), n))
       | Tag_Mask \<Rightarrow> Inr ([], u ''mask'')
       | _ \<Rightarrow> Inr ([], u ''other''))
     (\<lambda>(sid, name). case acl_kind_of (entry_tag e) of
         None \<Rightarrow> raise_error KeyError ''kinds''
       | Some kind \<Rightarrow> Inr \<lparr>acl_path = path, owner_sid = id_text (st_uid info), trustee_sid = sid,
           acl_rights = entry_perm e, trustee_name = name, acl_kind = kind,
           acl_permissions = perm_to_rwx (entry_perm e)\<rparr>)"

text \<open>The generator: what it yields, and the error that ends it.\<close>

fun yield_entries :: "('e \<Rightarrow> 'r res) \<Rightarrow> 'e list \<Rightarrow> 'r list \<times> unit res" where
  "yield_entries f [] = ([], Inr ())"
| "yield_entries f (e # es) = (case f e of
      Inl err \<Rightarrow> ([], Inl err)
    | Inr r \<Rightarrow> (let (rs, out) = yield_entries f es in (r # rs, out)))"

definition iter_acl :: "'m posix_os \<Rightarrow> pystr \<Rightarrow> 'm \<Rightarrow> acl_record list \<times> unit res" where
  "iter_acl os path m = (case stat_path os path m of
      Inl f \<Rightarrow> ([], Inl (except_os ''cannot stat'' f))
    | Inr info \<Rightarrow> (case current_acl os path m of
        Inl e \<Rightarrow> ([], Inl e)
      | Inr es \<Rightarrow> yield_entries (to_entry os path info) es))"

section \<open>Changing\<close>

text \<open>\<open>_resolve_uid\<close> and \<open>_resolve_gid\<close>: a text of digits is the id itself, whatever its size.\<close>

definition resolve_id :: "(pystr \<Rightarrow> os_fault + int) \<Rightarrow> string \<Rightarrow> pystr \<Rightarrow> int res" where
  "resolve_id lookup why name =
     (if isdigit name
      then (case int_of_digits name of None \<Rightarrow> raise_error ValueError ''int'' | Some n \<Rightarrow> Inr (int n))
      else case lookup name of Inl f \<Rightarrow> Inl (except_key_os why f) | Inr i \<Rightarrow> Inr i)"

definition resolve_uid :: "'m posix_os \<Rightarrow> pystr \<Rightarrow> int res" where
  "resolve_uid os owner = resolve_id (getpwnam os) ''no such user'' owner"

definition resolve_gid :: "'m posix_os \<Rightarrow> pystr \<Rightarrow> int res" where
  "resolve_gid os grp = resolve_id (getgrnam os) ''no such group'' grp"

definition parse_trustee :: "'m posix_os \<Rightarrow> pystr \<Rightarrow> (acl_tag \<times> int) res" where
  "parse_trustee os trustee =
     (if startswith trustee (u ''group:'')
      then and_then (resolve_gid os (drop 6 trustee)) (\<lambda>i. Inr (Tag_Group, i))
      else let name = (if startswith trustee (u ''user:'') then drop 5 trustee else trustee)
           in and_then (resolve_uid os name) (\<lambda>i. Inr (Tag_User, i)))"

definition named_tags :: "acl_tag set" where "named_tags = {Tag_User, Tag_Group}"
definition group_class_tags :: "acl_tag set" where "group_class_tags = {Tag_User, Tag_Group, Tag_Group_Obj}"

definition with_recomputed_mask :: "xattr_entry list \<Rightarrow> xattr_entry list" where
  "with_recomputed_mask entries =
     (let without_mask = filter (\<lambda>e. entry_tag e \<noteq> Tag_Mask) entries;
          named = filter (\<lambda>e. entry_tag e \<in> named_tags) without_mask;
          group_class = filter (\<lambda>e. entry_tag e \<in> group_class_tags) without_mask
      in if named = [] then without_mask
         else without_mask @ [\<lparr>entry_tag = Tag_Mask,
                               entry_perm = foldl (\<lambda>mask e. mask OR entry_perm e) 0 group_class,
                               entry_id = undefined_id\<rparr>])"

definition sort_entries :: "xattr_entry list \<Rightarrow> xattr_entry list" where
  "sort_entries entries = sort_key (\<lambda>e. (the (acl_order (entry_tag e)), entry_id e)) entries"

definition acl_version :: "32 word" where "acl_version = 2"

definition acl_blob :: "xattr_entry list \<Rightarrow> byte list" where
  "acl_blob ordered = pack_u32 acl_version @ concat (map (\<lambda>e. pack_raw (raw_of_entry e)) ordered)"

definition store_acl :: "'m posix_os \<Rightarrow> pystr \<Rightarrow> byte list \<Rightarrow> 'm \<Rightarrow> unit res \<times> 'm" where
  "store_acl os path blob m = (case setxattr os path blob m of
      (Some f, m') \<Rightarrow> (Inl (except_os ''cannot set ACL'' f), m')
    | (None, m') \<Rightarrow> (Inr (), m'))"

definition write_acl :: "'m posix_os \<Rightarrow> pystr \<Rightarrow> xattr_entry list \<Rightarrow> 'm \<Rightarrow> unit res \<times> 'm" where
  "write_acl os path entries m =
     (if \<exists>e \<in> set entries. acl_order (entry_tag e) = None then (raise_error KeyError ''order'', m)
      else store_acl os path (acl_blob (sort_entries entries)) m)"

definition set_owner :: "'m posix_os \<Rightarrow> pystr \<Rightarrow> pystr \<Rightarrow> 'm \<Rightarrow> unit res \<times> 'm" where
  "set_owner os path owner m = (case resolve_uid os owner of
      Inl e \<Rightarrow> (Inl e, m)
    | Inr uid \<Rightarrow> (case chown_path os path uid m of
        (Some f, m') \<Rightarrow> (Inl (except_os ''cannot set owner'' f), m')
      | (None, m') \<Rightarrow> (Inr (), m')))"

text \<open>The entries of everyone but the trustee.\<close>

definition other_entries :: "acl_tag \<Rightarrow> int \<Rightarrow> xattr_entry list \<Rightarrow> xattr_entry list" where
  "other_entries tag ident entries = filter (\<lambda>e. \<not> (entry_tag e = tag \<and> entry_id e = ident)) entries"

definition add_ace :: "'m posix_os \<Rightarrow> pystr \<Rightarrow> pystr \<Rightarrow> int \<Rightarrow> ace_type \<Rightarrow> 'm \<Rightarrow> unit res \<times> 'm" where
  "add_ace os path trustee rights access m =
     (if access = Ace_Deny then (raise_error NativeCallError ''POSIX ACLs are allow-only'', m)
      else case parse_trustee os trustee of
          Inl e \<Rightarrow> (Inl e, m)
        | Inr (tag, ident) \<Rightarrow> (case current_acl os path m of
            Inl e \<Rightarrow> (Inl e, m)
          | Inr es \<Rightarrow> write_acl os path (with_recomputed_mask (other_entries tag ident es @
              [\<lparr>entry_tag = tag, entry_perm = word_of_int (rights AND 7), entry_id = ident\<rparr>])) m))"

definition remove_ace :: "'m posix_os \<Rightarrow> pystr \<Rightarrow> pystr \<Rightarrow> ace_type option \<Rightarrow> 'm \<Rightarrow> unit res \<times> 'm" where
  "remove_ace os path trustee access m =
     (if access = Some Ace_Deny then (Inr (), m)
      else case parse_trustee os trustee of
          Inl e \<Rightarrow> (Inl e, m)
        | Inr (tag, ident) \<Rightarrow> (case current_acl os path m of
            Inl e \<Rightarrow> (Inl e, m)
          | Inr es \<Rightarrow> write_acl os path (with_recomputed_mask (other_entries tag ident es)) m))"

section \<open>Writing and reading an entry list\<close>

definition known_tag :: "acl_tag \<Rightarrow> bool" where
  "known_tag tag \<longleftrightarrow> acl_order tag \<noteq> None"

lemma known_tag_simps [simp]:
  "known_tag Tag_User_Obj" "known_tag Tag_User" "known_tag Tag_Group_Obj" "known_tag Tag_Group"
  "known_tag Tag_Mask" "known_tag Tag_Other" "\<not> known_tag (Tag_Unknown v)"
  by (simp_all add: known_tag_def)

lemma tag_of_value: "known_tag tag \<Longrightarrow> acl_tag_of (acl_tag_value tag) = tag"
  by (cases tag) (simp_all add: acl_tag_of_def)

text \<open>What the 32-bit field keeps of an id.\<close>

definition stored :: "xattr_entry \<Rightarrow> xattr_entry" where
  "stored e = e\<lparr>entry_id := entry_id e mod 2 ^ 32\<rparr>"

lemma stored_entry: "known_tag (entry_tag e) \<Longrightarrow> entry_of_raw (raw_of_entry e) = stored e"
proof -
  have "entry_id e AND 4294967295 = take_bit 32 (entry_id e)"
    by (simp add: take_bit_eq_mask mask_eq_exp_minus_1)
  then have "uint (word_of_int (entry_id e AND 4294967295) :: 32 word) = entry_id e mod 2 ^ 32"
    by (simp add: uint_word_of_int_eq take_bit_eq_mod)
  then show "known_tag (entry_tag e) \<Longrightarrow> entry_of_raw (raw_of_entry e) = stored e"
    by (cases e) (simp add: entry_of_raw_def raw_of_entry_def tag_of_value stored_def)
qed

lemma stored_id: "0 \<le> entry_id e \<Longrightarrow> entry_id e < 2 ^ 32 \<Longrightarrow> stored e = e"
  by (simp add: stored_def)

lemma parse_packed:
  "\<forall>e \<in> set es. known_tag (entry_tag e) \<Longrightarrow> length before = offset \<Longrightarrow>
     parse_entries (before @ concat (map (\<lambda>e. pack_raw (raw_of_entry e)) es)) offset = Inr (map stored es)"
proof (induction es arbitrary: before offset)
  case Nil
  then show ?case by (simp add: parse_entries.simps)
next
  case (Cons e es)
  let ?rest = "concat (map (\<lambda>e. pack_raw (raw_of_entry e)) es)"
  have "parse_entries ((before @ pack_raw (raw_of_entry e)) @ ?rest) (offset + 8) = Inr (map stored es)"
    using Cons.prems by (intro Cons.IH) auto
  moreover have "entry_of_raw (unpack_raw (take 8 (drop offset (before @ pack_raw (raw_of_entry e) @ ?rest)))) = stored e"
    using raw.unpack_at[OF Cons.prems(2)] Cons.prems(1) by (simp add: stored_entry)
  ultimately show ?case using Cons.prems(2) by (simp add: parse_entries.simps[of _ offset])
qed

lemma parse_blob:
  "\<forall>e \<in> set es. known_tag (entry_tag e) \<Longrightarrow> parse_entries (acl_blob es) header_size = Inr (map stored es)"
  unfolding acl_blob_def by (rule parse_packed) (simp_all add: header_size_def)

section \<open>The mask\<close>

lemma and_or_absorb: "x AND y = x \<Longrightarrow> x AND (z OR y) = (x :: 16 word)"
  by (auto simp: bit_eq_iff bit_simps)

lemma foldl_or: "foldl (\<lambda>mask e. mask OR entry_perm e) a es = a OR foldl (\<lambda>mask e. mask OR entry_perm e) 0 es"
proof (induction es arbitrary: a)
  case (Cons e es)
  show ?case by (simp only: foldl.simps Cons[of "a OR entry_perm e"] Cons[of "0 OR entry_perm e"]) (simp add: or.assoc)
qed simp

lemma perm_in_union:
  "e \<in> set es \<Longrightarrow> entry_perm e AND foldl (\<lambda>mask e. mask OR entry_perm e) 0 es = entry_perm e"
proof (induction es)
  case (Cons d es)
  show ?case
  proof (cases "e = d")
    case True
    then show ?thesis by (simp add: foldl_or[of "entry_perm d"])
  next
    case False
    with Cons have "entry_perm e AND foldl (\<lambda>mask e. mask OR entry_perm e) 0 es = entry_perm e" by simp
    then show ?thesis by (simp add: foldl_or[of "entry_perm d"] and_or_absorb)
  qed
qed simp

text \<open>
  The permissions an entry really gives: the mask, when there is one, caps the named entries and the
  owning group (\<open>acl(5)\<close>).
\<close>

definition mask_entry :: "xattr_entry list \<Rightarrow> xattr_entry option" where
  "mask_entry es = find (\<lambda>e. entry_tag e = Tag_Mask) es"

definition effective_perm :: "xattr_entry list \<Rightarrow> xattr_entry \<Rightarrow> 16 word" where
  "effective_perm es e =
     (case mask_entry es of
        Some cap \<Rightarrow> if entry_tag e \<in> group_class_tags then entry_perm e AND entry_perm cap else entry_perm e
      | None \<Rightarrow> entry_perm e)"

lemma mset_sort_entries [simp]: "mset (sort_entries es) = mset es"
  by (simp add: sort_entries_def)

lemma set_sort_entries [simp]: "set (sort_entries es) = set es"
  by (simp add: sort_entries_def)

lemma recomputed_entries:
  "filter (\<lambda>e. entry_tag e \<noteq> Tag_Mask) (with_recomputed_mask es) = filter (\<lambda>e. entry_tag e \<noteq> Tag_Mask) es"
  by (simp add: with_recomputed_mask_def Let_def)

lemma recomputed_set:
  "set (with_recomputed_mask es) \<subseteq> set es \<union> {e. entry_tag e = Tag_Mask \<and> entry_id e = undefined_id}"
  by (auto simp: with_recomputed_mask_def Let_def)

text \<open>A mask in a recomputed list is the only one, and holds every permission it caps.\<close>

lemma recomputed_mask:
  assumes "cap \<in> set (with_recomputed_mask es)" "entry_tag cap = Tag_Mask"
    "e \<in> set (with_recomputed_mask es)" "entry_tag e \<in> group_class_tags"
  shows "entry_perm e AND entry_perm cap = entry_perm e"
proof -
  have "e \<in> set (filter (\<lambda>e. entry_tag e \<in> group_class_tags) (filter (\<lambda>e. entry_tag e \<noteq> Tag_Mask) es))"
    using assms by (auto simp: with_recomputed_mask_def Let_def group_class_tags_def split: if_splits)
  note perm_in_union[OF this]
  moreover have "entry_perm cap = foldl (\<lambda>mask e. mask OR entry_perm e) 0
      (filter (\<lambda>e. entry_tag e \<in> group_class_tags) (filter (\<lambda>e. entry_tag e \<noteq> Tag_Mask) es))"
    using assms(1,2) by (auto simp: with_recomputed_mask_def Let_def split: if_splits)
  ultimately show ?thesis by (simp only:)
qed

lemma recomputed_effective:
  assumes "set new = set (with_recomputed_mask es)" "e \<in> set new"
  shows "effective_perm new e = entry_perm e"
proof -
  have "entry_tag e \<in> group_class_tags \<Longrightarrow> entry_perm e AND entry_perm cap = entry_perm e" if "mask_entry new = Some cap" for cap
  proof -
    from that have "cap \<in> set new" "entry_tag cap = Tag_Mask" by (auto simp: mask_entry_def find_Some_iff)
    with assms recomputed_mask[of cap es e] show "entry_tag e \<in> group_class_tags \<Longrightarrow> ?thesis"
      by simp
  qed
  then show ?thesis by (simp add: effective_perm_def split: option.split)
qed

lemma recomputed_mask_iff:
  "(\<exists>e \<in> set (with_recomputed_mask es). entry_tag e = Tag_Mask) \<longleftrightarrow> (\<exists>e \<in> set es. entry_tag e \<in> named_tags)"
  by (auto simp: with_recomputed_mask_def Let_def named_tags_def filter_empty_conv)

section \<open>What the kernel accepts\<close>

definition entries_with :: "acl_tag \<Rightarrow> xattr_entry list \<Rightarrow> xattr_entry list" where
  "entries_with tag es = filter (\<lambda>e. entry_tag e = tag) es"

text \<open>
  \<open>acl_valid(3)\<close>: known tags in canonical order, permission bits only, exactly one entry for the owner,
  the owning group and the others, no id named twice, at most one mask, and a mask when an id is named.
\<close>

definition acl_valid :: "xattr_entry list \<Rightarrow> bool" where
  "acl_valid es \<longleftrightarrow>
     (\<forall>e \<in> set es. known_tag (entry_tag e) \<and> entry_perm e AND 7 = entry_perm e) \<and>
     sorted (map (\<lambda>e. the (acl_order (entry_tag e))) es) \<and>
     (\<forall>tag \<in> {Tag_User_Obj, Tag_Group_Obj, Tag_Other}. length (entries_with tag es) = 1) \<and>
     (\<forall>tag \<in> named_tags. distinct (map entry_id (entries_with tag es)) \<and>
        (\<forall>e \<in> set (entries_with tag es). 0 \<le> entry_id e \<and> entry_id e < undefined_id)) \<and>
     length (entries_with Tag_Mask es) = (if \<exists>e \<in> set es. entry_tag e \<in> named_tags then 1 else 0)"

text \<open>The part of it that does not depend on the order and the mask.\<close>

definition acl_content :: "xattr_entry list \<Rightarrow> bool" where
  "acl_content es \<longleftrightarrow>
     (\<forall>e \<in> set es. known_tag (entry_tag e) \<and> entry_perm e AND 7 = entry_perm e) \<and>
     (\<forall>tag \<in> {Tag_User_Obj, Tag_Group_Obj, Tag_Other}. length (entries_with tag es) = 1) \<and>
     (\<forall>tag \<in> named_tags. distinct (map entry_id (entries_with tag es)) \<and>
        (\<forall>e \<in> set (entries_with tag es). 0 \<le> entry_id e \<and> entry_id e < undefined_id))"

lemma acl_valid_content: "acl_valid es \<Longrightarrow> acl_content es"
  by (auto simp: acl_valid_def acl_content_def)

lemma entries_with_recomputed:
  "tag \<noteq> Tag_Mask \<Longrightarrow> entries_with tag (with_recomputed_mask es) = entries_with tag es"
  by (auto simp: with_recomputed_mask_def Let_def entries_with_def intro!: filter_cong)

lemma mset_entries_with: "mset es = mset fs \<Longrightarrow> mset (entries_with tag es) = mset (entries_with tag fs)"
  by (simp add: entries_with_def)

lemma sorted_entries: "sorted (map (\<lambda>e. the (acl_order (entry_tag e))) (sort_entries es))"
proof -
  have "sorted (map fst xs)" if "sorted xs" for xs :: "(nat \<times> int) list"
    using that by (induction xs) (auto simp: less_eq_prod_def)
  from this[OF sorted_sort_key[of "\<lambda>e. (the (acl_order (entry_tag e)), entry_id e)" es]] show ?thesis
    by (simp add: sort_entries_def comp_def)
qed

lemma union_of_perms:
  "\<forall>e \<in> set es. entry_perm e AND 7 = entry_perm e \<Longrightarrow>
     foldl (\<lambda>mask e. mask OR entry_perm e) 0 es AND 7 = foldl (\<lambda>mask e. mask OR entry_perm e) 0 es"
proof (induction es)
  case (Cons d es)
  then show ?case by (simp add: foldl_or[of "entry_perm d"] bit.conj_disj_distrib2)
qed simp

lemma recomputed_perms:
  assumes "\<forall>e \<in> set es. known_tag (entry_tag e) \<and> entry_perm e AND 7 = entry_perm e"
  shows "\<forall>e \<in> set (with_recomputed_mask es). known_tag (entry_tag e) \<and> entry_perm e AND 7 = entry_perm e"
  using assms union_of_perms[of "filter (\<lambda>e. entry_tag e \<in> group_class_tags) (filter (\<lambda>e. entry_tag e \<noteq> Tag_Mask) es)"]
  by (auto simp: with_recomputed_mask_def Let_def)

lemma entries_with_Nil: "entries_with tag es = [] \<longleftrightarrow> (\<forall>e \<in> set es. entry_tag e \<noteq> tag)"
  by (auto simp: entries_with_def filter_empty_conv)

lemma recomputed_mask_count:
  "length (entries_with Tag_Mask (with_recomputed_mask es)) = (if \<exists>e \<in> set es. entry_tag e \<in> named_tags then 1 else 0)"
  by (auto simp: with_recomputed_mask_def Let_def entries_with_def filter_empty_conv named_tags_def)

lemma acl_content_cong: "mset es = mset fs \<Longrightarrow> acl_content es = acl_content fs"
proof -
  assume m: "mset es = mset fs"
  have "length (entries_with tag es) = length (entries_with tag fs)"
    "distinct (map entry_id (entries_with tag es)) = distinct (map entry_id (entries_with tag fs))"
    "set (entries_with tag es) = set (entries_with tag fs)" for tag
    using mset_entries_with[OF m, of tag]
    by (metis size_mset, metis mset_map distinct_count_atmost_1 set_mset_mset, metis set_mset_mset)
  with mset_eq_setD[OF m] show ?thesis by (simp only: acl_content_def)
qed

lemma recomputed_content: "acl_content es \<Longrightarrow> acl_content (with_recomputed_mask es)"
  using recomputed_perms[of es] by (auto simp: acl_content_def entries_with_recomputed named_tags_def)

text \<open>What is written for a list of good content is what the kernel accepts.\<close>

lemma written_valid: "acl_content es \<Longrightarrow> acl_valid (sort_entries (with_recomputed_mask es))"
proof -
  assume c: "acl_content es"
  let ?new = "sort_entries (with_recomputed_mask es)"
  from recomputed_content[OF c] have content: "acl_content ?new"
    using acl_content_cong[of ?new "with_recomputed_mask es"] by simp
  have "length (entries_with Tag_Mask ?new) = length (entries_with Tag_Mask (with_recomputed_mask es))"
    using mset_entries_with[of ?new "with_recomputed_mask es" Tag_Mask] by (metis mset_sort_entries size_mset)
  moreover have "(\<exists>e \<in> set (with_recomputed_mask es). entry_tag e \<in> named_tags) \<longleftrightarrow> (\<exists>e \<in> set es. entry_tag e \<in> named_tags)"
    by (auto simp: with_recomputed_mask_def Let_def named_tags_def)
  ultimately show ?thesis
    using content sorted_entries[of "with_recomputed_mask es"] recomputed_mask_count[of es]
    by (simp add: acl_valid_def acl_content_def)
qed

lemma other_entries_subset: "set (other_entries tag ident es) \<subseteq> set es"
  by (auto simp: other_entries_def)

lemma entries_with_other:
  "entries_with t (other_entries tag ident es) =
     (if t = tag then filter (\<lambda>e. entry_id e \<noteq> ident) (entries_with t es) else entries_with t es)"
  by (auto simp: entries_with_def other_entries_def intro!: filter_cong)

lemma other_content: "acl_content es \<Longrightarrow> tag \<in> named_tags \<Longrightarrow> acl_content (other_entries tag ident es)"
  unfolding acl_content_def using other_entries_subset[of tag ident es]
  by (auto simp: entries_with_other named_tags_def intro: distinct_map_filter)

lemma granted_content:
  assumes "acl_content es" "entry_tag g \<in> named_tags" "0 \<le> entry_id g" "entry_id g < undefined_id"
    "entry_perm g AND 7 = entry_perm g"
  shows "acl_content (other_entries (entry_tag g) (entry_id g) es @ [g])"
proof -
  note c = other_content[OF assms(1,2), of "entry_id g"]
  have app: "entries_with t (xs @ [g]) = entries_with t xs @ (if entry_tag g = t then [g] else [])" for t xs
    by (simp add: entries_with_def)
  have "entry_id g \<notin> entry_id ` set (entries_with (entry_tag g) (other_entries (entry_tag g) (entry_id g) es))"
    by (auto simp: entries_with_other)
  with c assms show ?thesis by (auto simp: acl_content_def app named_tags_def)
qed

lemma low_perm: "(word_of_int (x AND 7) :: 16 word) AND 7 = word_of_int (x AND 7)"
  by (rule bit_word_eqI) (auto simp: bit_simps)

lemma base_content: "acl_content (base_entries mode)"
  by (simp add: acl_content_def base_entries_def entries_with_def named_tags_def low_perm)

section \<open>What the verbs write\<close>

lemma parse_entries_ids:
  "parse_entries blob offset = Inr es \<Longrightarrow> e \<in> set es \<Longrightarrow> 0 \<le> entry_id e \<and> entry_id e < 2 ^ 32"
proof (induction blob offset arbitrary: es rule: parse_entries.induct)
  case (1 blob offset)
  let ?first = "entry_of_raw (unpack_raw (take 8 (drop offset blob)))"
  have range: "0 \<le> entry_id (entry_of_raw r) \<and> entry_id (entry_of_raw r) < 2 ^ 32" for r
    using uint_lt2p[of "snd (snd r)"] by (auto simp: entry_of_raw_def split: prod.split)
  show ?case
  proof (cases "e = ?first")
    case True
    then show ?thesis by (simp only: range)
  next
    case False
    with 1 show ?thesis
      by (auto simp: parse_entries.simps[of blob offset] and_then_Inr split: if_splits)
  qed
qed

lemma current_acl_ids:
  assumes "current_acl os path m = Inr es" "e \<in> set es"
  shows "0 \<le> entry_id e \<and> entry_id e < 2 ^ 32"
proof -
  from assms(1) consider b where "parse_entries b header_size = Inr es" | mode where "es = base_entries mode"
    by (auto simp: current_acl_def read_raw_def and_then_Inr split: sum.splits os_fault.splits if_splits option.splits)
  then show ?thesis
    by cases (use assms(2) parse_entries_ids in \<open>auto simp: base_entries_def undefined_id_def\<close>)
qed

lemma parse_trustee_named: "parse_trustee os trustee = Inr (tag, ident) \<Longrightarrow> tag \<in> named_tags"
  by (auto simp: parse_trustee_def and_then_Inr named_tags_def Let_def split: if_splits)

lemma write_known:
  "\<forall>e \<in> set es. known_tag (entry_tag e) \<Longrightarrow>
    write_acl os path (with_recomputed_mask es) m = store_acl os path (acl_blob (sort_entries (with_recomputed_mask es))) m"
proof -
  assume "\<forall>e \<in> set es. known_tag (entry_tag e)"
  then have "\<forall>e \<in> set (with_recomputed_mask es). known_tag (entry_tag e)" using recomputed_set[of es] by auto
  then have "\<not> (\<exists>e \<in> set (with_recomputed_mask es). acl_order (entry_tag e) = None)" by (auto simp: known_tag_def)
  then show ?thesis by (simp only: write_acl_def if_False)
qed

lemma written_parses:
  assumes "\<forall>e \<in> set es. known_tag (entry_tag e)"
  shows "parse_entries (acl_blob (sort_entries (with_recomputed_mask es))) header_size =
    Inr (map stored (sort_entries (with_recomputed_mask es)))"
  using recomputed_set[of es] assms by (intro parse_blob) auto

lemma stored_list: "\<forall>e \<in> set es. 0 \<le> entry_id e \<and> entry_id e < 2 ^ 32 \<Longrightarrow> map stored es = es"
  by (simp add: stored_id map_idI)

text \<open>The list both verbs end with, from the entries \<open>es\<close> the file is to have.\<close>

lemma rewritten:
  assumes "acl_content es" "\<forall>e \<in> set es. 0 \<le> entry_id e \<and> entry_id e < 2 ^ 32"
  obtains new where "write_acl os path (with_recomputed_mask es) m = store_acl os path (acl_blob new) m"
    "parse_entries (acl_blob new) header_size = Inr new" "acl_valid new"
    "\<forall>e \<in> set new. effective_perm new e = entry_perm e"
    "filter_mset (\<lambda>e. entry_tag e \<noteq> Tag_Mask) (mset new) = filter_mset (\<lambda>e. entry_tag e \<noteq> Tag_Mask) (mset es)"
    "\<forall>e \<in> set new. entry_tag e = Tag_Mask \<longrightarrow> entry_id e = undefined_id"
proof
  let ?new = "sort_entries (with_recomputed_mask es)"
  from assms(1) have known: "\<forall>e \<in> set es. known_tag (entry_tag e)" by (simp add: acl_content_def)
  show "write_acl os path (with_recomputed_mask es) m = store_acl os path (acl_blob ?new) m"
    by (rule write_known[OF known])
  have "\<forall>e \<in> set ?new. 0 \<le> entry_id e \<and> entry_id e < 2 ^ 32"
    using recomputed_set[of es] assms(2) by (auto simp: undefined_id_def)
  then show "parse_entries (acl_blob ?new) header_size = Inr ?new"
    using written_parses[OF known] stored_list by simp
  show "acl_valid ?new" by (rule written_valid[OF assms(1)])
  show "\<forall>e \<in> set ?new. effective_perm ?new e = entry_perm e" using recomputed_effective[of ?new es] by simp
  show "filter_mset (\<lambda>e. entry_tag e \<noteq> Tag_Mask) (mset ?new) = filter_mset (\<lambda>e. entry_tag e \<noteq> Tag_Mask) (mset es)"
    using arg_cong[OF recomputed_entries[of es], of mset] by (simp only: mset_sort_entries mset_filter)
  show "\<forall>e \<in> set ?new. entry_tag e = Tag_Mask \<longrightarrow> entry_id e = undefined_id"
    by (auto simp: with_recomputed_mask_def Let_def)
qed

section \<open>What the kernel keeps\<close>

text \<open>
  What Linux does with an ACL it accepted: one that names an id is read back as it was written, and one with the
  three base entries alone goes into the mode bits, and there is no extended ACL to read (\<open>ENODATA\<close>). An entry
  that names no id has the undefined one.
\<close>

definition unnamed_undefined :: "xattr_entry list \<Rightarrow> bool" where
  "unnamed_undefined es \<longleftrightarrow> (\<forall>e \<in> set es. entry_tag e \<notin> named_tags \<longrightarrow> entry_id e = undefined_id)"

definition keeps_acls :: "'m posix_os \<Rightarrow> pystr \<Rightarrow> bool" where
  "keeps_acls os path \<longleftrightarrow> (\<forall>new m m'. acl_valid new \<and> unnamed_undefined new \<and> setxattr os path (acl_blob new) m = (None, m') \<longrightarrow>
     (if \<exists>e \<in> set new. entry_tag e \<in> named_tags then getxattr os path m' = Inr (acl_blob new)
      else getxattr os path m' = Inl (Os_Errno 61) \<and>
        (\<exists>info. stat_path os path m' = Inr info \<and> base_entries (st_mode info) = new)))"

lemma stored_is_read:
  assumes "keeps_acls os path" "acl_valid new" "unnamed_undefined new" "store_acl os path (acl_blob new) m = (Inr (), m')"
  shows "current_acl os path m' = Inr new"
proof -
  have set: "setxattr os path (acl_blob new) m = (None, m')"
    using assms(4) by (auto simp: store_acl_def split: prod.splits option.splits)
  have ids: "0 \<le> entry_id e \<and> entry_id e < 2 ^ 32" if "e \<in> set new" for e
  proof (cases "entry_tag e \<in> named_tags")
    case True
    then have "e \<in> set (entries_with (entry_tag e) new)" using that by (simp add: entries_with_def)
    with True assms(2) show ?thesis by (fastforce simp: acl_valid_def undefined_id_def)
  qed (use assms(3) that in \<open>simp add: unnamed_undefined_def undefined_id_def\<close>)
  have "parse_entries (acl_blob new) header_size = Inr new"
    using parse_blob[of new] stored_list[of new] ids assms(2) by (auto simp: acl_valid_def)
  moreover have "if \<exists>e \<in> set new. entry_tag e \<in> named_tags then getxattr os path m' = Inr (acl_blob new)
      else getxattr os path m' = Inl (Os_Errno 61) \<and> (\<exists>info. stat_path os path m' = Inr info \<and> base_entries (st_mode info) = new)"
    using assms(1-3) set unfolding keeps_acls_def by blast
  ultimately show ?thesis
    by (auto simp: current_acl_def read_raw_def no_extended_acl_def split: if_splits)
qed

text \<open>An ACL that names no id is the three base entries, in their order.\<close>

lemma base_only:
  assumes "acl_valid new" "\<forall>e \<in> set new. entry_tag e \<notin> named_tags"
  shows "map entry_tag new = [Tag_User_Obj, Tag_Group_Obj, Tag_Other]"
proof -
  have count: "count (mset (map entry_tag new)) t = length (entries_with t new)" for t
    by (induction new) (auto simp: entries_with_def)
  have none: "entries_with t new = []" if "t \<in> {Tag_User, Tag_Group, Tag_Mask} \<or> (\<exists>v. t = Tag_Unknown v)" for t
    using that assms by (auto simp: acl_valid_def named_tags_def entries_with_Nil)
  have "mset (map entry_tag new) = mset [Tag_User_Obj, Tag_Group_Obj, Tag_Other]"
  proof (rule multiset_eqI)
    fix t
    show "count (mset (map entry_tag new)) t = count (mset [Tag_User_Obj, Tag_Group_Obj, Tag_Other]) t"
      unfolding count using assms(1) none by (cases t) (auto simp: acl_valid_def)
  qed
  then have "mset (map (\<lambda>t. the (acl_order t)) (map entry_tag new)) =
      mset (map (\<lambda>t. the (acl_order t)) [Tag_User_Obj, Tag_Group_Obj, Tag_Other])" by (metis mset_map)
  moreover have "sorted (map (\<lambda>t. the (acl_order t)) (map entry_tag new))" using assms(1) by (simp add: acl_valid_def comp_def)
  ultimately have "map (\<lambda>t. the (acl_order t)) (map entry_tag new) = sort (map (\<lambda>t. the (acl_order t)) [Tag_User_Obj, Tag_Group_Obj, Tag_Other])"
    by (metis properties_for_sort)
  then have orders: "map (\<lambda>e. the (acl_order (entry_tag e))) new = [0, 2, 5]" by (simp add: comp_def)
  then obtain a b c where new: "new = [a, b, c]" by (auto simp: map_eq_Cons_conv)
  have tags: "entry_tag e = Tag_User_Obj" if "e \<in> set new" "the (acl_order (entry_tag e)) = 0" for e
    using that assms by (cases "entry_tag e") (auto simp: acl_valid_def)
  have "entry_tag e = Tag_Group_Obj" if "e \<in> set new" "the (acl_order (entry_tag e)) = 2" for e
    using that assms by (cases "entry_tag e") (auto simp: acl_valid_def)
  moreover have "entry_tag e = Tag_Other" if "e \<in> set new" "the (acl_order (entry_tag e)) = 5" for e
    using that assms by (cases "entry_tag e") (auto simp: acl_valid_def)
  ultimately show ?thesis using orders tags unfolding new by simp
qed

end
