(* ===== verification/Marshal.thy ===== *)
theory Marshal
  imports Native_Errors Enums
begin

text \<open>
  The conversions of \<open>adapters/native/marshal.py\<close>: native ids and names to the enumerations and back, and
  the duration texts of the Task Scheduler. Socket constants are parameters, as their values depend on
  the system. \<open>epoch_to_datetime\<close>, \<open>parse_event_time\<close> and \<open>com_date_to_datetime\<close> are calls of \<open>datetime\<close>
  and of the local time zone and are not modelled.
\<close>

section \<open>Processes and connections\<close>

definition to_process_status :: "pystr option \<Rightarrow> process_status" where
  "to_process_status raw = (case raw of
      None \<Rightarrow> Proc_Unknown | Some text \<Rightarrow> parse_enum process_status_names Proc_Unknown text)"

definition to_process_name :: "pystr option \<Rightarrow> bool \<Rightarrow> pystr" where
  "to_process_name raw strip_exe =
     (let name = (case raw of None \<Rightarrow> [] | Some text \<Rightarrow> text) in
      if strip_exe \<and> endswith (lower name) (u ''.exe'') then take (length name - 4) name else name)"

definition to_connection_state :: "pystr option \<Rightarrow> connection_state" where
  "to_connection_state raw = (case raw of
      None \<Rightarrow> Conn_None | Some text \<Rightarrow> parse_enum connection_state_names Conn_None text)"

definition to_transport_protocol :: "int \<Rightarrow> int \<Rightarrow> transport_protocol" where
  "to_transport_protocol sock_stream socket_type = (if socket_type = sock_stream then Proto_TCP else Proto_UDP)"

definition to_address_family :: "int \<Rightarrow> int \<Rightarrow> int \<Rightarrow> address_family" where
  "to_address_family af_inet af_inet6 family =
     (if family = af_inet then Family_IPv4 else if family = af_inet6 then Family_IPv6 else Family_Other)"

section \<open>Registry\<close>

definition registry_type_by_int :: "(int \<times> registry_value_type) list" where
  "registry_type_by_int =
     [(0, REG_NONE), (1, REG_SZ), (2, REG_EXPAND_SZ), (3, REG_BINARY), (4, REG_DWORD), (5, REG_DWORD_BIG_ENDIAN),
      (6, REG_LINK), (7, REG_MULTI_SZ), (8, REG_RESOURCE_LIST), (9, REG_FULL_RESOURCE_DESCRIPTOR),
      (10, REG_RESOURCE_REQUIREMENTS_LIST), (11, REG_QWORD)]"

definition registry_hive_by_name :: "(pystr \<times> registry_hive) list" where
  "registry_hive_by_name =
     [(u ''HKEY_CLASSES_ROOT'', HKCR), (u ''HKCR'', HKCR), (u ''HKEY_CURRENT_USER'', HKCU), (u ''HKCU'', HKCU),
      (u ''HKEY_LOCAL_MACHINE'', HKLM), (u ''HKLM'', HKLM), (u ''HKEY_USERS'', HKU), (u ''HKU'', HKU),
      (u ''HKEY_CURRENT_CONFIG'', HKCC), (u ''HKCC'', HKCC)]"

definition to_registry_value_type :: "int \<Rightarrow> registry_value_type" where
  "to_registry_value_type value_type = parse_enum registry_type_by_int REG_NONE value_type"

definition from_registry_value_type :: "registry_value_type \<Rightarrow> int" where
  "from_registry_value_type t = the (key_of registry_type_by_int t)"

text \<open>
  \<open>str.upper()\<close>, exact for a comparison with ASCII text: beside \<open>a..z\<close> only these code points have an
  upper case that is ASCII throughout.
\<close>

definition upper_char :: "nat \<Rightarrow> pystr" where
  "upper_char c =
     (if ch CHR ''a'' \<le> c \<and> c \<le> ch CHR ''z'' then [c - 32]
      else case map_of [(0xDF, ''SS''), (0x131, ''I''), (0x17F, ''S''), (0xFB00, ''FF''), (0xFB01, ''FI''),
             (0xFB02, ''FL''), (0xFB03, ''FFI''), (0xFB04, ''FFL''), (0xFB05, ''ST''), (0xFB06, ''ST'')] c of
          Some s \<Rightarrow> u s | None \<Rightarrow> [c])"

definition upper :: "pystr \<Rightarrow> pystr" where
  "upper s = concat (map upper_char s)"

definition to_registry_hive :: "pystr \<Rightarrow> registry_hive res" where
  "to_registry_hive name = (case map_of registry_hive_by_name (upper name) of
      Some h \<Rightarrow> Inr h | None \<Rightarrow> raise_error KeyError ''hive'')"

datatype registry_datum = Data_Bytes "nat list" | Data_Int int | Data_Text pystr | Data_List "pystr list" | Data_None

definition hex_digit :: "nat \<Rightarrow> nat" where
  "hex_digit n = (if n < 10 then 48 + n else 87 + n)"

fun normalize_registry_data :: "registry_datum \<Rightarrow> registry_datum" where
  "normalize_registry_data (Data_Bytes bs) = Data_Text (concat (map (\<lambda>b. [hex_digit (b div 16), hex_digit (b mod 16)]) bs))"
| "normalize_registry_data d = d"

section \<open>Services\<close>

definition service_state_by_int :: "(int \<times> service_state) list" where
  "service_state_by_int =
     [(1, Service_Stopped), (2, Service_Start_Pending), (3, Service_Stop_Pending), (4, Service_Running),
      (5, Service_Continue_Pending), (6, Service_Pause_Pending), (7, Service_Paused)]"

definition service_start_type_by_int :: "(int \<times> start_type) list" where
  "service_start_type_by_int =
     [(0, Start_Boot), (1, Start_System), (2, Start_Automatic), (3, Start_Manual), (4, Start_Disabled)]"

definition service_kind_bits :: "(int \<times> service_kind) list" where
  "service_kind_bits =
     [(0x01, Kernel_Driver), (0x02, File_System_Driver), (0x04, Adapter_Driver), (0x08, Recognizer_Driver),
      (0x10, Own_Process), (0x20, Share_Process), (0x100, Interactive_Process)]"

definition to_win32_service_state :: "int \<Rightarrow> service_state" where
  "to_win32_service_state state = parse_enum service_state_by_int Service_Stopped state"

definition to_service_start_type :: "int \<Rightarrow> start_type" where
  "to_service_start_type start = parse_enum service_start_type_by_int Start_Manual start"

definition from_service_start_type :: "start_type \<Rightarrow> int" where
  "from_service_start_type start = the (key_of service_start_type_by_int start)"

definition to_service_kind :: "int \<Rightarrow> service_kind" where
  "to_service_kind service_type = (case find (\<lambda>(flag, kind). service_type AND flag \<noteq> 0) service_kind_bits of
      Some (flag, kind) \<Rightarrow> kind | None \<Rightarrow> Own_Process)"

section \<open>Events, tasks, labels\<close>

definition event_level_by_int :: "(int \<times> event_level) list" where
  "event_level_by_int =
     [(0, Level_Log_Always), (1, Level_Critical), (2, Level_Error), (3, Level_Warning), (4, Level_Information),
      (5, Level_Verbose)]"

definition to_event_level :: "int \<Rightarrow> event_level" where
  "to_event_level level = parse_enum event_level_by_int Level_Information level"

definition task_state_by_int :: "(int \<times> task_state) list" where
  "task_state_by_int =
     [(0, Task_Unknown), (1, Task_Disabled), (2, Task_Queued), (3, Task_Ready), (4, Task_Running)]"

definition to_task_state :: "int \<Rightarrow> task_state" where
  "to_task_state state = parse_enum task_state_by_int Task_Unknown state"

definition to_task_run_level :: "int \<Rightarrow> run_level" where
  "to_task_run_level v = (if v = 1 then HIGHEST else LIMITED)"

definition integrity_bands :: "(int \<times> integrity_level) list" where
  "integrity_bands =
     [(0x5000, Integrity_Protected), (0x4000, Integrity_System), (0x3000, Integrity_High),
      (0x2000, Integrity_Medium), (0x1000, Integrity_Low)]"

definition to_integrity_level :: "int \<Rightarrow> integrity_level" where
  "to_integrity_level rid = (case find (\<lambda>(floor, level). rid \<ge> floor) integrity_bands of
      Some (floor, level) \<Rightarrow> level | None \<Rightarrow> Integrity_Untrusted)"

definition task_no_result :: "int set" where "task_no_result = {0x41303, 0x41301}"

definition to_task_result :: "int \<Rightarrow> int option" where
  "to_task_result v = (let code = v AND 0xFFFFFFFF in if code \<in> task_no_result then None else Some code)"

definition task_instances_by_int :: "(int \<times> multiple_instances) list" where
  "task_instances_by_int = [(0, PARALLEL), (1, QUEUE), (2, IGNORE_NEW), (3, STOP_EXISTING)]"

definition to_task_multiple_instances :: "int \<Rightarrow> multiple_instances option" where
  "to_task_multiple_instances v = map_of task_instances_by_int v"

definition from_task_multiple_instances :: "multiple_instances \<Rightarrow> int" where
  "from_task_multiple_instances policy = the (key_of task_instances_by_int policy)"

definition deny_ace_types :: "int set" where "deny_ace_types = {1, 6, 10, 12}"

definition to_ace_type :: "int \<Rightarrow> ace_type" where
  "to_ace_type ace = (if ace \<in> deny_ace_types then Ace_Deny else Ace_Allow)"

section \<open>Task durations\<close>

text \<open>One optional field of \<open>_TASK_DURATION\<close>: at most \<open>cap\<close> digits and the letter. The digits of a field
  cannot be read any other way, so the match never goes back on one.\<close>

definition duration_field :: "nat \<Rightarrow> nat \<Rightarrow> pystr \<Rightarrow> pystr option \<times> pystr" where
  "duration_field cap letter s =
     (let ds = takeWhile is_digit s; rest = dropWhile is_digit s in
      if ds \<noteq> [] \<and> length ds \<le> cap \<and> rest \<noteq> [] \<and> hd rest = letter then (Some ds, tl rest) else (None, s))"

type_synonym duration_fields = "pystr option \<times> pystr option \<times> pystr option \<times> pystr option"

definition match_duration :: "pystr \<Rightarrow> duration_fields option" where
  "match_duration s =
     (if s = [] \<or> hd s \<noteq> ch CHR ''P'' then None
      else let (days, rest) = duration_field 10 (ch CHR ''D'') (tl s) in
        if rest = [] then Some (days, None, None, None)
        else if hd rest = ch CHR ''T'' \<and> tl rest \<noteq> [] \<and> is_digit (hd (tl rest)) then
          (let (hours, rest) = duration_field 12 (ch CHR ''H'') (tl rest);
               (minutes, rest) = duration_field 14 (ch CHR ''M'') rest;
               (seconds, rest) = duration_field 16 (ch CHR ''S'') rest
           in if rest = [] then Some (days, hours, minutes, seconds) else None)
        else None)"

definition field_value :: "pystr option \<Rightarrow> nat" where
  "field_value f = (case f of None \<Rightarrow> 0 | Some ds \<Rightarrow> digits_value ds)"

text \<open>\<open>timedelta(**parts)\<close> in seconds, \<open>None\<close> for its \<open>OverflowError\<close>.\<close>

definition timedelta_seconds :: "duration_fields \<Rightarrow> nat option" where
  "timedelta_seconds fs = (case fs of (days, hours, minutes, seconds) \<Rightarrow>
     let total = field_value days * 86400 + field_value hours * 3600 + field_value minutes * 60 + field_value seconds
     in if total div 86400 > 999999999 then None else Some total)"

definition to_task_duration :: "pystr \<Rightarrow> nat option" where
  "to_task_duration v = (case match_duration v of
      None \<Rightarrow> None
    | Some fs \<Rightarrow> if fs = (None, None, None, None) then None else timedelta_seconds fs)"

text \<open>The texts of that form.\<close>

definition field_text :: "nat \<Rightarrow> pystr option \<Rightarrow> pystr" where
  "field_text letter f = (case f of None \<Rightarrow> [] | Some ds \<Rightarrow> ds @ [letter])"

definition field_valid :: "nat \<Rightarrow> pystr option \<Rightarrow> bool" where
  "field_valid cap f \<longleftrightarrow> (case f of None \<Rightarrow> True | Some ds \<Rightarrow> ds \<noteq> [] \<and> length ds \<le> cap \<and> (\<forall>c \<in> set ds. is_digit c))"

fun duration_text :: "duration_fields \<Rightarrow> pystr" where
  "duration_text (days, hours, minutes, seconds) = ch CHR ''P'' # field_text (ch CHR ''D'') days @
     (if hours = None \<and> minutes = None \<and> seconds = None then []
      else ch CHR ''T'' # field_text (ch CHR ''H'') hours @ field_text (ch CHR ''M'') minutes @
             field_text (ch CHR ''S'') seconds)"

fun duration_valid :: "duration_fields \<Rightarrow> bool" where
  "duration_valid (days, hours, minutes, seconds) \<longleftrightarrow>
     field_valid 10 days \<and> field_valid 12 hours \<and> field_valid 14 minutes \<and> field_valid 16 seconds"

lemma duration_field_reads:
  assumes "duration_field cap letter s = (f, rest)"
  shows "s = field_text letter f @ rest \<and> field_valid cap f"
proof (cases f)
  case None
  with assms show ?thesis by (auto simp: duration_field_def field_text_def field_valid_def Let_def split: if_splits)
next
  case (Some ds)
  with assms have ds: "ds = takeWhile is_digit s" "ds \<noteq> []" "length ds \<le> cap"
    and tail: "dropWhile is_digit s \<noteq> []" "hd (dropWhile is_digit s) = letter" "rest = tl (dropWhile is_digit s)"
    unfolding duration_field_def Let_def by (simp_all split: if_splits)
  from tail have rest: "dropWhile is_digit s = letter # rest" by (metis list.collapse)
  have "s = ds @ letter # rest" using takeWhile_dropWhile_id[of is_digit s] by (simp only: ds(1) rest)
  moreover have "\<forall>c \<in> set ds. is_digit c" using ds(1) set_takeWhileD[of _ is_digit s] by blast
  ultimately show ?thesis using Some ds(2,3) by (simp add: field_text_def field_valid_def)
qed

lemma duration_field_finds:
  assumes "field_valid cap (Some ds)" "\<not> is_digit letter"
  shows "duration_field cap letter (ds @ letter # rest) = (Some ds, rest)"
  using assms by (simp add: duration_field_def field_valid_def takeWhile_append2 dropWhile_append2 Let_def)

lemma duration_field_skips:
  assumes "field_valid cap' (Some ds)" "\<not> is_digit other" "other \<noteq> letter"
  shows "duration_field cap letter (ds @ other # rest) = (None, ds @ other # rest)"
  using assms by (simp add: duration_field_def field_valid_def takeWhile_append2 dropWhile_append2 Let_def)

lemma duration_field_none:
  "duration_field cap letter [] = (None, [])"
  "\<not> is_digit c \<Longrightarrow> duration_field cap letter (c # s) = (None, c # s)"
  by (simp_all add: duration_field_def)

lemma letters_no_digits:
  "\<not> is_digit (ch CHR ''D'')" "\<not> is_digit (ch CHR ''H'')" "\<not> is_digit (ch CHR ''M'')" "\<not> is_digit (ch CHR ''S'')"
  "\<not> is_digit (ch CHR ''T'')"
  by (simp_all add: is_digit_def)

lemma match_duration_reads:
  assumes "match_duration s = Some fs"
  shows "s = duration_text fs \<and> duration_valid fs"
proof -
  obtain days r1 where f1: "duration_field 10 (ch CHR ''D'') (tl s) = (days, r1)" by fastforce
  have s: "s = ch CHR ''P'' # tl s" using assms by (cases s) (auto simp: match_duration_def split: if_splits)
  note d = duration_field_reads[OF f1]
  show ?thesis
  proof (cases "r1 = []")
    case True
    with assms f1 have "fs = (days, None, None, None)" by (auto simp: match_duration_def split: if_splits)
    with s d True show ?thesis by (simp add: field_valid_def)
  next
    case False
    obtain hours r2 where f2: "duration_field 12 (ch CHR ''H'') (tl r1) = (hours, r2)" by fastforce
    obtain minutes r3 where f3: "duration_field 14 (ch CHR ''M'') r2 = (minutes, r3)" by fastforce
    obtain seconds r4 where f4: "duration_field 16 (ch CHR ''S'') r3 = (seconds, r4)" by fastforce
    from assms f1 f2 f3 f4 False have r: "hd r1 = ch CHR ''T''" "tl r1 \<noteq> []" "r4 = []" "fs = (days, hours, minutes, seconds)"
      by (auto simp: match_duration_def Let_def split: if_splits)
    note h = duration_field_reads[OF f2] and m = duration_field_reads[OF f3] and c = duration_field_reads[OF f4]
    have "r1 = ch CHR ''T'' # tl r1" using False r(1) by (cases r1) auto
    moreover have "tl r1 = field_text (ch CHR ''H'') hours @ field_text (ch CHR ''M'') minutes @ field_text (ch CHR ''S'') seconds"
      using h m c r(3) by simp
    moreover from this r(2) have "\<not> (hours = None \<and> minutes = None \<and> seconds = None)" by (auto simp: field_text_def)
    ultimately show ?thesis using s d h m c r(4) by simp
  qed
qed

lemma field_skip:
  assumes "field_valid cap' f" "\<not> is_digit other" "other \<noteq> letter"
    "rest = [] \<or> (\<exists>c t. rest = c # t \<and> \<not> is_digit c) \<or> duration_field cap letter rest = (None, rest)"
  shows "duration_field cap letter (field_text other f @ rest) = (None, field_text other f @ rest)"
  using assms by (auto simp: field_text_def duration_field_none duration_field_skips split: option.split)

lemma field_find:
  assumes "field_valid cap f" "\<not> is_digit letter" "duration_field cap letter rest = (None, rest)"
  shows "duration_field cap letter (field_text letter f @ rest) = (f, rest)"
  using assms by (auto simp: field_text_def duration_field_finds split: option.split)

lemma match_duration_finds:
  assumes "duration_valid fs"
  shows "match_duration (duration_text fs) = Some fs"
proof -
  obtain d h m c where fs: "fs = (d, h, m, c)" by (cases fs)
  from assms have v: "field_valid 10 d" "field_valid 12 h" "field_valid 14 m" "field_valid 16 c" by (simp_all add: fs)
  let ?tc = "field_text (ch CHR ''S'') c" let ?tm = "field_text (ch CHR ''M'') m @ ?tc"
  let ?th = "field_text (ch CHR ''H'') h @ ?tm"
  have fc: "duration_field 16 (ch CHR ''S'') ?tc = (c, [])"
    using field_find[OF v(4) letters_no_digits(4), of "[]"] by (simp add: duration_field_none)
  have nc: "duration_field cap letter ?tc = (None, ?tc)" if "letter \<noteq> ch CHR ''S''" for cap letter
    using field_skip[OF v(4) letters_no_digits(4), of letter "[]" cap] that by simp
  have fm: "duration_field 14 (ch CHR ''M'') ?tm = (m, ?tc)"
    by (rule field_find[OF v(3) letters_no_digits(3) nc]) simp
  have nm: "duration_field cap (ch CHR ''H'') ?tm = (None, ?tm)" for cap
    by (rule field_skip[OF v(3) letters_no_digits(3)]) (simp, intro disjI2 nc, simp)
  have fh: "duration_field 12 (ch CHR ''H'') ?th = (h, ?tm)"
    by (rule field_find[OF v(2) letters_no_digits(2) nm])
  have start: "?th \<noteq> [] \<and> is_digit (hd ?th)" if "\<not> (h = None \<and> m = None \<and> c = None)"
    using that v by (auto simp: field_text_def field_valid_def split: option.splits)
  have fd: "duration_field 10 (ch CHR ''D'') (field_text (ch CHR ''D'') d @ rest) = (d, rest)"
    if "rest = [] \<or> hd rest = ch CHR ''T''" for rest
    using that letters_no_digits(5)
    by (intro field_find[OF v(1) letters_no_digits(1)]) (cases rest; simp add: duration_field_none)
  show ?thesis
    using fd[of "[]"] fd[of "ch CHR ''T'' # ?th"] fh fm fc start
    by (auto simp: fs match_duration_def)
qed

lemma match_duration_iff: "match_duration s = Some fs \<longleftrightarrow> s = duration_text fs \<and> duration_valid fs"
  using match_duration_reads match_duration_finds by blast

lemma timedelta_seconds_iff:
  "timedelta_seconds (d, h, m, c) = Some n \<longleftrightarrow> n div 86400 \<le> 999999999 \<and>
     n = field_value d * 86400 + field_value h * 3600 + field_value m * 60 + field_value c"
proof -
  have "(if t div 86400 > 999999999 then None else Some t) = Some n \<longleftrightarrow> n div 86400 \<le> 999999999 \<and> n = t" for t :: nat
    by auto
  then show ?thesis by (simp only: timedelta_seconds_def Let_def prod.case)
qed

lemma to_task_duration_iff:
  "to_task_duration v = Some n \<longleftrightarrow>
     (\<exists>fs. match_duration v = Some fs \<and> fs \<noteq> (None, None, None, None) \<and> timedelta_seconds fs = Some n)"
  by (auto simp: to_task_duration_def split: option.split)

text \<open>\<open>PT<n>S\<close>, the form pwshpy writes, and the fields of a duration in seconds.\<close>

definition seconds_fields :: "nat \<Rightarrow> duration_fields" where
  "seconds_fields n = (None, None, None, Some (decimal n))"

lemma seconds_text: "duration_text (seconds_fields n) = u ''PT'' @ decimal n @ u ''S''"
  by (simp add: seconds_fields_def field_text_def u_def)

lemma decimal_length: "n < 10 ^ k \<Longrightarrow> 0 < k \<Longrightarrow> length (decimal n) \<le> k"
proof (induction n arbitrary: k rule: decimal.induct)
  case (1 n)
  show ?case
  proof (cases "n < 10")
    case True
    then show ?thesis using "1.prems" by (simp add: decimal.simps[of n])
  next
    case False
    with "1.prems" obtain j where k: "k = Suc j" "0 < j" by (cases k; cases "k - 1") auto
    have "n div 10 < 10 ^ j" using "1.prems" k by (simp add: less_mult_imp_div_less mult.commute)
    from "1.IH"[OF False this k(2)] show ?thesis using False k by (simp add: decimal.simps[of n])
  qed
qed

section \<open>The tables\<close>

interpretation registry_types: enum_table registry_type_by_int
proof
  show "m \<in> snd ` set registry_type_by_int" for m by (cases m) (simp_all add: registry_type_by_int_def)
qed (simp_all add: registry_type_by_int_def)

interpretation start_types: enum_table service_start_type_by_int
proof
  show "m \<in> snd ` set service_start_type_by_int" for m by (cases m) (simp_all add: service_start_type_by_int_def)
qed (simp_all add: service_start_type_by_int_def)

interpretation instances: enum_table task_instances_by_int
proof
  show "m \<in> snd ` set task_instances_by_int" for m by (cases m) (simp_all add: task_instances_by_int_def)
qed (simp_all add: task_instances_by_int_def)

interpretation statuses: enum_table process_status_names
proof
  show "m \<in> snd ` set process_status_names" for m by (cases m) (simp_all add: process_status_names_def)
qed (simp_all add: process_status_names_def u_def)

interpretation connections: enum_table connection_state_names
proof
  show "m \<in> snd ` set connection_state_names" for m by (cases m) (simp_all add: connection_state_names_def)
qed (simp_all add: connection_state_names_def u_def)

lemma registry_type_round:
  "to_registry_value_type (from_registry_value_type t) = t"
  "i \<in> fst ` set registry_type_by_int \<Longrightarrow> from_registry_value_type (to_registry_value_type i) = i"
  "i \<notin> fst ` set registry_type_by_int \<Longrightarrow> to_registry_value_type i = REG_NONE"
proof -
  show "to_registry_value_type (from_registry_value_type t) = t"
    using registry_types.key_of_total[of t] registry_types.parse_key_of
    by (auto simp: to_registry_value_type_def from_registry_value_type_def)
  show "i \<in> fst ` set registry_type_by_int \<Longrightarrow> from_registry_value_type (to_registry_value_type i) = i"
    by (simp add: from_registry_value_type_def to_registry_value_type_def registry_types.key_of_parse)
qed (simp add: to_registry_value_type_def registry_types.parse_unknown)

lemma start_type_round:
  "to_service_start_type (from_service_start_type t) = t"
  "i \<in> fst ` set service_start_type_by_int \<Longrightarrow> from_service_start_type (to_service_start_type i) = i"
proof -
  show "to_service_start_type (from_service_start_type t) = t"
    using start_types.key_of_total[of t] start_types.parse_key_of
    by (auto simp: to_service_start_type_def from_service_start_type_def)
  show "i \<in> fst ` set service_start_type_by_int \<Longrightarrow> from_service_start_type (to_service_start_type i) = i"
    by (simp add: from_service_start_type_def to_service_start_type_def start_types.key_of_parse)
qed

lemma instances_round:
  "to_task_multiple_instances i = Some p \<longleftrightarrow> from_task_multiple_instances p = i"
  using instances.key_of_total[of p] instances.lookup_key_of[of p i]
  by (auto simp: to_task_multiple_instances_def from_task_multiple_instances_def)

end
