(* ===== verification/Fileio.thy ===== *)
theory Fileio
  imports Native_Errors Codec
begin

text \<open>
  \<open>adapters/native/fileio.py\<close>: text and records written with one encoding, one kind of line end and no
  byte-order mark unless asked for. Files are a map from paths to bytes; what can fail (opening a file,
  appending to it) is a parameter. The Unicode codecs are definitions; any other codec of Python, and
  Python's table of codec names, are parameters, as is \<open>orjson\<close>.
\<close>

section \<open>Codecs\<close>

definition bomless_codecs :: "(pystr \<times> pystr) list" where
  "bomless_codecs =
     [(u ''utf-8'', u ''utf-8''), (u ''utf-8-sig'', u ''utf-8''), (u ''utf-16'', u ''utf-16-le''),
      (u ''utf-16-le'', u ''utf-16-le''), (u ''utf-16-be'', u ''utf-16-be''), (u ''utf-32'', u ''utf-32-le''),
      (u ''utf-32-le'', u ''utf-32-le''), (u ''utf-32-be'', u ''utf-32-be'')]"

definition bom_bytes :: "(pystr \<times> bytes) list" where
  "bom_bytes =
     [(u ''utf-8'', [0xEF, 0xBB, 0xBF]), (u ''utf-16-le'', [0xFF, 0xFE]), (u ''utf-16-be'', [0xFE, 0xFF]),
      (u ''utf-32-le'', [0xFF, 0xFE, 0, 0]), (u ''utf-32-be'', [0, 0, 0xFE, 0xFF])]"

text \<open>The two bytes of a 16-bit unit and the four of a 32-bit one, low byte first.\<close>

definition two_bytes :: "nat \<Rightarrow> bytes" where "two_bytes c = [c mod 256, c div 256]"

definition four_bytes :: "nat \<Rightarrow> bytes" where
  "four_bytes c = [c mod 256, c div 256 mod 256, c div 65536 mod 256, c div 16777216]"

definition utf16_units :: "nat \<Rightarrow> nat list" where
  "utf16_units c =
     (if c < 0x10000 then [c] else [0xD800 + (c - 0x10000) div 0x400, 0xDC00 + (c - 0x10000) mod 0x400])"

text \<open>Python's encoding of each code point; a lone surrogate is refused by all of them.\<close>

definition unicode_codecs :: "(pystr \<times> (nat \<Rightarrow> bytes)) list" where
  "unicode_codecs =
     [(u ''utf-8'', utf8_char),
      (u ''utf-16-le'', \<lambda>c. concat (map two_bytes (utf16_units c))),
      (u ''utf-16-be'', \<lambda>c. concat (map (rev \<circ> two_bytes) (utf16_units c))),
      (u ''utf-32-le'', four_bytes),
      (u ''utf-32-be'', rev \<circ> four_bytes)]"

record codec_table =
  canonical_name :: "pystr \<Rightarrow> pystr option"
  other_encode :: "pystr \<Rightarrow> pystr \<Rightarrow> bytes option"

definition bomless_codec :: "codec_table \<Rightarrow> pystr \<Rightarrow> pystr option" where
  "bomless_codec cs encoding = (case canonical_name cs encoding of
      None \<Rightarrow> None
    | Some name \<Rightarrow> Some (case map_of bomless_codecs name of Some codec \<Rightarrow> codec | None \<Rightarrow> name))"

definition codec_for :: "codec_table \<Rightarrow> pystr \<Rightarrow> pystr res" where
  "codec_for cs encoding = (case bomless_codec cs encoding of
      None \<Rightarrow> raise_error NativeCallError ''unknown encoding'' | Some codec \<Rightarrow> Inr codec)"

definition encode_text :: "codec_table \<Rightarrow> pystr \<Rightarrow> pystr \<Rightarrow> bytes option" where
  "encode_text cs codec text = (case map_of unicode_codecs codec of
      Some enc \<Rightarrow> if \<forall>c \<in> set text. is_scalar c then Some (concat (map enc text)) else None
    | None \<Rightarrow> other_encode cs codec text)"

definition encode :: "codec_table \<Rightarrow> pystr \<Rightarrow> pystr \<Rightarrow> bytes res" where
  "encode cs codec text = (case encode_text cs codec text of
      None \<Rightarrow> raise_error NativeCallError ''cannot encode'' | Some bs \<Rightarrow> Inr bs)"

definition bom_of :: "pystr \<Rightarrow> bool \<Rightarrow> bytes" where
  "bom_of codec bom = (if bom then (case map_of bom_bytes codec of Some bs \<Rightarrow> bs | None \<Rightarrow> []) else [])"

section \<open>Line ends\<close>

text \<open>\<open>text.replace("\r\n", "\n")\<close>.\<close>

fun crlf_to_lf :: "pystr \<Rightarrow> pystr" where
  "crlf_to_lf [] = []"
| "crlf_to_lf (c # s) =
     (if c = 13 \<and> take 1 s = [10] then 10 # crlf_to_lf (tl s) else c # crlf_to_lf s)"

definition normalize_newlines :: "pystr \<Rightarrow> pystr \<Rightarrow> pystr" where
  "normalize_newlines text newl =
     (let normalized = replace_char 13 [10] (crlf_to_lf text) in
      if newl = [10] then normalized else replace_char 10 newl normalized)"

section \<open>Files\<close>

text \<open>\<open>open_fault\<close>: opening for writing fails. \<open>append_fault path written data\<close>: writing \<open>data\<close> after what was
  written fails, and what the file holds then.\<close>

record 'p file_os =
  open_fault :: "'p \<Rightarrow> os_fault option"
  append_fault :: "'p \<Rightarrow> bytes \<Rightarrow> bytes \<Rightarrow> (os_fault \<times> bytes) option"

type_synonym 'p files = "'p \<rightharpoonup> bytes"

definition append_bytes :: "'p file_os \<Rightarrow> 'p \<Rightarrow> bytes \<Rightarrow> bytes \<Rightarrow> unit res \<times> bytes" where
  "append_bytes os path written data = (case append_fault os path written data of
      None \<Rightarrow> (Inr (), written @ data)
    | Some (f, left) \<Rightarrow> (Inl (except_os ''cannot write'' f), left))"

text \<open>A body run on the opened file: it starts from an empty file, and what it has written stays.\<close>

definition with_open :: "'p file_os \<Rightarrow> 'p \<Rightarrow> (bytes \<Rightarrow> unit res \<times> bytes) \<Rightarrow> 'p files \<Rightarrow> unit res \<times> 'p files" where
  "with_open os path body fs = (case open_fault os path of
      Some f \<Rightarrow> (Inl (except_os ''cannot write'' f), fs)
    | None \<Rightarrow> (let (r, content) = body [] in (r, fs(path \<mapsto> content))))"

definition write_text :: "codec_table \<Rightarrow> 'p file_os \<Rightarrow> 'p \<Rightarrow> pystr \<Rightarrow> pystr \<Rightarrow> pystr \<Rightarrow> bool \<Rightarrow> 'p files \<Rightarrow> unit res \<times> 'p files" where
  "write_text cs os path text encoding newl bom fs = (case codec_for cs encoding of
      Inl e \<Rightarrow> (Inl e, fs)
    | Inr codec \<Rightarrow> (case encode cs codec (normalize_newlines text newl) of
        Inl e \<Rightarrow> (Inl e, fs)
      | Inr data \<Rightarrow> with_open os path (\<lambda>w. append_bytes os path w (bom_of codec bom @ data)) fs))"

text \<open>The chunks as the iterable gives them; it may raise instead of giving the next one.\<close>

fun stream_chunks :: "codec_table \<Rightarrow> 'p file_os \<Rightarrow> 'p \<Rightarrow> pystr \<Rightarrow> pystr \<Rightarrow> pystr \<Rightarrow> (os_fault + pystr) list \<Rightarrow> bytes \<Rightarrow> unit res \<times> bytes" where
  "stream_chunks cs os path codec newl pending [] w =
     (if pending = [] then (Inr (), w)
      else case encode cs codec (normalize_newlines pending newl) of
          Inl e \<Rightarrow> (Inl e, w)
        | Inr data \<Rightarrow> append_bytes os path w data)"
| "stream_chunks cs os path codec newl pending (Inl f # chunks) w = (Inl (except_os ''cannot write'' f), w)"
| "stream_chunks cs os path codec newl pending (Inr chunk # chunks) w =
     (let text = pending @ chunk; pending = (if endswith text [13] then [13] else []);
          complete = normalize_newlines (take (length text - length pending) text) newl
      in case encode cs codec complete of
          Inl e \<Rightarrow> (Inl e, w)
        | Inr data \<Rightarrow> (case append_bytes os path w data of
            (Inl e, w') \<Rightarrow> (Inl e, w')
          | (Inr _, w') \<Rightarrow> stream_chunks cs os path codec newl pending chunks w'))"

definition write_text_stream ::
    "codec_table \<Rightarrow> 'p file_os \<Rightarrow> 'p \<Rightarrow> (os_fault + pystr) list \<Rightarrow> pystr \<Rightarrow> pystr \<Rightarrow> bool \<Rightarrow> 'p files \<Rightarrow> unit res \<times> 'p files" where
  "write_text_stream cs os path chunks encoding newl bom fs = (case codec_for cs encoding of
      Inl e \<Rightarrow> (Inl e, fs)
    | Inr codec \<Rightarrow> with_open os path (\<lambda>w.
        if bom then (case append_bytes os path w (bom_of codec True) of
            (Inl e, w') \<Rightarrow> (Inl e, w')
          | (Inr _, w') \<Rightarrow> stream_chunks cs os path codec newl [] chunks w')
        else stream_chunks cs os path codec newl [] chunks w) fs)"

section \<open>Records\<close>

text \<open>\<open>record_json\<close> is \<open>record_json_bytes\<close>: the bytes of a record, or what \<open>orjson\<close> raises.\<close>

fun jsonl_stream :: "('r \<Rightarrow> error_class + bytes) \<Rightarrow> 'p file_os \<Rightarrow> 'p \<Rightarrow> (os_fault + 'r) list \<Rightarrow> bytes \<Rightarrow> unit res \<times> bytes" where
  "jsonl_stream record_json os path [] w = (Inr (), w)"
| "jsonl_stream record_json os path (Inl f # rs) w = (Inl (except_os ''cannot write'' f), w)"
| "jsonl_stream record_json os path (Inr r # rs) w = (case record_json r of
      Inl c \<Rightarrow> (raise_error c ''json'', w)
    | Inr data \<Rightarrow> (case append_bytes os path w data of
        (Inl e, w') \<Rightarrow> (Inl e, w')
      | (Inr _, w') \<Rightarrow> (case append_bytes os path w' [10] of
          (Inl e, w'') \<Rightarrow> (Inl e, w'')
        | (Inr _, w'') \<Rightarrow> jsonl_stream record_json os path rs w'')))"

fun array_stream :: "('r \<Rightarrow> error_class + bytes) \<Rightarrow> 'p file_os \<Rightarrow> 'p \<Rightarrow> bool \<Rightarrow> (os_fault + 'r) list \<Rightarrow> bytes \<Rightarrow> unit res \<times> bytes" where
  "array_stream record_json os path later [] w = append_bytes os path w (u '']'')"
| "array_stream record_json os path later (Inl f # rs) w = (Inl (except_os ''cannot write'' f), w)"
| "array_stream record_json os path later (Inr r # rs) w =
     (case (if later then append_bytes os path w (u '','') else (Inr (), w)) of
        (Inl e, w') \<Rightarrow> (Inl e, w')
      | (Inr _, w') \<Rightarrow> (case record_json r of
          Inl c \<Rightarrow> (raise_error c ''json'', w')
        | Inr data \<Rightarrow> (case append_bytes os path w' data of
            (Inl e, w'') \<Rightarrow> (Inl e, w'')
          | (Inr _, w'') \<Rightarrow> array_stream record_json os path True rs w'')))"

definition write_records :: "('r \<Rightarrow> error_class + bytes) \<Rightarrow> 'p file_os \<Rightarrow> 'p \<Rightarrow> (os_fault + 'r) list \<Rightarrow> bool \<Rightarrow> 'p files \<Rightarrow> unit res \<times> 'p files" where
  "write_records record_json os path rs jsonl fs =
     with_open os path (\<lambda>w.
       if jsonl then jsonl_stream record_json os path rs w
       else case append_bytes os path w (u ''['') of
           (Inl e, w') \<Rightarrow> (Inl e, w')
         | (Inr _, w') \<Rightarrow> array_stream record_json os path False rs w') fs"

section \<open>Chunks\<close>

text \<open>The Unicode codecs encode code point by code point; of another codec that may be assumed.\<close>

definition homomorphic :: "codec_table \<Rightarrow> pystr \<Rightarrow> bool" where
  "homomorphic cs codec \<longleftrightarrow> encode_text cs codec [] = Some [] \<and>
     (\<forall>s t. encode_text cs codec (s @ t) =
        (case (encode_text cs codec s, encode_text cs codec t) of (Some a, Some b) \<Rightarrow> Some (a @ b) | _ \<Rightarrow> None))"

lemma unicode_homomorphic: "map_of unicode_codecs codec = Some enc \<Longrightarrow> homomorphic cs codec"
  by (auto simp: homomorphic_def encode_text_def)

text \<open>What line-end normalisation does at the border of two pieces: nothing, unless a CR LF is cut.\<close>

lemma crlf_to_lf_append:
  "(s = [] \<or> last s \<noteq> 13) \<or> take 1 t \<noteq> [10] \<Longrightarrow> crlf_to_lf (s @ t) = crlf_to_lf s @ crlf_to_lf t"
proof (induction s rule: crlf_to_lf.induct)
  case (2 c s)
  show ?case
  proof (cases "c = 13 \<and> take 1 (s @ t) = [10]")
    case True
    with "2.prems" have s: "take 1 s = [10]" "s \<noteq> []" by (cases s; auto)+
    then have "crlf_to_lf (tl s @ t) = crlf_to_lf (tl s) @ crlf_to_lf t"
      using "2.IH"(1) "2.prems" True by (cases s; cases "tl s") auto
    with True s show ?thesis by (cases s) auto
  next
    case False
    then have "crlf_to_lf (s @ t) = crlf_to_lf s @ crlf_to_lf t"
      using "2.IH"(2) "2.prems" by (cases s) auto
    with False show ?thesis by (cases s) auto
  qed
qed simp

lemma normalize_append:
  "(s = [] \<or> last s \<noteq> 13) \<or> take 1 t \<noteq> [10] \<Longrightarrow>
     normalize_newlines (s @ t) newl = normalize_newlines s newl @ normalize_newlines t newl"
  by (simp add: normalize_newlines_def Let_def crlf_to_lf_append)

lemma normalize_Nil [simp]: "normalize_newlines [] newl = []"
  by (simp add: normalize_newlines_def)

text \<open>Nothing fails.\<close>

definition sound_disk :: "'p file_os \<Rightarrow> 'p \<Rightarrow> bool" where
  "sound_disk os path \<longleftrightarrow> open_fault os path = None \<and> (\<forall>w data. append_fault os path w data = None)"

lemma append_sound: "sound_disk os path \<Longrightarrow> append_bytes os path w data = (Inr (), w @ data)"
  by (simp add: sound_disk_def append_bytes_def)

lemma hold_back: "endswith t [c] \<Longrightarrow> take (length t - 1) t @ [c] = t"
  by (auto simp: suffix_def)

lemma endswith_last: "t \<noteq> [] \<Longrightarrow> endswith t [last t]"
  by (metis append_butlast_last_id suffixI)

text \<open>One chunk: the part of the text that is complete is written, at most a CR is held back, and normalising
  the two parts apart is normalising them together.\<close>

lemma stream_step:
  obtains held complete where "held = [] \<or> held = [13]"
    "normalize_newlines (pending @ concat (chunk # chunks)) newl =
       normalize_newlines complete newl @ normalize_newlines (held @ concat chunks) newl"
    "\<forall>w. stream_chunks cs os path codec newl pending (Inr chunk # rest) w =
       (case encode cs codec (normalize_newlines complete newl) of
          Inl e \<Rightarrow> (Inl e, w)
        | Inr data \<Rightarrow> (case append_bytes os path w data of
            (Inl e, w') \<Rightarrow> (Inl e, w')
          | (Inr _, w') \<Rightarrow> stream_chunks cs os path codec newl held rest w'))"
proof
  let ?text = "pending @ chunk"
  define held where "held = (if endswith ?text [13] then [13] else [] :: pystr)"
  define complete where "complete = take (length ?text - length held) ?text"
  have whole: "?text = complete @ held"
    using hold_back[of 13 ?text] by (simp add: complete_def held_def del: take_append length_append)
  have border: "complete = [] \<or> last complete \<noteq> 13 \<or> take 1 (held @ concat chunks) \<noteq> [10]"
  proof (cases "held = []")
    case True
    have "\<not> endswith ?text [13]" using True unfolding held_def by (metis list.distinct(1))
    moreover have "complete = ?text" by (simp only: whole True append_Nil2)
    ultimately show ?thesis by (metis endswith_last)
  qed (auto simp: held_def split: if_splits)
  have pieces: "pending @ concat (chunk # chunks) = complete @ held @ concat chunks"
    using whole by (metis append.assoc concat.simps(2))
  show "held = [] \<or> held = [13]" by (simp add: held_def)
  show "normalize_newlines (pending @ concat (chunk # chunks)) newl =
      normalize_newlines complete newl @ normalize_newlines (held @ concat chunks) newl"
    unfolding pieces by (rule normalize_append) (use border in blast)
  show "\<forall>w. stream_chunks cs os path codec newl pending (Inr chunk # rest) w =
       (case encode cs codec (normalize_newlines complete newl) of
          Inl e \<Rightarrow> (Inl e, w)
        | Inr data \<Rightarrow> (case append_bytes os path w data of
            (Inl e, w') \<Rightarrow> (Inl e, w')
          | (Inr _, w') \<Rightarrow> stream_chunks cs os path codec newl held rest w'))"
    unfolding stream_chunks.simps Let_def held_def[symmetric] complete_def[symmetric] by (intro allI refl)
qed

lemma stream_chunks_whole:
  assumes "homomorphic cs codec" "sound_disk os path" "pending = [] \<or> pending = [13]"
  shows "case encode_text cs codec (normalize_newlines (pending @ concat chunks) newl) of
    Some data \<Rightarrow> stream_chunks cs os path codec newl pending (map Inr chunks) w = (Inr (), w @ data)
  | None \<Rightarrow> fst (stream_chunks cs os path codec newl pending (map Inr chunks) w) =
      raise_error NativeCallError ''cannot encode''"
  using assms(3)
proof (induction chunks arbitrary: pending w)
  case Nil
  then show ?case using assms(1)
    by (auto simp: encode_def append_sound[OF assms(2)] homomorphic_def split: option.split)
next
  case (Cons chunk chunks)
  obtain held complete where held: "held = [] \<or> held = [13]"
    and norm: "normalize_newlines (pending @ concat (chunk # chunks)) newl =
       normalize_newlines complete newl @ normalize_newlines (held @ concat chunks) newl"
    and step: "\<forall>w. stream_chunks cs os path codec newl pending (Inr chunk # map Inr chunks) w =
       (case encode cs codec (normalize_newlines complete newl) of
          Inl e \<Rightarrow> (Inl e, w)
        | Inr data \<Rightarrow> (case append_bytes os path w data of
            (Inl e, w') \<Rightarrow> (Inl e, w')
          | (Inr _, w') \<Rightarrow> stream_chunks cs os path codec newl held (map Inr chunks) w'))"
    by (rule stream_step[where pending = pending and chunk = chunk and chunks = chunks and newl = newl and cs = cs
          and os = os and path = path and codec = codec and rest = "map Inr chunks"])
  have split: "encode_text cs codec (normalize_newlines (pending @ concat (chunk # chunks)) newl) =
      (case (encode_text cs codec (normalize_newlines complete newl),
             encode_text cs codec (normalize_newlines (held @ concat chunks) newl)) of
         (Some a, Some b) \<Rightarrow> Some (a @ b) | _ \<Rightarrow> None)"
    using assms(1) by (simp only: norm homomorphic_def)
  show ?case
  proof (cases "encode_text cs codec (normalize_newlines complete newl)")
    case None
    then show ?thesis by (simp only: split step list.map) (simp add: encode_def)
  next
    case (Some a)
    from Cons.IH[OF held, of "w @ a"] Some show ?thesis
      by (simp only: split step list.map) (auto simp: encode_def append_sound[OF assms(2)] split: option.splits)
  qed
qed

section \<open>The text as a whole\<close>

lemma encode_unicode_empty: "map_of unicode_codecs codec = Some enc \<Longrightarrow> encode_text cs codec [] = Some []"
  by (simp add: encode_text_def)

text \<open>The lines of a text, at each CR LF, CR and LF.\<close>

fun text_lines :: "pystr \<Rightarrow> pystr list" where
  "text_lines [] = [[]]"
| "text_lines (c # s) =
     (if c = 13 \<and> take 1 s = [10] then [] # text_lines (tl s)
      else if c = 13 \<or> c = 10 then [] # text_lines s
      else case text_lines s of [] \<Rightarrow> [[c]] | l # ls \<Rightarrow> (c # l) # ls)"

lemma text_lines_not_Nil [simp]: "text_lines s \<noteq> []"
  by (induction s rule: text_lines.induct) (auto split: list.split)

lemma join_cons: "ls \<noteq> [] \<Longrightarrow> join sep (l # ls) = l @ sep @ join sep ls"
  by (cases ls) auto

lemma join_head: "join sep ((c # l) # ls) = c # join sep (l # ls)"
  by (cases ls) auto

lemma lf_lines: "replace_char 13 [10] (crlf_to_lf s) = join [10] (text_lines s)"
  by (induction s rule: text_lines.induct) (auto simp: join_cons join_head split: list.split)

lemma replace_newline_lines:
  assumes "\<forall>l \<in> set ls. 10 \<notin> set l" "ls \<noteq> []"
  shows "replace_char 10 newl (join [10] ls) = join newl ls"
  using assms(2,1)
proof (induction ls rule: list_nonempty_induct)
  case (single l)
  then show ?case by (simp add: replace_char_id)
next
  case (cons l ls)
  then show ?case by (simp add: join_cons replace_char_id)
qed

lemma text_lines_plain: "l \<in> set (text_lines s) \<Longrightarrow> 10 \<notin> set l \<and> 13 \<notin> set l"
  by (induction s arbitrary: l rule: text_lines.induct) (auto split: if_splits list.splits)

text \<open>Every line end becomes the one asked for; the lines stay.\<close>

lemma normalize_lines: "normalize_newlines s newl = join newl (text_lines s)"
  using replace_newline_lines[of "text_lines s" newl] text_lines_plain[of _ s]
  by (auto simp: normalize_newlines_def Let_def lf_lines)

lemma write_text_sound:
  assumes "codec_for cs encoding = Inr codec" "sound_disk os path"
    "encode_text cs codec (normalize_newlines s newl) = Some data"
  shows "write_text cs os path s encoding newl bom fs = (Inr (), fs(path \<mapsto> bom_of codec bom @ data))"
  using assms by (simp add: write_text_def encode_def with_open_def append_sound sound_disk_def append_bytes_def)

lemma stream_sound:
  assumes "codec_for cs encoding = Inr codec" "sound_disk os path" "homomorphic cs codec"
  shows "case encode_text cs codec (normalize_newlines (concat chunks) newl) of
    Some data \<Rightarrow> write_text_stream cs os path (map Inr chunks) encoding newl bom fs = (Inr (), fs(path \<mapsto> bom_of codec bom @ data))
  | None \<Rightarrow> fst (write_text_stream cs os path (map Inr chunks) encoding newl bom fs) =
      raise_error NativeCallError ''cannot encode''"
proof -
  have "write_text_stream cs os path (map Inr chunks) encoding newl bom fs =
      (let (r, content) = stream_chunks cs os path codec newl [] (map Inr chunks) (bom_of codec bom) in (r, fs(path \<mapsto> content)))"
    using assms(1,2) append_sound[OF assms(2), of "[]" "bom_of codec True"]
    by (auto simp: write_text_stream_def with_open_def sound_disk_def bom_of_def)
  with stream_chunks_whole[OF assms(3,2), where pending = "[]" and chunks = chunks and newl = newl and w = "bom_of codec bom"] show ?thesis
    by (auto split: option.splits prod.splits)
qed

section \<open>The records as a whole\<close>

lemma jsonl_sound:
  assumes "sound_disk os path" "\<forall>r \<in> set rs. record_json r = Inr (json r)"
  shows "jsonl_stream record_json os path (map Inr rs) w = (Inr (), w @ concat (map (\<lambda>r. json r @ [10]) rs))"
  using assms(2) by (induction rs arbitrary: w) (simp_all add: append_sound[OF assms(1)])

lemma array_rest_sound:
  assumes "sound_disk os path" "\<forall>r \<in> set rs. record_json r = Inr (json r)"
  shows "array_stream record_json os path True (map Inr rs) w =
    (Inr (), w @ concat (map (\<lambda>r. u '','' @ json r) rs) @ u '']'')"
  using assms(2) by (induction rs arbitrary: w) (simp_all add: append_sound[OF assms(1)])

lemma join_commas: "join sep (l # ls) = l @ concat (map (\<lambda>l. sep @ l) ls)"
  by (induction ls arbitrary: l) (auto simp: join_cons)

lemma array_sound:
  assumes "sound_disk os path" "\<forall>r \<in> set rs. record_json r = Inr (json r)"
  shows "array_stream record_json os path False (map Inr rs) w = (Inr (), w @ join (u '','') (map json rs) @ u '']'')"
proof (cases rs)
  case Nil
  then show ?thesis by (simp add: append_sound[OF assms(1)])
next
  case (Cons r rs')
  have "join (u '','') (map json rs) = json r @ concat (map (\<lambda>r. u '','' @ json r) rs')"
    by (simp add: Cons join_commas comp_def)
  with Cons assms(2) array_rest_sound[OF assms(1), of rs' record_json json "w @ json r"] show ?thesis
    by (simp add: append_sound[OF assms(1)])
qed

lemma split_terminated: "\<forall>l \<in> set ls. c \<notin> set l \<Longrightarrow> split_on c (concat (map (\<lambda>l. l @ [c]) ls)) = ls @ [[]]"
  by (induction ls) (auto simp: split_on_sep)

lemma text_lines_subset: "l \<in> set (text_lines s) \<Longrightarrow> set l \<subseteq> set s"
proof (induction s arbitrary: l rule: text_lines.induct)
  case (2 c s)
  show ?case
  proof (cases "c = 13 \<and> take 1 s = [10]")
    case True
    then have "set (tl s) \<subseteq> set s" by (cases s) auto
    with True 2 show ?thesis by fastforce
  next
    case False
    note IH = "2.IH"(2,3)[OF False]
    show ?thesis
    proof (cases "c = 13 \<or> c = 10")
      case True
      then have "l = [] \<or> l \<in> set (text_lines s)" using False "2.prems" by auto
      with IH(1)[OF True, of l] show ?thesis by auto
    next
      case plain: False
      obtain k ks where "text_lines s = k # ks" by (meson list.exhaust text_lines_not_Nil)
      then have "l = c # k \<or> l \<in> set ks" using False plain "2.prems" by auto
      with \<open>text_lines s = k # ks\<close> IH(2)[OF plain, of k] IH(2)[OF plain, of l] show ?thesis by auto
    qed
  qed
qed simp

lemma set_normalized: "set (normalize_newlines s newl) \<subseteq> set newl \<union> set s"
  using set_join[of newl "text_lines s"] text_lines_subset[of _ s] by (auto simp: normalize_lines)

lemma utf8_codec:
  assumes "canonical_name cs encoding = Some (u ''utf-8'')"
  shows "codec_for cs encoding = Inr (u ''utf-8'')" "encode_text cs (u ''utf-8'') s = utf8_encode s"
  using assms by (simp_all add: codec_for_def bomless_codec_def bomless_codecs_def encode_text_def unicode_codecs_def
      utf8_encode_def u_def)

lemma utf8_written:
  assumes "canonical_name cs encoding = Some (u ''utf-8'')" "sound_disk os path" "\<forall>c \<in> set s \<union> set newl. is_scalar c"
  shows "\<exists>data. write_text cs os path s encoding newl False fs = (Inr (), fs(path \<mapsto> data)) \<and>
    utf8_decode data = Some (join newl (text_lines s))"
proof -
  have "\<forall>c \<in> set (normalize_newlines s newl). is_scalar c" using set_normalized[of s newl] assms(3) by blast
  then obtain data where data: "utf8_encode (normalize_newlines s newl) = Some data" by (simp add: utf8_encode_def)
  have "write_text cs os path s encoding newl False fs = (Inr (), fs(path \<mapsto> bom_of (u ''utf-8'') False @ data))"
    by (rule write_text_sound[OF utf8_codec(1)[OF assms(1)] assms(2)]) (simp add: utf8_codec(2)[OF assms(1)] data)
  with utf8_decode_encode[OF data] show ?thesis
    by (intro exI[of _ data]) (simp add: bom_of_def normalize_lines)
qed

end
