(* ===== verification/Native_Properties.thy ===== *)
theory Native_Properties
  imports Posix_Acl Marshal Fileio
begin

text \<open>
  The properties of the native adapters outside systemd: what a caught failure becomes, and what the ACL
  verbs write.
\<close>

section \<open>Native failures\<close>

text \<open>A wrapper is transparent: when a chain of at most four exceptions that carry no code leads to one
  that does, the error raised is the one that exception itself would have given - class, HRESULT and
  \<open>errno\<close> - and a longer chain gives the plain error without a code.\<close>

theorem wrapping_is_transparent:
  assumes "wrapped k s r c" "\<forall>l \<in> set (walked_links s r). l \<noteq> c \<longrightarrow> \<not> is_psutil_denied (s l)"
  shows "wrap_native s why r kind = (if k \<le> 4 then wrap_native s why c kind else failure kind why None None)"
  using wrap_wrapped[OF assms] by (simp add: max_chain_links_def)

definition registry_store :: "bool raised_store" where
  "registry_store wrapper = (if wrapper
     then (posix_failure 0)\<lparr>class_name := u ''RegistryError'', os_error := False, context_link := Some False,
            suppress_context := True\<rparr>
     else posix_failure 13)"

theorem wrapping_is_transparent_witness:
  "err_class (wrap_native registry_store ''open failed'' True NativeCallError) = NativeAccessDeniedError"
proof -
  have carrier: "is_code_carrier (registry_store False)" by (simp add: registry_store_def is_code_carrier_def posix_failure_def)
  have plain: "\<not> is_code_carrier (registry_store True)" "\<not> is_psutil_denied (registry_store True)"
    by (simp_all add: registry_store_def is_code_carrier_def posix_failure_def is_com_error_def com_error_names_def
        is_psutil_denied_def u_def)
  have "next_link (registry_store True) = Some False"
    by (simp add: next_link_def registry_store_def posix_failure_def)
  with carrier plain have w: "wrapped (Suc 0) registry_store True False" by simp
  have "\<not> is_psutil_denied (registry_store l)" for l
    using plain(2) by (cases l) (auto simp: registry_store_def posix_failure_def is_psutil_denied_def u_def)
  then have "wrap_native registry_store ''open failed'' True NativeCallError =
      wrap_native registry_store ''open failed'' False NativeCallError"
    using wrapping_is_transparent[OF w] by simp
  also have "\<dots> = failure NativeAccessDeniedError ''open failed'' None (Some 13)"
    using wrap_posix_failure[of registry_store False 13 "''open failed''"]
    by (simp add: registry_store_def denied_errnos_def)
  finally show ?thesis by simp
qed

text \<open>An implicit context is never read: which exception a caller up the stack was handling changes
  nothing about the error raised, its class, HRESULT or \<open>errno\<close>.\<close>

theorem implicit_contexts_are_ignored:
  assumes "same_but_implicit s t"
  shows "wrap_native s why r kind = wrap_native t why r kind"
  by (rule wrap_same[OF assms])

definition missing_file :: "nat raised_store" where "missing_file r = posix_failure 2"

definition missing_file_while_handling :: "nat raised_store" where
  "missing_file_while_handling r = (posix_failure 2)\<lparr>context_link := Some 1\<rparr>"

theorem implicit_contexts_are_ignored_witness:
  "wrap_native missing_file ''x'' 0 NativeCallError = wrap_native missing_file_while_handling ''x'' 0 NativeCallError"
  by (rule implicit_contexts_are_ignored)
     (simp add: same_but_implicit_def read_context_def posix_failure_def missing_file_def missing_file_while_handling_def)

text \<open>C39: Every wrapped failure is a \<open>kind\<close> or - only for the default kind - a denial; a pwshpy error that is
  wrapped again keeps whether it is a denial, its HRESULT and its \<open>errno\<close>, but neither its own class (a
  timeout becomes a plain \<open>NativeCallError\<close>) nor its D-Bus name; and the HRESULT is an unsigned 32-bit
  number, E_ACCESSDENIED exactly for the two spellings of that code.\<close>

theorem wrapped_failures_are_typed:
  "err_class (wrap_native s why r kind) \<in> {kind, NativeAccessDeniedError} \<and>
   (kind \<noteq> NativeCallError \<longrightarrow> err_class (wrap_native s why r kind) = kind) \<and>
   (native_call (s r) = Some p \<and> \<not> is_psutil_denied (s r) \<longrightarrow>
      wrap_native s why r NativeCallError =
        (if catches NativeAccessDeniedError (err_class p)
         then failure NativeAccessDeniedError why (err_hresult p) (if os_error (s r) then errno_attr (s r) else None)
         else failure NativeCallError why (err_hresult p) None)) \<and>
   (com_hresult e = Some h \<longrightarrow> 0 \<le> h \<and> h < 2 ^ 32) \<and>
   (win32_to_hresult code = e_accessdenied \<longleftrightarrow> code = 5 \<or> code AND 0xFFFFFFFF = e_accessdenied)"
proof (intro conjI impI)
  show "err_class (wrap_native s why r kind) \<in> {kind, NativeAccessDeniedError}"
    by (simp add: wrap_native_def Let_def split: prod.split)
  show "err_class (wrap_native s why r kind) = kind" if "kind \<noteq> NativeCallError"
    using that by (simp add: wrap_native_def Let_def split: prod.split)
  show "0 \<le> h" "h < 2 ^ 32" if "com_hresult e = Some h" using com_is_hresult[OF that] by (simp_all add: is_hresult_def)
  show "win32_to_hresult code = e_accessdenied \<longleftrightarrow> code = 5 \<or> code AND 0xFFFFFFFF = e_accessdenied"
    using win32_denied[of code] by (simp add: hresult_mask_def)
qed (simp add: wrap_native_call)

theorem wrapped_failures_are_typed_witness:
  "err_class (wrap_native (\<lambda>_. (posix_failure 0)\<lparr>native_call := Some (make_error OperationTimeoutError ''slow'')\<rparr>)
     ''again'' () NativeCallError) = NativeCallError"
proof -
  let ?s = "\<lambda>_ :: unit. (posix_failure 0)\<lparr>native_call := Some (make_error OperationTimeoutError ''slow'')\<rparr> :: unit raised"
  have "\<not> is_psutil_denied (?s ())" by (simp add: is_psutil_denied_def posix_failure_def u_def)
  with wrapped_failures_are_typed[of ?s "''again''" "()" NativeCallError "make_error OperationTimeoutError ''slow''"
      "?s ()" 0 0] show ?thesis by (simp add: catches_NativeAccessDeniedError)
qed

section \<open>POSIX ACLs\<close>

lemma added:
  assumes "parse_trustee os trustee = Inr (tag, ident)" "current_acl os path m = Inr es"
    "acl_content es" "0 \<le> ident" "ident < undefined_id"
  shows "\<exists>new. add_ace os path trustee rights Ace_Allow m = store_acl os path (acl_blob new) m \<and>
    parse_entries (acl_blob new) header_size = Inr new \<and> acl_valid new \<and>
    (\<forall>e \<in> set new. effective_perm new e = entry_perm e) \<and> (\<forall>e \<in> set new. entry_tag e = Tag_Mask \<longrightarrow> entry_id e = undefined_id) \<and>
    filter_mset (\<lambda>e. entry_tag e \<noteq> Tag_Mask) (mset new) =
      filter_mset (\<lambda>e. entry_tag e \<noteq> Tag_Mask \<and> \<not> (entry_tag e = tag \<and> entry_id e = ident)) (mset es) +
      {#\<lparr>entry_tag = tag, entry_perm = word_of_int (rights AND 7), entry_id = ident\<rparr>#}"
proof -
  let ?granted = "\<lparr>entry_tag = tag, entry_perm = word_of_int (rights AND 7), entry_id = ident\<rparr> :: xattr_entry"
  let ?es = "other_entries tag ident es @ [?granted]"
  have named: "tag \<in> named_tags" by (rule parse_trustee_named[OF assms(1)])
  have "acl_content ?es"
    using granted_content[OF assms(3), of ?granted] named assms(4,5) low_perm[of rights] by simp
  moreover have "\<forall>e \<in> set ?es. 0 \<le> entry_id e \<and> entry_id e < 2 ^ 32"
    using current_acl_ids[OF assms(2)] other_entries_subset[of tag ident es] assms(4,5)
    by (auto simp: undefined_id_def)
  ultimately obtain new where new: "write_acl os path (with_recomputed_mask ?es) m = store_acl os path (acl_blob new) m"
    "parse_entries (acl_blob new) header_size = Inr new" "acl_valid new"
    "\<forall>e \<in> set new. effective_perm new e = entry_perm e"
    "filter_mset (\<lambda>e. entry_tag e \<noteq> Tag_Mask) (mset new) = filter_mset (\<lambda>e. entry_tag e \<noteq> Tag_Mask) (mset ?es)"
    "\<forall>e \<in> set new. entry_tag e = Tag_Mask \<longrightarrow> entry_id e = undefined_id"
    by (rule rewritten)
  have "add_ace os path trustee rights Ace_Allow m = store_acl os path (acl_blob new) m"
    using new(1) assms(1,2) by (simp add: add_ace_def)
  with new named show ?thesis
    by (intro exI[of _ new]) (auto simp: named_tags_def other_entries_def filter_filter_mset conj_commute)
qed

text \<open>C35: Granting rights writes one ACL in one call: the entries of everyone else as they were, one entry of the
  trustee with the low three bits of the rights, and a mask that caps nothing. The blob reads back as
  that list, and the kernel accepts it when it accepted the list before.\<close>

theorem add_ace_writes:
  assumes "parse_trustee os trustee = Inr (tag, ident)" "current_acl os path m = Inr es"
    "acl_content es" "0 \<le> ident" "ident < undefined_id"
  shows "\<exists>new. add_ace os path trustee rights Ace_Allow m = store_acl os path (acl_blob new) m \<and>
    parse_entries (acl_blob new) header_size = Inr new \<and> acl_valid new \<and>
    (\<forall>e \<in> set new. effective_perm new e = entry_perm e) \<and>
    filter_mset (\<lambda>e. entry_tag e \<noteq> Tag_Mask) (mset new) =
      filter_mset (\<lambda>e. entry_tag e \<noteq> Tag_Mask \<and> \<not> (entry_tag e = tag \<and> entry_id e = ident)) (mset es) +
      {#\<lparr>entry_tag = tag, entry_perm = word_of_int (rights AND 7), entry_id = ident\<rparr>#}"
  using added[OF assms, of rights] by blast

text \<open>An operating system for the witnesses: one file of mode 0644, whose ACL attribute is the state.\<close>

definition sample_os :: "byte list option posix_os" where
  "sample_os = \<lparr>getxattr = (\<lambda>_ m. case m of None \<Rightarrow> Inl (Os_Errno 61) | Some blob \<Rightarrow> Inr blob),
     setxattr = (\<lambda>_ blob _. (None, Some blob)), stat_path = (\<lambda>_ _. Inr \<lparr>st_mode = 420, st_uid = 0, st_gid = 0\<rparr>),
     chown_path = (\<lambda>_ _ m. (None, m)), getpwuid = (\<lambda>_. Inl (Os_Raises KeyError)),
     getgrgid = (\<lambda>_. Inl (Os_Raises KeyError)), getpwnam = (\<lambda>_. Inr 1000), getgrnam = (\<lambda>_. Inr 1000)\<rparr>"

lemma sample_acl: "current_acl sample_os path None = Inr (base_entries 420)"
  by (simp add: current_acl_def read_raw_def sample_os_def no_extended_acl_def)

lemma sample_user:
  assumes "getpwnam os (u ''ann'') = Inr 1000"
  shows "parse_trustee os (u ''ann'') = Inr (Tag_User, 1000)"
proof -
  have "\<not> isdigit (u ''ann'')"
    by (auto simp: isdigit_def u_def digit_value_def decimal_zeros_def other_digits_def)
  then show ?thesis using assms
    by (simp add: parse_trustee_def resolve_uid_def resolve_id_def) (simp add: u_def)
qed

lemma sample_trustee: "parse_trustee sample_os (u ''ann'') = Inr (Tag_User, 1000)"
  by (rule sample_user) (simp add: sample_os_def)

lemma base_unnamed: "e \<in> set (base_entries mode) \<Longrightarrow> entry_tag e \<notin> named_tags"
  by (auto simp: base_entries_def named_tags_def)

theorem add_ace_writes_witness:
  "\<exists>new. add_ace sample_os (u ''f'') (u ''ann'') 5 Ace_Allow None = (Inr (), Some (acl_blob new)) \<and>
     parse_entries (acl_blob new) header_size = Inr new \<and> acl_valid new"
  using add_ace_writes[OF sample_trustee sample_acl base_content, where rights = 5 and path = "u ''f''"]
  by (auto simp: undefined_id_def store_acl_def sample_os_def)

lemma removed:
  assumes "parse_trustee os trustee = Inr (tag, ident)" "current_acl os path m = Inr es" "acl_content es"
  shows "\<exists>new. remove_ace os path trustee None m = store_acl os path (acl_blob new) m \<and>
    parse_entries (acl_blob new) header_size = Inr new \<and> acl_valid new \<and>
    (\<forall>e \<in> set new. effective_perm new e = entry_perm e) \<and> (\<forall>e \<in> set new. entry_tag e = Tag_Mask \<longrightarrow> entry_id e = undefined_id) \<and>
    filter_mset (\<lambda>e. entry_tag e \<noteq> Tag_Mask) (mset new) =
      filter_mset (\<lambda>e. entry_tag e \<noteq> Tag_Mask \<and> \<not> (entry_tag e = tag \<and> entry_id e = ident)) (mset es)"
proof -
  let ?es = "other_entries tag ident es"
  have "acl_content ?es" by (rule other_content[OF assms(3) parse_trustee_named[OF assms(1)]])
  moreover have "\<forall>e \<in> set ?es. 0 \<le> entry_id e \<and> entry_id e < 2 ^ 32"
    using current_acl_ids[OF assms(2)] other_entries_subset by blast
  ultimately obtain new where new: "write_acl os path (with_recomputed_mask ?es) m = store_acl os path (acl_blob new) m"
    "parse_entries (acl_blob new) header_size = Inr new" "acl_valid new" "\<forall>e \<in> set new. effective_perm new e = entry_perm e"
    "filter_mset (\<lambda>e. entry_tag e \<noteq> Tag_Mask) (mset new) = filter_mset (\<lambda>e. entry_tag e \<noteq> Tag_Mask) (mset ?es)"
    "\<forall>e \<in> set new. entry_tag e = Tag_Mask \<longrightarrow> entry_id e = undefined_id"
    by (rule rewritten)
  moreover have "remove_ace os path trustee None m = store_acl os path (acl_blob new) m"
    using new(1) assms(1,2) by (simp add: remove_ace_def)
  ultimately show ?thesis
    by (intro exI[of _ new]) (simp add: other_entries_def filter_filter_mset conj_commute)
qed

lemma undefined_kept:
  assumes "unnamed_undefined es" "entry_tag granted \<in> named_tags" "\<forall>e \<in> set new. entry_tag e = Tag_Mask \<longrightarrow> entry_id e = undefined_id"
    "filter_mset (\<lambda>e. entry_tag e \<noteq> Tag_Mask) (mset new) \<subseteq># filter_mset (\<lambda>e. entry_tag e \<noteq> Tag_Mask) (mset es) + {#granted#}"
  shows "unnamed_undefined new"
proof -
  have "e \<in> set es \<or> e = granted" if "e \<in> set new" "entry_tag e \<noteq> Tag_Mask" for e
    using mset_subset_eqD[OF assms(4), of e] that by auto
  with assms(1-3) show ?thesis unfolding unnamed_undefined_def by metis
qed

lemma granted_is_read:
  assumes "parse_trustee os trustee = Inr (tag, ident)" "current_acl os path m = Inr es"
    "acl_content es" "unnamed_undefined es" "0 \<le> ident" "ident < undefined_id"
    "\<forall>e \<in> set es. \<not> (entry_tag e = tag \<and> entry_id e = ident)" "keeps_acls os path"
    "add_ace os path trustee rights Ace_Allow m = (Inr (), m1)"
  shows "\<exists>mid. current_acl os path m1 = Inr mid \<and> acl_content mid \<and>
    filter_mset (\<lambda>e. entry_tag e \<noteq> Tag_Mask) (mset mid) = filter_mset (\<lambda>e. entry_tag e \<noteq> Tag_Mask) (mset es) +
      {#\<lparr>entry_tag = tag, entry_perm = word_of_int (rights AND 7), entry_id = ident\<rparr>#}"
proof -
  let ?granted = "\<lparr>entry_tag = tag, entry_perm = word_of_int (rights AND 7), entry_id = ident\<rparr> :: xattr_entry"
  from added[OF assms(1-3,5,6), of rights] obtain mid where
    mid: "add_ace os path trustee rights Ace_Allow m = store_acl os path (acl_blob mid) m" "acl_valid mid"
      "\<forall>e \<in> set mid. entry_tag e = Tag_Mask \<longrightarrow> entry_id e = undefined_id"
      "filter_mset (\<lambda>e. entry_tag e \<noteq> Tag_Mask) (mset mid) =
        filter_mset (\<lambda>e. entry_tag e \<noteq> Tag_Mask \<and> \<not> (entry_tag e = tag \<and> entry_id e = ident)) (mset es) + {#?granted#}"
    by blast
  have "filter_mset (\<lambda>e. entry_tag e \<noteq> Tag_Mask \<and> \<not> (entry_tag e = tag \<and> entry_id e = ident)) (mset es) =
      filter_mset (\<lambda>e. entry_tag e \<noteq> Tag_Mask) (mset es)"
    using assms(7) by (auto intro!: filter_mset_cong)
  with mid(4) have kept: "filter_mset (\<lambda>e. entry_tag e \<noteq> Tag_Mask) (mset mid) = filter_mset (\<lambda>e. entry_tag e \<noteq> Tag_Mask) (mset es) + {#?granted#}"
    by (simp only:)
  have "unnamed_undefined mid"
    by (rule undefined_kept[OF assms(4) _ mid(3), of ?granted]) (use parse_trustee_named[OF assms(1)] kept in simp_all)
  then have "current_acl os path m1 = Inr mid"
    by (rule stored_is_read[OF assms(8) mid(2), of m]) (simp only: mid(1)[symmetric] assms(9))
  with kept acl_valid_content[OF mid(2)] show ?thesis by blast
qed

text \<open>C36: Granting rights to someone the ACL does not name and removing them again leaves the file, read back from the
  kernel, with the entries it had, each giving the permissions it holds. The mask alone may differ: both
  verbs recompute it, so a mask that capped entries before caps none afterwards. Without a named id the ACL goes
  back into the mode bits. A request to remove a deny entry does nothing.\<close>

theorem remove_ace_undoes_add:
  assumes "parse_trustee os trustee = Inr (tag, ident)" "current_acl os path m = Inr es"
    "acl_content es" "unnamed_undefined es" "0 \<le> ident" "ident < undefined_id"
    "\<forall>e \<in> set es. \<not> (entry_tag e = tag \<and> entry_id e = ident)" "keeps_acls os path"
    "add_ace os path trustee rights Ace_Allow m = (Inr (), m1)" "remove_ace os path trustee None m1 = (Inr (), m2)"
  shows "remove_ace os path trustee (Some Ace_Deny) m1 = (Inr (), m1) \<and>
    (\<exists>after. current_acl os path m2 = Inr after \<and> (\<forall>e \<in> set after. effective_perm after e = entry_perm e) \<and>
      filter_mset (\<lambda>e. entry_tag e \<noteq> Tag_Mask) (mset after) = filter_mset (\<lambda>e. entry_tag e \<noteq> Tag_Mask) (mset es))"
proof -
  obtain mid where mid: "current_acl os path m1 = Inr mid" "acl_content mid"
    "filter_mset (\<lambda>e. entry_tag e \<noteq> Tag_Mask) (mset mid) = filter_mset (\<lambda>e. entry_tag e \<noteq> Tag_Mask) (mset es) +
      {#\<lparr>entry_tag = tag, entry_perm = word_of_int (rights AND 7), entry_id = ident\<rparr>#}"
    using granted_is_read[OF assms(1-9)] by blast
  from removed[OF assms(1) mid(1,2)] obtain new where new: "remove_ace os path trustee None m1 = store_acl os path (acl_blob new) m1"
    "acl_valid new" "\<forall>e \<in> set new. effective_perm new e = entry_perm e"
    "\<forall>e \<in> set new. entry_tag e = Tag_Mask \<longrightarrow> entry_id e = undefined_id"
    "filter_mset (\<lambda>e. entry_tag e \<noteq> Tag_Mask) (mset new) =
      filter_mset (\<lambda>e. entry_tag e \<noteq> Tag_Mask \<and> \<not> (entry_tag e = tag \<and> entry_id e = ident)) (mset mid)" by blast
  have "\<dots> = filter_mset (\<lambda>e. \<not> (entry_tag e = tag \<and> entry_id e = ident)) (filter_mset (\<lambda>e. entry_tag e \<noteq> Tag_Mask) (mset mid))"
    by (simp add: filter_filter_mset conj_commute)
  also have "\<dots> = filter_mset (\<lambda>e. entry_tag e \<noteq> Tag_Mask) (mset es)"
    using assms(7) unfolding mid(3) by (auto simp: filter_filter_mset intro!: filter_mset_cong)
  finally have kept: "filter_mset (\<lambda>e. entry_tag e \<noteq> Tag_Mask) (mset new) = filter_mset (\<lambda>e. entry_tag e \<noteq> Tag_Mask) (mset es)"
    using new(5) by (simp only:)
  let ?granted = "\<lparr>entry_tag = tag, entry_perm = 0, entry_id = ident\<rparr> :: xattr_entry"
  have "unnamed_undefined new"
    by (rule undefined_kept[OF assms(4) _ new(4), of ?granted]) (use parse_trustee_named[OF assms(1)] kept in simp_all)
  then have "current_acl os path m2 = Inr new"
    by (rule stored_is_read[OF assms(8) new(2), of m1]) (simp only: new(1)[symmetric] assms(10))
  with new(3) kept show ?thesis by (auto simp: remove_ace_def)
qed

text \<open>A kernel for the witness: the mode of one file, and its extended ACL.\<close>

definition base_mode :: "xattr_entry list \<Rightarrow> int" where
  "base_mode es = foldl (\<lambda>mode e. 8 * mode + uint (entry_perm e)) 0 es"

definition sample_kernel :: "(int \<times> byte list option) posix_os" where
  "sample_kernel = \<lparr>getxattr = (\<lambda>_ (mode, acl). case acl of None \<Rightarrow> Inl (Os_Errno 61) | Some blob \<Rightarrow> Inr blob),
     setxattr = (\<lambda>_ blob (mode, acl). case parse_entries blob header_size of
         Inl _ \<Rightarrow> (Some (Os_Errno 22), (mode, acl))
       | Inr es \<Rightarrow> (None, if \<exists>e \<in> set es. entry_tag e \<in> named_tags then (mode, Some blob) else (base_mode es, None))),
     stat_path = (\<lambda>_ (mode, acl). Inr \<lparr>st_mode = mode, st_uid = 0, st_gid = 0\<rparr>),
     chown_path = (\<lambda>_ _ m. (None, m)), getpwuid = (\<lambda>_. Inl (Os_Raises KeyError)),
     getgrgid = (\<lambda>_. Inl (Os_Raises KeyError)), getpwnam = (\<lambda>_. Inr 1000), getgrnam = (\<lambda>_. Inr 1000)\<rparr>"

lemma octal_digits:
  fixes x y z :: int
  assumes "0 \<le> x" "x < 8" "0 \<le> y" "y < 8" "0 \<le> z" "z < 8"
  shows "(64 * x + 8 * y + z) div 64 mod 8 = x" "(64 * x + 8 * y + z) div 8 mod 8 = y" "(64 * x + 8 * y + z) mod 8 = z"
proof -
  have "(64 * x + 8 * y + z) div 64 = x" "(64 * x + 8 * y + z) div 8 = 8 * x + y" using assms by linarith+
  with assms show "(64 * x + 8 * y + z) div 64 mod 8 = x" "(64 * x + 8 * y + z) div 8 mod 8 = y" by simp_all
  have "64 * x + 8 * y + z = z + 8 * (8 * x + y)" by simp
  with assms show "(64 * x + 8 * y + z) mod 8 = z" by (metis mod_mult_self2 mod_pos_pos_trivial)
qed

lemma base_mode_read:
  assumes "\<forall>e \<in> set new. entry_perm e AND 7 = entry_perm e" "unnamed_undefined new"
    "map entry_tag new = [Tag_User_Obj, Tag_Group_Obj, Tag_Other]"
  shows "base_entries (base_mode new) = new"
proof -
  obtain a b c where new: "new = [a, b, c]" "entry_tag a = Tag_User_Obj" "entry_tag b = Tag_Group_Obj" "entry_tag c = Tag_Other"
    using assms(3) by (cases new; cases "tl new"; cases "tl (tl new)"; cases "tl (tl (tl new))") auto
  have and7: "x AND 7 = x mod 8" for x :: int using take_bit_eq_mask[of 3 x] by (simp add: take_bit_eq_mod mask_eq_exp_minus_1)
  have low: "uint (entry_perm e) < 8 \<and> 0 \<le> uint (entry_perm e)" if "e \<in> set new" for e
  proof -
    have "uint (entry_perm e) = uint (entry_perm e AND 7)" using assms(1) that by simp
    also have "\<dots> = uint (entry_perm e) mod 8" by (simp add: unsigned_and_eq and7)
    finally show ?thesis by (metis pos_mod_bound pos_mod_sign zero_less_numeral)
  qed
  have ids: "entry_id a = undefined_id" "entry_id b = undefined_id" "entry_id c = undefined_id"
    using assms(2) new by (auto simp: unnamed_undefined_def named_tags_def)
  let ?m = "base_mode new"
  have mode: "?m = 64 * uint (entry_perm a) + 8 * uint (entry_perm b) + uint (entry_perm c)" by (simp add: base_mode_def new(1))
  have "drop_bit 6 ?m AND 7 = uint (entry_perm a)" "drop_bit 3 ?m AND 7 = uint (entry_perm b)" "?m AND 7 = uint (entry_perm c)"
    unfolding and7 drop_bit_eq_div mode using octal_digits low[of a] low[of b] low[of c] new(1) by auto
  then show ?thesis unfolding base_entries_def using new ids by simp
qed

lemma sample_kernel_keeps: "keeps_acls sample_kernel path"
  unfolding keeps_acls_def
proof (intro allI impI, elim conjE)
  fix new m m'
  assume new: "acl_valid new" "unnamed_undefined new" "setxattr sample_kernel path (acl_blob new) m = (None, m')"
  obtain mode acl where m: "m = (mode, acl)" by (cases m)
  have known: "\<forall>e \<in> set new. known_tag (entry_tag e)" using new(1) by (simp add: acl_valid_def)
  have parsed: "parse_entries (acl_blob new) header_size = Inr (map stored new)" by (rule parse_blob[OF known])
  have "(\<exists>e \<in> set (map stored new). entry_tag e \<in> named_tags) \<longleftrightarrow> (\<exists>e \<in> set new. entry_tag e \<in> named_tags)"
    by (simp add: stored_def)
  then have m': "m' = (if \<exists>e \<in> set new. entry_tag e \<in> named_tags then (mode, Some (acl_blob new)) else (base_mode (map stored new), None))"
    using new(3) m parsed by (auto simp: sample_kernel_def)
  have "base_entries (base_mode new) = new" if "\<not> (\<exists>e \<in> set new. entry_tag e \<in> named_tags)"
    using that base_only[OF new(1)] new(1,2) by (intro base_mode_read) (auto simp: acl_valid_def)
  moreover have "base_mode (map stored new) = base_mode new" by (simp add: base_mode_def foldl_map stored_def)
  ultimately show "if \<exists>e \<in> set new. entry_tag e \<in> named_tags then getxattr sample_kernel path m' = Inr (acl_blob new)
     else getxattr sample_kernel path m' = Inl (Os_Errno 61) \<and>
       (\<exists>info. stat_path sample_kernel path m' = Inr info \<and> base_entries (st_mode info) = new)"
    unfolding m' by (simp add: sample_kernel_def)
qed

theorem remove_ace_undoes_add_witness:
  "\<exists>m1 m2 after. add_ace sample_kernel (u ''f'') (u ''ann'') 5 Ace_Allow (420, None) = (Inr (), m1) \<and>
     remove_ace sample_kernel (u ''f'') (u ''ann'') None m1 = (Inr (), m2) \<and> current_acl sample_kernel (u ''f'') m2 = Inr after \<and>
     filter_mset (\<lambda>e. entry_tag e \<noteq> Tag_Mask) (mset after) = filter_mset (\<lambda>e. entry_tag e \<noteq> Tag_Mask) (mset (base_entries 420))"
proof -
  have trustee: "parse_trustee sample_kernel (u ''ann'') = Inr (Tag_User, 1000)"
    by (rule sample_user) (simp add: sample_kernel_def)
  have acl: "current_acl sample_kernel (u ''f'') (420, None) = Inr (base_entries 420)"
    by (simp add: current_acl_def read_raw_def sample_kernel_def no_extended_acl_def)
  have stores: "\<exists>m'. store_acl sample_kernel (u ''f'') (acl_blob new) m = (Inr (), m')"
    if "parse_entries (acl_blob new) header_size = Inr new" for new m
    using that by (cases m) (simp add: store_acl_def sample_kernel_def)
  have id: "0 \<le> (1000 :: int)" "1000 < undefined_id" by (simp_all add: undefined_id_def)
  obtain new where "add_ace sample_kernel (u ''f'') (u ''ann'') 5 Ace_Allow (420, None) =
      store_acl sample_kernel (u ''f'') (acl_blob new) (420, None)" "parse_entries (acl_blob new) header_size = Inr new"
    using added[OF trustee acl base_content id, of 5] by blast
  with stores obtain m1 where
    add: "add_ace sample_kernel (u ''f'') (u ''ann'') 5 Ace_Allow (420, None) = (Inr (), m1)" by metis
  have fresh: "\<forall>e \<in> set (base_entries 420). \<not> (entry_tag e = Tag_User \<and> entry_id e = 1000)" "unnamed_undefined (base_entries 420)"
    using base_unnamed[of _ 420] by (auto simp: named_tags_def unnamed_undefined_def base_entries_def)
  obtain mid where "current_acl sample_kernel (u ''f'') m1 = Inr mid" "acl_content mid"
    using granted_is_read[OF trustee acl base_content fresh(2) id fresh(1) sample_kernel_keeps add] by blast
  from removed[OF trustee this] stores obtain m2 where
    remove: "remove_ace sample_kernel (u ''f'') (u ''ann'') None m1 = (Inr (), m2)" by metis
  from remove_ace_undoes_add[OF trustee acl base_content fresh(2) id fresh(1) sample_kernel_keeps add remove] add remove
  show ?thesis by blast
qed

text \<open>C37: An ACL that cannot be read is never taken for the mode bits: a \<open>getxattr\<close> that fails for any reason
  but "no extended ACL" ends the listing with a typed error - a denial for EACCES and EPERM - and neither
  granting nor removing writes anything.\<close>

theorem unreadable_acl_is_not_rewritten:
  assumes "getxattr os path m = Inl (Os_Errno n)" "n \<noteq> 61" "n \<noteq> 95"
  shows "snd (add_ace os path trustee rights access m) = m \<and> snd (remove_ace os path trustee access' m) = m \<and>
    (\<exists>e. fst (add_ace os path trustee rights access m) = Inl e) \<and>
    (\<exists>e. iter_acl os path m = ([], Inl e) \<and> (stat_path os path m = Inr info \<longrightarrow>
       err_class e = (if n = 13 \<or> n = 1 then NativeAccessDeniedError else NativeCallError)))"
proof -
  have "current_acl os path m = Inl (posix_error ''cannot read the ACL'' n)"
    using assms by (simp add: current_acl_def read_raw_def no_extended_acl_def)
  moreover have "err_class (posix_error ''cannot read the ACL'' n) =
      (if n = 13 \<or> n = 1 then NativeAccessDeniedError else NativeCallError)"
    by (simp add: posix_error_def wrap_posix_failure denied_errnos_def pwshpy_error.truncate_def)
  ultimately show ?thesis
    by (auto simp: add_ace_def remove_ace_def iter_acl_def split: sum.splits prod.splits)
qed

theorem unreadable_acl_is_not_rewritten_witness:
  "snd (add_ace (sample_os\<lparr>getxattr := \<lambda>_ _. Inl (Os_Errno 13)\<rparr>) (u ''f'') (u ''ann'') 5 Ace_Allow None) = None"
  using unreadable_acl_is_not_rewritten[of "sample_os\<lparr>getxattr := \<lambda>_ _. Inl (Os_Errno 13)\<rparr>" "u ''f''" None 13
      "u ''ann''" 5 Ace_Allow] by simp

text \<open>C38: A uid of digits is taken as given, and only packing cuts it to 32 bits: granting rights to user
  4294967296, whom no system has, writes an entry for user 0 - and leaves the entry user 0 had beside it.\<close>

theorem oversized_id_reaches_root:
  assumes "current_acl os path m = Inr es" "\<forall>e \<in> set es. known_tag (entry_tag e)"
  shows "\<exists>blob written. add_ace os path (u ''user:4294967296'') rights Ace_Allow m = store_acl os path blob m \<and>
    parse_entries blob header_size = Inr written \<and>
    \<lparr>entry_tag = Tag_User, entry_perm = word_of_int (rights AND 7), entry_id = 0\<rparr> \<in> set written \<and>
    {e \<in> set es. entry_tag e = Tag_User \<and> entry_id e = 0} \<subseteq> set written"
proof -
  have digits: "isdigit (u ''4294967296'')" "int_of_digits (u ''4294967296'') = Some 4294967296"
    using isdigit_ascii[of "u ''4294967296''"] int_of_digits_ascii[of "u ''4294967296''"]
    by (simp_all add: u_def is_digit_def max_str_digits_def digits_value_def)
  have "drop 5 (u ''user:4294967296'') = u ''4294967296''" "startswith (u ''user:4294967296'') (u ''user:'')"
    "\<not> startswith (u ''user:4294967296'') (u ''group:'')" by (simp_all add: u_def)
  with digits have t: "parse_trustee os (u ''user:4294967296'') = Inr (Tag_User, 4294967296)"
    by (simp add: parse_trustee_def resolve_uid_def resolve_id_def)
  let ?g = "\<lparr>entry_tag = Tag_User, entry_perm = word_of_int (rights AND 7), entry_id = 4294967296\<rparr> :: xattr_entry"
  let ?es = "other_entries Tag_User 4294967296 es @ [?g]"
  let ?new = "sort_entries (with_recomputed_mask ?es)"
  have known: "\<forall>e \<in> set ?es. known_tag (entry_tag e)" using assms(2) other_entries_subset by fastforce
  have "add_ace os path (u ''user:4294967296'') rights Ace_Allow m = store_acl os path (acl_blob ?new) m"
    using write_known[OF known] t assms(1) by (simp add: add_ace_def)
  moreover note written_parses[OF known]
  moreover have kept: "e \<in> set ?new" if "e \<in> set ?es" "entry_tag e \<noteq> Tag_Mask" for e
    using that by (auto simp: with_recomputed_mask_def Let_def)
  have "stored ?g \<in> set (map stored ?new)" using kept[of ?g] by (simp only: set_map) (intro imageI, simp)
  moreover have "{e \<in> set es. entry_tag e = Tag_User \<and> entry_id e = 0} \<subseteq> set (map stored ?new)"
    using kept by (force simp: other_entries_def stored_def intro!: image_eqI)
  ultimately show ?thesis by (intro exI[of _ "acl_blob ?new"] exI[of _ "map stored ?new"]) (simp add: stored_def)
qed

theorem oversized_id_reaches_root_witness:
  "\<exists>blob. add_ace sample_os (u ''f'') (u ''user:4294967296'') 7 Ace_Allow None = (Inr (), Some blob)"
  using oversized_id_reaches_root[OF sample_acl, of "u ''f''" 7] base_content[of 420]
  by (auto simp: acl_content_def store_acl_def sample_os_def)

section \<open>Native values\<close>

text \<open>The tables of registry types, service start types and task instance policies translate both ways:
  every member has one id, reading that id gives the member back, and an id of the table is the id of
  what it reads as; an unknown id reads as the fallback.\<close>

theorem ids_translate_both_ways:
  "to_registry_value_type (from_registry_value_type t) = t \<and>
   (if 0 \<le> i \<and> i \<le> 11 then from_registry_value_type (to_registry_value_type i) = i
    else to_registry_value_type i = REG_NONE) \<and>
   to_service_start_type (from_service_start_type st) = st \<and>
   (if 0 \<le> i \<and> i \<le> 4 then from_service_start_type (to_service_start_type i) = i
    else to_service_start_type i = Start_Manual) \<and>
   (to_task_multiple_instances i = Some p \<longleftrightarrow> from_task_multiple_instances p = i)"
proof -
  have "i \<in> fst ` set registry_type_by_int \<longleftrightarrow> 0 \<le> i \<and> i \<le> 11"
    by (simp add: registry_type_by_int_def) presburger
  moreover have "i \<in> fst ` set service_start_type_by_int \<longleftrightarrow> 0 \<le> i \<and> i \<le> 4"
    by (simp add: service_start_type_by_int_def) presburger
  ultimately show ?thesis
    using registry_type_round start_type_round instances_round
    by (auto simp: to_service_start_type_def start_types.parse_unknown)
qed

text \<open>A duration is read exactly when it is \<open>P[nD][T[nH][nM][nS]]\<close> with at least one field, within the digits
  a field may have and within what a \<open>timedelta\<close> holds, and is the sum of its fields; the form \<open>PT<n>S\<close>
  pwshpy writes reads back as \<open>n\<close>.\<close>

theorem task_durations_read:
  "(to_task_duration v = Some n \<longleftrightarrow>
      (\<exists>d h m c. v = duration_text (d, h, m, c) \<and> duration_valid (d, h, m, c) \<and>
         (d, h, m, c) \<noteq> (None, None, None, None) \<and> n div 86400 \<le> 999999999 \<and>
         n = field_value d * 86400 + field_value h * 3600 + field_value m * 60 + field_value c)) \<and>
   (k \<le> 2147483647 \<longrightarrow> to_task_duration (u ''PT'' @ decimal k @ u ''S'') = Some k)"
proof (intro conjI impI)
  show "to_task_duration v = Some n \<longleftrightarrow>
      (\<exists>d h m c. v = duration_text (d, h, m, c) \<and> duration_valid (d, h, m, c) \<and>
         (d, h, m, c) \<noteq> (None, None, None, None) \<and> n div 86400 \<le> 999999999 \<and>
         n = field_value d * 86400 + field_value h * 3600 + field_value m * 60 + field_value c)"
    unfolding to_task_duration_iff match_duration_iff split_paired_Ex timedelta_seconds_iff by (simp only: conj_assoc)
  assume k: "k \<le> 2147483647"
  have "match_duration (u ''PT'' @ decimal k @ u ''S'') = Some (seconds_fields k)"
    using decimal_length[of k 16] decimal_digits[of k] k seconds_text[of k]
    by (simp add: match_duration_iff seconds_fields_def field_valid_def)
  moreover have "timedelta_seconds (seconds_fields k) = Some k"
    using k by (simp add: timedelta_seconds_def seconds_fields_def field_value_def decimal_value)
  ultimately show "to_task_duration (u ''PT'' @ decimal k @ u ''S'') = Some k"
    by (simp add: to_task_duration_def seconds_fields_def)
qed

theorem task_durations_read_witness:
  "to_task_duration (u ''PT'' @ decimal 90 @ u ''S'') = Some 90"
  using task_durations_read[of "[]" 0 90] by simp

section \<open>Files\<close>

text \<open>C40: With a codec that encodes a text piece by piece, as the Unicode ones do, and on a disk that does not fail,
  streaming a text writes what writing it whole writes, wherever the chunks cut it - a CR LF between two
  chunks included: the same bytes, mark and line ends; and a text the codec cannot represent is refused by
  both with the same error, of which the whole write has then written nothing. A codec with a state (\<open>utf-7\<close>, the
  \<open>iso2022\<close> family) encodes the chunks to other bytes than the whole.\<close>

theorem streaming_is_writing:
  assumes "codec_for cs encoding = Inr codec" "homomorphic cs codec" "sound_disk os path"
  shows "case write_text cs os path (concat chunks) encoding newl bom fs of
    (Inr _, fs') \<Rightarrow> write_text_stream cs os path (map Inr chunks) encoding newl bom fs = (Inr (), fs')
  | (Inl e, fs') \<Rightarrow> fst (write_text_stream cs os path (map Inr chunks) encoding newl bom fs) = Inl e \<and> fs' = fs"
proof (cases "encode_text cs codec (normalize_newlines (concat chunks) newl)")
  case None
  then have "write_text cs os path (concat chunks) encoding newl bom fs = (raise_error NativeCallError ''cannot encode'', fs)"
    by (simp add: write_text_def assms(1) encode_def)
  with stream_sound[OF assms(1,3,2), of chunks newl bom fs] None show ?thesis by simp
next
  case (Some data)
  with stream_sound[OF assms(1,3,2), of chunks newl bom fs] write_text_sound[OF assms(1,3) Some] show ?thesis by simp
qed

definition sample_codecs :: codec_table where
  "sample_codecs = \<lparr>canonical_name = (\<lambda>e. Some (u ''utf-8'')), other_encode = (\<lambda>_ _. None)\<rparr>"

definition sample_disk :: "pystr file_os" where
  "sample_disk = \<lparr>open_fault = (\<lambda>_. None), append_fault = (\<lambda>_ _ _. None)\<rparr>"

lemma sample_disk_sound: "sound_disk sample_disk path"
  by (simp add: sound_disk_def sample_disk_def)

lemma sample_codec:
  "codec_for sample_codecs e = Inr (u ''utf-8'')" "homomorphic sample_codecs (u ''utf-8'')"
  using utf8_codec(1)[of sample_codecs e] unicode_homomorphic[of "u ''utf-8''" utf8_char sample_codecs]
  by (simp_all add: sample_codecs_def unicode_codecs_def)

theorem streaming_is_writing_witness:
  "write_text_stream sample_codecs sample_disk (u ''f'') [Inr [97, 13], Inr [10, 98]] (u ''utf-8'') [10] False Map.empty =
     (Inr (), [u ''f'' \<mapsto> [97, 10, 98]])"
proof -
  have "write_text sample_codecs sample_disk (u ''f'') [97, 13, 10, 98] (u ''utf-8'') [10] False Map.empty =
      (Inr (), [u ''f'' \<mapsto> bom_of (u ''utf-8'') False @ [97, 10, 98]])"
    by (rule write_text_sound[OF sample_codec(1) sample_disk_sound])
       (simp add: normalize_newlines_def encode_text_def unicode_codecs_def is_scalar_def utf8_char_def)
  with streaming_is_writing[OF sample_codec sample_disk_sound, where path = "u ''f''" and chunks = "[[97, 13], [10, 98]]"
      and newl = "[10]" and bom = False and fs = Map.empty and encoding = "u ''utf-8''"]
  show ?thesis by (simp add: bom_of_def)
qed

text \<open>A text written as UTF-8 reads back as its own lines, each ended by the line end asked for: decoding the
  bytes of the file gives the lines of the text joined by that line end, and there is no mark in front.\<close>

theorem written_text_reads_back:
  assumes "canonical_name cs encoding = Some (u ''utf-8'')" "sound_disk os path" "\<forall>c \<in> set s \<union> set newl. is_scalar c"
  shows "\<exists>data. write_text cs os path s encoding newl False fs = (Inr (), fs(path \<mapsto> data)) \<and>
    utf8_decode data = Some (join newl (text_lines s))"
  by (rule utf8_written[OF assms])

theorem written_text_reads_back_witness:
  "\<exists>data. write_text sample_codecs sample_disk (u ''f'') [228, 13, 10] (u ''utf-8'') [10] False Map.empty = (Inr (), [u ''f'' \<mapsto> data]) \<and>
     utf8_decode data = Some [228, 10]"
  using written_text_reads_back[of sample_codecs "u ''utf-8''" sample_disk "u ''f''" "[228, 13, 10]" "[10]" Map.empty] sample_disk_sound
  by (simp add: sample_codecs_def is_scalar_def)

text \<open>Records are written one by one and read back one by one: when the JSON of a record holds no newline, the
  lines of a JSONL file are the JSON of the records, in order, each ended by a newline; the JSON array is
  the same texts between brackets, separated by commas - none of them for no record.\<close>

theorem records_are_lines:
  assumes "sound_disk os path" "\<forall>r \<in> set rs. record_json r = Inr (json r) \<and> newline \<notin> set (json r)"
  shows "\<exists>lines. write_records record_json os path (map Inr rs) True fs = (Inr (), fs(path \<mapsto> lines)) \<and>
      split_on newline lines = map json rs @ [[]] \<and>
    write_records record_json os path (map Inr rs) False fs =
      (Inr (), fs(path \<mapsto> u ''['' @ join (u '','') (map json rs) @ u '']''))"
proof -
  have json: "\<forall>r \<in> set rs. record_json r = Inr (json r)" and plain: "\<forall>l \<in> set (map json rs). newline \<notin> set l"
    using assms(2) by auto
  have "write_records record_json os path (map Inr rs) True fs = (Inr (), fs(path \<mapsto> concat (map (\<lambda>r. json r @ [newline]) rs)))"
    using jsonl_sound[OF assms(1) json, of "[]"] assms(1) by (simp add: write_records_def with_open_def sound_disk_def)
  moreover have "split_on newline (concat (map (\<lambda>r. json r @ [newline]) rs)) = map json rs @ [[]]"
    using split_terminated[OF plain] by (simp add: comp_def)
  moreover have "write_records record_json os path (map Inr rs) False fs =
      (Inr (), fs(path \<mapsto> u ''['' @ join (u '','') (map json rs) @ u '']''))"
    using array_sound[OF assms(1) json, of "u ''[''"] assms(1) append_sound[OF assms(1), of "[]" "u ''[''"]
    by (simp add: write_records_def with_open_def sound_disk_def)
  ultimately show ?thesis by blast
qed

theorem records_are_lines_witness:
  "\<exists>lines. write_records (\<lambda>n :: nat. Inr (decimal n)) sample_disk (u ''f'') (map Inr [1, 20]) True Map.empty =
     (Inr (), [u ''f'' \<mapsto> lines]) \<and> split_on newline lines = [decimal 1, decimal 20, []]"
proof -
  have "\<forall>n \<in> set [1, 20]. (\<lambda>n :: nat. Inr (decimal n)) n = Inr (decimal n) \<and> newline \<notin> set (decimal n)"
    using decimal_digits[of 1] decimal_digits[of 20] unfolding is_digit_def by fastforce
  from records_are_lines[OF sample_disk_sound this, of "u ''f''" Map.empty] show ?thesis by auto
qed

end
