(* ===== verification/Py_Paths.thy ===== *)
theory Py_Paths
  imports Codec
begin

text \<open>
  The parts of the standard library the packer rests on: \<open>pathlib\<close>'s pure paths, as POSIX reads them (a
  path is rooted or not, and a list of components; two leading slashes are read as one), and
  \<open>bytes.decode('utf-8', 'replace')\<close>.
\<close>

section \<open>Pure paths\<close>

record path =
  rooted :: bool
  parts :: "pystr list"

definition slash_char :: nat where "slash_char = 47"
definition dot_char :: nat where "dot_char = 46"

text \<open>\<open>Path(s)\<close>: empty components and \<open>.\<close> are dropped, \<open>..\<close> is kept.\<close>

definition path_of :: "pystr \<Rightarrow> path" where
  "path_of s = \<lparr>rooted = (take 1 s = [slash_char]),
     parts = filter (\<lambda>c. c \<noteq> [] \<and> c \<noteq> [dot_char]) (split_on slash_char s)\<rparr>"

text \<open>\<open>path / s\<close>: a rooted right side replaces the left.\<close>

definition path_join :: "path \<Rightarrow> pystr \<Rightarrow> path" where
  "path_join p s = (let q = path_of s in if rooted q then q else p\<lparr>parts := parts p @ parts q\<rparr>)"

definition parent :: "path \<Rightarrow> path" where
  "parent p = p\<lparr>parts := butlast (parts p)\<rparr>"

text \<open>\<open>path.relative_to(root)\<close>: the components below \<open>root\<close>, or \<open>ValueError\<close>.\<close>

definition relative_to :: "path \<Rightarrow> path \<Rightarrow> pystr list option" where
  "relative_to p root =
     (if rooted p = rooted root \<and> prefix (parts root) (parts p) then Some (drop (length (parts root)) (parts p))
      else None)"

text \<open>\<open>as_posix\<close> of the relative path with these components.\<close>

definition relative_text :: "pystr list \<Rightarrow> pystr" where
  "relative_text ps = (if ps = [] then [dot_char] else join [slash_char] ps)"

definition path_text :: "path \<Rightarrow> pystr" where
  "path_text p = (if rooted p then slash_char # join [slash_char] (parts p) else relative_text (parts p))"

text \<open>\<open>name\<close>, \<open>suffix\<close> (from the last dot, which neither starts nor ends the name) and \<open>with_suffix\<close>.\<close>

definition last_part :: "path \<Rightarrow> pystr" where
  "last_part p = (if parts p = [] then [] else last (parts p))"

definition name_stem :: "pystr \<Rightarrow> pystr" where
  "name_stem name =
     (let tail = takeWhile (\<lambda>c. c \<noteq> dot_char) (rev name); stem = take (length name - length tail - 1) name in
      if dot_char \<in> set name \<and> tail \<noteq> [] \<and> stem \<noteq> [] then stem else name)"

definition path_suffix :: "path \<Rightarrow> pystr" where
  "path_suffix p = drop (length (name_stem (last_part p))) (last_part p)"

definition with_suffix :: "path \<Rightarrow> pystr \<Rightarrow> path" where
  "with_suffix p suff = p\<lparr>parts := butlast (parts p) @ [name_stem (last_part p) @ suff]\<rparr>"

text \<open>The path and the directories above it.\<close>

definition ancestors :: "path \<Rightarrow> path set" where
  "ancestors p = (\<lambda>n. p\<lparr>parts := take n (parts p)\<rparr>) ` {..length (parts p)}"

definition below :: "path \<Rightarrow> path \<Rightarrow> bool" where
  "below p root \<longleftrightarrow> relative_to p root \<noteq> None"

definition component :: "pystr \<Rightarrow> bool" where
  "component c \<longleftrightarrow> c \<noteq> [] \<and> c \<noteq> [dot_char] \<and> slash_char \<notin> set c"

lemma parts_path_of: "\<forall>c \<in> set (parts (path_of s)). component c"
  using split_on_pieces[of _ slash_char s] by (auto simp: path_of_def component_def)

text \<open>A relative name made of components is read as those components.\<close>

lemma path_of_relative:
  assumes "\<forall>c \<in> set cs. component c" "cs \<noteq> []"
  shows "path_of (relative_text cs) = \<lparr>rooted = False, parts = cs\<rparr>"
proof -
  have "split_on slash_char (join [slash_char] cs) = cs"
    using assms by (intro split_on_join) (auto simp: component_def)
  moreover obtain c cs' where cs: "cs = c # cs'" using assms(2) by (cases cs) auto
  moreover have "take 1 (join [slash_char] cs) \<noteq> [slash_char]"
    using assms(1) cs by (cases c; cases cs') (auto simp: component_def)
  moreover have "filter (\<lambda>c. c \<noteq> [] \<and> c \<noteq> [dot_char]) cs = cs"
    using assms(1) by (auto simp: component_def filter_id_conv)
  ultimately show ?thesis by (simp add: path_of_def relative_text_def)
qed

lemma relative_to_Some:
  "relative_to p root = Some cs \<longleftrightarrow> rooted p = rooted root \<and> parts p = parts root @ cs"
  by (auto simp: relative_to_def prefix_def)

lemma relative_join:
  assumes "relative_to p root = Some cs" "cs \<noteq> []" "\<forall>c \<in> set cs. component c"
  shows "path_join t (relative_text cs) = t\<lparr>parts := parts t @ cs\<rparr>"
  using path_of_relative[OF assms(3,2)] by (simp add: path_join_def)

lemma relative_join_root:
  assumes "relative_to p root = Some cs" "cs \<noteq> []" "\<forall>c \<in> set cs. component c"
  shows "path_join root (relative_text cs) = p"
  using assms relative_join[OF assms] by (auto simp: relative_to_Some)

lemma relative_text_inj:
  assumes "\<forall>c \<in> set as. component c" "\<forall>c \<in> set bs. component c" "relative_text as = relative_text bs"
  shows "as = bs"
proof -
  have dot: "relative_text cs \<noteq> [dot_char]" if "\<forall>c \<in> set cs. component c" "cs \<noteq> []" for cs
    using path_of_relative[OF that] that(2) by (auto simp: path_of_def slash_char_def dot_char_def)
  show ?thesis
  proof (cases "as = [] \<or> bs = []")
    case True
    moreover have "relative_text [] = [dot_char]" by (simp add: relative_text_def)
    ultimately show ?thesis using assms(3) dot[OF assms(1)] dot[OF assms(2)] by fastforce
  next
    case False
    then have "parts (path_of (relative_text as)) = as" "parts (path_of (relative_text bs)) = bs"
      by (simp_all add: path_of_relative assms(1,2))
    then show ?thesis using assms(3) by metis
  qed
qed

section \<open>Decoding with replacement\<close>

text \<open>
  The number of continuation bytes a lead byte asks for, and how many of them follow it in a well-formed
  way: an ill-formed sequence is replaced as far as it is the start of a well-formed one.
\<close>

definition utf8_need :: "nat \<Rightarrow> nat" where
  "utf8_need a = (if 194 \<le> a \<and> a < 224 then 1 else if 224 \<le> a \<and> a < 240 then 2 else if 240 \<le> a \<and> a < 245 then 3 else 0)"

definition second_byte :: "nat \<Rightarrow> nat \<Rightarrow> bool" where
  "second_byte a b \<longleftrightarrow> continuation b \<and> (a = 224 \<longrightarrow> 160 \<le> b) \<and> (a = 237 \<longrightarrow> b < 160) \<and>
     (a = 240 \<longrightarrow> 144 \<le> b) \<and> (a = 244 \<longrightarrow> b < 144)"

definition utf8_tail :: "nat \<Rightarrow> bytes \<Rightarrow> nat" where
  "utf8_tail a bs = (case bs of
      [] \<Rightarrow> 0
    | b # r \<Rightarrow> if utf8_need a > 0 \<and> second_byte a b then Suc (length (takeWhile continuation (take (utf8_need a - 1) r)))
              else 0)"

definition utf8_value :: "nat \<Rightarrow> bytes \<Rightarrow> nat" where
  "utf8_value a bs = foldl (\<lambda>v b. v * 64 + (b - 128))
     (if utf8_need a = 1 then a - 192 else if utf8_need a = 2 then a - 224 else a - 240) (take (utf8_need a) bs)"

definition replacement_char :: nat where "replacement_char = 65533"

function decode_replace :: "bytes \<Rightarrow> pystr" where
  "decode_replace [] = []"
| "decode_replace (a # bs) =
     (if a < 128 then a # decode_replace bs
      else if utf8_need a > 0 \<and> utf8_tail a bs = utf8_need a then utf8_value a bs # decode_replace (drop (utf8_need a) bs)
      else replacement_char # decode_replace (drop (utf8_tail a bs) bs))"
  by pat_completeness auto
termination by (relation "measure length") auto

text \<open>\<open>bytes.decode('utf-8-sig', 'replace')\<close>.\<close>

definition decode_sig_replace :: "bytes \<Rightarrow> pystr" where
  "decode_sig_replace bs = decode_replace (if prefix [239, 187, 191] bs then drop 3 bs else bs)"

text \<open>On what strict decoding accepts, the two agree.\<close>

lemma utf8_need_cases:
  "utf8_need a = 1 \<longleftrightarrow> 194 \<le> a \<and> a < 224" "utf8_need a = 2 \<longleftrightarrow> 224 \<le> a \<and> a < 240" "utf8_need a = 3 \<longleftrightarrow> 240 \<le> a \<and> a < 245"
  by (auto simp: utf8_need_def)

lemma decode_replace_strict: "utf8_decode bs = Some s \<Longrightarrow> decode_replace bs = s"
proof (induction bs arbitrary: s rule: utf8_decode.induct)
  case (2 a bs)
  consider "a < 128" | "194 \<le> a" "a < 224" | "224 \<le> a" "a < 240" | "240 \<le> a" "a < 245"
    using "2.prems" by (force split: if_splits)
  then show ?case
  proof cases
    case 1
    with 2 show ?thesis by auto
  next
    case 2
    then obtain b r where bs: "bs = b # r" "continuation b" and
      s: "map_option (Cons ((a - 192) * 64 + (b - 128))) (utf8_decode r) = Some s"
      using "2.prems" by (auto split: list.splits if_splits)
    then obtain t where "utf8_decode r = Some t" by auto
    then have "decode_replace r = t" using "2.IH"(2)[of b r t] 2 bs by simp
    with bs s 2 \<open>utf8_decode r = Some t\<close> show ?thesis
      by (simp add: utf8_need_def utf8_tail_def utf8_value_def second_byte_def)
  next
    case 3
    then obtain b c r v where bs: "bs = b # c # r" "continuation b" "continuation c" and
      v: "v = (a - 224) * 4096 + (b - 128) * 64 + (c - 128)" "2048 \<le> v" "is_scalar v" and
      s: "map_option (Cons v) (utf8_decode r) = Some s"
      using "2.prems" by (auto simp: Let_def split: list.splits if_splits)
    then obtain t where t: "utf8_decode r = Some t" by auto
    then have "decode_replace r = t" using "2.IH"(3)[of b "c # r" c r v t] 3 bs v by simp
    moreover have "second_byte a b"
      using bs v 3 by (auto simp: second_byte_def continuation_def is_scalar_def)
    ultimately show ?thesis using bs s t v 3
      by (simp add: utf8_need_def utf8_tail_def utf8_value_def mult.commute[of 4096] mult.commute[of 262144])
  next
    case 4
    then obtain b c e r v where bs: "bs = b # c # e # r" "continuation b" "continuation c" "continuation e" and
      v: "v = (a - 240) * 262144 + (b - 128) * 4096 + (c - 128) * 64 + (e - 128)" "65536 \<le> v" "v < 1114112" and
      s: "map_option (Cons v) (utf8_decode r) = Some s"
      using "2.prems" by (auto simp: Let_def split: list.splits if_splits)
    then obtain t where t: "utf8_decode r = Some t" by auto
    then have "decode_replace r = t" using "2.IH"(4)[of b "c # e # r" c "e # r" e r v t] 4 bs v by simp
    moreover have "second_byte a b"
      using bs v 4 by (auto simp: second_byte_def continuation_def)
    ultimately show ?thesis using bs s t v 4
      by (simp add: utf8_need_def utf8_tail_def utf8_value_def mult.commute[of 4096] mult.commute[of 262144])
  qed
qed simp

end
