(* ===== verification/Packer.thy ===== *)
theory Packer
  imports Py_Paths Fileio Runner_Render Import_Analysis Script_Requests "HOL-Library.List_Lexorder" "HOL-Library.AList"
begin

text \<open>
  \<open>adapters/native/packer.py\<close>: collecting an entry script and the local modules it imports, the runner
  that carries them, and the way back. The disk is a record of the regular files by their real path and of
  the directories. What the packer only calls - path resolution, the parser, SHA-256, the zip and tar
  formats, faults of the disk - are fields of \<open>pack_os\<close>; the texts of the two runner templates and of the
  shim are fields too. Symbolic links do not change while the packer runs, so \<open>realpath\<close> is a function.
\<close>

section \<open>The disk\<close>

datatype archive_fault = Archive_Broken | Archive_Fault os_fault

record disk =
  disk_files :: "path files"
  disk_dirs :: "path set"

record pack_os =
  expanduser :: "path \<Rightarrow> path"
  realpath :: "path \<Rightarrow> path"
  read_fault :: "path \<Rightarrow> os_fault option"
  mkdir_fault :: "path \<Rightarrow> os_fault option"
  file_io :: "path file_os"
  codecs :: codec_table
  parse_python :: "pystr \<Rightarrow> ast_node list option"
  stdlib_module_names :: "pystr set"
  sha256_hex :: "bytes \<Rightarrow> pystr"
  zip_bytes :: "(pystr \<times> bytes) list \<Rightarrow> error_class + bytes"
  tar_bytes :: "(pystr \<times> bytes) list \<Rightarrow> error_class + bytes"
  zip_names :: "bytes \<Rightarrow> archive_fault + pystr list"
  zip_read :: "bytes \<Rightarrow> pystr \<Rightarrow> archive_fault + bytes"
  tar_members :: "bytes \<Rightarrow> archive_fault + (pystr \<times> bool \<times> (archive_fault + bytes)) list"
  runner_template :: "runner_format \<Rightarrow> os_fault + pystr"
  shim_source :: "pystr \<Rightarrow> pystr \<Rightarrow> pystr"

definition is_file :: "pack_os \<Rightarrow> path \<Rightarrow> disk \<Rightarrow> bool" where
  "is_file os p d \<longleftrightarrow> realpath os p \<in> dom (disk_files d)"

definition path_exists :: "pack_os \<Rightarrow> path \<Rightarrow> disk \<Rightarrow> bool" where
  "path_exists os p d \<longleftrightarrow> is_file os p d \<or> realpath os p \<in> disk_dirs d"

definition read_file :: "pack_os \<Rightarrow> path \<Rightarrow> disk \<Rightarrow> os_fault + bytes" where
  "read_file os p d = (case read_fault os p of
      Some f \<Rightarrow> Inl f
    | None \<Rightarrow> (case disk_files d (realpath os p) of None \<Rightarrow> Inl (Os_Errno 2) | Some body \<Rightarrow> Inr body))"

text \<open>\<open>mkdir(parents=True, exist_ok=True)\<close>.\<close>

definition make_dirs :: "pack_os \<Rightarrow> path \<Rightarrow> disk \<Rightarrow> os_fault option \<times> disk" where
  "make_dirs os p d = (case mkdir_fault os p of
      Some f \<Rightarrow> (Some f, d)
    | None \<Rightarrow>
        let above = ancestors (realpath os p) in
        if above \<inter> dom (disk_files d) \<noteq> {} then (Some (Os_Errno 17), d)
        else (None, d\<lparr>disk_dirs := disk_dirs d \<union> above\<rparr>))"

text \<open>The faults of opening and writing a file now: a directory cannot be opened for writing.\<close>

definition file_io_at :: "pack_os \<Rightarrow> disk \<Rightarrow> path file_os" where
  "file_io_at os d = (file_io os)\<lparr>open_fault := \<lambda>p. if p \<in> disk_dirs d then Some (Os_Errno 21) else open_fault (file_io os) p\<rparr>"

definition write_file :: "pack_os \<Rightarrow> path \<Rightarrow> bytes \<Rightarrow> disk \<Rightarrow> os_fault option \<times> disk" where
  "write_file os p data d =
     (let r = realpath os p; io = file_io_at os d in
      case open_fault io r of
        Some f \<Rightarrow> (Some f, d)
      | None \<Rightarrow> (case append_fault io r [] data of
          None \<Rightarrow> (None, d\<lparr>disk_files := (disk_files d)(r \<mapsto> data)\<rparr>)
        | Some (f, left) \<Rightarrow> (Some f, d\<lparr>disk_files := (disk_files d)(r \<mapsto> left)\<rparr>)))"

text \<open>\<open>except OSError\<close> and \<open>except (BadZipFile, TarError, OSError)\<close>, both of which raise \<open>PackError\<close>.\<close>

fun pack_fault :: "string \<Rightarrow> os_fault \<Rightarrow> pwshpy_error" where
  "pack_fault why (Os_Errno n) = make_error PackError why"
| "pack_fault why (Os_Raises c) = make_error (if catches OSError c then PackError else c) why"

fun archive_error :: "archive_fault \<Rightarrow> pwshpy_error" where
  "archive_error Archive_Broken = make_error PackError ''could not be unpacked''"
| "archive_error (Archive_Fault f) = pack_fault ''could not be unpacked'' f"

section \<open>Paths and names\<close>

definition existing_file :: "pack_os \<Rightarrow> path \<Rightarrow> string \<Rightarrow> disk \<Rightarrow> path res" where
  "existing_file os p label d =
     (let resolved = expanduser os p in
      if \<not> is_file os resolved d then raise_error PackError label else Inr (realpath os resolved))"

definition read_bytes :: "pack_os \<Rightarrow> path \<Rightarrow> disk \<Rightarrow> bytes res" where
  "read_bytes os p d = (case read_file os p d of Inl f \<Rightarrow> Inl (pack_fault ''cannot read'' f) | Inr body \<Rightarrow> Inr body)"

definition resolve_local :: "pack_os \<Rightarrow> disk \<Rightarrow> pystr \<Rightarrow> path \<Rightarrow> path option" where
  "resolve_local os d dotted root =
     (let (module_file, package_file) = candidate_relative_paths dotted in
      if is_file os (path_join root module_file) d then Some (realpath os (path_join root module_file))
      else if is_file os (path_join root package_file) d then Some (realpath os (path_join root package_file))
      else None)"

definition package_parts :: "pack_os \<Rightarrow> path \<Rightarrow> path \<Rightarrow> pystr list" where
  "package_parts os module root = (case relative_to (realpath os module) root of None \<Rightarrow> [] | Some cs \<Rightarrow> butlast cs)"

definition archive_name :: "pack_os \<Rightarrow> path \<Rightarrow> path \<Rightarrow> pystr res" where
  "archive_name os p root = (case relative_to (realpath os p) root of
      None \<Rightarrow> raise_error ValueError ''relative_to'' | Some cs \<Rightarrow> Inr (relative_text cs))"

definition require_under_root :: "pack_os \<Rightarrow> path \<Rightarrow> path \<Rightarrow> unit res" where
  "require_under_root os p root =
     (if relative_to (realpath os p) root = None then raise_error PackError ''outside the pack root'' else Inr ())"

section \<open>Collecting the sources\<close>

type_synonym sources = "(path \<times> bytes) list"

text \<open>One import candidate: a name for the external ones, or a file to read.\<close>

definition add_candidate ::
    "pack_os \<Rightarrow> disk \<Rightarrow> path \<Rightarrow> path set \<Rightarrow> pystr \<Rightarrow> path list \<times> pystr list \<Rightarrow> path list \<times> pystr list" where
  "add_candidate os d root found dotted acc =
     (let (pending, external) = acc; resolved = resolve_local os d dotted root;
          local_names = (if resolved \<noteq> None then {dotted} else {});
          kind = classify_import dotted (stdlib_module_names os) local_names
      in if kind = EXTERNAL then (pending, List.insert (hd (split_on dot dotted)) external)
         else case resolved of
             Some p \<Rightarrow> if kind = LOCAL \<and> p \<notin> found then (pending @ [p], external) else acc
           | None \<Rightarrow> acc)"

text \<open>The loop: \<open>pending\<close> is a stack, whose last entry is taken.\<close>

partial_function (option) collect_loop ::
    "pack_os \<Rightarrow> disk \<Rightarrow> path \<Rightarrow> path list \<Rightarrow> sources \<Rightarrow> pystr list \<Rightarrow> (sources \<times> pystr list) res option" where
  "collect_loop os d root pending found external =
     (if pending = [] then Some (Inr (found, external))
      else let current = last pending; rest = butlast pending in
        if current \<in> fst ` set found then collect_loop os d root rest found external
        else case read_bytes os current d of
            Inl e \<Rightarrow> Some (Inl e)
          | Inr body \<Rightarrow>
              (case iter_import_candidates (parse_python os) (decode_replace body) (package_parts os current root) of
                Inl e \<Rightarrow> Some (Inl e)
              | Inr candidates \<Rightarrow>
                  (let acc = fold (add_candidate os d root (insert current (fst ` set found))) candidates (rest, external)
                   in collect_loop os d root (fst acc) (found @ [(current, body)]) (snd acc))))"

fun add_includes :: "pack_os \<Rightarrow> disk \<Rightarrow> pystr list \<Rightarrow> sources \<Rightarrow> sources res" where
  "add_includes os d [] found = Inr found"
| "add_includes os d (extra # extras) found =
     and_then (existing_file os (path_of extra) ''included file'' d) (\<lambda>p.
       if p \<in> fst ` set found then add_includes os d extras found
       else and_then (read_bytes os p d) (\<lambda>body. add_includes os d extras (found @ [(p, body)])))"

definition collect_sources ::
    "pack_os \<Rightarrow> disk \<Rightarrow> path \<Rightarrow> path \<Rightarrow> pystr list \<Rightarrow> (sources \<times> pystr list) res option" where
  "collect_sources os d entry root included =
     map_option (\<lambda>r. and_then r (\<lambda>(found, external).
       and_then (add_includes os d included found) (\<lambda>found.
         and_then (map_res (\<lambda>p. require_under_root os p root) (map fst found)) (\<lambda>_.
           Inr (found, sort (filter (\<lambda>name. resolve_local os d name root = None) external))))))
     (collect_loop os d root [entry] [] [])"

section \<open>Packing\<close>

record pack_options =
  po_include :: "pystr list"
  po_with_packages :: "pystr list"
  po_root :: "pystr option"
  po_force :: bool
  po_format :: runner_format

record packed_script =
  ps_output_path :: pystr
  ps_entry :: pystr
  ps_files :: "pystr list"
  ps_payload_sha256 :: pystr
  ps_payload_bytes :: nat
  ps_uv_args :: "pystr list"
  ps_external_imports :: "pystr list"
  ps_has_script_metadata :: bool

definition resolve_format :: "runner_format \<Rightarrow> pystr option \<Rightarrow> runner_format" where
  "resolve_format fmt dest =
     (if fmt \<noteq> AUTO then fmt
      else case dest of
          Some s \<Rightarrow> if lower (path_suffix (path_of s)) = u ''.sh'' then SH else PS1
        | None \<Rightarrow> PS1)"

definition guard_destination :: "pack_os \<Rightarrow> disk \<Rightarrow> path \<Rightarrow> path list \<Rightarrow> bool \<Rightarrow> unit res" where
  "guard_destination os d destination sources force =
     (if realpath os destination \<in> realpath os ` set sources then raise_error PackError ''is one of the files being packed''
      else if path_exists os destination d \<and> \<not> force then raise_error PackError ''already exists''
      else Inr ())"

definition member_list :: "pack_os \<Rightarrow> path \<Rightarrow> sources \<Rightarrow> (pystr \<times> bytes) list res" where
  "member_list os root sources =
     and_then (map_res (\<lambda>(p, body). and_then (archive_name os p root) (\<lambda>name. Inr (name, body))) sources)
       (\<lambda>named. Inr (fold (\<lambda>(name, body). AList.update name body) named []))"

definition build_archive :: "pack_os \<Rightarrow> runner_format \<Rightarrow> (pystr \<times> bytes) list \<Rightarrow> bytes res" where
  "build_archive os fmt members =
     (case (if fmt = PS1 then zip_bytes os else tar_bytes os) (sort_key fst members) of
        Inl c \<Rightarrow> raise_error c ''archive'' | Inr payload \<Rightarrow> Inr payload)"

definition read_template :: "pack_os \<Rightarrow> runner_format \<Rightarrow> pystr res" where
  "read_template os fmt = (case runner_template os fmt of
      Inl f \<Rightarrow> Inl (pack_fault ''the packed-runner template is missing'' f) | Inr template \<Rightarrow> Inr template)"

definition write_runner :: "pack_os \<Rightarrow> path \<Rightarrow> pystr \<Rightarrow> bool \<Rightarrow> disk \<Rightarrow> unit res \<times> disk" where
  "write_runner os destination runner bom d = (case make_dirs os (parent destination) d of
      (Some f, d') \<Rightarrow> (Inl (pack_fault ''cannot write'' f), d')
    | (None, d') \<Rightarrow>
        (let (r, fs) = write_text (codecs os) (file_io_at os d') (realpath os destination) runner (u ''utf-8'') [newline] bom
                         (disk_files d')
         in (r, d'\<lparr>disk_files := fs\<rparr>)))"

text \<open>What the runner carries, from the collected sources on.\<close>

definition pack_payload ::
    "pack_os \<Rightarrow> path \<Rightarrow> path \<Rightarrow> pystr list \<Rightarrow> runner_format \<Rightarrow> sources \<Rightarrow> (runner_content \<times> (pystr \<times> bytes) list \<times> bytes \<times> pystr) res" where
  "pack_payload os entry_path root with_packages fmt sources =
     and_then (archive_name os entry_path root) (\<lambda>entry_arc.
     and_then (member_list os root sources) (\<lambda>members.
     and_then (extract_script_metadata (decode_replace (the (map_of sources entry_path)))) (\<lambda>metadata.
     if shim_module \<in> fst ` set members then raise_error PackError ''reserved for the generated entry shim''
     else case utf8_encode (shim_source os entry_arc metadata) of
         None \<Rightarrow> raise_error ValueError ''encode''
       | Some shim \<Rightarrow>
           let members = AList.update shim_module shim members in
           and_then (build_archive os fmt members) (\<lambda>payload.
           and_then (chunk_base64 (b64encode payload) 120) (\<lambda>wrapped.
           and_then (extract_requires_python metadata) (\<lambda>python_request.
             Inr (\<lparr>rc_payload_b64 = wrapped, rc_payload_sha256 = sha256_hex os payload, rc_entry = entry_arc,
                   rc_uv_args = concat (map (\<lambda>package. [u ''--with'', package]) with_packages),
                   rc_file_hashes = map (\<lambda>(name, body). \<lparr>fd_digest = sha256_hex os body, fd_path = name\<rparr>)
                     (sort_key fst members),
                   rc_python_request = python_request,
                   rc_has_git_source = has_git_source metadata with_packages\<rparr>, members, payload, metadata)))))))"

definition render_for :: "pack_os \<Rightarrow> runner_format \<Rightarrow> runner_content \<Rightarrow> pystr res" where
  "render_for os fmt content = and_then (read_template os fmt) (\<lambda>template.
     if fmt = PS1 then render_runner template content else render_posix_runner template content)"

definition pack_root :: "pack_os \<Rightarrow> path \<Rightarrow> pack_options \<Rightarrow> path" where
  "pack_root os entry_path opts = (case po_root opts of
      Some r \<Rightarrow> realpath os (expanduser os (path_of r)) | None \<Rightarrow> parent entry_path)"

definition pack_destination :: "pack_os \<Rightarrow> path \<Rightarrow> pystr option \<Rightarrow> runner_format \<Rightarrow> path" where
  "pack_destination os entry_path dest fmt = (case dest of
      Some s \<Rightarrow> expanduser os (path_of s)
    | None \<Rightarrow> with_suffix entry_path (if fmt = SH then u ''.sh'' else u ''.ps1''))"

definition pack_script ::
    "pack_os \<Rightarrow> pystr \<Rightarrow> pystr option \<Rightarrow> pack_options \<Rightarrow> disk \<Rightarrow> (packed_script res \<times> disk) option" where
  "pack_script os entry dest opts d = (case existing_file os (path_of entry) ''entry script'' d of
      Inl e \<Rightarrow> Some (Inl e, d)
    | Inr entry_path \<Rightarrow>
       (let root = pack_root os entry_path opts;
            fmt = resolve_format (po_format opts) dest;
            destination = pack_destination os entry_path dest fmt
        in case collect_sources os d entry_path root (po_include opts) of
            None \<Rightarrow> None
          | Some (Inl e) \<Rightarrow> Some (Inl e, d)
          | Some (Inr (sources, external)) \<Rightarrow> Some
             (case and_then (guard_destination os d destination (map fst sources) (po_force opts)) (\<lambda>_.
                   and_then (pack_payload os entry_path root (po_with_packages opts) fmt sources) (\<lambda>(content, members, payload, metadata).
                   and_then (render_for os fmt content) (\<lambda>runner. Inr (content, members, payload, metadata, runner)))) of
                Inl e \<Rightarrow> (Inl e, d)
              | Inr (content, members, payload, metadata, runner) \<Rightarrow>
                  (case write_runner os destination runner (fmt = PS1) d of
                    (Inl e, d') \<Rightarrow> (Inl e, d')
                  | (Inr _, d') \<Rightarrow> (Inr \<lparr>ps_output_path = path_text destination, ps_entry = rc_entry content,
                      ps_files = sort (map fst members), ps_payload_sha256 = rc_payload_sha256 content,
                      ps_payload_bytes = length payload, ps_uv_args = rc_uv_args content,
                      ps_external_imports = external, ps_has_script_metadata = (metadata \<noteq> [])\<rparr>, d')))))"

section \<open>Unpacking\<close>

definition payload_open :: pystr where "payload_open = u ''$PwshPyPayload = @'' @ [squote]"
definition payload_close :: pystr where "payload_close = squote # u ''@''"
definition sh_heredoc :: pystr where "sh_heredoc = u ''__PWSHPY_PAYLOAD_B64__''"
definition entry_prefix :: pystr where "entry_prefix = u ''$PwshPyEntry = '' @ [squote]"
definition sh_entry_prefix :: pystr where "sh_entry_prefix = u ''PWSHPY_ENTRY='' @ [squote]"

definition slice_payload :: "pystr list \<Rightarrow> (pystr \<Rightarrow> bool) \<Rightarrow> (pystr \<Rightarrow> bool) \<Rightarrow> pystr list option" where
  "slice_payload lines is_open is_close = (case dropWhile (\<lambda>l. \<not> is_open (strip l)) lines of
      [] \<Rightarrow> None
    | _ # rest \<Rightarrow> (let block = takeWhile (\<lambda>l. \<not> is_close (strip l)) rest in
        if length block < length rest then Some block else None))"

definition decode_payload :: "pystr list \<Rightarrow> bytes res" where
  "decode_payload lines = (case b64decode True (concat (map strip lines)) of
      Inl e \<Rightarrow> if catches ValueError (err_class e) then raise_error PackError ''not valid base64'' else Inl e
    | Inr payload \<Rightarrow> Inr payload)"

definition sh_open :: "pystr \<Rightarrow> bool" where
  "sh_open s \<longleftrightarrow> endswith s (u ''<<'' @ [squote] @ sh_heredoc @ [squote])"

definition extract_payload :: "pystr \<Rightarrow> (bytes \<times> runner_format) res" where
  "extract_payload text =
     (let lines = splitlines text in
      case slice_payload lines (\<lambda>s. s = payload_open) (\<lambda>s. s = payload_close) of
        Some block \<Rightarrow> and_then (decode_payload block) (\<lambda>payload. Inr (payload, PS1))
      | None \<Rightarrow> (case slice_payload lines sh_open (\<lambda>s. s = sh_heredoc) of
          Some block \<Rightarrow> and_then (decode_payload block) (\<lambda>payload. Inr (payload, SH))
        | None \<Rightarrow> raise_error PackError ''does not look like a pwshpy pack''))"

fun entry_name_in :: "pystr list \<Rightarrow> pystr" where
  "entry_name_in [] = []"
| "entry_name_in (line # lines) =
     (let stripped = strip line in
      if startswith stripped entry_prefix \<and> endswith stripped [squote] then
        unquote_powershell_literal (drop (length entry_prefix) (butlast stripped))
      else if startswith stripped sh_entry_prefix \<and> endswith stripped [squote] then
        (case shlex_split (drop (length sh_entry_prefix - 1) stripped) of
           Inr [word] \<Rightarrow> word
         | _ \<Rightarrow> [])
      else entry_name_in lines)"

definition extract_entry_name :: "pystr \<Rightarrow> pystr" where
  "extract_entry_name text = entry_name_in (splitlines text)"

definition write_member :: "pack_os \<Rightarrow> path \<Rightarrow> pystr \<Rightarrow> bytes \<Rightarrow> bool \<Rightarrow> disk \<Rightarrow> unit res \<times> disk" where
  "write_member os target name body force d =
     (let destination = realpath os (path_join target name) in
      if relative_to destination (realpath os target) = None then (raise_error PackError ''outside'', d)
      else if path_exists os destination d \<and> \<not> force then (raise_error PackError ''already exists'', d)
      else case make_dirs os (parent destination) d of
          (Some f, d') \<Rightarrow> (Inl (pack_fault ''cannot write'' f), d')
        | (None, d') \<Rightarrow> (case write_file os destination body d' of
            (Some f, d'') \<Rightarrow> (Inl (pack_fault ''cannot write'' f), d'')
          | (None, d'') \<Rightarrow> (Inr (), d'')))"

text \<open>The loop both formats share: each member is read, then written; the names written so far are returned.\<close>

fun write_members ::
    "pack_os \<Rightarrow> path \<Rightarrow> bool \<Rightarrow> (pystr \<times> (archive_fault + bytes)) list \<Rightarrow> pystr list \<Rightarrow> disk \<Rightarrow> pystr list res \<times> disk" where
  "write_members os target force [] written d = (Inr written, d)"
| "write_members os target force ((name, Inl f) # ms) written d = (Inl (archive_error f), d)"
| "write_members os target force ((name, Inr body) # ms) written d = (case write_member os target name body force d of
      (Inl e, d') \<Rightarrow> (Inl e, d')
    | (Inr _, d') \<Rightarrow> write_members os target force ms (written @ [name]) d')"

definition extract_zip_members :: "pack_os \<Rightarrow> bytes \<Rightarrow> path \<Rightarrow> bool \<Rightarrow> disk \<Rightarrow> pystr list res \<times> disk" where
  "extract_zip_members os payload target force d = (case zip_names os payload of
      Inl f \<Rightarrow> (Inl (archive_error f), d)
    | Inr names \<Rightarrow> write_members os target force
        (map (\<lambda>name. (name, zip_read os payload name)) (filter (\<lambda>name. name \<noteq> shim_module) (sort names))) [] d)"

definition extract_tar_members :: "pack_os \<Rightarrow> bytes \<Rightarrow> path \<Rightarrow> bool \<Rightarrow> disk \<Rightarrow> pystr list res \<times> disk" where
  "extract_tar_members os payload target force d = (case tar_members os payload of
      Inl f \<Rightarrow> (Inl (archive_error f), d)
    | Inr members \<Rightarrow> write_members os target force
        (map (\<lambda>(name, _, body). (name, body))
          (filter (\<lambda>(name, isfile, _). isfile \<and> name \<noteq> shim_module) (sort_key fst members))) [] d)"

definition unpack_script :: "pack_os \<Rightarrow> pystr \<Rightarrow> pystr \<Rightarrow> bool \<Rightarrow> disk \<Rightarrow> packed_script res \<times> disk" where
  "unpack_script os source dest force d =
     (case and_then (existing_file os (path_of source) ''packed script'' d) (\<lambda>packed.
           and_then (read_bytes os packed d) (\<lambda>data.
             let text = decode_sig_replace data in
             and_then (extract_payload text) (\<lambda>(payload, fmt). Inr (text, payload, fmt)))) of
        Inl e \<Rightarrow> (Inl e, d)
      | Inr (text, payload, fmt) \<Rightarrow>
          (let target = expanduser os (path_of dest) in
           case (if fmt = PS1 then extract_zip_members else extract_tar_members) os payload target force d of
             (Inl e, d') \<Rightarrow> (Inl e, d')
           | (Inr written, d') \<Rightarrow> (Inr \<lparr>ps_output_path = path_text target, ps_entry = extract_entry_name text,
               ps_files = written, ps_payload_sha256 = sha256_hex os payload, ps_payload_bytes = length payload,
               ps_uv_args = [], ps_external_imports = [], ps_has_script_metadata = False\<rparr>, d')))"

end
