(* ===== verification/Packer_Facts.thy ===== *)
theory Packer_Facts
  imports Packer
begin

text \<open>
  What the packer changes on the disk, and what it collects. \<open>writes_only\<close> relates two disks that differ only in
  files of a set, and in no existing file unless forced; every writing operation keeps it. The collecting
  loop is related to the relation \<open>imports\<close> between files: it ends, and finds what is reachable.
\<close>

section \<open>What is written\<close>

definition writes_only :: "path set \<Rightarrow> bool \<Rightarrow> disk \<Rightarrow> disk \<Rightarrow> bool" where
  "writes_only S force d d' \<longleftrightarrow>
     (\<forall>p. disk_files d' p \<noteq> disk_files d p \<longrightarrow> p \<in> S \<and> (p \<in> dom (disk_files d) \<longrightarrow> force))"

lemma writes_only_refl [simp]: "writes_only S force d d"
  by (simp add: writes_only_def)

lemma writes_only_same_files: "disk_files d' = disk_files d \<Longrightarrow> writes_only S force d d'"
  by (simp add: writes_only_def)

lemma writes_only_trans: "writes_only S force d d' \<Longrightarrow> writes_only S force d' d'' \<Longrightarrow> writes_only S force d d''"
  unfolding writes_only_def by (metis domIff)

definition links_resolved :: "pack_os \<Rightarrow> bool" where
  "links_resolved os \<longleftrightarrow> (\<forall>p. realpath os (realpath os p) = realpath os p)"

lemma realpath_idem: "links_resolved os \<Longrightarrow> realpath os (realpath os p) = realpath os p"
  by (simp add: links_resolved_def)

lemma make_dirs_files: "make_dirs os p d = (r, d') \<Longrightarrow> disk_files d' = disk_files d"
  by (auto simp: make_dirs_def Let_def split: option.splits if_splits)

lemma write_file_confined:
  assumes "write_file os p data d = (r, d')" "realpath os p \<in> S" "realpath os p \<in> dom (disk_files d) \<longrightarrow> force"
  shows "writes_only S force d d'"
  using assms by (auto simp: write_file_def Let_def writes_only_def split: option.splits prod.splits if_splits)

lemma write_member_confined:
  assumes "links_resolved os" "write_member os target name body force d = (r, d')"
  shows "writes_only {p. below p (realpath os target)} force d d'"
proof -
  let ?dest = "realpath os (path_join target name)"
  show ?thesis
  proof (cases "relative_to ?dest (realpath os target) = None \<or> (path_exists os ?dest d \<and> \<not> force)")
    case True
    with assms(2) show ?thesis by (auto simp: write_member_def Let_def split: if_splits)
  next
    case False
    obtain f d1 where dirs: "make_dirs os (parent ?dest) d = (f, d1)" by fastforce
    note same = make_dirs_files[OF dirs]
    obtain g d2 where written: "write_file os ?dest body d1 = (g, d2)" by fastforce
    have "writes_only {p. below p (realpath os target)} force d1 d2"
      using write_file_confined[OF written, of "{p. below p (realpath os target)}" force] False same realpath_idem[OF assms(1)]
      by (auto simp: below_def path_exists_def is_file_def)
    then have "writes_only {p. below p (realpath os target)} force d d2"
      using writes_only_trans writes_only_same_files[OF same] by blast
    moreover have "d' = d1 \<or> d' = d2"
      using assms(2) False dirs written by (auto simp: write_member_def Let_def split: option.splits)
    ultimately show ?thesis using writes_only_same_files[OF same] by auto
  qed
qed

lemma write_members_confined:
  "links_resolved os \<Longrightarrow> write_members os target force ms written d = (r, d') \<Longrightarrow>
    writes_only {p. below p (realpath os target)} force d d'"
proof (induction os target force ms written d rule: write_members.induct)
  case (3 os target force name body ms written d)
  obtain s d1 where step: "write_member os target name body force d = (s, d1)" by fastforce
  have one: "writes_only {p. below p (realpath os target)} force d d1" by (rule write_member_confined[OF "3.prems"(1) step])
  show ?case
  proof (cases s)
    case (Inl e)
    with one "3.prems"(2) step show ?thesis by simp
  next
    case (Inr u)
    with "3.IH"[OF step[symmetric]] "3.prems" step one show ?thesis by (auto intro: writes_only_trans)
  qed
qed auto

lemma write_text_confined:
  assumes "write_text cs io p text encoding newl bom fs = (r, fs')"
  shows "q \<noteq> p \<Longrightarrow> fs' q = fs q"
  using assms by (auto simp: write_text_def with_open_def Let_def split: sum.splits option.splits prod.splits)

lemma write_runner_confined:
  assumes "write_runner os destination runner bom d = (r, d')"
  shows "q \<noteq> realpath os destination \<Longrightarrow> disk_files d' q = disk_files d q"
  using assms make_dirs_files[of os "parent destination" d]
  by (auto simp: write_runner_def Let_def split: prod.splits option.splits dest: write_text_confined)

section \<open>What is collected\<close>

text \<open>The import candidates of a file, the files they resolve to, and the names that are external.\<close>

definition candidates_of :: "pack_os \<Rightarrow> disk \<Rightarrow> path \<Rightarrow> path \<Rightarrow> pystr list res" where
  "candidates_of os d root p = and_then (read_bytes os p d) (\<lambda>body.
     iter_import_candidates (parse_python os) (decode_replace body) (package_parts os p root))"

definition imports_file :: "pack_os \<Rightarrow> disk \<Rightarrow> path \<Rightarrow> path \<Rightarrow> path \<Rightarrow> bool" where
  "imports_file os d root p q \<longleftrightarrow>
     (\<exists>cs. candidates_of os d root p = Inr cs \<and> (\<exists>dotted \<in> set cs. resolve_local os d dotted root = Some q))"

text \<open>The name a candidate reports as external: its root, when neither a file nor the standard library has it.\<close>

definition external_root :: "pack_os \<Rightarrow> disk \<Rightarrow> path \<Rightarrow> pystr \<Rightarrow> pystr set" where
  "external_root os d root dotted =
     (if resolve_local os d dotted root = None \<and> hd (split_on dot dotted) \<notin> stdlib_module_names os
      then {hd (split_on dot dotted)} else {})"

definition external_names :: "pack_os \<Rightarrow> disk \<Rightarrow> path \<Rightarrow> path \<Rightarrow> pystr set" where
  "external_names os d root p = (case candidates_of os d root p of
      Inl e \<Rightarrow> {} | Inr cs \<Rightarrow> \<Union>dotted \<in> set cs. external_root os d root dotted)"

lemma add_candidate_pending:
  "set (fst (add_candidate os d root found dotted acc)) =
     set (fst acc) \<union> {q. resolve_local os d dotted root = Some q \<and> q \<notin> found}"
  by (auto simp: add_candidate_def Let_def classify_import_def split: prod.splits option.splits)

lemma add_candidate_external:
  "set (snd (add_candidate os d root found dotted acc)) = set (snd acc) \<union> external_root os d root dotted"
  by (auto simp: add_candidate_def external_root_def Let_def classify_import_def split: prod.splits option.splits)

lemma fold_candidates:
  "set (fst (fold (add_candidate os d root found) cs acc)) =
     set (fst acc) \<union> (\<Union>dotted \<in> set cs. {q. resolve_local os d dotted root = Some q \<and> q \<notin> found}) \<and>
   set (snd (fold (add_candidate os d root found) cs acc)) =
     set (snd acc) \<union> (\<Union>dotted \<in> set cs. external_root os d root dotted)"
  by (induction cs arbitrary: acc) (simp_all add: add_candidate_pending add_candidate_external Un_assoc)

lemma distinct_external:
  "distinct (snd acc) \<Longrightarrow> distinct (snd (fold (add_candidate os d root found) cs acc))"
proof (induction cs arbitrary: acc)
  case (Cons c cs)
  have "distinct (snd (add_candidate os d root found c acc))"
    using Cons.prems by (auto simp: add_candidate_def Let_def split: prod.splits option.splits)
  then show ?case using Cons.IH by simp
qed simp

lemma resolved_is_real:
  "links_resolved os \<Longrightarrow> resolve_local os d dotted root = Some q \<Longrightarrow> realpath os q = q \<and> q \<in> dom (disk_files d)"
  by (auto simp: resolve_local_def Let_def is_file_def realpath_idem split: prod.splits if_splits)

lemma read_bytes_Inr: "read_bytes os p d = Inr body \<Longrightarrow> disk_files d (realpath os p) = Some body"
  by (auto simp: read_bytes_def read_file_def split: option.splits sum.splits)

lemma existing_file_Inr:
  "existing_file os p label d = Inr q \<longleftrightarrow> is_file os (expanduser os p) d \<and> q = realpath os (expanduser os p)"
  by (auto simp: existing_file_def Let_def)

text \<open>One round of the loop on a file that is not yet found.\<close>

lemma collect_loop_step:
  assumes "pending \<noteq> []" "last pending \<notin> fst ` set found"
  shows "collect_loop os d root pending found external = (case read_bytes os (last pending) d of
      Inl e \<Rightarrow> Some (Inl e)
    | Inr body \<Rightarrow> (case candidates_of os d root (last pending) of
        Inl e \<Rightarrow> Some (Inl e)
      | Inr cs \<Rightarrow>
          let acc = fold (add_candidate os d root (insert (last pending) (fst ` set found))) cs (butlast pending, external)
          in collect_loop os d root (fst acc) (found @ [(last pending, body)]) (snd acc)))"
  using assms by (subst collect_loop.simps) (simp add: candidates_of_def Let_def split: sum.splits)

lemma collect_loop_found:
  "pending \<noteq> [] \<Longrightarrow> last pending \<in> fst ` set found \<Longrightarrow>
   collect_loop os d root pending found external = collect_loop os d root (butlast pending) found external"
  by (subst collect_loop.simps) (simp add: Let_def)

lemma collect_loop_Nil [simp]: "collect_loop os d root [] found external = Some (Inr (found, external))"
  by (subst collect_loop.simps) simp

text \<open>Every round finds a file of the disk that was not found before, or takes one entry off the stack.\<close>

lemma collect_loop_terminates:
  assumes "finite (dom (disk_files d))" "links_resolved os" "\<forall>p \<in> set pending. realpath os p = p"
  shows "\<exists>r. collect_loop os d root pending found external = Some r"
  using assms(3)
proof (induction "(card (dom (disk_files d) - fst ` set found), length pending)" arbitrary: pending found external
    rule: wf_induct_rule[OF wf_lex_prod[OF wf_less_than wf_less_than]])
  case (1 pending found external)
  show ?case
  proof (cases "pending = []")
    case False
    let ?current = "last pending"
    show ?thesis
    proof (cases "?current \<in> fst ` set found")
      case True
      have "\<exists>r. collect_loop os d root (butlast pending) found external = Some r"
        using "1.prems" False by (intro "1.hyps") (auto dest: in_set_butlastD)
      with collect_loop_found[OF False True] show ?thesis by simp
    next
      case new: False
      show ?thesis
      proof (cases "read_bytes os ?current d")
        case (Inl e)
        with collect_loop_step[OF False new] show ?thesis by simp
      next
        case body: (Inr body)
        show ?thesis
        proof (cases "candidates_of os d root ?current")
          case (Inl e)
          with collect_loop_step[OF False new] body show ?thesis by simp
        next
          case (Inr cs)
          let ?acc = "fold (add_candidate os d root (insert ?current (fst ` set found))) cs (butlast pending, external)"
          let ?found = "found @ [(?current, body)]"
          have "?current \<in> dom (disk_files d)"
            using read_bytes_Inr[OF body] "1.prems" False by (metis domI last_in_set)
          with assms(1) new have "card (dom (disk_files d) - fst ` set ?found) < card (dom (disk_files d) - fst ` set found)"
            by (intro psubset_card_mono) auto
          moreover have "\<forall>p \<in> set (fst ?acc). realpath os p = p"
            using "1.prems" resolved_is_real[OF assms(2)] by (auto simp: fold_candidates dest: in_set_butlastD)
          ultimately have "\<exists>r. collect_loop os d root (fst ?acc) ?found (snd ?acc) = Some r"
            by (intro "1.hyps") auto
          with collect_loop_step[OF False new] body Inr show ?thesis by (simp add: Let_def)
        qed
      qed
    qed
  qed simp
qed

text \<open>The invariant of the loop: what is found or pending is reachable, what is found was read and parsed, and
  its imports are found or pending.\<close>

definition collect_inv :: "pack_os \<Rightarrow> disk \<Rightarrow> path \<Rightarrow> path \<Rightarrow> path list \<Rightarrow> sources \<Rightarrow> pystr list \<Rightarrow> bool" where
  "collect_inv os d root entry pending found external \<longleftrightarrow>
     (\<forall>p \<in> fst ` set found. \<forall>q. imports_file os d root p q \<longrightarrow> q \<in> fst ` set found \<union> set pending) \<and>
     (\<forall>p \<in> fst ` set found \<union> set pending. (imports_file os d root)\<^sup>*\<^sup>* entry p) \<and>
     entry \<in> fst ` set found \<union> set pending \<and>
     (\<forall>(p, body) \<in> set found. read_bytes os p d = Inr body) \<and>
     (\<forall>p \<in> fst ` set found. \<exists>cs. candidates_of os d root p = Inr cs) \<and>
     distinct (map fst found) \<and> distinct external \<and>
     set external = (\<Union>p \<in> fst ` set found. external_names os d root p)"

lemma set_butlast_last: "xs \<noteq> [] \<Longrightarrow> set xs = insert (last xs) (set (butlast xs))"
  by (metis Un_insert_right append_butlast_last_id list.simps(15) set_append sup_bot_right empty_set)

lemma collect_inv_drop:
  assumes "collect_inv os d root entry pending found external" "pending \<noteq> []" "last pending \<in> fst ` set found"
  shows "collect_inv os d root entry (butlast pending) found external"
proof -
  have "fst ` set found \<union> set pending = fst ` set found \<union> set (butlast pending)"
    using set_butlast_last[OF assms(2)] assms(3) by auto
  with assms(1) show ?thesis by (simp add: collect_inv_def)
qed

lemma collect_inv_step:
  assumes inv: "collect_inv os d root entry pending found external" "pending \<noteq> []" "last pending \<notin> fst ` set found"
    and body: "read_bytes os (last pending) d = Inr body" and cs: "candidates_of os d root (last pending) = Inr cs"
    and acc: "acc = fold (add_candidate os d root (insert (last pending) (fst ` set found))) cs (butlast pending, external)"
  shows "collect_inv os d root entry (fst acc) (found @ [(last pending, body)]) (snd acc)"
proof -
  let ?current = "last pending"
  let ?keys = "fst ` set (found @ [(?current, body)])"
  note pend = set_butlast_last[OF inv(2)]
  have imported: "imports_file os d root ?current q \<longleftrightarrow> (\<exists>dotted \<in> set cs. resolve_local os d dotted root = Some q)" for q
    by (simp add: imports_file_def cs)
  have fst_acc: "?keys \<union> set (fst acc) = fst ` set found \<union> set pending \<union> {q. imports_file os d root ?current q}"
    using pend by (auto simp: acc fold_candidates imported)
  have reach: "(imports_file os d root)\<^sup>*\<^sup>* entry ?current"
    using inv(1,2) by (auto simp: collect_inv_def)
  then have reach_next: "(imports_file os d root)\<^sup>*\<^sup>* entry q" if "imports_file os d root ?current q" for q
    using that by (rule rtranclp.rtrancl_into_rtrancl)
  have "set (snd acc) = (\<Union>p \<in> ?keys. external_names os d root p)"
    using inv(1) by (simp add: collect_inv_def acc fold_candidates external_names_def cs Un_commute)
  moreover have "distinct (snd acc)"
    using inv(1) by (simp add: collect_inv_def acc distinct_external)
  moreover have "\<forall>p \<in> ?keys. \<forall>q. imports_file os d root p q \<longrightarrow> q \<in> ?keys \<union> set (fst acc)"
    using inv(1) unfolding fst_acc by (auto simp: collect_inv_def)
  moreover have "\<forall>p \<in> ?keys \<union> set (fst acc). (imports_file os d root)\<^sup>*\<^sup>* entry p"
    using inv(1) reach_next unfolding fst_acc by (auto simp: collect_inv_def)
  moreover have "entry \<in> ?keys \<union> set (fst acc)"
    using inv(1) unfolding fst_acc by (auto simp: collect_inv_def)
  ultimately show ?thesis
    using inv(1,3) body cs by (simp add: collect_inv_def)
qed

lemma collect_loop_inv:
  assumes "collect_loop os d root pending found external = Some (Inr (found', external'))"
    "collect_inv os d root entry pending found external"
  shows "collect_inv os d root entry [] found' external'"
proof -
  have "collect_inv os d root entry pending found external \<longrightarrow>
      (case (Inr (found', external') :: (sources \<times> pystr list) res) of Inl e \<Rightarrow> True | Inr (f, x) \<Rightarrow> collect_inv os d root entry [] f x)"
  proof (rule collect_loop.raw_induct[where P = "\<lambda>os d root pending found external r.
        collect_inv os d root entry pending found external \<longrightarrow>
        (case r of Inl e \<Rightarrow> True | Inr (f, x) \<Rightarrow> collect_inv os d root entry [] f x)", OF _ assms(1)], intro impI)
    fix loop os d root pending found external r
    assume IH: "\<And>os d root pending found external r. loop os d root pending found external = Some r \<Longrightarrow>
        collect_inv os d root entry pending found external \<longrightarrow>
        (case r of Inl e \<Rightarrow> True | Inr (f, x) \<Rightarrow> collect_inv os d root entry [] f x)"
      and body: "(if pending = [] then Some (Inr (found, external))
        else let current = last pending; rest = butlast pending in
          if current \<in> fst ` set found then loop os d root rest found external
          else case read_bytes os current d of
              Inl e \<Rightarrow> Some (Inl e)
            | Inr body \<Rightarrow>
                (case iter_import_candidates (parse_python os) (decode_replace body) (package_parts os current root) of
                  Inl e \<Rightarrow> Some (Inl e)
                | Inr candidates \<Rightarrow>
                    (let acc = fold (add_candidate os d root (insert current (fst ` set found))) candidates (rest, external)
                     in loop os d root (fst acc) (found @ [(current, body)]) (snd acc)))) = Some r"
      and inv: "collect_inv os d root entry pending found external"
    show "case r of Inl e \<Rightarrow> True | Inr (f, x) \<Rightarrow> collect_inv os d root entry [] f x"
    proof (cases "pending = [] \<or> last pending \<in> fst ` set found")
      case True
      with body inv IH show ?thesis using collect_inv_drop[OF inv] by (auto simp: Let_def split: if_splits)
    next
      case False
      then have nonempty: "pending \<noteq> []" and new: "last pending \<notin> fst ` set found" by simp_all
      show ?thesis
      proof (cases r)
        case (Inr fx)
        from body nonempty new Inr obtain data cs where
          step: "read_bytes os (last pending) d = Inr data" "candidates_of os d root (last pending) = Inr cs" and
          run: "loop os d root (fst (fold (add_candidate os d root (insert (last pending) (fst ` set found))) cs (butlast pending, external)))
             (found @ [(last pending, data)])
             (snd (fold (add_candidate os d root (insert (last pending) (fst ` set found))) cs (butlast pending, external))) = Some r"
          by (auto simp: Let_def candidates_of_def split: sum.splits)
        from IH[OF run] collect_inv_step[OF inv nonempty new step refl] show ?thesis by blast
      qed simp
    qed
  qed
  with assms(2) show ?thesis by simp
qed

lemma collected_reachable:
  assumes "collect_loop os d root [entry] [] [] = Some (Inr (found, external))"
  shows "fst ` set found = {p. (imports_file os d root)\<^sup>*\<^sup>* entry p}"
    "\<forall>(p, body) \<in> set found. read_bytes os p d = Inr body" "distinct (map fst found)"
    "distinct external" "set external = (\<Union>p \<in> fst ` set found. external_names os d root p)"
proof -
  have "collect_inv os d root entry [entry] [] []" by (simp add: collect_inv_def)
  from collect_loop_inv[OF assms this] have inv: "collect_inv os d root entry [] found external" .
  have "p \<in> fst ` set found" if "(imports_file os d root)\<^sup>*\<^sup>* entry p" for p
    using that inv by (induction rule: rtranclp_induct) (auto simp: collect_inv_def)
  with inv show "fst ` set found = {p. (imports_file os d root)\<^sup>*\<^sup>* entry p}" by (auto simp: collect_inv_def)
  show "\<forall>(p, body) \<in> set found. read_bytes os p d = Inr body" "distinct (map fst found)" "distinct external"
    "set external = (\<Union>p \<in> fst ` set found. external_names os d root p)"
    using inv by (simp_all add: collect_inv_def)
qed

text \<open>The files of the include list come on top, each read once.\<close>

lemma add_includes_Cons:
  "add_includes os d (extra # extras) found = Inr found' \<longleftrightarrow>
   is_file os (expanduser os (path_of extra)) d \<and>
   (let p = realpath os (expanduser os (path_of extra)) in
    if p \<in> fst ` set found then add_includes os d extras found = Inr found'
    else \<exists>body. read_bytes os p d = Inr body \<and> add_includes os d extras (found @ [(p, body)]) = Inr found')"
  by (auto simp: existing_file_def and_then_Inr Let_def)

lemma add_includes_Inr:
  "add_includes os d extras found = Inr found' \<Longrightarrow>
   fst ` set found' = fst ` set found \<union> (\<lambda>extra. realpath os (expanduser os (path_of extra))) ` set extras \<and>
   (distinct (map fst found) \<longrightarrow> distinct (map fst found')) \<and>
   (\<forall>(p, body) \<in> set found'. (p, body) \<in> set found \<or> read_bytes os p d = Inr body)"
proof (induction extras arbitrary: found)
  case (Cons extra extras)
  let ?p = "realpath os (expanduser os (path_of extra))"
  show ?case
  proof (cases "?p \<in> fst ` set found")
    case True
    with Cons.prems have "add_includes os d extras found = Inr found'"
      by (simp add: add_includes_Cons Let_def del: add_includes.simps)
    from Cons.IH[OF this] True show ?thesis by (simp add: insert_absorb)
  next
    case False
    with Cons.prems obtain body where
      step: "read_bytes os ?p d = Inr body" "add_includes os d extras (found @ [(?p, body)]) = Inr found'"
      by (auto simp: add_includes_Cons Let_def simp del: add_includes.simps)
    note rest = Cons.IH[OF step(2)]
    then have "fst ` set found' = fst ` set found \<union> (\<lambda>extra. realpath os (expanduser os (path_of extra))) ` set (extra # extras)"
      by simp
    with rest False step(1) show ?thesis by auto
  qed
qed auto

lemma require_all:
  "map_res (\<lambda>p. require_under_root os p root) ps = Inr us \<Longrightarrow> \<forall>p \<in> set ps. below (realpath os p) root"
  by (induction ps arbitrary: us) (auto simp: require_under_root_def below_def and_then_Inr split: if_splits)

lemma collect_sources_Inr:
  assumes "collect_sources os d entry root extras = Some (Inr (found, external))"
  shows "fst ` set found = {p. (imports_file os d root)\<^sup>*\<^sup>* entry p} \<union>
      (\<lambda>extra. realpath os (expanduser os (path_of extra))) ` set extras"
    "distinct (map fst found)" "\<forall>(p, body) \<in> set found. read_bytes os p d = Inr body"
    "\<forall>p \<in> fst ` set found. below (realpath os p) root"
    "sorted external" "distinct external"
    "set external = {name. resolve_local os d name root = None \<and>
       (\<exists>p. (imports_file os d root)\<^sup>*\<^sup>* entry p \<and> name \<in> external_names os d root p)}"
proof -
  from assms obtain found0 external0 us where
    loop: "collect_loop os d root [entry] [] [] = Some (Inr (found0, external0))" and
    added: "add_includes os d extras found0 = Inr found" and
    under: "map_res (\<lambda>p. require_under_root os p root) (map fst found) = Inr us" and
    names: "external = sort (filter (\<lambda>name. resolve_local os d name root = None) external0)"
    by (auto simp: collect_sources_def and_then_Inr)
  note reached = collected_reachable[OF loop]
  note extra = add_includes_Inr[OF added]
  show "fst ` set found = {p. (imports_file os d root)\<^sup>*\<^sup>* entry p} \<union>
      (\<lambda>extra. realpath os (expanduser os (path_of extra))) ` set extras"
    using reached(1) extra by simp
  show "distinct (map fst found)" "\<forall>(p, body) \<in> set found. read_bytes os p d = Inr body"
    using reached(2,3) extra by (simp_all, blast)
  show "\<forall>p \<in> fst ` set found. below (realpath os p) root" using require_all[OF under] by simp
  show "sorted external" "distinct external" using reached(4) by (simp_all add: names)
  show "set external = {name. resolve_local os d name root = None \<and>
       (\<exists>p. (imports_file os d root)\<^sup>*\<^sup>* entry p \<and> name \<in> external_names os d root p)}"
    by (auto simp: names reached(5) reached(1))
qed

lemma collect_sources_returns:
  assumes "finite (dom (disk_files d))" "links_resolved os" "realpath os entry = entry"
  shows "\<exists>r. collect_sources os d entry root extras = Some r"
  using collect_loop_terminates[OF assms(1,2), of "[entry]" root "[]" "[]"] assms(3)
  by (auto simp: collect_sources_def)

end
