(* ===== verification/Packer_Reading.thy ===== *)
theory Packer_Reading
  imports Packer_Facts
begin

text \<open>
  The way back: the lines of a written runner are the lines that were rendered, the payload block gives the
  archive, the entry line gives the entry, and the members of an archive land in the files they name.
\<close>

section \<open>Lines\<close>

lemma splitlines_at:
  "splitlines (a @ 10 # b) = splitlines (a @ [10]) @ splitlines b"
proof (induction a rule: splitlines.induct)
  case 1
  then show ?case by (simp add: is_line_break_def)
next
  case (2 c cs)
  show ?case
  proof (cases "is_line_break c")
    case True
    show ?thesis
    proof (cases "c = 13 \<and> take 1 cs = [10]")
      case True
      then obtain ds where "cs = 10 # ds" by (cases cs) auto
      with 2 True \<open>is_line_break c\<close> show ?thesis by auto
    next
      case False
      show ?thesis
      proof (cases "cs = []")
        case True
        with \<open>is_line_break c\<close> show ?thesis by (simp add: is_line_break_def)
      next
        case ne: False
        with False have "take 1 (cs @ 10 # b) \<noteq> [10] \<or> c \<noteq> 13" by (cases cs) auto
        moreover from False ne have "take 1 (cs @ [10]) \<noteq> [10] \<or> c \<noteq> 13" by (cases cs) auto
        ultimately have "(if c = 13 \<and> take 1 (cs @ 10 # b) = [10] then tl (cs @ 10 # b) else cs @ 10 # b) = cs @ 10 # b"
          "(if c = 13 \<and> take 1 (cs @ [10]) = [10] then tl (cs @ [10]) else cs @ [10]) = cs @ [10]"
          by auto
        moreover have "splitlines (cs @ 10 # b) = splitlines (cs @ [10]) @ splitlines b"
          using 2(1)[OF True] False by auto
        ultimately show ?thesis by (simp only: append_Cons splitlines.simps(2) True if_True)
      qed
    qed
  next
    case False
    with 2(2) show ?thesis
      by (cases "splitlines (cs @ [10])") simp_all
  qed
qed

lemma splitlines_normalized: "splitlines (normalize_newlines s [10]) = splitlines s"
proof -
  have "splitlines (replace_char 13 [10] (crlf_to_lf s)) = splitlines s"
  proof (induction s rule: crlf_to_lf.induct)
    case (2 c s)
    show ?case
    proof (cases "c = 13 \<and> take 1 s = [10]")
      case True
      with 2(1) show ?thesis by (simp add: is_line_break_def)
    next
      case False
      with 2(2) show ?thesis by (auto simp: is_line_break_def)
    qed
  qed simp
  then show ?thesis by (simp add: normalize_newlines_def)
qed

lemma splitlines_unlined: "no_breaks l \<Longrightarrow> splitlines (l @ [10]) = [l]"
  by (simp add: splitlines_break)

section \<open>The payload block\<close>

lemma slice_found:
  assumes "\<forall>l \<in> set before. \<not> is_open (strip l)" "is_open (strip opener)"
    "\<forall>l \<in> set block. \<not> is_close (strip l)" "is_close (strip closer)"
  shows "slice_payload (before @ opener # block @ closer # after) is_open is_close = Some block"
proof -
  have "dropWhile (\<lambda>l. \<not> is_open (strip l)) (before @ opener # block @ closer # after) = opener # block @ closer # after"
    using assms(1,2) by simp
  moreover have "takeWhile (\<lambda>l. \<not> is_close (strip l)) (block @ closer # after) = block"
    using assms(3,4) by simp
  ultimately show ?thesis by (simp add: slice_payload_def)
qed

lemma slice_absent: "\<forall>l \<in> set lines. \<not> is_open (strip l) \<Longrightarrow> slice_payload lines is_open is_close = None"
  by (simp add: slice_payload_def dropWhile_eq_Nil_conv[THEN iffD2])

definition wrapped_lines :: "bytes \<Rightarrow> pystr list" where
  "wrapped_lines payload = (if payload = [] then [[]] else chunks 120 (b64encode payload))"

lemma b64encode_Nil: "b64encode bs = [] \<longleftrightarrow> bs = []"
  by (induction bs rule: b64encode.induct) auto

lemma wrapped_text:
  assumes "c \<in> set (wrapped_lines payload)" "x \<in> set c"
  shows "b64_text_char x"
proof -
  have "x \<in> set (concat (chunks 120 (b64encode payload)))"
    using assms by (auto simp: wrapped_lines_def split: if_splits)
  then show ?thesis using b64encode_text[of payload] by (simp add: chunks_concat)
qed

lemma b64_text_no_space: "b64_text_char x \<Longrightarrow> \<not> py_isspace x"
  using b64_text_char_plain[of 64] by simp

lemma wrapped_strip: "c \<in> set (wrapped_lines payload) \<Longrightarrow> strip c = c"
  using wrapped_text b64_text_no_space by (blast intro: strip_no_space)

lemma wrapped_no_breaks: "c \<in> set (wrapped_lines payload) \<Longrightarrow> no_breaks c"
  unfolding no_breaks_def using wrapped_text b64_text_no_space line_break_is_space by blast

lemma wrapped_unlines:
  assumes "chunk_base64 (b64encode payload) 120 = Inr blob"
  shows "blob @ [10] = unlines (wrapped_lines payload)"
proof (cases "payload = []")
  case True
  with assms show ?thesis by (simp add: chunk_base64_def wrapped_lines_def)
next
  case False
  then have "chunks 120 (b64encode payload) \<noteq> []" by (simp add: chunks_eq_Nil b64encode_Nil)
  with unlines_join[OF this] assms False show ?thesis by (auto simp: chunk_base64_def wrapped_lines_def)
qed

lemma wrapped_splitlines:
  assumes "chunk_base64 (b64encode payload) 120 = Inr blob"
  shows "splitlines (blob @ 10 # rest) = wrapped_lines payload @ splitlines rest"
proof -
  have "blob @ 10 # rest = unlines (wrapped_lines payload) @ rest"
    using wrapped_unlines[OF assms] by (metis append.assoc append_Cons append_Nil)
  then show ?thesis by (metis splitlines_unlines_append wrapped_no_breaks)
qed

lemma decode_wrapped:
  assumes "is_bytes payload"
  shows "decode_payload (wrapped_lines payload) = Inr payload"
proof -
  have "map strip (wrapped_lines payload) = wrapped_lines payload"
    using wrapped_strip by (simp add: map_idI)
  moreover have "concat (wrapped_lines payload) = b64encode payload"
    by (simp add: wrapped_lines_def chunks_concat)
  ultimately show ?thesis using b64decode_encode[OF assms] by (simp add: decode_payload_def)
qed

lemma marker_lines [simp]:
  "no_breaks payload_open" "strip payload_open = payload_open"
  "no_breaks payload_close" "strip payload_close = payload_close"
  "no_breaks sh_heredoc" "strip sh_heredoc = sh_heredoc"
proof -
  show "strip payload_open = payload_open" "strip payload_close = payload_close" "strip sh_heredoc = sh_heredoc"
    by (rule strip_ends; simp add: payload_open_def payload_close_def sh_heredoc_def u_def py_isspace_def)+
qed (simp_all add: payload_open_def payload_close_def sh_heredoc_def u_def is_line_break_def)

lemma not_a_marker:
  assumes "c \<in> set (wrapped_lines payload)"
  shows "strip c \<noteq> payload_close" "strip c \<noteq> sh_heredoc" "strip c \<noteq> payload_open"
proof -
  have "squote \<in> set payload_close" "95 \<in> set sh_heredoc" "squote \<in> set payload_open"
    by (simp_all add: payload_close_def payload_open_def sh_heredoc_def u_def)
  moreover have "\<not> b64_text_char squote" "\<not> b64_text_char 95"
    by (simp_all add: b64_text_char_def is_digit_def is_ascii_alpha_def)
  ultimately show "strip c \<noteq> payload_close" "strip c \<noteq> sh_heredoc" "strip c \<noteq> payload_open"
    using wrapped_text[OF assms] wrapped_strip[OF assms] by metis+
qed

lemma block_lines:
  assumes "chunk_base64 (b64encode payload) 120 = Inr blob" "no_breaks opener" "no_breaks closer"
  shows "splitlines (before @ [10] @ opener @ [10] @ blob @ [10] @ closer @ [10] @ after) =
    splitlines (before @ [10]) @ opener # wrapped_lines payload @ closer # splitlines after"
  using splitlines_at[of before "opener @ [10] @ blob @ [10] @ closer @ [10] @ after"] assms
  by (simp add: splitlines_break wrapped_splitlines)

lemma ps1_payload_read:
  assumes "is_bytes payload" "chunk_base64 (b64encode payload) 120 = Inr blob"
    "\<forall>l \<in> set (splitlines (before @ [10])). strip l \<noteq> payload_open"
    "splitlines text = splitlines (before @ [10] @ payload_open @ [10] @ blob @ [10] @ payload_close @ [10] @ after)"
  shows "extract_payload text = Inr (payload, PS1)"
proof -
  have "slice_payload (splitlines text) (\<lambda>s. s = payload_open) (\<lambda>s. s = payload_close) = Some (wrapped_lines payload)"
    unfolding assms(4) block_lines[OF assms(2) marker_lines(1,3)]
    by (rule slice_found) (use assms(3) not_a_marker in auto)
  with decode_wrapped[OF assms(1)] show ?thesis by (simp add: extract_payload_def Let_def)
qed

lemma sh_payload_read:
  assumes "is_bytes payload" "chunk_base64 (b64encode payload) 120 = Inr blob" "no_breaks opener" "sh_open (strip opener)"
    "\<forall>l \<in> set (splitlines (before @ [10])). \<not> sh_open (strip l)"
    "\<forall>l \<in> set (splitlines text). strip l \<noteq> payload_open"
    "splitlines text = splitlines (before @ [10] @ opener @ [10] @ blob @ [10] @ sh_heredoc @ [10] @ after)"
  shows "extract_payload text = Inr (payload, SH)"
proof -
  have "slice_payload (splitlines text) sh_open (\<lambda>s. s = sh_heredoc) = Some (wrapped_lines payload)"
    unfolding assms(7) block_lines[OF assms(2,3) marker_lines(5)]
    by (rule slice_found) (use assms(4,5) not_a_marker in auto)
  with decode_wrapped[OF assms(1)] slice_absent[OF assms(6)] show ?thesis by (simp add: extract_payload_def Let_def)
qed

section \<open>The written runner\<close>

lemma runner_lines:
  assumes "write_runner os destination runner True d = (Inr (), d')"
    "canonical_name (codecs os) (u ''utf-8'') = Some (u ''utf-8'')"
  shows "\<exists>data. disk_files d' (realpath os destination) = Some data \<and>
    splitlines (decode_sig_replace data) = splitlines runner"
proof -
  let ?text = "normalize_newlines runner [newline]"
  obtain d1 where
    w: "write_text (codecs os) (file_io_at os d1) (realpath os destination) runner (u ''utf-8'') [newline] True (disk_files d1) =
      (Inr (), disk_files d')"
    using assms(1) by (auto simp: write_runner_def Let_def split: prod.splits option.splits)
  then obtain bytes where bytes: "utf8_encode ?text = Some bytes" and
    files: "(disk_files d1)(realpath os destination \<mapsto> bom_of (u ''utf-8'') True @ bytes) = disk_files d'"
    using utf8_codec[OF assms(2)]
    by (auto simp: write_text_def encode_def with_open_def append_bytes_def Let_def split: option.splits prod.splits)
  have "bom_of (u ''utf-8'') True = [239, 187, 191]" by (simp add: bom_of_def bom_bytes_def)
  with decode_replace_strict[OF utf8_decode_encode[OF bytes(1)]]
  have "decode_sig_replace (bom_of (u ''utf-8'') True @ bytes) = ?text" by (simp add: decode_sig_replace_def)
  with splitlines_normalized[of runner] show ?thesis unfolding files[symmetric] by simp
qed

end
