(* ===== verification/Packer_Roundtrip.thy ===== *)
theory Packer_Roundtrip
  imports Packer_Reading "HOL-Library.Multiset"
begin

text \<open>
  The entry line of a runner, the members of an archive on the disk, and the steps of a pack that
  succeeded.
\<close>

section \<open>The entry line\<close>

definition entry_line :: "pystr \<Rightarrow> bool" where
  "entry_line l \<longleftrightarrow> startswith (strip l) entry_prefix \<or> startswith (strip l) sh_entry_prefix"

lemma entry_name_skip: "\<forall>l \<in> set before. \<not> entry_line l \<Longrightarrow> entry_name_in (before @ lines) = entry_name_in lines"
  by (induction before) (auto simp: entry_line_def Let_def)

lemma ps1_entry_line:
  "no_breaks entry \<Longrightarrow> no_breaks (u ''$PwshPyEntry = '' @ powershell_literal entry)"
  "strip (u ''$PwshPyEntry = '' @ powershell_literal entry) = u ''$PwshPyEntry = '' @ powershell_literal entry"
proof -
  show "no_breaks (u ''$PwshPyEntry = '' @ powershell_literal entry)" if "no_breaks entry"
    using that by (auto simp: no_breaks_def powershell_literal_def powershell_body_def u_def is_line_break_def)
  show "strip (u ''$PwshPyEntry = '' @ powershell_literal entry) = u ''$PwshPyEntry = '' @ powershell_literal entry"
    by (rule strip_ends; simp add: powershell_literal_def u_def py_isspace_def)
qed

lemma ps1_entry_read:
  assumes "\<forall>l \<in> set (splitlines (before @ [10])). \<not> entry_line l" "no_breaks entry"
    "splitlines text = splitlines (before @ [10] @ u ''$PwshPyEntry = '' @ powershell_literal entry @ [10] @ after)"
  shows "extract_entry_name text = entry"
proof -
  let ?line = "u ''$PwshPyEntry = '' @ powershell_literal entry"
  have "splitlines text = splitlines (before @ [10]) @ ?line # splitlines after"
    using splitlines_at[of before "?line @ [10] @ after"] splitlines_break[OF ps1_entry_line(1)[OF assms(2)]] assms(3)
    by simp
  moreover have "?line = entry_prefix @ powershell_body entry @ [squote]"
    by (simp add: entry_prefix_def powershell_literal_def)
  moreover have "suffix [squote] (entry_prefix @ powershell_body entry @ [squote])"
    by (metis append.assoc suffixI)
  moreover have "entry_name_in (?line # splitlines after) = entry"
    using ps1_entry_line(2)[of entry] calculation(2,3) by (simp add: Let_def butlast_append unquote_powershell_body)
  ultimately show ?thesis by (simp add: extract_entry_name_def entry_name_skip[OF assms(1)] del: entry_name_in.simps)
qed

section \<open>Members on the disk\<close>

definition placed :: "path \<Rightarrow> pystr list \<Rightarrow> path" where
  "placed t cs = t\<lparr>parts := parts t @ cs\<rparr>"

lemma placed_inj [simp]: "placed t a = placed t b \<longleftrightarrow> a = b"
  by (cases t) (auto simp: placed_def)

lemma placed_Nil [simp]: "placed t [] = t"
  by (simp add: placed_def)

lemma below_placed: "below p t \<longleftrightarrow> (\<exists>cs. p = placed t cs)"
  by (cases p; cases t) (auto simp: below_def relative_to_def placed_def prefix_def)

lemma placed_distinct: "distinct (map fst xs) \<Longrightarrow> distinct (map fst (map (\<lambda>(cs, body). (placed t cs, body)) xs))"
  by (induction xs) (auto, force)

lemma relative_to_placed [simp]: "relative_to (placed t cs) t = Some cs"
  by (simp add: relative_to_Some placed_def)

lemma parent_placed: "cs \<noteq> [] \<Longrightarrow> parent (placed t cs) = placed t (butlast cs)"
  by (simp add: parent_def placed_def butlast_append)

lemma ancestors_placed: "ancestors (placed t cs) = ancestors t \<union> (\<lambda>n. placed t (take n cs)) ` {..length cs}"
proof -
  have "ancestors (placed t cs) = (\<lambda>n. t\<lparr>parts := take n (parts t @ cs)\<rparr>) ` {..length (parts t) + length cs}"
    by (simp add: ancestors_def placed_def)
  also have "{..length (parts t) + length cs} = {..length (parts t)} \<union> (\<lambda>n. length (parts t) + n) ` {..length cs}"
    using image_add_atLeastAtMost[of "length (parts t)" 0 "length cs"] by (auto simp: atLeast0AtMost)
  finally show ?thesis by (simp add: image_Un image_image ancestors_def placed_def)
qed

lemma ancestor_not_placed:
  assumes "q \<in> ancestors t" "q = placed t cs"
  shows "cs = []"
proof -
  obtain n where "q = t\<lparr>parts := take n (parts t)\<rparr>" using assms(1) by (auto simp: ancestors_def)
  with assms(2) have "parts t @ cs = take n (parts t)" by (cases t) (auto simp: placed_def)
  then have "length (parts t) + length cs \<le> length (parts t)" by (metis length_append length_take min.cobounded1)
  then show ?thesis by simp
qed

text \<open>A target without links below it, on a disk that does not fail.\<close>

definition plain_target :: "pack_os \<Rightarrow> path \<Rightarrow> bool" where
  "plain_target os target \<longleftrightarrow> links_resolved os \<and>
     (\<forall>cs. (\<forall>c \<in> set cs. component c) \<longrightarrow> realpath os (placed target cs) = placed (realpath os target) cs)"

definition no_faults :: "pack_os \<Rightarrow> bool" where
  "no_faults os \<longleftrightarrow> (\<forall>p. read_fault os p = None \<and> mkdir_fault os p = None \<and> open_fault (file_io os) p = None \<and>
     (\<forall>w data. append_fault (file_io os) p w data = None))"

text \<open>Below the target there are only the members written so far, and the directories above them.\<close>

definition clear :: "path \<Rightarrow> pystr list set \<Rightarrow> disk \<Rightarrow> bool" where
  "clear t written d \<longleftrightarrow> (\<forall>cs. placed t cs \<in> dom (disk_files d) \<longrightarrow> cs \<in> written) \<and>
     ancestors t \<inter> dom (disk_files d) = {} \<and>
     (\<forall>cs. placed t cs \<in> disk_dirs d \<longrightarrow> cs \<noteq> [] \<longrightarrow> (\<exists>c \<in> written. strict_prefix cs c))"

definition unrelated :: "pystr list \<Rightarrow> pystr list set \<Rightarrow> bool" where
  "unrelated cs S \<longleftrightarrow> (\<forall>c \<in> S. \<not> prefix cs c \<and> \<not> prefix c cs)"

lemma write_member_lands:
  assumes "plain_target os target" "no_faults os" "cs \<noteq> []" "\<forall>c \<in> set cs. component c"
    and clear: "clear (realpath os target) written d" and new: "unrelated cs written"
  shows "\<exists>d'. write_member os target (relative_text cs) body force d = (Inr (), d') \<and>
    disk_files d' = (disk_files d)(placed (realpath os target) cs \<mapsto> body) \<and>
    clear (realpath os target) (insert cs written) d'"
proof -
  let ?t = "realpath os target"
  let ?dest = "placed ?t cs"
  let ?dirs = "ancestors (placed ?t (butlast cs))"
  have links: "links_resolved os" and at: "realpath os (placed target cs) = placed ?t cs"
    "realpath os (placed target (butlast cs)) = placed ?t (butlast cs)"
    using assms(1,4) by (auto simp: plain_target_def dest: in_set_butlastD)
  have real: "realpath os ?dest = ?dest" "realpath os (placed ?t (butlast cs)) = placed ?t (butlast cs)"
    using realpath_idem[OF links, of "placed target cs"] realpath_idem[OF links, of "placed target (butlast cs)"]
    by (simp_all add: at)
  have join: "path_join target (relative_text cs) = placed target cs"
    using path_of_relative[OF assms(4,3)] by (simp add: path_join_def placed_def)
  have shorter: "take n (butlast cs) \<noteq> cs \<and> strict_prefix (take n (butlast cs)) cs" for n
  proof -
    have "length (take n (butlast cs)) < length cs" using assms(3) by (cases cs) auto
    moreover have "prefix (take n (butlast cs)) cs" by (meson prefix_order.trans prefixeq_butlast take_is_prefix)
    ultimately show ?thesis by (metis nat_neq_iff strict_prefix_def)
  qed
  have "?dest \<notin> dom (disk_files d)" "?dest \<notin> disk_dirs d"
    using clear new assms(3) by (auto simp: clear_def unrelated_def strict_prefix_def)
  moreover have no_file: "?dirs \<inter> dom (disk_files d) = {}"
  proof -
    have "placed ?t (take n (butlast cs)) \<notin> dom (disk_files d)" for n
      using clear new shorter[of n] by (auto simp: clear_def unrelated_def strict_prefix_def)
    then show ?thesis using clear by (auto simp: ancestors_placed clear_def)
  qed
  moreover have "?dest \<notin> ?dirs"
    using ancestor_not_placed[of ?dest ?t cs] assms(3) by (auto simp: ancestors_placed) (metis shorter)
  moreover obtain d1 where d1: "d1 = d\<lparr>disk_dirs := disk_dirs d \<union> ?dirs\<rparr>" by blast
  ultimately have run: "write_member os target (relative_text cs) body force d =
      (Inr (), d1\<lparr>disk_files := (disk_files d)(?dest \<mapsto> body)\<rparr>)"
    using assms(2,3) by (simp add: write_member_def Let_def join at real parent_placed path_exists_def is_file_def
        make_dirs_def no_faults_def write_file_def file_io_at_def)
  have "clear ?t (insert cs written) (d1\<lparr>disk_files := (disk_files d)(?dest \<mapsto> body)\<rparr>)"
    using clear shorter ancestor_not_placed[of _ ?t] assms(3)
    by (auto simp: clear_def d1 ancestors_placed)
  with run show ?thesis by simp
qed

text \<open>Members none of which is in the way of another all land.\<close>

definition side_by_side :: "pystr list list \<Rightarrow> bool" where
  "side_by_side css \<longleftrightarrow> distinct css \<and> (\<forall>c \<in> set css. \<forall>e \<in> set css. prefix c e \<longrightarrow> c = e) \<and>
     (\<forall>c \<in> set css. c \<noteq> [] \<and> (\<forall>x \<in> set c. component x))"

lemma write_members_land:
  assumes "plain_target os target" "no_faults os" "side_by_side (map fst ms)"
    "\<forall>c \<in> set (map fst ms). unrelated c written_paths" "clear (realpath os target) written_paths d"
  shows "\<exists>d'. write_members os target force (map (\<lambda>(cs, body). (relative_text cs, Inr body)) ms) written d =
      (Inr (written @ map (relative_text \<circ> fst) ms), d') \<and>
    disk_files d' = disk_files d ++ map_of (map (\<lambda>(cs, body). (placed (realpath os target) cs, body)) ms)"
  using assms(3-5)
proof (induction ms arbitrary: written written_paths d)
  case (Cons m ms)
  obtain cs body where m: "m = (cs, body)" by (cases m)
  have "cs \<noteq> []" "\<forall>c \<in> set cs. component c" "unrelated cs written_paths"
    using Cons.prems by (auto simp: m side_by_side_def)
  from write_member_lands[OF assms(1,2) this(1,2) Cons.prems(3) this(3), of body force] obtain d1 where
    one: "write_member os target (relative_text cs) body force d = (Inr (), d1)"
      "disk_files d1 = (disk_files d)(placed (realpath os target) cs \<mapsto> body)"
      "clear (realpath os target) (insert cs written_paths) d1" by blast
  have "side_by_side (map fst ms)" using Cons.prems(1) by (auto simp: side_by_side_def)
  moreover have "\<forall>c \<in> set (map fst ms). unrelated c (insert cs written_paths)"
    using Cons.prems(1,2) by (fastforce simp: m side_by_side_def unrelated_def)
  ultimately obtain d' where rest:
    "write_members os target force (map (\<lambda>(cs, body). (relative_text cs, Inr body)) ms) (written @ [relative_text cs]) d1 =
      (Inr ((written @ [relative_text cs]) @ map (relative_text \<circ> fst) ms), d')"
    "disk_files d' = disk_files d1 ++ map_of (map (\<lambda>(cs, body). (placed (realpath os target) cs, body)) ms)"
    using Cons.IH[OF _ _ one(3)] by blast
  have "placed (realpath os target) cs \<notin> fst ` set (map (\<lambda>(cs, body). (placed (realpath os target) cs, body)) ms)"
    using Cons.prems(1) by (auto simp: m side_by_side_def image_iff)
  then have "disk_files d' = disk_files d ++ map_of (map (\<lambda>(cs, body). (placed (realpath os target) cs, body)) (m # ms))"
    by (simp add: rest(2) one(2) m map_add_upd_left dom_map_of_conv_image_fst)
  moreover have "write_members os target force (map (\<lambda>(cs, body). (relative_text cs, Inr body)) (m # ms)) written d =
      (Inr (written @ map (relative_text \<circ> fst) (m # ms)), d')"
    by (simp add: m one(1) rest(1))
  ultimately show ?case by blast
qed simp

section \<open>The steps of a pack\<close>

lemma pack_script_run:
  assumes "pack_script os entry dest opts d = Some (r, d')"
  shows "disk_files d' = disk_files d \<and> (\<exists>e. r = Inl e) \<or>
    (\<exists>entry_path sources external content members payload metadata runner r'.
      let root = pack_root os entry_path opts; fmt = resolve_format (po_format opts) dest;
          destination = pack_destination os entry_path dest fmt in
      existing_file os (path_of entry) ''entry script'' d = Inr entry_path \<and>
      collect_sources os d entry_path root (po_include opts) = Some (Inr (sources, external)) \<and>
      guard_destination os d destination (map fst sources) (po_force opts) = Inr () \<and>
      pack_payload os entry_path root (po_with_packages opts) fmt sources = Inr (content, members, payload, metadata) \<and>
      render_for os fmt content = Inr runner \<and>
      write_runner os destination runner (fmt = PS1) d = (r', d') \<and>
      (case r' of Inl e \<Rightarrow> r = Inl e
       | Inr _ \<Rightarrow> r = Inr \<lparr>ps_output_path = path_text destination, ps_entry = rc_entry content,
          ps_files = sort (map fst members), ps_payload_sha256 = rc_payload_sha256 content,
          ps_payload_bytes = length payload, ps_uv_args = rc_uv_args content,
          ps_external_imports = external, ps_has_script_metadata = (metadata \<noteq> [])\<rparr>))"
proof (cases "existing_file os (path_of entry) ''entry script'' d")
  case (Inl e)
  with assms show ?thesis by (auto simp: pack_script_def)
next
  case (Inr entry_path)
  let ?root = "pack_root os entry_path opts"
  let ?fmt = "resolve_format (po_format opts) dest"
  let ?destination = "pack_destination os entry_path dest ?fmt"
  obtain c where c: "collect_sources os d entry_path ?root (po_include opts) = Some c"
    using assms Inr by (auto simp: pack_script_def Let_def split: option.splits)
  show ?thesis
  proof (cases c)
    case (Inl e)
    with c \<open>existing_file os _ _ d = _\<close> assms show ?thesis by (auto simp: pack_script_def Let_def)
  next
    case sx: (Inr sx)
    obtain sources external where s: "sx = (sources, external)" by fastforce
    let ?prepared = "and_then (guard_destination os d ?destination (map fst sources) (po_force opts)) (\<lambda>_.
      and_then (pack_payload os entry_path ?root (po_with_packages opts) ?fmt sources) (\<lambda>(content, members, payload, metadata).
      and_then (render_for os ?fmt content) (\<lambda>runner. Inr (content, members, payload, metadata, runner))))"
    show ?thesis
    proof (cases ?prepared)
      case (Inl e)
      with c sx s \<open>existing_file os _ _ d = _\<close> assms show ?thesis by (auto simp: pack_script_def Let_def)
    next
      case prepared: (Inr x)
      then obtain content members payload metadata runner where x: "x = (content, members, payload, metadata, runner)"
        and parts: "guard_destination os d ?destination (map fst sources) (po_force opts) = Inr ()"
          "pack_payload os entry_path ?root (po_with_packages opts) ?fmt sources = Inr (content, members, payload, metadata)"
          "render_for os ?fmt content = Inr runner"
        by (auto simp: and_then_Inr split: prod.splits)
      obtain r' d1 where w: "write_runner os ?destination runner (?fmt = PS1) d = (r', d1)" by fastforce
      have "(r, d') = (case r' of Inl e \<Rightarrow> (Inl e, d1)
          | Inr _ \<Rightarrow> (Inr \<lparr>ps_output_path = path_text ?destination, ps_entry = rc_entry content,
              ps_files = sort (map fst members), ps_payload_sha256 = rc_payload_sha256 content,
              ps_payload_bytes = length payload, ps_uv_args = rc_uv_args content,
              ps_external_imports = external, ps_has_script_metadata = (metadata \<noteq> [])\<rparr>, d1))"
        using assms Inr c sx s prepared x w by (simp add: pack_script_def Let_def split: sum.splits)
      then have "d1 = d'" and result: "case r' of Inl e \<Rightarrow> r = Inl e
          | Inr _ \<Rightarrow> r = Inr \<lparr>ps_output_path = path_text ?destination, ps_entry = rc_entry content,
              ps_files = sort (map fst members), ps_payload_sha256 = rc_payload_sha256 content,
              ps_payload_bytes = length payload, ps_uv_args = rc_uv_args content,
              ps_external_imports = external, ps_has_script_metadata = (metadata \<noteq> [])\<rparr>"
        by (auto split: sum.splits)
      with Inr c sx s parts w show ?thesis
        by (intro disjI2 exI[of _ entry_path] exI[of _ sources] exI[of _ external] exI[of _ content] exI[of _ members]
            exI[of _ payload] exI[of _ metadata] exI[of _ runner] exI[of _ r']) (simp add: Let_def)
    qed
  qed
qed

lemma pack_script_Inr:
  assumes "pack_script os entry dest opts d = Some (Inr manifest, d')"
    "existing_file os (path_of entry) ''entry script'' d = Inr entry_path" "resolve_format (po_format opts) dest = fmt"
  shows "\<exists>sources external content members payload metadata runner.
    collect_sources os d entry_path (pack_root os entry_path opts) (po_include opts) = Some (Inr (sources, external)) \<and>
    pack_payload os entry_path (pack_root os entry_path opts) (po_with_packages opts) fmt sources =
      Inr (content, members, payload, metadata) \<and>
    render_for os fmt content = Inr runner \<and>
    write_runner os (pack_destination os entry_path dest fmt) runner (fmt = PS1) d = (Inr (), d') \<and>
    ps_files manifest = sort (map fst members) \<and> ps_payload_sha256 manifest = rc_payload_sha256 content \<and>
    ps_payload_bytes manifest = length payload \<and> ps_external_imports manifest = external"
proof -
  from pack_script_run[OF assms(1)] assms(2,3) obtain sources external content members payload metadata runner r' where
    run: "collect_sources os d entry_path (pack_root os entry_path opts) (po_include opts) = Some (Inr (sources, external))"
      "pack_payload os entry_path (pack_root os entry_path opts) (po_with_packages opts) fmt sources =
        Inr (content, members, payload, metadata)" "render_for os fmt content = Inr runner"
      "write_runner os (pack_destination os entry_path dest fmt) runner (fmt = PS1) d = (r', d')" and
    result: "case r' of Inl e \<Rightarrow> Inr manifest = Inl e
       | Inr _ \<Rightarrow> Inr manifest = (Inr \<lparr>ps_output_path = path_text (pack_destination os entry_path dest fmt),
          ps_entry = rc_entry content, ps_files = sort (map fst members), ps_payload_sha256 = rc_payload_sha256 content,
          ps_payload_bytes = length payload, ps_uv_args = rc_uv_args content, ps_external_imports = external,
          ps_has_script_metadata = (metadata \<noteq> [])\<rparr> :: packed_script res)"
    by (auto simp: Let_def)
  from result have "r' = Inr ()" by (cases r') auto
  with run result show ?thesis
    by (intro exI[of _ sources] exI[of _ external] exI[of _ content] exI[of _ members]
        exI[of _ payload] exI[of _ metadata] exI[of _ runner]) simp
qed

section \<open>The members of a pack\<close>

lemma update_new: "k \<notin> fst ` set al \<Longrightarrow> AList.update k v al = al @ [(k, v)]"
  by (induction al) auto

lemma fold_update_new:
  "distinct (map fst (acc @ named)) \<Longrightarrow> fold (\<lambda>(k, v). AList.update k v) named acc = acc @ named"
  by (induction named arbitrary: acc) (auto simp: update_new)

lemma insort_map: "insort_key f (g x) (map g xs) = map g (insort_key (f \<circ> g) x xs)"
  by (induction xs) auto

lemma sort_map: "sort_key f (map g xs) = map g (sort_key (f \<circ> g) xs)"
  by (induction xs) (auto simp: insort_map comp_def)

lemma map_fst_sort: "map fst (sort_key fst xs) = sort (map fst xs)"
  using sort_map[of "\<lambda>x. x" fst xs] by (simp add: comp_def)

text \<open>Paths the system resolves hold components only; no file is above another, and none is the root.\<close>

definition real_components :: "pack_os \<Rightarrow> bool" where
  "real_components os \<longleftrightarrow> (\<forall>p. \<forall>c \<in> set (parts (realpath os p)). component c)"

definition tree_shaped :: "disk \<Rightarrow> path \<Rightarrow> bool" where
  "tree_shaped d root \<longleftrightarrow> root \<notin> dom (disk_files d) \<and>
     (\<forall>p \<in> dom (disk_files d). \<forall>q \<in> dom (disk_files d). below p q \<longrightarrow> p = q)"

definition relative_parts :: "path \<Rightarrow> path \<Rightarrow> pystr list" where
  "relative_parts root p = drop (length (parts root)) (parts p)"

lemma placed_relative: "below p root \<Longrightarrow> placed root (relative_parts root p) = p"
  by (auto simp: below_placed relative_parts_def placed_def)

lemma relative_placed [simp]: "relative_parts root (placed root cs) = cs"
  by (simp add: relative_parts_def placed_def)

lemma placed_append: "placed (placed t a) b = placed t (a @ b)"
  by (simp add: placed_def)

text \<open>What the sources of a pack look like: distinct real paths below the root, read from the disk.\<close>

definition good_sources :: "pack_os \<Rightarrow> disk \<Rightarrow> path \<Rightarrow> sources \<Rightarrow> bool" where
  "good_sources os d root sources \<longleftrightarrow> distinct (map fst sources) \<and>
     (\<forall>(p, body) \<in> set sources. realpath os p = p \<and> below p root \<and> disk_files d p = Some body)"

lemma imported_is_real:
  assumes "links_resolved os" "(imports_file os d root)\<^sup>*\<^sup>* entry p" "realpath os entry = entry"
  shows "realpath os p = p"
  using assms(2,3) by (induction) (auto simp: imports_file_def dest: resolved_is_real[OF assms(1)])

lemma collected_good:
  assumes "links_resolved os" "realpath os entry = entry"
    "collect_sources os d entry root extras = Some (Inr (sources, external))"
  shows "good_sources os d root sources"
proof -
  note c = collect_sources_Inr[OF assms(3)]
  have real: "realpath os p = p" if "p \<in> fst ` set sources" for p
    using that imported_is_real[OF assms(1) _ assms(2)] realpath_idem[OF assms(1)] unfolding c(1) by auto
  have "realpath os p = p \<and> below p root \<and> disk_files d p = Some body" if "(p, body) \<in> set sources" for p body
  proof -
    have "p \<in> fst ` set sources" using that by force
    with real c(4) have "realpath os p = p" "below p root" by metis+
    moreover have "disk_files d (realpath os p) = Some body" using c(3) that read_bytes_Inr by blast
    ultimately show ?thesis by simp
  qed
  with c(2) show ?thesis by (auto simp: good_sources_def)
qed

lemma sort_mset: "mset xs = mset ys \<Longrightarrow> sort xs = (sort ys :: 'a :: linorder list)"
  by (rule properties_for_sort) simp_all

lemma side_by_side_mset:
  assumes "mset xs = mset ys"
  shows "side_by_side xs \<longleftrightarrow> side_by_side ys"
  using mset_eq_setD[OF assms] mset_eq_imp_distinct_iff[OF assms] by (simp add: side_by_side_def)

lemma side_by_sideI:
  assumes "distinct css" "set css = f ` K" "\<And>p q. p \<in> K \<Longrightarrow> q \<in> K \<Longrightarrow> prefix (f p) (f q) \<Longrightarrow> p = q"
    "\<And>p. p \<in> K \<Longrightarrow> f p \<noteq> [] \<and> (\<forall>x \<in> set (f p). component x)"
  shows "side_by_side css"
  unfolding side_by_side_def assms(2) using assms(1) assms(4) by (auto dest: assms(3)[rotated 2])

lemma relative_components:
  assumes "real_components os" "good_sources os d root sources" "tree_shaped d root"
  shows "side_by_side (map (relative_parts root \<circ> fst) sources)"
proof -
  have below: "below p root \<and> realpath os p = p \<and> p \<in> dom (disk_files d)" if "p \<in> fst ` set sources" for p
    using that assms(2) by (auto simp: good_sources_def)
  have at: "placed root (relative_parts root p) = p" if "p \<in> fst ` set sources" for p
    using placed_relative below[OF that] by blast
  have "inj_on (relative_parts root) (fst ` set sources)" by (rule inj_onI) (metis at)
  moreover have d: "distinct (map fst sources)" using assms(2) by (simp only: good_sources_def)
  ultimately have distinct: "distinct (map (relative_parts root) (map fst sources))"
    by (simp only: distinct_map[of "relative_parts root" "map fst sources"] d set_map)
  have apart: "p = q" if p: "p \<in> fst ` set sources" and q: "q \<in> fst ` set sources"
    and pre: "prefix (relative_parts root p) (relative_parts root q)" for p q
  proof -
    obtain r where "relative_parts root q = relative_parts root p @ r" using pre by (auto simp: prefix_def)
    then have "q = placed p r" using at[OF p] at[OF q] placed_append by metis
    then have "below q p" by (auto simp: below_placed)
    then show ?thesis using assms(3) below[OF p] below[OF q] by (auto simp: tree_shaped_def)
  qed
  have named: "relative_parts root p \<noteq> [] \<and> (\<forall>x \<in> set (relative_parts root p). component x)" if "p \<in> fst ` set sources" for p
  proof -
    have "p \<noteq> root" using below[OF that] assms(3) by (auto simp: tree_shaped_def)
    then have "relative_parts root p \<noteq> []" using at[OF that] by (metis placed_Nil)
    moreover have "set (relative_parts root p) \<subseteq> set (parts (realpath os p))"
      using below[OF that] set_drop_subset by (fastforce simp: relative_parts_def)
    ultimately show ?thesis using assms(1) by (auto simp: real_components_def)
  qed
  have "side_by_side (map (relative_parts root) (map fst sources))"
    by (rule side_by_sideI[OF distinct, where f = "relative_parts root" and K = "fst ` set sources"])
       (simp only: set_map, fact apart, fact named)
  then show ?thesis by simp
qed

text \<open>The members as the archive names them, and the same members by their components.\<close>

definition named_members :: "path \<Rightarrow> sources \<Rightarrow> (pystr \<times> bytes) list" where
  "named_members root sources = map (\<lambda>(p, body). (relative_text (relative_parts root p), body)) sources"

definition sorted_members :: "path \<Rightarrow> sources \<Rightarrow> (pystr list \<times> bytes) list" where
  "sorted_members root sources =
     sort_key (relative_text \<circ> fst) (map (\<lambda>(p, body). (relative_parts root p, body)) sources)"

lemma named_distinct:
  assumes "side_by_side (map (relative_parts root \<circ> fst) sources)"
  shows "distinct (map fst (named_members root sources))"
proof -
  have "inj_on relative_text (set (map (relative_parts root \<circ> fst) sources))"
    using assms by (intro inj_onI relative_text_inj) (auto simp: side_by_side_def)
  with assms have "distinct (map relative_text (map (relative_parts root \<circ> fst) sources))"
    by (simp only: distinct_map[of relative_text] side_by_side_def)
  then show ?thesis by (simp add: named_members_def comp_def split_def)
qed

lemma sorted_named:
  "sort_key fst (named_members root sources) = map (\<lambda>(cs, body). (relative_text cs, body)) (sorted_members root sources)"
proof -
  have "named_members root sources =
      map (\<lambda>(cs, body). (relative_text cs, body)) (map (\<lambda>(p, body). (relative_parts root p, body)) sources)"
    by (simp add: named_members_def comp_def split_def)
  then show ?thesis by (simp only: sorted_members_def sort_map comp_def split_def fst_conv)
qed

lemma sorted_side_by_side:
  assumes "side_by_side (map (relative_parts root \<circ> fst) sources)"
  shows "side_by_side (map fst (sorted_members root sources))"
proof -
  have "mset (map fst (sorted_members root sources)) = mset (map (relative_parts root \<circ> fst) sources)"
    by (simp add: sorted_members_def comp_def split_def multiset.map_comp)
  with assms show ?thesis using side_by_side_mset by blast
qed

lemma sorted_placed:
  assumes "side_by_side (map (relative_parts root \<circ> fst) sources)"
  shows "map_of (map (\<lambda>(cs, body). (placed t cs, body)) (sorted_members root sources)) =
    map_of (map (\<lambda>(p, body). (placed t (relative_parts root p), body)) sources)"
proof -
  let ?rel = "\<lambda>(p, body). (relative_parts root p, body)"
  have again: "map (\<lambda>(p, body). (placed t (relative_parts root p), body)) sources =
      map (\<lambda>(cs, body). (placed t cs, body)) (map ?rel sources)" by (simp add: comp_def split_def)
  have keys: "distinct (map fst (map ?rel sources))" using assms by (simp add: side_by_side_def comp_def split_def)
  have sorted_keys: "distinct (map fst (sorted_members root sources))"
    using sorted_side_by_side[OF assms] by (simp only: side_by_side_def)
  show ?thesis unfolding again
    by (rule map_of_inject_set[OF placed_distinct[OF sorted_keys] placed_distinct[OF keys], THEN iffD2])
       (simp only: sorted_members_def set_map set_sort)
qed

lemma member_list_good:
  assumes "real_components os" "good_sources os d root sources" "tree_shaped d root"
  shows "member_list os root sources = Inr (named_members root sources)"
proof -
  have "archive_name os p root = Inr (relative_text (relative_parts root p))" if "(p, body) \<in> set sources" for p body
    using that assms(2) by (auto simp: good_sources_def archive_name_def below_placed)
  then have "map_res (\<lambda>(p, body). and_then (archive_name os p root) (\<lambda>name. Inr (name, body))) sources =
      Inr (named_members root sources)"
    unfolding named_members_def by (intro map_res_all) auto
  with named_distinct[OF relative_components[OF assms]] fold_update_new[of "[]" "named_members root sources"]
  show ?thesis by (simp add: member_list_def)
qed

text \<open>
  What a zip file is for: the names and contents that went in come out. \<open>zipfile\<close> cuts a name at a NUL, turns a
  backslash into a slash where that is the separator, and takes a name that ends in a slash for a directory.
\<close>

definition zip_name :: "pystr \<Rightarrow> bool" where
  "zip_name n \<longleftrightarrow> n \<noteq> [] \<and> 0 \<notin> set n \<and> backslash \<notin> set n \<and> last n \<noteq> slash_char"

definition zip_faithful :: "pack_os \<Rightarrow> bool" where
  "zip_faithful os \<longleftrightarrow> (\<forall>ms payload. zip_bytes os ms = Inr payload \<and> distinct (map fst ms) \<and> (\<forall>n \<in> fst ` set ms. zip_name n) \<longrightarrow>
     is_bytes payload \<and> zip_names os payload = Inr (map fst ms) \<and> (\<forall>(n, b) \<in> set ms. zip_read os payload n = Inr b))"

lemma relative_text_end:
  assumes "cs \<noteq> []" "\<forall>x \<in> set cs. component x"
  shows "relative_text cs \<noteq> [] \<and> last (relative_text cs) \<noteq> slash_char"
proof -
  have "join [slash_char] cs \<noteq> [] \<and> last (join [slash_char] cs) \<noteq> slash_char"
    using assms
  proof (induction cs rule: induct_list012)
    case (2 x)
    then have "x \<noteq> []" "slash_char \<notin> set x" by (auto simp: component_def)
    then show ?case by (metis join.simps(2) last_in_set)
  qed simp_all
  with assms(1) show ?thesis by (simp add: relative_text_def)
qed

lemma pack_payload_Inr:
  assumes "pack_payload os entry_path root packages fmt sources = Inr (content, members, payload, metadata)"
  shows "\<exists>base shim. member_list os root sources = Inr base \<and> shim_module \<notin> fst ` set base \<and>
    members = base @ [(shim_module, shim)] \<and> build_archive os fmt members = Inr payload \<and>
    chunk_base64 (b64encode payload) 120 = Inr (rc_payload_b64 content) \<and>
    archive_name os entry_path root = Inr (rc_entry content) \<and> rc_payload_sha256 content = sha256_hex os payload \<and>
    fd_path ` set (rc_file_hashes content) = fst ` set members \<and>
    (\<forall>fh \<in> set (rc_file_hashes content). \<exists>b. fd_digest fh = sha256_hex os b)"
  using assms by (force simp: pack_payload_def and_then_Inr update_new Let_def image_image split_def split: if_splits option.splits)

lemma extract_zip:
  assumes "zip_faithful os" "build_archive os PS1 (base @ [(shim_module, shim)]) = Inr payload"
    "distinct (map fst base)" "shim_module \<notin> fst ` set base" "\<forall>n \<in> fst ` set base. zip_name n"
  shows "extract_zip_members os payload target force d =
    write_members os target force (map (\<lambda>(n, b). (n, Inr b)) (sort_key fst base)) [] d" "is_bytes payload"
proof -
  let ?ms = "sort_key fst (base @ [(shim_module, shim)])"
  have "distinct (map fst ?ms)" using assms(3,4) by (simp add: map_fst_sort)
  moreover have zip: "zip_bytes os ?ms = Inr payload"
    using assms(2) by (auto simp: build_archive_def split: sum.splits)
  moreover have "\<forall>n \<in> fst ` set ?ms. zip_name n"
    using assms(5) by (auto simp: zip_name_def shim_module_def u_def slash_char_def)
  ultimately have names: "zip_names os payload = Inr (map fst ?ms)" and read: "\<forall>(n, b) \<in> set ?ms. zip_read os payload n = Inr b"
    and "is_bytes payload"
    using assms(1) unfolding zip_faithful_def by blast+
  then show "is_bytes payload" by simp
  have "filter (\<lambda>m. fst m \<noteq> shim_module) ?ms = sort_key fst (filter (\<lambda>m. fst m \<noteq> shim_module) (base @ [(shim_module, shim)]))"
    by (rule filter_sort)
  also have "filter (\<lambda>m. fst m \<noteq> shim_module) (base @ [(shim_module, shim)]) = base"
    using assms(4) by (force simp: filter_id_conv)
  finally have kept: "filter (\<lambda>m. fst m \<noteq> shim_module) ?ms = sort_key fst base" .
  have "map (\<lambda>name. (name, zip_read os payload name)) (filter (\<lambda>name. name \<noteq> shim_module) (map fst ?ms)) =
      map (\<lambda>m. (fst m, zip_read os payload (fst m))) (sort_key fst base)"
    by (simp only: filter_map comp_def kept map_map)
  also have "\<dots> = map (\<lambda>(n, b). (n, Inr b)) (sort_key fst base)"
    using read by (intro map_cong) auto
  finally have items: "map (\<lambda>name. (name, zip_read os payload name)) (filter (\<lambda>name. name \<noteq> shim_module) (map fst ?ms)) =
      map (\<lambda>(n, b). (n, Inr b)) (sort_key fst base)" .
  have "sort (map fst ?ms) = map fst ?ms" by (simp add: sorted_sort_id map_fst_sort)
  with names items show "extract_zip_members os payload target force d =
      write_members os target force (map (\<lambda>(n, b). (n, Inr b)) (sort_key fst base)) [] d"
    by (simp only: extract_zip_members_def sum.case)
qed

text \<open>A template with the payload hole in its block, as \<open>templates/pack_runner.ps1\<close> has it.\<close>

definition payload_block :: "segment list" where
  "payload_block = [Literal ([10] @ payload_open @ [10]), Hole (token ''PAYLOAD_B64''), Literal ([10] @ payload_close @ [10])]"

definition template_segments :: "segment list \<Rightarrow> bool" where
  "template_segments segs \<longleftrightarrow> (\<forall>seg \<in> set segs. case seg of
      Literal s \<Rightarrow> plain_literal s | Hole tok \<Rightarrow> tok \<in> insert entry_name_placeholder (set placeholders))"

definition front :: "runner_content \<Rightarrow> segment list \<Rightarrow> pystr" where
  "front content segs = concat (map (segment_value (powershell_replacements content)) segs)"

lemma powershell_keys: "fst ` set (powershell_replacements content) = insert entry_name_placeholder (set placeholders)"
  by (auto simp: powershell_replacements_def placeholders_def entry_name_placeholder_def)

lemma rendered_segments:
  assumes "runner_template os PS1 = Inr (concat (map segment_text (segs0 @ payload_block @ segs1)))"
    "template_segments (segs0 @ segs1)" "render_for os PS1 content = Inr runner"
  shows "runner = concat (map (segment_value (powershell_replacements content)) (segs0 @ payload_block @ segs1))"
proof -
  have "runner = substitute (powershell_replacements content) (concat (map segment_text (segs0 @ payload_block @ segs1)))"
    using assms(1,3) by (auto simp: render_for_def read_template_def render_runner_def and_then_Inr split: if_splits)
  also have "\<dots> = concat (map (segment_value (powershell_replacements content)) (segs0 @ payload_block @ segs1))"
  proof (intro substitute_segments replacements_prefix_free replacements_shaped)
    have "plain_literal (10 # payload_open @ [10])" "plain_literal (10 # payload_close @ [10])"
      by (simp_all add: payload_open_def payload_close_def u_def at_sign_def)
    then show "\<forall>seg \<in> set (segs0 @ payload_block @ segs1). case seg of Literal s \<Rightarrow> plain_literal s
        | Hole tok \<Rightarrow> tok \<in> fst ` set (powershell_replacements content)"
      using assms(2) unfolding powershell_keys template_segments_def
      by (auto simp: payload_block_def placeholders_def)
  qed
  finally show ?thesis .
qed

lemma payload_block_text:
  "concat (map (segment_value (powershell_replacements content)) payload_block) =
     [10] @ payload_open @ [10] @ rc_payload_b64 content @ [10] @ payload_close @ [10]"
  by (simp add: payload_block_def powershell_replacements_def)

lemma rendered_shape:
  assumes "runner_template os PS1 = Inr (concat (map segment_text (segs0 @ payload_block @ segs1)))"
    "template_segments (segs0 @ segs1)" "render_for os PS1 content = Inr runner"
  shows "\<exists>after. runner = front content segs0 @ [10] @ payload_open @ [10] @ rc_payload_b64 content @ [10] @ payload_close @ [10] @ after"
  using rendered_segments[OF assms] payload_block_text[of content] by (auto simp: front_def)

section \<open>The lines before the payload\<close>

text \<open>
  The template line by line: what is in front of the last literal of a line, and that literal. A line is \<open>quiet\<close>
  when no values without line breaks turn it into the line that opens the payload: it has no hole, or it is the file list,
  or it begins with a literal the opening line does not begin with. The holes of \<open>templates/pack_runner.ps1\<close>
  before its payload stand in such lines.
\<close>

type_synonym template_line = "segment list \<times> pystr"

definition template_lines :: "template_line list \<Rightarrow> segment list" where
  "template_lines ls = concat (map (\<lambda>(segs, s). segs @ [Literal (s @ [10])]) ls)"

definition harmless :: "pystr \<Rightarrow> bool" where
  "harmless t \<longleftrightarrow> lstrip t \<noteq> [] \<and> \<not> prefix (lstrip t) payload_open \<and> \<not> prefix payload_open (lstrip t)"

fun inline_segment :: "segment \<Rightarrow> bool" where
  "inline_segment (Literal t) \<longleftrightarrow> no_breaks t"
| "inline_segment (Hole tok) \<longleftrightarrow> tok \<noteq> token ''PAYLOAD_B64'' \<and> tok \<noteq> token ''FILE_HASHES'' \<and>
     tok \<in> insert entry_name_placeholder (set placeholders)"

fun quiet_line :: "template_line \<Rightarrow> bool" where
  "quiet_line ([], s) \<longleftrightarrow> no_breaks s \<and> strip s \<noteq> payload_open"
| "quiet_line (Hole tok # segs, s) \<longleftrightarrow> tok = token ''FILE_HASHES'' \<and> segs = [] \<and> s = []"
| "quiet_line (Literal t # segs, s) \<longleftrightarrow> no_breaks t \<and> no_breaks s \<and> harmless t \<and> list_all inline_segment segs"

text \<open>A digest is hexadecimal; the names, uv arguments and the Python request hold no character that Python takes for a
  line break, and a name has none a zip file would change.\<close>

definition hex_digest :: "pystr \<Rightarrow> bool" where
  "hex_digest s \<longleftrightarrow> s \<noteq> [] \<and> (\<forall>c \<in> set s. is_digit c \<or> 97 \<le> c \<and> c \<le> 102)"

definition plain_content :: "runner_content \<Rightarrow> bool" where
  "plain_content content \<longleftrightarrow> no_breaks (rc_entry content) \<and> (\<forall>arg \<in> set (rc_uv_args content). no_breaks arg) \<and>
     no_breaks (rc_python_request content) \<and>
     (\<forall>fh \<in> set (rc_file_hashes content). no_breaks (fd_path fh) \<and> 0 \<notin> set (fd_path fh) \<and> backslash \<notin> set (fd_path fh))"

lemma harmless_line:
  assumes "harmless t"
  shows "strip (t @ v) \<noteq> payload_open"
proof
  assume opener: "strip (t @ v) = payload_open"
  have "lstrip (t @ v) = lstrip t @ v"
    using assms unfolding harmless_def lstrip_def by (metis dropWhile_append dropWhile_eq_Nil_conv)
  moreover have "prefix (rstrip x) x" for x
    unfolding rstrip_def by (metis prefix_def rev_append rev_rev_ident takeWhile_dropWhile_id)
  ultimately have "prefix payload_open (lstrip t @ v)" using opener unfolding strip_def by metis
  moreover have "prefix (lstrip t) (lstrip t @ v)" by simp
  ultimately show False using assms prefix_same_cases unfolding harmless_def by blast
qed

lemma digest_harmless: "hex_digest s \<Longrightarrow> harmless s \<and> no_breaks s"
proof -
  assume hex: "hex_digest s"
  have "\<not> py_isspace c \<and> \<not> is_line_break c \<and> c \<noteq> hd payload_open" if "is_digit c \<or> 97 \<le> c \<and> c \<le> 102" for c
    using that by (auto simp: py_isspace_def is_line_break_def is_digit_def payload_open_def u_def)
  then have all: "\<forall>c \<in> set s. \<not> py_isspace c \<and> \<not> is_line_break c \<and> c \<noteq> hd payload_open" using hex by (simp add: hex_digest_def)
  obtain c cs where s: "s = c # cs" using hex by (cases s) (auto simp: hex_digest_def)
  have opener: "payload_open = hd payload_open # tl payload_open" by (simp add: payload_open_def u_def)
  from all s have "lstrip s = s" "c \<noteq> hd payload_open" by (auto simp: lstrip_def)
  then have "harmless s" unfolding harmless_def s by (subst (1 2) opener) (auto simp: prefix_Cons)
  with all show ?thesis by (simp add: no_breaks_def)
qed

lemma join_no_breaks: "no_breaks sep \<Longrightarrow> \<forall>x \<in> set xs. no_breaks x \<Longrightarrow> no_breaks (join sep xs)"
  by (induction sep xs rule: join.induct) auto

lemma literal_no_breaks: "no_breaks s \<Longrightarrow> no_breaks (powershell_literal s)"
  by (auto simp: no_breaks_def powershell_literal_def powershell_body_def u_def is_line_break_def)

lemma anchored_no_breaks:
  assumes "\<forall>arg \<in> set args. no_breaks arg"
  shows "\<forall>(arg, split) \<in> set (anchored_from previous args). \<forall>head location. split = Some (head, location) \<longrightarrow> no_breaks location"
  using assms
proof (induction previous args rule: anchored_from.induct)
  case (2 previous arg args)
  have "no_breaks (drop n arg)" for n using 2(2) set_drop_subset[of n arg] by (auto simp: no_breaks_def)
  then have "split_relative_requirement arg = Some (head, location) \<Longrightarrow> no_breaks location" for head location
    by (auto simp: split_relative_requirement_def Let_def split: if_splits)
  with 2 show ?case by auto
qed simp

lemma replaced_no_breaks:
  assumes "plain_content content" "hex_digest (rc_payload_sha256 content)"
    "(tok, v) \<in> set (powershell_replacements content)" "tok \<noteq> token ''PAYLOAD_B64''" "tok \<noteq> token ''FILE_HASHES''"
  shows "no_breaks v"
proof -
  have fixed: "no_breaks shim_module" "no_breaks argv_env_var" "no_breaks cwd_env_var" "no_breaks path_env_var"
    "no_breaks uv_path_env_var" "no_breaks caller_env_var" "no_breaks (u ''$true'')" "no_breaks (u ''$false'')" "no_breaks (u '','')"
    by (simp_all add: shim_module_def argv_env_var_def cwd_env_var_def path_env_var_def uv_path_env_var_def caller_env_var_def
        u_def is_line_break_def)
  have plain: "no_breaks (rc_entry content)" "\<forall>arg \<in> set (rc_uv_args content). no_breaks arg" "no_breaks (rc_python_request content)"
    using assms(1) by (simp_all add: plain_content_def)
  have uv_args: "no_breaks (powershell_string_array (rc_uv_args content))"
    unfolding powershell_string_array_def using plain(2) fixed(9) by (intro join_no_breaks) (auto intro: literal_no_breaks)
  have "no_breaks (powershell_relative_suffixes (rc_uv_args content))"
    unfolding powershell_relative_suffixes_def anchored_values_def
    using anchored_no_breaks[OF plain(2), of "[]"] fixed(9)
    by (intro join_no_breaks) (auto intro!: literal_no_breaks split: option.split prod.split)
  moreover have "no_breaks (rc_payload_sha256 content)" using digest_harmless assms(2) by blast
  moreover note literal_no_breaks[OF plain(1)] literal_no_breaks[OF plain(3)]
  ultimately show ?thesis using assms(3-5) fixed uv_args plain(1)
    unfolding powershell_replacements_def by (simp, elim disjE) simp_all
qed

lemma inline_no_breaks:
  assumes "plain_content content" "hex_digest (rc_payload_sha256 content)" "inline_segment seg"
  shows "no_breaks (segment_value (powershell_replacements content) seg)"
proof (cases seg)
  case (Hole tok)
  with assms(3) have "tok \<in> fst ` set (powershell_replacements content)" unfolding powershell_keys by simp
  then obtain v where v: "map_of (powershell_replacements content) tok = Some v" by (metis map_of_eq_None_iff not_Some_eq)
  with Hole assms(3) replaced_no_breaks[OF assms(1,2) map_of_SomeD[OF v]] show ?thesis by simp
qed (use assms(3) in simp)

lemma quiet_lines:
  assumes "plain_content content" "hex_digest (rc_payload_sha256 content)"
    "\<forall>fh \<in> set (rc_file_hashes content). hex_digest (fd_digest fh)" "rc_file_hashes content \<noteq> []" "quiet_line l"
  shows "\<exists>ls. (\<forall>x \<in> set ls. strip x \<noteq> payload_open) \<and>
    (\<forall>rest. splitlines (front content (template_lines [l]) @ rest) = ls @ splitlines rest)"
  using assms(5)
proof (cases rule: quiet_line.cases[of l])
  case (1 s)
  with assms(5) show ?thesis
    by (intro exI[of _ "[s]"]) (simp add: front_def template_lines_def splitlines_break)
next
  case (2 tok segs s)
  let ?ls = "map (\<lambda>fh. fd_digest fh @ u '' *'' @ fd_path fh) (rc_file_hashes content)"
  have hole: "front content (template_lines [l]) = join [newline] ?ls @ [10]"
  proof -
    have "map_of (powershell_replacements content) (token ''FILE_HASHES'') = Some (join [newline] ?ls)"
      by (simp add: powershell_replacements_def token_def entry_name_placeholder_def u_def)
    with 2 assms(5) show ?thesis by (simp add: front_def template_lines_def)
  qed
  have lines: "front content (template_lines [l]) = unlines ?ls"
    unfolding hole using assms(4) by (intro unlines_join) simp
  have star: "no_breaks (u '' *'')" by (simp add: u_def is_line_break_def)
  have each: "no_breaks (fd_digest fh @ u '' *'' @ fd_path fh) \<and> strip (fd_digest fh @ u '' *'' @ fd_path fh) \<noteq> payload_open"
    if "fh \<in> set (rc_file_hashes content)" for fh
  proof -
    have "hex_digest (fd_digest fh)" "no_breaks (fd_path fh)" using assms(1,3) that by (simp_all add: plain_content_def)
    then show ?thesis using digest_harmless[of "fd_digest fh"] harmless_line star by simp
  qed
  then have "splitlines (unlines ?ls @ rest) = ?ls @ splitlines rest" for rest
    by (intro splitlines_unlines_append) simp
  with each show ?thesis unfolding lines by (intro exI[of _ ?ls]) simp
next
  case (3 t segs s)
  define v where "v = concat (map (segment_value (powershell_replacements content)) segs) @ s"
  have "no_breaks (concat (map (segment_value (powershell_replacements content)) segs))"
    using inline_no_breaks[OF assms(1,2)] 3 assms(5) by (auto simp: no_breaks_def list_all_iff)
  then have "no_breaks (t @ v)" using 3 assms(5) by (simp add: v_def)
  moreover have "front content (template_lines [l]) = (t @ v) @ [10]"
    using 3 by (simp add: front_def template_lines_def v_def)
  moreover have "strip (t @ v) \<noteq> payload_open" using harmless_line[of t v] 3 assms(5) by simp
  ultimately show ?thesis
    by (intro exI[of _ "[t @ v]"]) (simp add: splitlines_break del: append_assoc no_breaks_simps, metis append.assoc append_Cons append_Nil splitlines_break)
qed

lemma quiet_front:
  assumes "plain_content content" "hex_digest (rc_payload_sha256 content)"
    "\<forall>fh \<in> set (rc_file_hashes content). hex_digest (fd_digest fh)" "rc_file_hashes content \<noteq> []"
    "\<forall>l \<in> set ls. quiet_line l"
  shows "\<forall>l \<in> set (splitlines (front content (template_lines ls) @ [10])). strip l \<noteq> payload_open"
  using assms(5)
proof (induction ls)
  case Nil
  have "strip [] \<noteq> payload_open" by (simp add: strip_def lstrip_def rstrip_def payload_open_def u_def)
  then show ?case by (simp add: front_def template_lines_def is_line_break_def)
next
  case (Cons l ls)
  then obtain first where "\<forall>x \<in> set first. strip x \<noteq> payload_open"
    "\<And>rest. splitlines (front content (template_lines [l]) @ rest) = first @ splitlines rest"
    using quiet_lines[OF assms(1-4), of l] by auto
  moreover have "front content (template_lines (l # ls)) @ [10] = front content (template_lines [l]) @ (front content (template_lines ls) @ [10])"
    by (simp add: front_def template_lines_def)
  moreover have "\<forall>x \<in> set (splitlines (front content (template_lines ls) @ [10])). strip x \<noteq> payload_open" using Cons by simp
  ultimately show ?case by auto
qed

text \<open>Packing and unpacking again: the steps of the two runs put together.\<close>

lemma pack_then_unpack:
  assumes os: "links_resolved os" "real_components os" "zip_faithful os" "no_faults os"
      "canonical_name (codecs os) (u ''utf-8'') = Some (u ''utf-8'')"
    and template: "runner_template os PS1 = Inr (concat (map segment_text (segs0 @ payload_block @ segs1)))"
      "template_segments (segs0 @ segs1)"
    and pack: "existing_file os (path_of entry) ''entry script'' d = Inr entry_path" "resolve_format (po_format opts) dest = PS1"
      "pack_script os entry dest opts d = Some (Inr manifest, d1)" "tree_shaped d (pack_root os entry_path opts)"
    and front: "\<forall>content members payload metadata sources external.
        collect_sources os d entry_path (pack_root os entry_path opts) (po_include opts) = Some (Inr (sources, external)) \<and>
        pack_payload os entry_path (pack_root os entry_path opts) (po_with_packages opts) PS1 sources =
          Inr (content, members, payload, metadata) \<longrightarrow>
        (\<forall>l \<in> set (splitlines (front content segs0 @ [10])). strip l \<noteq> payload_open) \<and>
        (\<forall>fh \<in> set (rc_file_hashes content). 0 \<notin> set (fd_path fh) \<and> backslash \<notin> set (fd_path fh))"
    and unpack: "realpath os (expanduser os (path_of packed)) = realpath os (pack_destination os entry_path dest PS1)"
      "plain_target os (expanduser os (path_of out))" "clear (realpath os (expanduser os (path_of out))) {} d1"
  shows "\<exists>m d2 sources external. unpack_script os packed out force d1 = (Inr m, d2) \<and>
    collect_sources os d entry_path (pack_root os entry_path opts) (po_include opts) = Some (Inr (sources, external)) \<and>
    ps_files manifest = sort (shim_module # ps_files m) \<and> ps_payload_sha256 m = ps_payload_sha256 manifest \<and>
    ps_payload_bytes m = ps_payload_bytes manifest \<and> ps_external_imports manifest = external \<and>
    disk_files d2 = disk_files d1 ++ map_of (map (\<lambda>(p, body).
      (placed (realpath os (expanduser os (path_of out))) (relative_parts (pack_root os entry_path opts) p), body)) sources)"
proof -
  let ?root = "pack_root os entry_path opts"
  let ?out = "realpath os (expanduser os (path_of out))"
  from pack_script_Inr[OF pack(3,1,2)] obtain sources external content members payload metadata runner where
    collected: "collect_sources os d entry_path ?root (po_include opts) = Some (Inr (sources, external))" and
    payload: "pack_payload os entry_path ?root (po_with_packages opts) PS1 sources = Inr (content, members, payload, metadata)" and
    runner: "render_for os PS1 content = Inr runner" and
    written: "write_runner os (pack_destination os entry_path dest PS1) runner True d = (Inr (), d1)" and
    manifest: "ps_files manifest = sort (map fst members)" "ps_payload_sha256 manifest = rc_payload_sha256 content"
      "ps_payload_bytes manifest = length payload" "ps_external_imports manifest = external"
    by auto
  have real: "realpath os entry_path = entry_path" using pack(1) realpath_idem[OF os(1)] by (auto simp: existing_file_Inr)
  note good = collected_good[OF os(1) real collected]
  note side = relative_components[OF os(2) good pack(4)]
  let ?base = "named_members ?root sources"
  from pack_payload_Inr[OF payload] member_list_good[OF os(2) good pack(4)] obtain shim where
    base: "shim_module \<notin> fst ` set ?base" and members: "members = ?base @ [(shim_module, shim)]" and
    archive: "build_archive os PS1 (?base @ [(shim_module, shim)]) = Inr payload" and
    b64: "chunk_base64 (b64encode payload) 120 = Inr (rc_payload_b64 content)" and
    sha: "rc_payload_sha256 content = sha256_hex os payload" and
    hashed: "fd_path ` set (rc_file_hashes content) = fst ` set members" by auto
  have "zip_name n" if n: "n \<in> fst ` set ?base" for n
  proof -
    have "\<forall>fh \<in> set (rc_file_hashes content). 0 \<notin> set (fd_path fh) \<and> backslash \<notin> set (fd_path fh)"
      using front collected payload by blast
    then have "\<forall>x \<in> fd_path ` set (rc_file_hashes content). 0 \<notin> set x \<and> backslash \<notin> set x" by blast
    moreover have "n \<in> fst ` set members" using n members by auto
    ultimately have "0 \<notin> set n \<and> backslash \<notin> set n" unfolding hashed by blast
    moreover obtain p body where "(p, body) \<in> set sources" "n = relative_text (relative_parts ?root p)"
      using n by (auto simp: named_members_def)
    moreover from this have "relative_parts ?root p \<in> set (map (relative_parts ?root \<circ> fst) sources)" by force
    then have "relative_parts ?root p \<noteq> [] \<and> (\<forall>x \<in> set (relative_parts ?root p). component x)"
      using side unfolding side_by_side_def by blast
    ultimately show ?thesis using relative_text_end[of "relative_parts ?root p"] by (simp add: zip_name_def)
  qed
  then have "\<forall>n \<in> fst ` set ?base. zip_name n" by blast
  note zip = extract_zip[OF os(3) archive named_distinct[OF side] base this]
  obtain data where data: "disk_files d1 (realpath os (pack_destination os entry_path dest PS1)) = Some data"
    and lines: "splitlines (decode_sig_replace data) = splitlines runner"
    using runner_lines[OF written os(5)] by blast
  obtain rest where shape: "runner = front content segs0 @ [10] @ payload_open @ [10] @ rc_payload_b64 content @ [10] @ payload_close @ [10] @ rest"
    using rendered_shape[OF template runner] by blast
  have "\<forall>l \<in> set (splitlines (front content segs0 @ [10])). strip l \<noteq> payload_open"
    using front collected payload by blast
  from ps1_payload_read[OF zip(2) b64 this, of "decode_sig_replace data" rest] lines shape
  have recognised: "extract_payload (decode_sig_replace data) = Inr (payload, PS1)" by simp
  let ?ms = "sorted_members ?root sources"
  from write_members_land[OF unpack(2) os(4) sorted_side_by_side[OF side] _ unpack(3), of force "[]"] obtain d2 where
    landed: "write_members os (expanduser os (path_of out)) force (map (\<lambda>(cs, body). (relative_text cs, Inr body)) ?ms) [] d1 =
        (Inr (map (relative_text \<circ> fst) ?ms), d2)"
      "disk_files d2 = disk_files d1 ++ map_of (map (\<lambda>(cs, body). (placed ?out cs, body)) ?ms)"
    by (auto simp: unrelated_def)
  have "map (\<lambda>(n, b). (n, Inr b :: archive_fault + bytes)) (sort_key fst ?base) = map (\<lambda>(cs, body). (relative_text cs, Inr body)) ?ms"
    unfolding sorted_named by (simp add: comp_def split_def)
  with zip(1) landed(1) have extracted: "extract_zip_members os payload (expanduser os (path_of out)) force d1 =
      (Inr (map (relative_text \<circ> fst) ?ms), d2)" by simp
  have "existing_file os (path_of packed) ''packed script'' d1 = Inr (realpath os (pack_destination os entry_path dest PS1))"
    using data unpack(1) by (auto simp: existing_file_Inr is_file_def)
  moreover have "read_bytes os (realpath os (pack_destination os entry_path dest PS1)) d1 = Inr data"
    using data os(1,4) by (simp add: read_bytes_def read_file_def no_faults_def realpath_idem)
  ultimately obtain m where m: "unpack_script os packed out force d1 = (Inr m, d2)"
    "ps_files m = map (relative_text \<circ> fst) ?ms" "ps_payload_sha256 m = sha256_hex os payload" "ps_payload_bytes m = length payload"
    using recognised extracted by (auto simp: unpack_script_def Let_def)
  have "map (relative_text \<circ> fst) ?ms = map fst (sort_key fst ?base)" unfolding sorted_named by (simp add: comp_def split_def)
  then have "map (relative_text \<circ> fst) ?ms = sort (map fst ?base)" by (simp add: map_fst_sort)
  then have "ps_files manifest = sort (shim_module # ps_files m)"
    by (simp only: manifest(1) members m(2)) (rule sort_mset, simp)
  with m manifest sha collected landed(2) sorted_placed[OF side, of ?out] show ?thesis
    by (intro exI[of _ m] exI[of _ d2] exI[of _ sources] exI[of _ external]) simp
qed

end
