(* ===== verification/Packer_Sample.thy ===== *)
theory Packer_Sample
  imports Packer_Roundtrip Packing_Properties
begin

text \<open>The system the witnesses of the packer run on, and one pack on it, evaluated.\<close>

section \<open>The system\<close>

text \<open>One script \<open>/t.py\<close>, empty; the zip format of the witnesses knows the one archive they build.\<close>

definition clean_path :: "path \<Rightarrow> path" where
  "clean_path p = p\<lparr>parts := filter component (parts p)\<rparr>"

definition sample_members :: "(pystr \<times> bytes) list" where
  "sample_members = [(shim_module, []), (u ''t.py'', [])]"

definition sample_tail :: "segment list" where
  "sample_tail = map Hole placeholders"

definition sample_head :: "segment list" where
  "sample_head = [Literal (u ''#'')]"

text \<open>The runner's template: the lines of \<open>pack_runner.ps1\<close> that matter, with its holes before the payload.\<close>

definition sample_lines :: "template_line list" where
  "sample_lines =
     [([], u ''<#''),
      ([Literal (u ''    Packed with pwshpy: the Python script ''), Hole entry_name_placeholder], u '' and its local modules''),
      ([], u ''#>''),
      ([Literal (u ''$PwshPyEntry = ''), Hole (token ''ENTRY'')], []),
      ([Literal (u ''$PwshPySha = ''), Hole (token ''PAYLOAD_SHA256'')], []),
      ([Literal (u ''$PwshPyUvArgs = @(''), Hole (token ''UV_ARGS'')], u '')''),
      ([], u ''$PwshPyFileHashes = @'' @ [squote]),
      ([Hole (token ''FILE_HASHES'')], []),
      ([], [squote] @ u ''@'')]"

definition sample_pack_os :: pack_os where
  "sample_pack_os = \<lparr>expanduser = (\<lambda>p. p), realpath = clean_path, read_fault = (\<lambda>_. None), mkdir_fault = (\<lambda>_. None),
     file_io = \<lparr>open_fault = (\<lambda>_. None), append_fault = (\<lambda>_ _ _. None)\<rparr>,
     codecs = \<lparr>canonical_name = (\<lambda>_. Some (u ''utf-8'')), other_encode = (\<lambda>_ _. None)\<rparr>,
     parse_python = (\<lambda>_. Some []), stdlib_module_names = {}, sha256_hex = (\<lambda>_. u ''00''),
     zip_bytes = (\<lambda>ms. if ms = sample_members then Inr [1] else Inl ValueError), tar_bytes = (\<lambda>_. Inl ValueError),
     zip_names = (\<lambda>_. Inr (map fst sample_members)), zip_read = (\<lambda>_ _. Inr []), tar_members = (\<lambda>_. Inl Archive_Broken),
     runner_template = (\<lambda>_. Inr (concat (map segment_text (template_lines sample_lines @ payload_block @ sample_tail)))),
     shim_source = (\<lambda>_ _. [])\<rparr>"

definition sample_entry :: path where
  "sample_entry = \<lparr>rooted = True, parts = [u ''t.py'']\<rparr>"

definition sample_pack_disk :: disk where
  "sample_pack_disk = \<lparr>disk_files = [sample_entry \<mapsto> []], disk_dirs = {\<lparr>rooted = True, parts = []\<rparr>}\<rparr>"

definition sample_options :: pack_options where
  "sample_options = \<lparr>po_include = [], po_with_packages = [], po_root = None, po_force = False, po_format = PS1\<rparr>"

lemma sample_links: "links_resolved sample_pack_os"
  by (simp add: links_resolved_def sample_pack_os_def clean_path_def)

lemma sample_path: "path_of (u ''/t.py'') = sample_entry" "clean_path sample_entry = sample_entry"
  by (simp_all add: path_of_def sample_entry_def clean_path_def component_def u_def slash_char_def dot_char_def)

lemma sample_existing: "existing_file sample_pack_os (path_of (u ''/t.py'')) label sample_pack_disk = Inr sample_entry"
  by (simp add: existing_file_Inr is_file_def sample_path) (simp add: sample_pack_os_def sample_path sample_pack_disk_def)

section \<open>One pack\<close>

abbreviation sample_root :: path where
  "sample_root \<equiv> \<lparr>rooted = True, parts = []\<rparr>"

lemma sample_candidates: "candidates_of sample_pack_os sample_pack_disk sample_root sample_entry = Inr []"
  "read_bytes sample_pack_os sample_entry sample_pack_disk = Inr []"
  by (simp_all add: candidates_of_def read_bytes_def read_file_def sample_path iter_import_candidates_def)
     (simp_all add: sample_pack_os_def sample_pack_disk_def sample_path)

lemma sample_relative: "relative_to sample_entry sample_root = Some [u ''t.py'']"
  by (simp add: relative_to_def sample_entry_def)

lemma sample_collected:
  "collect_sources sample_pack_os sample_pack_disk sample_entry sample_root [] = Some (Inr ([(sample_entry, [])], []))"
  by (simp add: collect_sources_def collect_loop_step sample_candidates require_under_root_def)
     (simp add: sample_pack_os_def sample_path sample_relative)

definition sample_dest :: path where
  "sample_dest = \<lparr>rooted = True, parts = [u ''t.ps1'']\<rparr>"

lemma sample_paths:
  "pack_root sample_pack_os sample_entry sample_options = sample_root"
  "pack_destination sample_pack_os sample_entry None PS1 = sample_dest"
  "clean_path sample_dest = sample_dest" "clean_path sample_root = sample_root"
  "resolve_format (po_format sample_options) None = PS1"
proof -
  have "name_stem (u ''t.py'') = u ''t''" by (simp add: name_stem_def u_def dot_char_def Let_def)
  then show "pack_destination sample_pack_os sample_entry None PS1 = sample_dest"
    by (simp add: pack_destination_def sample_entry_def sample_dest_def with_suffix_def last_part_def) (simp add: u_def)
qed (simp_all add: pack_root_def sample_options_def sample_entry_def sample_dest_def resolve_format_def parent_def
    clean_path_def component_def u_def slash_char_def dot_char_def)

lemma sample_guard: "guard_destination sample_pack_os sample_pack_disk sample_dest [sample_entry] force = Inr ()"
proof -
  have "sample_dest \<noteq> sample_entry" "sample_dest \<noteq> sample_root" by (simp_all add: sample_dest_def sample_entry_def u_def)
  then show ?thesis
    by (simp add: guard_destination_def path_exists_def is_file_def)
       (simp add: sample_pack_os_def sample_paths sample_path sample_pack_disk_def)
qed

definition sample_runner_content :: runner_content where
  "sample_runner_content = \<lparr>rc_payload_b64 = u ''AQ=='', rc_payload_sha256 = u ''00'', rc_entry = u ''t.py'', rc_uv_args = [],
     rc_file_hashes = map (\<lambda>(name, _). \<lparr>fd_digest = u ''00'', fd_path = name\<rparr>) sample_members,
     rc_python_request = [], rc_has_git_source = False\<rparr>"

lemma sample_archive_name: "archive_name sample_pack_os sample_entry sample_root = Inr (u ''t.py'')"
  by (simp add: archive_name_def) (simp add: sample_pack_os_def sample_path sample_relative relative_text_def)

lemma sample_payload:
  "pack_payload sample_pack_os sample_entry sample_root [] PS1 [(sample_entry, [])] =
     Inr (sample_runner_content, [(u ''t.py'', []), (shim_module, [])], [1], [])"
proof -
  have "member_list sample_pack_os sample_root [(sample_entry, [])] = Inr [(u ''t.py'', [])]"
    by (simp add: member_list_def sample_archive_name)
  moreover have distinct: "shim_module \<noteq> u ''t.py''" by (simp add: shim_module_def u_def)
  moreover have sorted: "sort_key fst [(u ''t.py'', []), (shim_module, [])] = sample_members"
    by (simp add: sample_members_def shim_module_def u_def)
  moreover have "build_archive sample_pack_os PS1 [(u ''t.py'', []), (shim_module, [])] = Inr [1]"
    by (simp only: build_archive_def sorted) (simp add: sample_pack_os_def)
  moreover have "chunk_base64 (b64encode [1]) 120 = Inr (u ''AQ=='')"
    by (simp add: chunk_base64_def chunks.simps b64_char_def u_def)
  moreover have "extract_script_metadata (decode_replace []) = Inr []"
    by (simp add: extract_script_metadata_def)
  moreover have "extract_requires_python [] = Inr []" "has_git_source [] [] = False"
    by (simp_all add: extract_requires_python_def has_git_source_def block_body_def)
  moreover have "shim_source sample_pack_os e m = []" "sha256_hex sample_pack_os b = u ''00''" for e m b
    by (simp_all add: sample_pack_os_def)
  moreover have "utf8_encode [] = Some []" by (simp add: utf8_encode_def)
  ultimately show ?thesis
    by (simp add: pack_payload_def sample_archive_name sample_runner_content_def Let_def)
qed

lemma sample_template:
  "runner_template sample_pack_os PS1 = Inr (concat (map segment_text (template_lines sample_lines @ payload_block @ sample_tail)))"
  "template_segments (template_lines sample_lines @ sample_tail)"
  "template_segments (sample_head @ sample_tail)"
proof -
  have tail: "template_segments sample_tail" by (simp add: template_segments_def sample_tail_def)
  have "template_segments (template_lines sample_lines)"
    by (simp add: template_segments_def template_lines_def sample_lines_def placeholders_def token_def)
       (simp add: u_def at_sign_def)
  with tail show "template_segments (template_lines sample_lines @ sample_tail)" by (auto simp: template_segments_def)
  show "template_segments (sample_head @ sample_tail)"
    by (simp add: template_segments_def sample_head_def sample_tail_def u_def at_sign_def)
qed (simp add: sample_pack_os_def)

lemma sample_quiet: "\<forall>l \<in> set sample_lines. quiet_line l"
proof -
  have strips: "strip (u ''<#'') = u ''<#''" "strip (u ''#>'') = u ''#>''" "strip (squote # u ''@'') = squote # u ''@''"
    "strip (u ''$PwshPyFileHashes = @'' @ [squote]) = u ''$PwshPyFileHashes = @'' @ [squote]"
    by (rule strip_ends; simp add: u_def py_isspace_def)+
  have plain: "quiet_line ([], u ''<#'')" "quiet_line ([], u ''#>'')" "quiet_line ([], u ''$PwshPyFileHashes = @'' @ [squote])"
    "quiet_line ([], squote # u ''@'')"
    by (simp_all only: quiet_line.simps strips) (simp_all add: payload_open_def u_def is_line_break_def)
  have harmless: "harmless (u ''    Packed with pwshpy: the Python script '')" "harmless (u ''$PwshPyEntry = '')"
    "harmless (u ''$PwshPySha = '')" "harmless (u ''$PwshPyUvArgs = @('')"
    by (simp_all add: harmless_def lstrip_def payload_open_def u_def py_isspace_def)
  have breaks: "no_breaks (u ''    Packed with pwshpy: the Python script '')" "no_breaks (u ''$PwshPyEntry = '')"
    "no_breaks (u ''$PwshPySha = '')" "no_breaks (u ''$PwshPyUvArgs = @('')" "no_breaks (u '' and its local modules'')" "no_breaks (u '')'')"
    by (simp_all add: u_def is_line_break_def)
  have "entry_name_placeholder \<noteq> token ''PAYLOAD_B64''" "entry_name_placeholder \<noteq> token ''FILE_HASHES''"
    "token ''ENTRY'' \<noteq> token ''PAYLOAD_B64''" "token ''ENTRY'' \<noteq> token ''FILE_HASHES''"
    "token ''PAYLOAD_SHA256'' \<noteq> token ''PAYLOAD_B64''" "token ''PAYLOAD_SHA256'' \<noteq> token ''FILE_HASHES''"
    "token ''UV_ARGS'' \<noteq> token ''PAYLOAD_B64''" "token ''UV_ARGS'' \<noteq> token ''FILE_HASHES''"
    by (simp_all add: token_def entry_name_placeholder_def u_def)
  moreover have "token ''ENTRY'' \<in> set placeholders" "token ''PAYLOAD_SHA256'' \<in> set placeholders" "token ''UV_ARGS'' \<in> set placeholders"
    by (simp_all add: placeholders_def)
  ultimately have inline: "quiet_line ([Literal (u ''    Packed with pwshpy: the Python script ''), Hole entry_name_placeholder], u '' and its local modules'')"
    "quiet_line ([Literal (u ''$PwshPyEntry = ''), Hole (token ''ENTRY'')], [])"
    "quiet_line ([Literal (u ''$PwshPySha = ''), Hole (token ''PAYLOAD_SHA256'')], [])"
    "quiet_line ([Literal (u ''$PwshPyUvArgs = @(''), Hole (token ''UV_ARGS'')], u '')'')"
    using harmless breaks by simp_all
  have "quiet_line ([Hole (token ''FILE_HASHES'')], [])" by simp
  with plain inline show ?thesis unfolding sample_lines_def by (simp del: quiet_line.simps)
qed

lemma sample_representable:
  "refuse_unrepresentable_names sample_runner_content = Inr ()"
  "\<not> contains (rc_entry sample_runner_content) powershell_comment_end"
proof -
  show "refuse_unrepresentable_names sample_runner_content = Inr ()"
    by (rule refuse_nothing) (simp add: sample_runner_content_def sample_members_def shim_module_def u_def)
  have "hd powershell_comment_end \<notin> set (rc_entry sample_runner_content)" "powershell_comment_end \<noteq> []"
    by (simp_all add: sample_runner_content_def u_def powershell_comment_end_def)
  then show "\<not> contains (rc_entry sample_runner_content) powershell_comment_end"
    by (meson hd_in_set set_mono_sublist subsetD)
qed

lemma sample_rendered: "\<exists>runner. render_for sample_pack_os PS1 sample_runner_content = Inr runner"
proof -
  have "\<forall>tok \<in> set placeholders. contains (concat (map segment_text (template_lines sample_lines @ payload_block @ sample_tail))) tok"
    by (intro ballI hole_contained) (simp add: sample_tail_def)
  then show ?thesis
    using sample_representable by (simp add: render_for_def read_template_def sample_template(1) render_runner_def)
qed

lemma small_is_scalar: "c < 256 \<Longrightarrow> is_scalar c"
  by (simp add: is_scalar_def)

lemma u_scalar: "\<forall>c \<in> set (u s). is_scalar c"
  by (simp add: u_def small_is_scalar)

lemma segments_scalar:
  assumes "\<forall>seg \<in> set segs. \<forall>c \<in> set (segment_text seg). is_scalar c"
    "\<forall>v \<in> snd ` set reps. \<forall>c \<in> set v. is_scalar c"
  shows "\<forall>c \<in> set (concat (map (segment_value reps) segs)). is_scalar c"
proof -
  have "\<forall>c \<in> set (segment_value reps seg). is_scalar c" if "seg \<in> set segs" for seg
  proof (cases seg)
    case (Hole tok)
    have "v \<in> snd ` set reps" if "map_of reps tok = Some v" for v using that by (force dest: map_of_SomeD)
    with assms that Hole show ?thesis by (fastforce split: option.splits)
  qed (use assms that in auto)
  then show ?thesis by auto
qed

lemma sample_scalar:
  assumes "render_for sample_pack_os PS1 sample_runner_content = Inr runner"
  shows "\<forall>c \<in> set runner. is_scalar c"
  unfolding rendered_segments[OF sample_template(1,2) assms]
proof (rule segments_scalar)
  show "\<forall>seg \<in> set (template_lines sample_lines @ payload_block @ sample_tail). \<forall>c \<in> set (segment_text seg). is_scalar c"
    using u_scalar by (auto simp: template_lines_def sample_lines_def entry_name_placeholder_def sample_tail_def payload_block_def placeholders_def token_def
        payload_open_def payload_close_def small_is_scalar)
  show "\<forall>v \<in> snd ` set (powershell_replacements sample_runner_content). \<forall>c \<in> set v. is_scalar c"
    using u_scalar
    by (auto simp: powershell_replacements_def sample_runner_content_def powershell_literal_def powershell_body_def
        powershell_string_array_def powershell_relative_suffixes_def anchored_values_def sample_members_def shim_module_def
        argv_env_var_def cwd_env_var_def path_env_var_def uv_path_env_var_def caller_env_var_def small_is_scalar)
qed

lemma sample_written:
  assumes "render_for sample_pack_os PS1 sample_runner_content = Inr runner"
  shows "\<exists>data d'. write_runner sample_pack_os sample_dest runner True sample_pack_disk = (Inr (), d') \<and>
    disk_files d' = [sample_entry \<mapsto> [], sample_dest \<mapsto> data] \<and> disk_dirs d' = {sample_root}"
proof -
  have "\<forall>c \<in> set (normalize_newlines runner [newline]). is_scalar c"
    using sample_scalar[OF assms] set_normalized[of runner "[10]"] by (auto simp: small_is_scalar)
  then obtain data where data: "encode_text (codecs sample_pack_os) (u ''utf-8'') (normalize_newlines runner [newline]) = Some data"
    by (simp add: encode_text_def unicode_codecs_def)
  have codec: "codec_for (codecs sample_pack_os) (u ''utf-8'') = Inr (u ''utf-8'')"
    by (simp add: codec_for_def bomless_codec_def bomless_codecs_def sample_pack_os_def)
  have dirs: "make_dirs sample_pack_os (parent sample_dest) sample_pack_disk = (None, sample_pack_disk)"
    apply (simp add: make_dirs_def Let_def parent_def sample_dest_def)
    apply (simp add: sample_pack_os_def sample_paths ancestors_def sample_pack_disk_def sample_entry_def)
    done
  have io: "open_fault (file_io_at sample_pack_os sample_pack_disk) sample_dest = None"
    "append_fault (file_io_at sample_pack_os sample_pack_disk) p w b = None" "realpath sample_pack_os sample_dest = sample_dest" for p w b
    by (simp_all add: file_io_at_def sample_pack_os_def sample_paths)
       (simp_all add: sample_pack_disk_def sample_dest_def)
  show ?thesis
    using data by (auto simp: write_runner_def dirs write_text_def codec encode_def with_open_def io append_bytes_def)
     (auto simp: sample_pack_disk_def)
qed

lemma sample_packed:
  "\<exists>manifest d' data. pack_script sample_pack_os (u ''/t.py'') None sample_options sample_pack_disk = Some (Inr manifest, d') \<and>
    disk_files d' = [sample_entry \<mapsto> [], sample_dest \<mapsto> data] \<and> disk_dirs d' = {sample_root}"
proof -
  obtain runner where runner: "render_for sample_pack_os PS1 sample_runner_content = Inr runner"
    using sample_rendered by blast
  from sample_written[OF this] obtain data d' where
    written: "write_runner sample_pack_os sample_dest runner True sample_pack_disk = (Inr (), d')"
    "disk_files d' = [sample_entry \<mapsto> [], sample_dest \<mapsto> data]" "disk_dirs d' = {sample_root}" by blast
  have options: "po_include sample_options = []" "po_with_packages sample_options = []" by (simp_all add: sample_options_def)
  show ?thesis
    using written by (auto simp: pack_script_def sample_existing sample_paths sample_collected sample_guard options
        sample_payload runner)
qed

lemma sample_system:
  "real_components sample_pack_os" "zip_faithful sample_pack_os" "no_faults sample_pack_os"
  "canonical_name (codecs sample_pack_os) (u ''utf-8'') = Some (u ''utf-8'')"
  "plain_target sample_pack_os p"
proof -
  show "zip_faithful sample_pack_os"
    by (auto simp: zip_faithful_def sample_pack_os_def sample_members_def split: if_splits)
  show "plain_target sample_pack_os p"
    using sample_links by (simp add: plain_target_def) (simp add: sample_pack_os_def clean_path_def placed_def filter_id_conv)
qed (simp_all add: real_components_def no_faults_def sample_pack_os_def clean_path_def)

lemma sample_tree: "tree_shaped sample_pack_disk sample_root"
  by (auto simp: tree_shaped_def sample_pack_disk_def sample_entry_def)

definition sample_out :: path where
  "sample_out = \<lparr>rooted = True, parts = [u ''out'']\<rparr>"

lemma sample_out:
  "path_of (u ''/out'') = sample_out" "path_of (u ''/t.ps1'') = sample_dest" "clean_path sample_out = sample_out"
  by (simp_all add: path_of_def sample_out_def sample_dest_def clean_path_def component_def u_def slash_char_def dot_char_def)

lemma sample_clear:
  assumes "disk_files d = [sample_entry \<mapsto> [], sample_dest \<mapsto> data]" "disk_dirs d = {sample_root}"
  shows "clear sample_out {} d"
proof -
  have "placed sample_out cs \<noteq> sample_entry" "placed sample_out cs \<noteq> sample_dest" "placed sample_out cs \<noteq> sample_root" for cs
    by (simp_all add: placed_def sample_out_def sample_entry_def sample_dest_def u_def)
  moreover have "ancestors sample_out \<subseteq> {sample_root, sample_out}"
    by (auto simp: ancestors_def sample_out_def le_Suc_eq)
  moreover have "sample_out \<noteq> sample_entry" "sample_out \<noteq> sample_dest" "sample_root \<noteq> sample_entry" "sample_root \<noteq> sample_dest"
    by (simp_all add: sample_out_def sample_entry_def sample_dest_def u_def)
  moreover have "dom (disk_files d) = {sample_entry, sample_dest}" by (auto simp: assms(1))
  ultimately show ?thesis unfolding clear_def assms(2) by blast
qed

lemma sample_mark: "strip (u ''#'') = u ''#''"
  by (rule strip_no_space) (simp add: u_def py_isspace_def)

lemma sample_front_lines: "splitlines (front content sample_head @ [10]) = [u ''#'']"
  by (simp add: front_def sample_head_def u_def is_line_break_def)

lemma sample_plain: "plain_content sample_runner_content" "hex_digest (sha256_hex sample_pack_os b)"
  by (simp_all add: plain_content_def sample_runner_content_def sample_members_def shim_module_def sample_pack_os_def
      hex_digest_def u_def is_line_break_def is_digit_def)

lemma sample_real [simp]: "realpath sample_pack_os p = clean_path p" "expanduser sample_pack_os p = p"
  by (simp_all add: sample_pack_os_def)

lemma sample_fields: "po_include sample_options = []" "po_force sample_options = False" "po_format sample_options = PS1"
  "po_with_packages sample_options = []"
  by (simp_all add: sample_options_def)

lemma sample_opening:
  "\<forall>l \<in> set (splitlines (front sample_runner_content (template_lines sample_lines) @ [10])). strip l \<noteq> payload_open"
proof (rule quiet_front[OF sample_plain(1) _ _ _ sample_quiet])
  show "hex_digest (rc_payload_sha256 sample_runner_content)"
    "\<forall>fh \<in> set (rc_file_hashes sample_runner_content). hex_digest (fd_digest fh)" "rc_file_hashes sample_runner_content \<noteq> []"
    by (simp_all add: sample_runner_content_def sample_members_def hex_digest_def u_def is_digit_def)
qed

lemma sample_unpacked:
  assumes packed: "pack_script sample_pack_os (u ''/t.py'') None sample_options sample_pack_disk = Some (Inr manifest, d1)"
    "disk_files d1 = [sample_entry \<mapsto> [], sample_dest \<mapsto> data]" "disk_dirs d1 = {sample_root}"
  shows "\<exists>m d2. unpack_script sample_pack_os (u ''/t.ps1'') (u ''/out'') force d1 = (Inr m, d2) \<and>
    disk_files d2 (placed sample_out [u ''t.py'']) = Some []"
proof -
  have "tree_shaped sample_pack_disk (pack_root sample_pack_os sample_entry sample_options)"
    "realpath sample_pack_os (expanduser sample_pack_os (path_of (u ''/t.ps1''))) =
       realpath sample_pack_os (pack_destination sample_pack_os sample_entry None PS1)"
    "clear (realpath sample_pack_os (expanduser sample_pack_os (path_of (u ''/out'')))) {} d1"
    using sample_tree sample_clear[OF packed(2,3)] by (simp_all add: sample_paths sample_out)
  moreover have "\<forall>fh \<in> set (rc_file_hashes sample_runner_content). 0 \<notin> set (fd_path fh) \<and> backslash \<notin> set (fd_path fh)"
    using sample_plain(1) by (simp add: plain_content_def)
  ultimately obtain m d2 sources external where
    "unpack_script sample_pack_os (u ''/t.ps1'') (u ''/out'') force d1 = (Inr m, d2)"
    "collect_sources sample_pack_os sample_pack_disk sample_entry sample_root [] = Some (Inr (sources, external))"
    "disk_files d2 = disk_files d1 ++ map_of (map (\<lambda>(p, body). (placed sample_out (relative_parts sample_root p), body)) sources)"
    using pack_then_unpack[OF sample_links sample_system(1-4) sample_template(1,2) sample_existing sample_paths(5) packed(1) _ _
      _ sample_system(5), of "u ''/t.ps1''" "u ''/out''" force] sample_opening
    by (auto simp: sample_paths sample_out sample_fields sample_collected sample_payload)
  then show ?thesis using sample_collected by (auto simp: relative_parts_def sample_entry_def)
qed

end
