(* ===== verification/Packer_Properties.thy ===== *)
theory Packer_Properties
  imports Packer_Sample
begin

text \<open>The properties of packing and unpacking.\<close>

section \<open>What is written\<close>

text \<open>C7: Unpacking writes below the directory it was given and nowhere else, whatever archive the runner carries -
  absolute names, \<open>..\<close> and links included - and whether it succeeds or stops half way; without \<open>force\<close> it
  changes no file that was there.\<close>

theorem unpack_stays_below:
  assumes "links_resolved os" "unpack_script os source dest force d = (r, d')" "disk_files d' p \<noteq> disk_files d p"
  shows "below p (realpath os (expanduser os (path_of dest))) \<and> (p \<in> dom (disk_files d) \<longrightarrow> force)"
proof -
  let ?t = "expanduser os (path_of dest)"
  have "writes_only {p. below p (realpath os ?t)} force d d'"
    using assms(1,2) write_members_confined
    by (auto simp: unpack_script_def Let_def extract_zip_members_def extract_tar_members_def split: sum.splits prod.splits if_splits)
  with assms(3) show ?thesis by (auto simp: writes_only_def)
qed

theorem unpack_stays_below_witness:
  "\<exists>d p. disk_files (snd (unpack_script sample_pack_os (u ''/t.ps1'') (u ''/out'') False d)) p \<noteq> disk_files d p \<and>
    below p sample_out"
proof -
  obtain manifest d1 data where packed: "pack_script sample_pack_os (u ''/t.py'') None sample_options sample_pack_disk = Some (Inr manifest, d1)"
    "disk_files d1 = [sample_entry \<mapsto> [], sample_dest \<mapsto> data]" "disk_dirs d1 = {sample_root}"
    using sample_packed by blast
  obtain m d2 where unpacked: "unpack_script sample_pack_os (u ''/t.ps1'') (u ''/out'') False d1 = (Inr m, d2)"
    "disk_files d2 (placed sample_out [u ''t.py'']) = Some []"
    using sample_unpacked[OF packed] by blast
  have "disk_files d1 (placed sample_out [u ''t.py'']) = None"
    by (simp add: packed(2) placed_def sample_out_def sample_entry_def sample_dest_def)
  with unpacked(2) have "disk_files d2 (placed sample_out [u ''t.py'']) \<noteq> disk_files d1 (placed sample_out [u ''t.py''])" by simp
  from this unpack_stays_below[OF sample_links unpacked(1) this] unpacked(1) show ?thesis
    by (intro exI[of _ d1] exI[of _ "placed sample_out [u ''t.py'']"]) (simp add: sample_out sample_real)
qed

text \<open>C11: Packing writes one file, the runner: whatever happens, no file but the destination changes, an existing
  one only with \<open>force\<close>, and never the entry, a file it imports or a file of the include list.\<close>

theorem pack_spares_sources:
  assumes "links_resolved os" "pack_script os entry dest opts d = Some (r, d')" "disk_files d' p \<noteq> disk_files d p"
  shows "\<exists>entry_path. existing_file os (path_of entry) ''entry script'' d = Inr entry_path \<and>
    p = realpath os (pack_destination os entry_path dest (resolve_format (po_format opts) dest)) \<and>
    (p \<in> dom (disk_files d) \<longrightarrow> po_force opts) \<and>
    \<not> (imports_file os d (pack_root os entry_path opts))\<^sup>*\<^sup>* entry_path p \<and>
    (\<forall>extra \<in> set (po_include opts). p \<noteq> realpath os (expanduser os (path_of extra)))"
proof -
  from pack_script_run[OF assms(2)] assms(3) obtain entry_path sources external runner r' where
    entry: "existing_file os (path_of entry) ''entry script'' d = Inr entry_path" and
    collected: "collect_sources os d entry_path (pack_root os entry_path opts) (po_include opts) = Some (Inr (sources, external))" and
    guard: "guard_destination os d (pack_destination os entry_path dest (resolve_format (po_format opts) dest)) (map fst sources)
      (po_force opts) = Inr ()" and
    written: "write_runner os (pack_destination os entry_path dest (resolve_format (po_format opts) dest)) runner
      (resolve_format (po_format opts) dest = PS1) d = (r', d')"
    by (auto simp: Let_def)
  let ?dst = "pack_destination os entry_path dest (resolve_format (po_format opts) dest)"
  have p: "p = realpath os ?dst" using write_runner_confined[OF written] assms(3) by blast
  have "p \<notin> realpath os ` fst ` set sources" "p \<in> dom (disk_files d) \<longrightarrow> po_force opts"
    using guard by (auto simp: p guard_destination_def path_exists_def is_file_def split: if_splits)
  moreover have "realpath os p = p" by (simp add: p realpath_idem[OF assms(1)])
  ultimately have "p \<notin> fst ` set sources" by force
  then show ?thesis
    using entry p \<open>p \<in> dom _ \<longrightarrow> _\<close> collect_sources_Inr(1)[OF collected] by (intro exI[of _ entry_path]) auto
qed

theorem pack_spares_sources_witness:
  "\<exists>r d'. pack_script sample_pack_os (u ''/t.py'') None sample_options sample_pack_disk = Some (r, d') \<and>
    disk_files d' sample_dest \<noteq> None \<and> sample_dest \<notin> dom (disk_files sample_pack_disk)"
proof -
  obtain manifest d1 data where packed: "pack_script sample_pack_os (u ''/t.py'') None sample_options sample_pack_disk = Some (Inr manifest, d1)"
    "disk_files d1 = [sample_entry \<mapsto> [], sample_dest \<mapsto> data]"
    using sample_packed by blast
  have "sample_dest \<noteq> sample_entry" by (simp add: sample_dest_def sample_entry_def u_def)
  then have "disk_files d1 sample_dest \<noteq> disk_files sample_pack_disk sample_dest"
    by (simp add: packed(2)) (simp add: sample_pack_disk_def)
  from pack_spares_sources[OF sample_links packed(1) this] packed show ?thesis
    by (auto simp: sample_fields)
qed

section \<open>What is packed\<close>

text \<open>C6: The files a pack collects are exactly those reachable from the entry by imports that resolve to a file
  under the root, and the include list; each was read once, lies under the root, and the external names
  are the sorted roots of the imports of a reachable file that neither a file nor the standard library has.\<close>

theorem pack_collects_the_closure:
  assumes "collect_sources os d entry root extras = Some (Inr (sources, external))"
  shows "fst ` set sources = {p. (imports_file os d root)\<^sup>*\<^sup>* entry p} \<union>
      (\<lambda>extra. realpath os (expanduser os (path_of extra))) ` set extras \<and>
    distinct (map fst sources) \<and>
    (\<forall>(p, body) \<in> set sources. disk_files d (realpath os p) = Some body \<and> below (realpath os p) root) \<and>
    sorted external \<and> distinct external \<and>
    set external = {name. resolve_local os d name root = None \<and>
       (\<exists>p. (imports_file os d root)\<^sup>*\<^sup>* entry p \<and> name \<in> external_names os d root p)}"
proof -
  note c = collect_sources_Inr[OF assms]
  have "disk_files d (realpath os p) = Some body \<and> below (realpath os p) root" if "(p, body) \<in> set sources" for p body
  proof
    show "disk_files d (realpath os p) = Some body" using c(3) that read_bytes_Inr by blast
    show "below (realpath os p) root" using c(4) that by force
  qed
  then have "\<forall>(p, body) \<in> set sources. disk_files d (realpath os p) = Some body \<and> below (realpath os p) root" by blast
  with c show ?thesis by blast
qed

theorem pack_collects_the_closure_witness:
  "{p. (imports_file sample_pack_os sample_pack_disk sample_root)\<^sup>*\<^sup>* sample_entry p} = {sample_entry}"
  using pack_collects_the_closure[OF sample_collected] by simp

text \<open>C29: Collecting always returns on a disk with finitely many files, however the modules import each other, and
  so does packing.\<close>

theorem packing_returns:
  assumes "finite (dom (disk_files d))" "links_resolved os"
  shows "\<exists>r d'. pack_script os entry dest opts d = Some (r, d')"
proof (cases "existing_file os (path_of entry) ''entry script'' d")
  case (Inr entry_path)
  then have "realpath os entry_path = entry_path" using realpath_idem[OF assms(2)] by (auto simp: existing_file_Inr)
  then obtain c where c: "collect_sources os d entry_path (pack_root os entry_path opts) (po_include opts) = Some c"
    using collect_sources_returns[OF assms] by blast
  show ?thesis
  proof (cases c)
    case (Inr sx)
    obtain sources external where "sx = (sources, external)" by fastforce
    with Inr c \<open>existing_file os _ _ d = _\<close> show ?thesis
      by (simp add: pack_script_def Let_def)
  qed (use c \<open>existing_file os _ _ d = _\<close> in \<open>simp add: pack_script_def Let_def\<close>)
qed (simp add: pack_script_def)

theorem packing_returns_witness:
  "\<exists>r d'. pack_script sample_pack_os (u ''/t.py'') None sample_options sample_pack_disk = Some (r, d')"
  by (rule packing_returns[OF _ sample_links]) (simp add: sample_pack_disk_def)


section \<open>There and back\<close>



section \<open>The entry name\<close>

text \<open>The line of the PowerShell template that records the entry.\<close>

definition entry_block :: "segment list" where
  "entry_block = [Literal ([10] @ u ''$PwshPyEntry = ''), Hole (token ''ENTRY''), Literal [10]]"

lemma entry_block_text:
  "concat (map (segment_value (powershell_replacements content)) entry_block) =
     [10] @ u ''$PwshPyEntry = '' @ powershell_literal (rc_entry content) @ [10]"
  by (simp add: entry_block_def powershell_replacements_def token_def) (simp add: u_def entry_name_placeholder_def)

text \<open>The entry a PowerShell runner records is read back as it was packed, quotes and all, when its name holds
  none of the characters Python takes for a line break.\<close>

theorem entry_name_reads_back:
  assumes "template_segments (segs0 @ segs1)" "no_breaks (rc_entry content)"
    "render_runner (concat (map segment_text (segs0 @ entry_block @ segs1))) content = Inr runner"
    "\<forall>l \<in> set (splitlines (front content segs0 @ [10])). \<not> entry_line l"
  shows "extract_entry_name runner = rc_entry content"
proof -
  have "runner = substitute (powershell_replacements content) (concat (map segment_text (segs0 @ entry_block @ segs1)))"
    using assms(3) by (auto simp: render_runner_def and_then_Inr split: if_splits)
  also have "\<dots> = concat (map (segment_value (powershell_replacements content)) (segs0 @ entry_block @ segs1))"
  proof (intro substitute_segments replacements_prefix_free replacements_shaped)
    have "plain_literal (10 # u ''$PwshPyEntry = '')" by (simp add: u_def at_sign_def)
    then show "\<forall>seg \<in> set (segs0 @ entry_block @ segs1). case seg of Literal s \<Rightarrow> plain_literal s
        | Hole tok \<Rightarrow> tok \<in> fst ` set (powershell_replacements content)"
      using assms(1) unfolding powershell_keys template_segments_def
      by (auto simp: entry_block_def placeholders_def at_sign_def)
  qed
  finally have "runner = front content segs0 @ [10] @ u ''$PwshPyEntry = '' @ powershell_literal (rc_entry content) @ [10] @ front content segs1"
    by (simp add: front_def entry_block_text)
  then show ?thesis using ps1_entry_read[OF assms(4,2)] by simp
qed

theorem entry_name_reads_back_witness:
  "\<exists>runner. render_runner (concat (map segment_text (sample_head @ entry_block @ sample_tail))) sample_runner_content = Inr runner \<and>
    extract_entry_name runner = u ''t.py''"
proof -
  have "\<forall>tok \<in> set placeholders. contains (concat (map segment_text (sample_head @ entry_block @ sample_tail))) tok"
    by (intro ballI hole_contained) (simp add: sample_tail_def)
  then obtain runner where runner:
    "render_runner (concat (map segment_text (sample_head @ entry_block @ sample_tail))) sample_runner_content = Inr runner"
    using sample_representable by (auto simp: render_runner_def)
  have "no_breaks (rc_entry sample_runner_content)"
    by (simp add: no_breaks_def sample_runner_content_def u_def is_line_break_def)
  moreover have "\<forall>l \<in> set (splitlines (front sample_runner_content sample_head @ [10])). \<not> entry_line l"
    unfolding sample_front_lines
    by (simp add: entry_line_def sample_mark) (simp add: u_def entry_prefix_def sh_entry_prefix_def)
  ultimately show ?thesis
    using entry_name_reads_back[OF sample_template(3) _ runner] runner by (simp add: sample_runner_content_def)
qed

text \<open>A name with another line break - a line separator - is packed and lost: it is not refused, but the line that
  records it is cut in two when it is read.\<close>

theorem separated_entry_is_lost:
  "refuse_unrepresentable_names (sample_runner_content\<lparr>rc_entry := [97, 8232, 98]\<rparr>) = Inr () \<and>
   extract_entry_name (u ''$PwshPyEntry = '' @ powershell_literal [97, 8232, 98] @ [10]) = []"
proof
  show "refuse_unrepresentable_names (sample_runner_content\<lparr>rc_entry := [97, 8232, 98]\<rparr>) = Inr ()"
    by (rule refuse_nothing) (simp add: sample_runner_content_def sample_members_def shim_module_def u_def)
  have lines: "splitlines (u ''$PwshPyEntry = '' @ powershell_literal [97, 8232, 98] @ [10]) =
      [u ''$PwshPyEntry = '' @ [squote, 97], [98, squote]]"
    by (simp add: u_def powershell_literal_def powershell_body_def powershell_quotes_def is_line_break_def)
  have "strip (u ''$PwshPyEntry = '' @ [squote, 97]) = u ''$PwshPyEntry = '' @ [squote, 97]"
    "strip [98, squote] = [98, squote]"
    by (rule strip_ends; simp add: u_def py_isspace_def)+
  then show "extract_entry_name (u ''$PwshPyEntry = '' @ powershell_literal [97, 8232, 98] @ [10]) = []"
    unfolding extract_entry_name_def lines by (simp add: Let_def) (simp add: u_def entry_prefix_def sh_entry_prefix_def)
qed

section \<open>Failures\<close>

text \<open>The faults the system may give a run are \<open>OSError\<close>s, or an archive the format refuses.\<close>

fun os_only :: "os_fault \<Rightarrow> bool" where
  "os_only (Os_Errno n) = True"
| "os_only (Os_Raises c) = catches OSError c"

fun archive_only :: "archive_fault \<Rightarrow> bool" where
  "archive_only Archive_Broken = True"
| "archive_only (Archive_Fault f) = os_only f"

definition only_system_errors :: "pack_os \<Rightarrow> bool" where
  "only_system_errors os \<longleftrightarrow>
     (\<forall>p f. read_fault os p = Some f \<or> mkdir_fault os p = Some f \<or> open_fault (file_io os) p = Some f \<longrightarrow> os_only f) \<and>
     (\<forall>p w b f l. append_fault (file_io os) p w b = Some (f, l) \<longrightarrow> os_only f) \<and>
     (\<forall>payload f. zip_names os payload = Inl f \<or> tar_members os payload = Inl f \<longrightarrow> archive_only f) \<and>
     (\<forall>payload n f. zip_read os payload n = Inl f \<longrightarrow> archive_only f) \<and>
     (\<forall>payload ms n k f. tar_members os payload = Inr ms \<and> (n, k, Inl f) \<in> set ms \<longrightarrow> archive_only f)"

lemma pack_fault_class: "os_only f \<Longrightarrow> err_class (pack_fault why f) = PackError"
  by (cases f) (simp_all add: make_error_def)

lemma archive_error_class: "archive_only f \<Longrightarrow> err_class (archive_error f) = PackError"
  by (cases f) (simp_all add: make_error_def pack_fault_class)

lemma raised_class: "raise_error c s = Inl e \<Longrightarrow> err_class e = c"
  by (auto simp: make_error_def)

lemma a2b_error: "a2b_base64 s p q l n cs = Inl e \<Longrightarrow> err_class e = ValueError"
  by (induction s p q l n cs rule: a2b_base64.induct)
     (auto simp: and_then_def dest: raised_class split: if_splits option.splits sum.splits)

lemma system_faults:
  assumes "only_system_errors os"
  shows "make_dirs os p d = (Some f, d1) \<Longrightarrow> os_only f" "write_file os p b d = (Some f, d1) \<Longrightarrow> os_only f"
    "read_file os p d = Inl f \<Longrightarrow> os_only f"
proof -
  note faults = assms[unfolded only_system_errors_def]
  show "make_dirs os p d = (Some f, d1) \<Longrightarrow> os_only f"
    using faults by (auto simp: make_dirs_def Let_def split: option.splits if_splits)
  have "append_fault (file_io os) r w x = Some (g, l) \<Longrightarrow> os_only g" for r w x g l using faults by blast
  moreover have "open_fault (file_io os) r = Some g \<Longrightarrow> os_only g" for r g using faults by blast
  ultimately show "write_file os p b d = (Some f, d1) \<Longrightarrow> os_only f"
    by (auto simp: write_file_def file_io_at_def Let_def split: option.splits if_splits)
  show "read_file os p d = Inl f \<Longrightarrow> os_only f"
    using faults by (auto simp: read_file_def split: option.splits)
qed

lemma write_member_class:
  assumes "only_system_errors os" "write_member os target name body force d = (Inl e, d')"
  shows "err_class e = PackError"
  using assms(2) system_faults(1,2)[OF assms(1)] pack_fault_class
  by (auto simp: write_member_def Let_def dest: raised_class split: if_splits prod.splits option.splits)

lemma write_members_class:
  assumes "only_system_errors os" "\<forall>(n, r) \<in> set ms. \<forall>f. r = Inl f \<longrightarrow> archive_only f"
    "write_members os target force ms written d = (Inl e, d')"
  shows "err_class e = PackError"
  using assms
proof (induction os target force ms written d rule: write_members.induct)
  case (3 os target force name body ms written d)
  obtain r d1 where step: "write_member os target name body force d = (r, d1)" by fastforce
  show ?case
  proof (cases r)
    case (Inl e')
    with 3(4) step write_member_class[OF 3(2)] show ?thesis by simp
  next
    case (Inr x)
    with 3(1)[OF step[symmetric] Inr 3(2)] 3(3,4) step show ?thesis by simp
  qed
qed (auto simp: archive_error_class)

lemma extract_class:
  assumes "only_system_errors os"
  shows "extract_zip_members os payload t force d = (Inl e, d') \<Longrightarrow> err_class e = PackError"
    "extract_tar_members os payload t force d = (Inl e, d') \<Longrightarrow> err_class e = PackError"
proof -
  note faults = assms[unfolded only_system_errors_def]
  show "err_class e = PackError" if run: "extract_zip_members os payload t force d = (Inl e, d')"
  proof (cases "zip_names os payload")
    case (Inl f)
    then have "archive_only f" using faults by blast
    with run Inl archive_error_class show ?thesis by (auto simp: extract_zip_members_def)
  next
    case (Inr names)
    have "\<forall>n f. zip_read os payload n = Inl f \<longrightarrow> archive_only f" using faults by blast
    with run Inr show ?thesis by (auto simp: extract_zip_members_def intro!: write_members_class[OF assms])
  qed
  show "err_class e = PackError" if run: "extract_tar_members os payload t force d = (Inl e, d')"
  proof (cases "tar_members os payload")
    case (Inl f)
    then have "archive_only f" using faults by blast
    with run Inl archive_error_class show ?thesis by (auto simp: extract_tar_members_def)
  next
    case (Inr ms)
    then have "\<forall>n k f. (n, k, Inl f) \<in> set ms \<longrightarrow> archive_only f" using faults by blast
    with run Inr show ?thesis by (auto simp: extract_tar_members_def intro!: write_members_class[OF assms])
  qed
qed

text \<open>Unpacking fails with \<open>PackError\<close> only, as its documentation says, as long as the disk and the archive formats raise
  \<open>OSError\<close>s and refuse what they cannot read.\<close>

theorem unpack_fails_as_pack_error:
  assumes "only_system_errors os" "unpack_script os source dest force d = (Inl e, d')"
  shows "err_class e = PackError"
proof -
  have "err_class e = PackError" if "decode_payload ls = Inl e" for ls
    using that a2b_error by (auto simp: decode_payload_def b64decode_def catches_def numeral_3_eq_3 dest: raised_class split: sum.splits if_splits)
  moreover have "err_class e = PackError" if "read_bytes os p d = Inl e" for p
    using that system_faults(3)[OF assms(1)] pack_fault_class by (auto simp: read_bytes_def split: sum.splits)
  moreover note extract_class[OF assms(1)]
  ultimately show ?thesis
    using assms(2)
    by (auto simp: unpack_script_def and_then_def extract_payload_def existing_file_def Let_def dest: raised_class
        split: sum.splits prod.splits if_splits option.splits)
qed

theorem unpack_fails_as_pack_error_witness:
  "\<exists>e. unpack_script sample_pack_os (u ''/no.ps1'') (u ''/out'') False sample_pack_disk = (Inl e, sample_pack_disk) \<and>
    err_class e = PackError"
proof -
  have "only_system_errors sample_pack_os"
    by (auto simp: only_system_errors_def sample_pack_os_def)
  moreover have "path_of (u ''/no.ps1'') \<noteq> sample_entry"
    by (simp add: path_of_def sample_entry_def u_def slash_char_def dot_char_def)
  then have "clean_path (path_of (u ''/no.ps1'')) \<notin> dom (disk_files sample_pack_disk)"
    by (simp add: path_of_def clean_path_def component_def sample_pack_disk_def sample_entry_def u_def slash_char_def dot_char_def)
  then obtain e where "unpack_script sample_pack_os (u ''/no.ps1'') (u ''/out'') False sample_pack_disk = (Inl e, sample_pack_disk)"
    by (simp add: unpack_script_def existing_file_def is_file_def)
  ultimately show ?thesis using unpack_fails_as_pack_error by blast
qed

text \<open>A payload whose archive can be listed but whose member does not inflate is not among them: \<open>zlib.error\<close> is
  neither of the classes caught, and leaves as itself.\<close>

theorem corrupt_member_escapes:
  "\<exists>e. extract_zip_members (sample_pack_os\<lparr>zip_names := \<lambda>_. Inr [[97]], zip_read := \<lambda>_ _. Inl (Archive_Fault (Os_Raises ZlibError))\<rparr>)
     payload target force d = (Inl e, d) \<and> err_class e = ZlibError"
  by (simp add: extract_zip_members_def shim_module_def u_def make_error_def catches_def numeral_3_eq_3)

end
