(* ===== verification/Tree_Reaper.thy ===== *)
theory Tree_Reaper
  imports Py_Digits "HOL-Library.AList"
begin

text \<open>
  \<open>adapters/native/_tree_reaper.py\<close>: the helper process that starts one program and waits until every
  process it started is gone. The kernel is not part of the repository: its calls are the fields of a
  \<open>reaper_os\<close> record over a state \<open>'w\<close> of their own. A call ends in a value, in an exception, or in
  \<open>Terminated\<close>: the caller's SIGTERM arrived and its handler raised \<open>_TerminateRequestedError\<close> out of the
  call, which may have had its effect or not. Times are microseconds.
\<close>

section \<open>Outcomes and reports\<close>

text \<open>An exception as \<open>_Failed.of\<close> reads it: its type, its text and, for an \<open>OSError\<close>, its errno.\<close>

record helper_exc =
  exc_type :: pystr
  exc_text :: pystr
  is_os_error :: bool
  errno_attr :: "int option"

datatype 'a outcome = Done 'a | Terminated | Raised helper_exc

datatype report = Exited int | Failed pystr pystr "int option" | Killed

definition failed_of :: "helper_exc \<Rightarrow> report" where
  "failed_of e = Failed (exc_type e) (exc_text e) (if is_os_error e then errno_attr e else None)"

text \<open>JSON as the helper and its parent exchange it; a dict is the list of its items in order.\<close>

datatype json = J_null | J_bool bool | J_int int | J_text pystr | J_array "json list" | J_object "(pystr \<times> json) list"

fun wire_report :: "report \<Rightarrow> json" where
  "wire_report (Exited n) = J_object [(u ''exit_code'', J_int n)]"
| "wire_report (Failed name message errno) = J_object ([(u ''error'', J_text name), (u ''message'', J_text message)] @
     (case errno of None \<Rightarrow> [] | Some n \<Rightarrow> [(u ''errno'', J_int n)]))"
| "wire_report Killed = J_object [(u ''killed'', J_bool True)]"

record request =
  req_argv :: "json list"
  req_cwd :: json
  req_env :: "(pystr \<times> json) list option"

text \<open>\<open>tuple(argv)\<close> and \<open>dict(env)\<close>; \<open>dict_of\<close> is \<open>dict\<close> of a value that is no object.\<close>

definition json_tuple :: "json \<Rightarrow> json list res" where
  "json_tuple v = (case v of
      J_array xs \<Rightarrow> Inr xs
    | J_text s \<Rightarrow> Inr (map (\<lambda>c. J_text [c]) s)
    | J_object fs \<Rightarrow> Inr (map (J_text \<circ> fst) fs)
    | _ \<Rightarrow> raise_error TypeError ''not iterable'')"

definition decode_request :: "(json \<Rightarrow> (pystr \<times> json) list res) \<Rightarrow> json \<Rightarrow> request res" where
  "decode_request dict_of decoded = (case decoded of
      J_object fs \<Rightarrow>
        (case map_of fs (u ''env'') of None \<Rightarrow> raise_error KeyError ''env'' | Some env \<Rightarrow>
        (case map_of fs (u ''argv'') of None \<Rightarrow> raise_error KeyError ''argv'' | Some argv \<Rightarrow>
        (case map_of fs (u ''cwd'') of None \<Rightarrow> raise_error KeyError ''cwd'' | Some cwd \<Rightarrow>
          and_then (json_tuple argv) (\<lambda>items.
          and_then (case env of J_null \<Rightarrow> Inr None | J_object es \<Rightarrow> Inr (Some es)
              | _ \<Rightarrow> and_then (dict_of env) (\<lambda>es. Inr (Some es))) (\<lambda>vars.
            Inr \<lparr>req_argv = items, req_cwd = cwd, req_env = vars\<rparr>)))))
    | _ \<Rightarrow> raise_error TypeError ''not subscriptable'')"

section \<open>The process tree as \<open>/proc\<close> shows it\<close>

text \<open>\<open>str.split()\<close>.\<close>

fun words_from :: "pystr \<Rightarrow> pystr \<Rightarrow> pystr list" where
  "words_from word [] = (if word = [] then [] else [word])"
| "words_from word (c # s) =
     (if py_isspace c then (if word = [] then words_from [] s else word # words_from [] s)
      else words_from (word @ [c]) s)"

definition words :: "pystr \<Rightarrow> pystr list" where
  "words s = words_from [] s"

text \<open>\<open>int\<close> of a text without blanks: a sign, and digits with single underscores between them.\<close>

definition int_of_field :: "pystr \<Rightarrow> int res" where
  "int_of_field s =
     (let signed = take 1 s \<in> {u ''-'', u ''+''}; digits = (if signed then tl s else s);
          groups = split_on (ch CHR ''_'') digits
      in case (if [] \<in> set groups then None else int_of_digits (concat groups)) of
          None \<Rightarrow> raise_error ValueError ''int''
        | Some n \<Rightarrow> Inr (if take 1 s = u ''-'' then - int n else int n))"

definition close_paren :: nat where "close_paren = 41"

definition parse_ppid :: "pystr \<Rightarrow> int res" where
  "parse_ppid stat =
     (if close_paren \<notin> set stat then raise_error ValueError ''rindex''
      else let fields = words (drop 1 (rev (takeWhile (\<lambda>c. c \<noteq> close_paren) (rev stat)))) in
        if length fields < 2 then raise_error IndexError ''fields'' else int_of_field (fields ! 1))"

type_synonym parents = "(int \<times> int) list"

definition children_of :: "parents \<Rightarrow> int \<Rightarrow> int list" where
  "children_of ps p = map fst (filter (\<lambda>(_, pp). pp = p) ps)"

definition visit :: "int \<Rightarrow> int list \<times> int list \<Rightarrow> int list \<times> int list" where
  "visit child acc = (let (found, stack) = acc in
     if child \<in> set found then acc else (child # found, child # stack))"

lemma visit_measure:
  "set (fst (fold visit cs (found, stack))) = set found \<union> set cs"
  "(fst (fold visit cs (found, stack)) = found \<and> snd (fold visit cs (found, stack)) = stack) \<or>
     set found \<subset> set (fst (fold visit cs (found, stack)))"
proof -
  show "set (fst (fold visit cs (found, stack))) = set found \<union> set cs"
    by (induction cs arbitrary: found stack) (auto simp: visit_def)
  moreover have "fold visit cs (found, stack) = (found, stack)" if "set cs \<subseteq> set found"
    using that by (induction cs) (auto simp: visit_def)
  ultimately show "(fst (fold visit cs (found, stack)) = found \<and> snd (fold visit cs (found, stack)) = stack) \<or>
     set found \<subset> set (fst (fold visit cs (found, stack)))" by (cases "set cs \<subseteq> set found") auto
qed

text \<open>The stack is kept with its top in front.\<close>

function descend_loop :: "parents \<Rightarrow> int list \<Rightarrow> int list \<Rightarrow> int list" where
  "descend_loop ps [] found = found"
| "descend_loop ps (node # stack) found =
     (let acc = fold visit (children_of ps node) (found, stack) in descend_loop ps (snd acc) (fst acc))"
  by pat_completeness auto

lemma children_of_keys: "set (children_of ps p) \<subseteq> fst ` set ps"
  by (auto simp: children_of_def)

termination descend_loop
proof (relation "inv_image (less_than <*lex*> less_than)
    (\<lambda>(ps, stack, found). (card (fst ` set ps - set found), length stack))")
  fix ps node stack found acc
  assume acc: "acc = fold visit (children_of ps node) (found, stack)"
  show "((ps, snd acc, fst acc), ps, node # stack, found) \<in> inv_image (less_than <*lex*> less_than)
      (\<lambda>(ps, stack, found). (card (fst ` set ps - set found), length stack))"
  proof (cases "fst acc = found \<and> snd acc = stack")
    case False
    then have "set found \<subset> set (fst acc)" "set (fst acc) \<subseteq> set found \<union> fst ` set ps"
      using visit_measure[of "children_of ps node" found stack] children_of_keys[of ps node] acc by auto
    then have "card (fst ` set ps - set (fst acc)) < card (fst ` set ps - set found)"
      by (intro psubset_card_mono) auto
    then show ?thesis by simp
  qed simp
qed (simp add: wf_inv_image wf_lex_prod)

definition descendants :: "int \<Rightarrow> parents \<Rightarrow> int list" where
  "descendants root ps = descend_loop ps [root] []"

text \<open>\<open>_proc_parents\<close>, from the names under \<open>/proc\<close> with the text of their \<open>stat\<close>, if it could be read.\<close>

fun proc_parents :: "(pystr \<times> pystr option) list \<Rightarrow> parents \<Rightarrow> parents res" where
  "proc_parents [] ps = Inr ps"
| "proc_parents ((name, stat) # entries) ps =
     (if \<not> isdigit name then proc_parents entries ps
      else case stat of
          None \<Rightarrow> proc_parents entries ps
        | Some line \<Rightarrow> (case and_then (parse_ppid line) (\<lambda>pp. and_then (int_of_field name) (\<lambda>p. Inr (p, pp))) of
            Inl e \<Rightarrow> if catches ValueError (err_class e) then proc_parents entries ps else Inl e
          | Inr (p, pp) \<Rightarrow> proc_parents entries (AList.update p pp ps)))"

section \<open>The calls of the helper\<close>

datatype wait_result = No_Children | None_Ready | Reaped int int
datatype probe = Group_Gone | Group_Denied | Group_There

text \<open>
  \<open>set_subreaper\<close> is \<open>prctl\<close> with its errno; \<open>popen\<close> starts the program, in a session of its own or not;
  \<open>waitpid_any\<close> is \<open>waitpid(-1)\<close>, with \<open>WNOHANG\<close> or not; \<open>kill_one\<close> and \<open>kill_members\<close> send SIGKILL and suppress
  \<open>OSError\<close>; \<open>wait_child\<close> is \<open>Popen.wait\<close>; \<open>kill_child\<close> is \<open>Popen.kill\<close>.
\<close>

record 'w reaper_os =
  on_linux :: bool
  helper_pid :: int
  set_subreaper :: "'w \<Rightarrow> int option outcome \<times> 'w"
  popen :: "request \<Rightarrow> bool \<Rightarrow> 'w \<Rightarrow> int outcome \<times> 'w"
  waitpid_any :: "bool \<Rightarrow> 'w \<Rightarrow> wait_result outcome \<times> 'w"
  list_proc :: "'w \<Rightarrow> (pystr \<times> pystr option) list outcome \<times> 'w"
  kill_one :: "int \<Rightarrow> 'w \<Rightarrow> unit outcome \<times> 'w"
  clock :: "'w \<Rightarrow> int"
  pause :: "int \<Rightarrow> 'w \<Rightarrow> unit outcome \<times> 'w"
  wait_child :: "int \<Rightarrow> 'w \<Rightarrow> int outcome \<times> 'w"
  probe_members :: "int \<Rightarrow> 'w \<Rightarrow> probe outcome \<times> 'w"
  kill_members :: "int \<Rightarrow> 'w \<Rightarrow> unit outcome \<times> 'w"
  kill_child :: "int \<Rightarrow> 'w \<Rightarrow> unit outcome \<times> 'w"

type_synonym ('w, 'a) call = "'w \<Rightarrow> 'a outcome \<times> 'w"

definition call_then :: "('w, 'a) call \<Rightarrow> ('a \<Rightarrow> ('w, 'b) call) \<Rightarrow> ('w, 'b) call" where
  "call_then m f w = (case m w of
      (Done x, w') \<Rightarrow> f x w' | (Terminated, w') \<Rightarrow> (Terminated, w') | (Raised e, w') \<Rightarrow> (Raised e, w'))"

fun each_call :: "('x \<Rightarrow> ('w, unit) call) \<Rightarrow> 'x list \<Rightarrow> ('w, unit) call" where
  "each_call f [] w = (Done (), w)"
| "each_call f (x # xs) w = call_then (f x) (\<lambda>_. each_call f xs) w"

text \<open>An exception of the pure helpers, raised by the call around them; \<open>_proc_parents\<close> catches all but the \<open>IndexError\<close>.\<close>

definition lifted :: "'a res \<Rightarrow> ('w, 'a) call" where
  "lifted r w = (case r of
      Inr x \<Rightarrow> (Done x, w)
    | Inl e \<Rightarrow> (Raised \<lparr>exc_type = u ''IndexError'', exc_text = u ''list index out of range'', is_os_error = False, errno_attr = None\<rparr>, w))"

text \<open>\<open>os.waitstatus_to_exitcode\<close> of the status of a process that ended.\<close>

definition exit_code_of :: "int \<Rightarrow> int" where
  "exit_code_of s = (if s mod 128 = 0 then s div 256 mod 256 else - (s mod 128))"

definition poll_interval :: int where "poll_interval = 50000"
definition kill_deadline :: int where "kill_deadline = 10000000"
definition kill_pause :: int where "kill_pause = 10000"

partial_function (option) reap_ready :: "'w reaper_os \<Rightarrow> 'w \<Rightarrow> (bool outcome \<times> 'w) option" where
  "reap_ready os w = (case waitpid_any os True w of
      (Done r, w') \<Rightarrow> (case r of
          No_Children \<Rightarrow> Some (Done True, w')
        | None_Ready \<Rightarrow> Some (Done False, w')
        | Reaped p s \<Rightarrow> reap_ready os w')
    | (Terminated, w') \<Rightarrow> Some (Terminated, w')
    | (Raised e, w') \<Rightarrow> Some (Raised e, w'))"

definition kill_descendants :: "'w reaper_os \<Rightarrow> ('w, unit) call" where
  "kill_descendants os =
     call_then (list_proc os) (\<lambda>entries.
     call_then (lifted (proc_parents entries [])) (\<lambda>ps.
       each_call (kill_one os) (descendants (helper_pid os) ps)))"

partial_function (option) kill_rounds :: "'w reaper_os \<Rightarrow> int \<Rightarrow> 'w \<Rightarrow> (unit outcome \<times> 'w) option" where
  "kill_rounds os deadline w =
     (if clock os w \<ge> deadline then Some (Done (), w)
      else case kill_descendants os w of
          (Done _, w1) \<Rightarrow> (case reap_ready os w1 of
              None \<Rightarrow> None
            | Some (Done gone, w2) \<Rightarrow>
                if gone then Some (Done (), w2)
                else (case pause os kill_pause w2 of
                    (Done _, w3) \<Rightarrow> kill_rounds os deadline w3
                  | (Terminated, w3) \<Rightarrow> Some (Terminated, w3)
                  | (Raised e, w3) \<Rightarrow> Some (Raised e, w3))
            | Some (Terminated, w2) \<Rightarrow> Some (Terminated, w2)
            | Some (Raised e, w2) \<Rightarrow> Some (Raised e, w2))
        | (Terminated, w1) \<Rightarrow> Some (Terminated, w1)
        | (Raised e, w1) \<Rightarrow> Some (Raised e, w1))"

definition kill_tree_linux :: "'w reaper_os \<Rightarrow> 'w \<Rightarrow> (unit outcome \<times> 'w) option" where
  "kill_tree_linux os w = kill_rounds os (clock os w + kill_deadline) w"

partial_function (option) wait_tree_linux :: "'w reaper_os \<Rightarrow> int \<Rightarrow> int \<Rightarrow> 'w \<Rightarrow> (int outcome \<times> 'w) option" where
  "wait_tree_linux os child code w = (case waitpid_any os False w of
      (Done r, w') \<Rightarrow> (case r of
          No_Children \<Rightarrow> Some (Done code, w')
        | None_Ready \<Rightarrow> wait_tree_linux os child code w'
        | Reaped p s \<Rightarrow> wait_tree_linux os child (if p = child then exit_code_of s else code) w')
    | (Terminated, w') \<Rightarrow> Some (Terminated, w')
    | (Raised e, w') \<Rightarrow> Some (Raised e, w'))"

partial_function (option) poll_members :: "'w reaper_os \<Rightarrow> int \<Rightarrow> int \<Rightarrow> 'w \<Rightarrow> (int outcome \<times> 'w) option" where
  "poll_members os child code w = (case probe_members os child w of
      (Done r, w') \<Rightarrow>
        if r = Group_Gone then Some (Done code, w')
        else (case pause os poll_interval w' of
            (Done _, w'') \<Rightarrow> poll_members os child code w''
          | (Terminated, w'') \<Rightarrow> Some (Terminated, w'')
          | (Raised e, w'') \<Rightarrow> Some (Raised e, w''))
    | (Terminated, w') \<Rightarrow> Some (Terminated, w')
    | (Raised e, w') \<Rightarrow> Some (Raised e, w'))"

definition wait_group :: "'w reaper_os \<Rightarrow> int \<Rightarrow> 'w \<Rightarrow> (int outcome \<times> 'w) option" where
  "wait_group os child w = (case wait_child os child w of
      (Done code, w') \<Rightarrow> poll_members os child code w'
    | (Terminated, w') \<Rightarrow> Some (Terminated, w')
    | (Raised e, w') \<Rightarrow> Some (Raised e, w'))"

definition kill_group :: "'w reaper_os \<Rightarrow> int option \<Rightarrow> ('w, unit) call" where
  "kill_group os child w = (case child of
      None \<Rightarrow> (Done (), w)
    | Some p \<Rightarrow> call_then (kill_members os p) (\<lambda>_. call_then (kill_child os p) (\<lambda>_.
        call_then (wait_child os p) (\<lambda>_ w'. (Done (), w')))) w)"

definition become_subreaper :: "'w reaper_os \<Rightarrow> ('w, bool) call" where
  "become_subreaper os w =
     (if \<not> on_linux os then (Done False, w)
      else call_then (set_subreaper os) (\<lambda>failed w'. case failed of
          None \<Rightarrow> (Done True, w')
        | Some n \<Rightarrow> (Raised \<lparr>exc_type = u ''OSError'', exc_text = u ''prctl'', is_os_error = True, errno_attr = Some n\<rparr>, w')) w)"

text \<open>The \<open>except _TerminateRequestedError\<close> of \<open>_run\<close>.\<close>

definition killed_report :: "'w reaper_os \<Rightarrow> bool \<Rightarrow> int option \<Rightarrow> 'w \<Rightarrow> (report outcome \<times> 'w) option" where
  "killed_report os linux child w =
     map_option (\<lambda>(r, w'). (case r of Done _ \<Rightarrow> Done Killed | Terminated \<Rightarrow> Terminated | Raised e \<Rightarrow> Raised e, w'))
       (if linux then kill_tree_linux os w else Some (kill_group os child w))"

definition run_request :: "'w reaper_os \<Rightarrow> request \<Rightarrow> 'w \<Rightarrow> (report outcome \<times> 'w) option" where
  "run_request os request w = (case become_subreaper os w of
      (Terminated, w1) \<Rightarrow> Some (Terminated, w1)
    | (Raised e, w1) \<Rightarrow> Some (Raised e, w1)
    | (Done linux, w1) \<Rightarrow> (case popen os request (\<not> linux) w1 of
          (Terminated, w2) \<Rightarrow> killed_report os linux None w2
        | (Raised e, w2) \<Rightarrow> if is_os_error e then Some (Done (failed_of e), w2) else Some (Raised e, w2)
        | (Done child, w2) \<Rightarrow>
            (case (if linux then wait_tree_linux os child 0 w2 else wait_group os child w2) of
                None \<Rightarrow> None
              | Some (Done code, w3) \<Rightarrow> Some (Done (Exited code), w3)
              | Some (Terminated, w3) \<Rightarrow> killed_report os linux (Some child) w3
              | Some (Raised e, w3) \<Rightarrow> Some (Raised e, w3))))"

text \<open>\<open>main\<close>: what is reported for a request that was read, decoded and run.\<close>

definition main_report :: "'w reaper_os \<Rightarrow> ('w, request) call \<Rightarrow> 'w \<Rightarrow> (report \<times> 'w) option" where
  "main_report os read_request w = (case read_request w of
      (Terminated, w1) \<Rightarrow> Some (Killed, w1)
    | (Raised e, w1) \<Rightarrow> Some (failed_of e, w1)
    | (Done request, w1) \<Rightarrow> (case run_request os request w1 of
          None \<Rightarrow> None
        | Some (Done r, w2) \<Rightarrow> Some (r, w2)
        | Some (Terminated, w2) \<Rightarrow> Some (Killed, w2)
        | Some (Raised e, w2) \<Rightarrow> Some (failed_of e, w2)))"

end
