(* ===== verification/Tree_Facts.thy ===== *)
theory Tree_Facts
  imports Tree_Reaper
begin

text \<open>
  What the kernel does with the processes of a tree while the helper waits, and what the helper's loops
  make of it. The kernel's rules (\<open>fork\<close>, \<open>exit\<close> with re-parenting, \<open>waitpid\<close>) are the steps of \<open>kernel_step\<close>, a
  hypothesis on the parameters of \<open>Tree_Reaper\<close>; every call of the helper comes after any number of them.
\<close>

section \<open>Descendants\<close>

definition parent_edge :: "parents \<Rightarrow> int \<Rightarrow> int \<Rightarrow> bool" where
  "parent_edge ps p pp \<longleftrightarrow> (p, pp) \<in> set ps"

lemma set_children [simp]: "set (children_of ps p) = {c. parent_edge ps c p}"
  by (auto simp: children_of_def parent_edge_def image_iff split: prod.splits)

lemma fold_visit_stack: "set (snd (fold visit cs (found, stack))) = set stack \<union> (set cs - set found)"
  by (induction cs arbitrary: found stack) (auto simp: visit_def)

text \<open>The invariant of the search: what is found is below the root, and the children of what is found and
  of the root are found, but for those of the entries still on the stack.\<close>

lemma descend_loop_set:
  assumes "\<forall>c \<in> set found. (parent_edge ps)\<^sup>+\<^sup>+ c root" "set stack \<subseteq> insert root (set found)"
    "\<forall>p \<in> insert root (set found) - set stack. \<forall>c. parent_edge ps c p \<longrightarrow> c \<in> set found"
  shows "set (descend_loop ps stack found) = {c. (parent_edge ps)\<^sup>+\<^sup>+ c root}"
  using assms
proof (induction ps stack found rule: descend_loop.induct)
  case (1 ps found)
  have closed: "c \<in> set found" if "parent_edge ps c p" "p = root \<or> p \<in> set found" for c p
    using that 1(3) by (elim disjE) simp_all
  have "c \<in> set found" if "(parent_edge ps)\<^sup>+\<^sup>+ c root" for c
    using that by (induction rule: converse_tranclp_induct) (blast intro: closed)+
  with 1(1) have "set found = {c. (parent_edge ps)\<^sup>+\<^sup>+ c root}" by blast
  then show ?case by simp
next
  case (2 ps node stack found)
  let ?acc = "fold visit (children_of ps node) (found, stack)"
  have found: "set (fst ?acc) = set found \<union> {c. parent_edge ps c node}"
    by (simp add: visit_measure(1))
  have stacked: "set (snd ?acc) = set stack \<union> ({c. parent_edge ps c node} - set found)"
    by (simp add: fold_visit_stack)
  have step: "(parent_edge ps)\<^sup>+\<^sup>+ c root" if "parent_edge ps c node" for c
  proof (cases "node = root")
    case False
    with 2(2,3) have "(parent_edge ps)\<^sup>+\<^sup>+ node root" by auto
    with that show ?thesis by (rule tranclp_into_tranclp2)
  qed (use that in blast)
  have "set (descend_loop ps (snd ?acc) (fst ?acc)) = {c. (parent_edge ps)\<^sup>+\<^sup>+ c root}"
  proof (intro 2(1)[OF refl])
    show "\<forall>c \<in> set (fst ?acc). (parent_edge ps)\<^sup>+\<^sup>+ c root" using 2(2) step unfolding found by blast
    show "set (snd ?acc) \<subseteq> insert root (set (fst ?acc))" using 2(3) unfolding found stacked by auto
    show "\<forall>p \<in> insert root (set (fst ?acc)) - set (snd ?acc). \<forall>c. parent_edge ps c p \<longrightarrow> c \<in> set (fst ?acc)"
    proof (intro ballI allI impI)
      fix p c assume p: "p \<in> insert root (set (fst ?acc)) - set (snd ?acc)" and edge: "parent_edge ps c p"
      show "c \<in> set (fst ?acc)"
      proof (cases "p = node")
        case False
        have "p \<in> insert root (set found) - set (node # stack)" using p False unfolding found stacked by auto
        with 2(4) edge have "c \<in> set found" by blast
        then show ?thesis unfolding found by blast
      qed (use edge in \<open>simp add: found\<close>)
    qed
  qed
  then show ?case by (simp add: Let_def)
qed

lemma descendants_set: "set (descendants root ps) = {c. (parent_edge ps)\<^sup>+\<^sup>+ c root}"
  unfolding descendants_def by (rule descend_loop_set) auto

section \<open>A line of \<open>/proc\<close>\<close>

lemma words_from_word:
  assumes "\<forall>c \<in> set w. \<not> py_isspace c" "py_isspace b"
  shows "words_from acc (w @ b # s) = (if acc @ w = [] then words s else (acc @ w) # words s)"
  using assms(1) by (induction w arbitrary: acc) (auto simp: words_def assms(2))

lemma words_word:
  "w \<noteq> [] \<Longrightarrow> \<forall>c \<in> set w. \<not> py_isspace c \<Longrightarrow> py_isspace b \<Longrightarrow> words (w @ b # s) = w # words s"
  by (simp add: words_def words_from_word)

definition int_text :: "int \<Rightarrow> pystr" where
  "int_text n = (if n < 0 then u ''-'' @ decimal (nat (- n)) else decimal (nat n))"

lemma split_on_none: "c \<notin> set s \<Longrightarrow> split_on c s = [s]"
  by (rule split_on_no_sep)

lemma int_of_int_text:
  assumes "length (decimal (nat \<bar>n\<bar>)) \<le> max_str_digits"
  shows "int_of_field (int_text n) = Inr n"
proof -
  have plain: "95 \<notin> set (decimal m)" "decimal m \<noteq> []" "take 1 (decimal m) \<noteq> u ''-''" "take 1 (decimal m) \<noteq> u ''+''" for m
  proof -
    show "95 \<notin> set (decimal m)" using decimal_digits[of m] by (auto simp: is_digit_def)
    obtain c cs where m: "decimal m = c # cs" by (cases "decimal m") (simp_all add: decimal_not_Nil)
    have "is_digit c" using decimal_digits[of m] m by simp
    with m show "decimal m \<noteq> []" "take 1 (decimal m) \<noteq> u ''-''" "take 1 (decimal m) \<noteq> u ''+''"
      by (auto simp: u_def is_digit_def)
  qed
  have signs: "u ''-'' \<noteq> u ''+''" "tl (u ''-'' @ t) = t" "take 1 (u ''-'' @ t) = u ''-''" for t by (simp_all add: u_def)
  show ?thesis
  proof (cases "n < 0")
    case True
    then have "int_of_digits (decimal (nat (- n))) = Some (nat (- n))" using assms int_of_decimal by simp
    with True show ?thesis
      by (simp only: int_of_field_def int_text_def signs Let_def split_on_none[OF plain(1)] if_True) (simp add: plain(2)[symmetric] split_on_none[OF plain(1)])
  next
    case False
    then have "int_of_digits (decimal (nat n)) = Some (nat n)" using assms int_of_decimal by simp
    with False plain(3,4)[of "nat n"] show ?thesis
      by (simp add: int_of_field_def int_text_def Let_def split_on_none[OF plain(1)] plain(2)[symmetric])
  qed
qed

lemma ppid_field:
  assumes "close_paren \<notin> set rest"
  shows "parse_ppid (before @ close_paren # 32 # rest) =
    (if length (words rest) < 2 then raise_error IndexError ''fields'' else int_of_field (words rest ! 1))"
proof -
  have "takeWhile (\<lambda>c. c \<noteq> close_paren) (rev rest @ 32 # close_paren # rev before) = rev rest @ [32]"
    using assms by (subst takeWhile_append2) (auto simp: close_paren_def)
  then show ?thesis by (simp add: parse_ppid_def Let_def)
qed

section \<open>The kernel's rules\<close>

text \<open>
  The process table, of its processes those that are the program or were started by it
  (\<open>offspring\<close>), and whether the helper is a child subreaper. A process has a parent and, once it ended, a
  status to be waited for.
\<close>

record process =
  parent_pid :: int
  ended :: "int option"

record kernel =
  procs :: "int \<rightharpoonup> process"
  offspring :: "int set"
  adopts :: bool

definition running :: "kernel \<Rightarrow> int \<Rightarrow> bool" where
  "running k p \<longleftrightarrow> (\<exists>x. procs k p = Some x \<and> ended x = None)"

text \<open>The processes below the helper: \<open>below_helper h k n p\<close> when the parents of \<open>p\<close> lead to \<open>h\<close> over \<open>n\<close> others,
  all of them running.\<close>

fun below_helper :: "int \<Rightarrow> kernel \<Rightarrow> nat \<Rightarrow> int \<Rightarrow> bool" where
  "below_helper h k 0 p \<longleftrightarrow> (\<exists>x. procs k p = Some x \<and> parent_pid x = h)"
| "below_helper h k (Suc n) p \<longleftrightarrow> (\<exists>x. procs k p = Some x \<and> parent_pid x \<noteq> h \<and>
     running k (parent_pid x) \<and> below_helper h k n (parent_pid x))"

text \<open>
  \<open>fork(2)\<close>; \<open>exit(2)\<close>, where the children of an ended process go to its nearest ancestor that is a child
  subreaper (\<open>prctl(2)\<close>) - once the helper is one, for a process below the helper that is the helper or a running
  process between them, and before that it may be any process; and a parent other than the helper that
  waits for a child.
\<close>

definition adopted :: "kernel \<Rightarrow> int \<Rightarrow> int \<Rightarrow> int \<Rightarrow> int \<rightharpoonup> process" where
  "adopted k p s r = (\<lambda>q. if q = p then map_option (\<lambda>x. x\<lparr>ended := Some s\<rparr>) (procs k p)
     else map_option (\<lambda>x. if parent_pid x = p then x\<lparr>parent_pid := r\<rparr> else x) (procs k q))"

inductive kernel_step :: "int \<Rightarrow> kernel \<Rightarrow> kernel \<Rightarrow> bool" for h where
  fork: "procs k p = Some \<lparr>parent_pid = pp, ended = None\<rparr> \<Longrightarrow> p \<noteq> h \<Longrightarrow> procs k q = None \<Longrightarrow>
    kernel_step h k (k\<lparr>procs := (procs k)(q \<mapsto> \<lparr>parent_pid = p, ended = None\<rparr>),
      offspring := (if p \<in> offspring k then insert q (offspring k) else offspring k)\<rparr>)"
| exit: "procs k p = Some \<lparr>parent_pid = pp, ended = None\<rparr> \<Longrightarrow> p \<noteq> h \<Longrightarrow>
    (\<And>n. adopts k \<Longrightarrow> below_helper h k n p \<Longrightarrow> r = h \<or>
      (\<exists>m < n. below_helper h k m r \<and> running k r)) \<Longrightarrow>
    kernel_step h k (k\<lparr>procs := adopted k p s r\<rparr>)"
| waited: "procs k q = Some \<lparr>parent_pid = pp, ended = Some s\<rparr> \<Longrightarrow> pp \<noteq> h \<Longrightarrow>
    kernel_step h k (k\<lparr>procs := (procs k)(q := None), offspring := offspring k - {q}\<rparr>)"

inductive_cases kernel_stepE: "kernel_step h k k'"

definition moves :: "int \<Rightarrow> kernel \<Rightarrow> kernel \<Rightarrow> bool" where
  "moves h = (kernel_step h)\<^sup>*\<^sup>*"

definition reaped :: "int \<Rightarrow> kernel \<Rightarrow> kernel" where
  "reaped p k = k\<lparr>procs := (procs k)(p := None), offspring := offspring k - {p}\<rparr>"

text \<open>The helper is a subreaper, and no process of the program escapes it.\<close>

definition held :: "int \<Rightarrow> kernel \<Rightarrow> bool" where
  "held h k \<longleftrightarrow> adopts k \<and> (\<forall>p \<in> offspring k. \<exists>n. below_helper h k n p)"

lemma below_helper_unique: "below_helper h k n p \<Longrightarrow> below_helper h k m p \<Longrightarrow> n = m"
proof (induction n arbitrary: m p)
  case 0
  then show ?case by (cases m) auto
next
  case (Suc n)
  then show ?case by (cases m) auto
qed

lemma below_fork:
  assumes "below_helper h k n p" "procs k q = None"
  shows "below_helper h (k\<lparr>procs := (procs k)(q \<mapsto> x), offspring := S\<rparr>) n p"
  using assms by (induction n arbitrary: p) (auto simp: running_def)

lemma below_removed:
  assumes "below_helper h k n p" "\<not> running k q" "p \<noteq> q"
  shows "below_helper h (k\<lparr>procs := (procs k)(q := None), offspring := S\<rparr>) n p"
  using assms(1,3)
proof (induction n arbitrary: p)
  case (Suc n)
  then obtain x where x: "procs k p = Some x" "parent_pid x \<noteq> h" "running k (parent_pid x)" "below_helper h k n (parent_pid x)"
    by auto
  then have "parent_pid x \<noteq> q" using assms(2) by auto
  with x Suc show ?case by (auto simp: running_def)
qed simp

lemma adopted_lookup:
  assumes "procs k p = Some \<lparr>parent_pid = pp, ended = None\<rparr>" "procs k q = Some x"
  shows "\<exists>y. adopted k p s r q = Some y \<and> parent_pid y = (if q \<noteq> p \<and> parent_pid x = p then r else parent_pid x)"
    "running (k\<lparr>procs := adopted k p s r\<rparr>) q \<longleftrightarrow> running k q \<and> q \<noteq> p"
  using assms by (auto simp: adopted_def running_def)

lemma below_exit:
  assumes p: "procs k p = Some \<lparr>parent_pid = pp, ended = None\<rparr>" "p \<noteq> h"
    and adopter: "\<And>n. below_helper h k n p \<Longrightarrow> r = h \<or> (\<exists>m < n. below_helper h k m r \<and> running k r)"
  shows "below_helper h k n q \<Longrightarrow> \<exists>m \<le> n. below_helper h (k\<lparr>procs := adopted k p s r\<rparr>) m q"
proof (induction n arbitrary: q rule: less_induct)
  case (less n)
  let ?k' = "k\<lparr>procs := adopted k p s r\<rparr>"
  obtain x where x: "procs k q = Some x" using less.prems by (cases n) auto
  obtain y where y: "adopted k p s r q = Some y" "parent_pid y = (if q \<noteq> p \<and> parent_pid x = p then r else parent_pid x)"
    using adopted_lookup(1)[OF p(1) x] by blast
  have runs: "running ?k' a \<longleftrightarrow> running k a \<and> a \<noteq> p" if "running k a" for a
  proof -
    obtain z where "procs k a = Some z" using \<open>running k a\<close> by (auto simp: running_def)
    from adopted_lookup(2)[OF p(1) this] show ?thesis .
  qed
  have up: "\<exists>m \<le> n. below_helper h ?k' m q"
    if a: "parent_pid y = a" "a \<noteq> h" "l < n" "below_helper h k l a" "running k a" "a \<noteq> p" for a l
  proof -
    obtain m where "m \<le> l" "below_helper h ?k' m a" using less.IH a(3,4) by blast
    with a y runs have "below_helper h ?k' (Suc m) q" "Suc m \<le> n" by auto
    then show ?thesis by blast
  qed
  show ?case
  proof (cases n)
    case 0
    then have "below_helper h ?k' 0 q" using less.prems p(2) x y by auto
    with 0 show ?thesis by blast
  next
    case (Suc l)
    with less.prems x have parent: "parent_pid x \<noteq> h" "running k (parent_pid x)" "below_helper h k l (parent_pid x)" by auto
    show ?thesis
    proof (cases "q \<noteq> p \<and> parent_pid x = p")
      case False
      show ?thesis
      proof (cases "parent_pid x = p")
        case True
        with False have "q = p" by simp
        with True x p(1) have "below_helper h k l p" "parent_pid x = p" "Suc l \<noteq> l" using parent by auto
        moreover have "below_helper h k (Suc l) p" using less.prems \<open>q = p\<close> Suc by simp
        ultimately show ?thesis using below_helper_unique by blast
      next
        case other: False
        with False y parent Suc show ?thesis by (intro up[of "parent_pid x" l]) auto
      qed
    next
      case True
      with parent adopter consider "r = h" | m where "m < l" "below_helper h k m r" "running k r" by blast
      then show ?thesis
      proof cases
        case 1
        with True y have "below_helper h ?k' 0 q" by auto
        then show ?thesis by blast
      next
        case 2
        have "r \<noteq> p" using below_helper_unique[OF 2(2), of l] parent True 2(1) by auto
        moreover have "r \<noteq> h \<or> r = h" by simp
        ultimately show ?thesis using True y 2 Suc up[of r m] by (cases "r = h") auto
      qed
    qed
  qed
qed

lemma held_step: "kernel_step h k k' \<Longrightarrow> held h k \<Longrightarrow> held h k'"
proof (induction rule: kernel_step.induct)
  case (fork k p pp q)
  let ?k' = "k\<lparr>procs := (procs k)(q \<mapsto> \<lparr>parent_pid = p, ended = None\<rparr>),
      offspring := (if p \<in> offspring k then insert q (offspring k) else offspring k)\<rparr>"
  have old: "\<exists>n. below_helper h ?k' n a" if "a \<in> offspring k" for a
    using that fork(3,4) below_fork unfolding held_def by metis
  have "\<exists>n. below_helper h ?k' n q" if "p \<in> offspring k"
  proof -
    obtain n where "below_helper h ?k' n p" using old \<open>p \<in> offspring k\<close> by blast
    moreover have "running ?k' p" "p \<noteq> q" using fork by (auto simp: running_def)
    ultimately have "below_helper h ?k' (Suc n) q" using fork(2) by simp
    then show ?thesis by blast
  qed
  with old fork(4) show ?case by (auto simp: held_def)
next
  case (exit k p pp r s)
  then have "r = h \<or> (\<exists>m < n. below_helper h k m r \<and> running k r)" if "below_helper h k n p" for n
    using that by (simp add: held_def)
  from below_exit[OF exit(1,2) this] exit(4) show ?case by (fastforce simp: held_def)
next
  case (waited k q pp s)
  then show ?case using below_removed[of h k _ _ q] by (fastforce simp: held_def running_def)
qed

lemma held_moves: "moves h k k' \<Longrightarrow> held h k \<Longrightarrow> held h k'"
  unfolding moves_def by (induction rule: rtranclp_induct) (auto intro: held_step)

lemma held_reaped: "held h k \<Longrightarrow> \<not> running k p \<Longrightarrow> held h (reaped p k)"
  using below_removed[of h k _ _ p] by (fastforce simp: held_def reaped_def)

text \<open>When the helper has no child, nothing is below it.\<close>

lemma below_needs_child: "below_helper h k n p \<Longrightarrow> \<exists>q x. procs k q = Some x \<and> parent_pid x = h"
  by (induction n arbitrary: p) auto

lemma held_childless: "held h k \<Longrightarrow> \<nexists>q x. procs k q = Some x \<and> parent_pid x = h \<Longrightarrow> offspring k = {}"
  using below_needs_child by (fastforce simp: held_def)

section \<open>The calls, as the kernel answers them\<close>

text \<open>
  \<open>view\<close> is the kernel's state of a state \<open>'w\<close>. Every call is preceded by steps of the others; a \<open>waitpid\<close> then
  removes a child that ended, reports that there is none, or (with \<open>WNOHANG\<close>) that none has ended. A call out
  of which the SIGTERM handler raises may have removed a child. Sending a signal and sleeping let the others
  move, a \<open>prctl\<close> that returns 0 makes the helper a subreaper.
\<close>

definition child_ended :: "int \<Rightarrow> kernel \<Rightarrow> int \<Rightarrow> int \<Rightarrow> bool" where
  "child_ended h k p s \<longleftrightarrow> procs k p = Some \<lparr>parent_pid = h, ended = Some s\<rparr>"

definition childless :: "int \<Rightarrow> kernel \<Rightarrow> bool" where
  "childless h k \<longleftrightarrow> (\<nexists>q x. procs k q = Some x \<and> parent_pid x = h)"

definition waits :: "int \<Rightarrow> bool \<Rightarrow> kernel \<Rightarrow> wait_result outcome \<Rightarrow> kernel \<Rightarrow> bool" where
  "waits h nohang k r k' \<longleftrightarrow> (\<exists>m. moves h k m \<and>
     (case r of
        Done No_Children \<Rightarrow> k' = m \<and> childless h m
      | Done None_Ready \<Rightarrow> k' = m \<and> nohang
      | Done (Reaped p s) \<Rightarrow> k' = reaped p m \<and> child_ended h m p s
      | _ \<Rightarrow> k' = m \<or> (\<exists>p s. k' = reaped p m \<and> child_ended h m p s)))"

definition kernel_obeys :: "'w reaper_os \<Rightarrow> ('w \<Rightarrow> kernel) \<Rightarrow> bool" where
  "kernel_obeys os view \<longleftrightarrow>
     (\<forall>nohang w. waits (helper_pid os) nohang (view w) (fst (waitpid_any os nohang w)) (view (snd (waitpid_any os nohang w)))) \<and>
     (\<forall>w. moves (helper_pid os) (view w) (view (snd (list_proc os w)))) \<and>
     (\<forall>p w. moves (helper_pid os) (view w) (view (snd (kill_one os p w)))) \<and>
     (\<forall>t w. moves (helper_pid os) (view w) (view (snd (pause os t w)))) \<and>
     (\<forall>w w'. set_subreaper os w = (Done None, w') \<longrightarrow>
        (\<exists>m. moves (helper_pid os) (view w) m \<and> view w' = m\<lparr>adopts := True\<rparr>))"

text \<open>\<open>Popen\<close> starts the program as a child of the helper, and the only process it answers for; by the time it returns
  the program may have done anything.\<close>

definition program_started :: "'w reaper_os \<Rightarrow> ('w \<Rightarrow> kernel) \<Rightarrow> bool" where
  "program_started os view \<longleftrightarrow> (\<forall>request session w child w'. popen os request session w = (Done child, w') \<longrightarrow>
     (\<exists>m. offspring m = {child} \<and> procs m child = Some \<lparr>parent_pid = helper_pid os, ended = None\<rparr> \<and>
        adopts m = adopts (view w) \<and> moves (helper_pid os) m (view w')))"

lemma started_held:
  assumes "program_started os view" "popen os request session w = (Done child, w')" "adopts (view w)"
  shows "held (helper_pid os) (view w')"
proof -
  obtain m where m: "offspring m = {child}" "procs m child = Some \<lparr>parent_pid = helper_pid os, ended = None\<rparr>"
    "adopts m" "moves (helper_pid os) m (view w')"
    using assms unfolding program_started_def by metis
  from m(1,2) have "\<forall>p \<in> offspring m. below_helper (helper_pid os) m 0 p" by simp
  with m(3) have "held (helper_pid os) m" unfolding held_def by blast
  with held_moves[OF m(4)] show ?thesis .
qed

lemma waits_held:
  assumes "waits h nohang k r k'" "held h k"
  shows "held h k'" "r = Done No_Children \<Longrightarrow> offspring k' = {}"
proof -
  obtain m where moved: "moves h k m" and c: "case r of
        Done No_Children \<Rightarrow> k' = m \<and> childless h m
      | Done None_Ready \<Rightarrow> k' = m \<and> nohang
      | Done (Reaped p s) \<Rightarrow> k' = reaped p m \<and> child_ended h m p s
      | _ \<Rightarrow> k' = m \<or> (\<exists>p s. k' = reaped p m \<and> child_ended h m p s)"
    using assms(1) unfolding waits_def by blast
  from c have m: "k' = m \<or> (\<exists>p s. k' = reaped p m \<and> child_ended h m p s)" "r = Done No_Children \<Longrightarrow> k' = m \<and> childless h m"
    by (auto split: outcome.splits wait_result.splits)
  have held: "held h m" by (rule held_moves[OF moved assms(2)])
  with m(1) show "held h k'" by (auto simp: child_ended_def running_def intro: held_reaped)
  show "offspring k' = {}" if "r = Done No_Children"
    using m(2)[OF that] held_childless[OF held] by (auto simp: childless_def)
qed

section \<open>Waiting\<close>

text \<open>The processes reaped by a sequence of blocking waits, and what ends it.\<close>

inductive wait_run :: "'w reaper_os \<Rightarrow> 'w \<Rightarrow> (int \<times> int) list \<Rightarrow> wait_result outcome \<Rightarrow> 'w \<Rightarrow> bool" for os where
  stop: "waitpid_any os False w = (r, w') \<Longrightarrow> \<forall>x. r = Done x \<longrightarrow> x = No_Children \<Longrightarrow> wait_run os w [] r w'"
| reap: "waitpid_any os False w = (Done (Reaped p s), w') \<Longrightarrow> wait_run os w' rs r w'' \<Longrightarrow> wait_run os w ((p, s) # rs) r w''"
| again: "waitpid_any os False w = (Done None_Ready, w') \<Longrightarrow> wait_run os w' rs r w'' \<Longrightarrow> wait_run os w rs r w''"

definition last_status :: "int \<Rightarrow> int \<Rightarrow> (int \<times> int) list \<Rightarrow> int" where
  "last_status child code rs = foldl (\<lambda>c (p, s). if p = child then exit_code_of s else c) code rs"

fun wait_outcome :: "int \<Rightarrow> wait_result outcome \<Rightarrow> int outcome" where
  "wait_outcome code (Done r) = Done code"
| "wait_outcome code Terminated = Terminated"
| "wait_outcome code (Raised e) = Raised e"

lemma wait_tree_run:
  assumes "wait_tree_linux os child code w = Some (out, w')"
  shows "\<exists>rs r. wait_run os w rs r w' \<and> out = wait_outcome (last_status child code rs) r"
proof -
  have "\<exists>rs r. wait_run os w rs r (snd (out, w')) \<and> fst (out, w') = wait_outcome (last_status child code rs) r"
  proof (rule wait_tree_linux.raw_induct[where P = "\<lambda>os child code w res.
      \<exists>rs r. wait_run os w rs r (snd res) \<and> fst res = wait_outcome (last_status child code rs) r", OF _ assms])
    fix loop :: "'a reaper_os \<Rightarrow> int \<Rightarrow> int \<Rightarrow> 'a \<Rightarrow> (int outcome \<times> 'a) option" and os child code w res
    assume IH: "\<And>os child code w res. loop os child code w = Some res \<Longrightarrow>
        \<exists>rs r. wait_run os w rs r (snd res) \<and> fst res = wait_outcome (last_status child code rs) r"
      and body: "(case waitpid_any os False w of
      (Done r, w') \<Rightarrow> (case r of
          No_Children \<Rightarrow> Some (Done code, w')
        | None_Ready \<Rightarrow> loop os child code w'
        | Reaped p s \<Rightarrow> loop os child (if p = child then exit_code_of s else code) w')
    | (Terminated, w') \<Rightarrow> Some (Terminated, w')
    | (Raised e, w') \<Rightarrow> Some (Raised e, w')) = Some res"
    obtain r w1 where call: "waitpid_any os False w = (r, w1)" by fastforce
    show "\<exists>rs r. wait_run os w rs r (snd res) \<and> fst res = wait_outcome (last_status child code rs) r"
    proof (cases "\<forall>x. r = Done x \<longrightarrow> x = No_Children")
      case True
      then have "wait_run os w [] r w1" using wait_run.stop[OF call] by blast
      moreover have "fst res = wait_outcome (last_status child code []) r" "snd res = w1"
        using body call True by (auto simp: last_status_def split: outcome.splits)
      ultimately show ?thesis by blast
    next
      case False
      then consider "r = Done None_Ready" | p s where "r = Done (Reaped p s)" by (metis wait_result.exhaust)
      then show ?thesis
      proof cases
        case 1
        with body call have "loop os child code w1 = Some res" by simp
        from IH[OF this] 1 call show ?thesis by (metis wait_run.again)
      next
        case 2
        with body call have "loop os child (if p = child then exit_code_of s else code) w1 = Some res" by simp
        from IH[OF this] obtain rs r' where "wait_run os w1 rs r' (snd res)"
          "fst res = wait_outcome (last_status child (if p = child then exit_code_of s else code) rs) r'" by blast
        with 2 call show ?thesis
          by (intro exI[of _ "(p, s) # rs"] exI[of _ r']) (auto simp: last_status_def intro: wait_run.reap)
      qed
    qed
  qed
  then show ?thesis by simp
qed

lemma wait_run_held:
  assumes "wait_run os w rs r w'" "kernel_obeys os view" "held (helper_pid os) (view w)"
  shows "held (helper_pid os) (view w')" "r = Done No_Children \<Longrightarrow> offspring (view w') = {}"
proof -
  have call: "waits (helper_pid os) nohang (view w) r (view w')" if "waitpid_any os nohang w = (r, w')" for nohang w r w'
    using assms(2) that unfolding kernel_obeys_def by (metis fst_conv snd_conv)
  have "held (helper_pid os) (view w') \<and> (r = Done No_Children \<longrightarrow> offspring (view w') = {})"
    using assms(1,3) by (induction rule: wait_run.induct) (blast dest: call waits_held)+
  then show "held (helper_pid os) (view w')" "r = Done No_Children \<Longrightarrow> offspring (view w') = {}" by auto
qed

lemma wait_run_stops: "wait_run os w rs r w' \<Longrightarrow> r = Done x \<Longrightarrow> x = No_Children"
  by (induction rule: wait_run.induct) auto

section \<open>Killing\<close>

text \<open>Time passes while the helper sleeps and never runs backwards; only finitely many children have ended at a time.\<close>

definition time_passes :: "'w reaper_os \<Rightarrow> bool" where
  "time_passes os \<longleftrightarrow>
     (\<forall>t w w'. pause os t w = (Done (), w') \<longrightarrow> clock os w + t \<le> clock os w') \<and>
     (\<forall>nohang w. clock os w \<le> clock os (snd (waitpid_any os nohang w))) \<and>
     (\<forall>w. clock os w \<le> clock os (snd (list_proc os w))) \<and>
     (\<forall>p w. clock os w \<le> clock os (snd (kill_one os p w)))"

definition reaping_ends :: "'w reaper_os \<Rightarrow> bool" where
  "reaping_ends os \<longleftrightarrow> (\<exists>ready :: 'w \<Rightarrow> nat. \<forall>w p s w'. waitpid_any os True w = (Done (Reaped p s), w') \<longrightarrow> ready w' < ready w)"

lemma reap_ready_Reaped:
  "waitpid_any os True w = (Done (Reaped p s), w') \<Longrightarrow> reap_ready os w = reap_ready os w'"
  by (subst reap_ready.simps) simp

lemma reap_ready_other:
  assumes "waitpid_any os True w = (r, w')" "\<And>p s. r \<noteq> Done (Reaped p s)"
  shows "reap_ready os w = Some (case r of Done x \<Rightarrow> Done (x = No_Children) | Terminated \<Rightarrow> Terminated | Raised e \<Rightarrow> Raised e, w')"
  using assms by (subst reap_ready.simps) (auto split: outcome.splits wait_result.splits)

lemma reap_ready_returns:
  assumes "kernel_obeys os view" "time_passes os" "reaping_ends os" "held (helper_pid os) (view w)"
  shows "\<exists>r w'. reap_ready os w = Some (r, w') \<and> held (helper_pid os) (view w') \<and> clock os w \<le> clock os w' \<and>
    (r = Done True \<longrightarrow> offspring (view w') = {})"
proof -
  obtain ready :: "'a \<Rightarrow> nat" where ready: "\<And>w p s w'. waitpid_any os True w = (Done (Reaped p s), w') \<Longrightarrow> ready w' < ready w"
    using assms(3) unfolding reaping_ends_def by blast
  show ?thesis using assms(4)
  proof (induction "ready w" arbitrary: w rule: less_induct)
    case less
    obtain r w1 where call: "waitpid_any os True w = (r, w1)" by fastforce
    then have answered: "waits (helper_pid os) True (view w) r (view w1)" "clock os w \<le> clock os w1"
      using assms(1,2) unfolding kernel_obeys_def time_passes_def by (metis fst_conv snd_conv)+
    note kept = waits_held[OF answered(1) less.prems]
    show ?case
    proof (cases "\<exists>p s. r = Done (Reaped p s)")
      case True
      then obtain p s where r: "r = Done (Reaped p s)" by blast
      from less.hyps[OF ready kept(1)] call r obtain x w' where "reap_ready os w1 = Some (x, w')"
        "held (helper_pid os) (view w')" "clock os w1 \<le> clock os w'" "x = Done True \<longrightarrow> offspring (view w') = {}" by blast
      with call r answered(2) reap_ready_Reaped[of os w] show ?thesis by fastforce
    next
      case False
      with reap_ready_other[OF call] have "reap_ready os w =
          Some (case r of Done x \<Rightarrow> Done (x = No_Children) | Terminated \<Rightarrow> Terminated | Raised e \<Rightarrow> Raised e, w1)" by blast
      with kept answered(2) show ?thesis by (auto split: outcome.splits)
    qed
  qed
qed

text \<open>A computation that lets the others move and the clock run.\<close>

definition quiet :: "'w reaper_os \<Rightarrow> ('w \<Rightarrow> kernel) \<Rightarrow> ('w, 'a) call \<Rightarrow> bool" where
  "quiet os view f \<longleftrightarrow> (\<forall>w. moves (helper_pid os) (view w) (view (snd (f w))) \<and> clock os w \<le> clock os (snd (f w)))"

lemma moves_trans: "moves h a b \<Longrightarrow> moves h b c \<Longrightarrow> moves h a c"
  by (simp add: moves_def)

lemma quiet_then:
  assumes "quiet os view m" "\<And>x. quiet os view (f x)"
  shows "quiet os view (call_then m f)"
  unfolding quiet_def
proof
  fix w
  obtain r w1 where run: "m w = (r, w1)" by fastforce
  then have one: "moves (helper_pid os) (view w) (view w1)" "clock os w \<le> clock os w1"
    using assms(1) unfolding quiet_def by (metis snd_conv)+
  show "moves (helper_pid os) (view w) (view (snd (call_then m f w))) \<and> clock os w \<le> clock os (snd (call_then m f w))"
  proof (cases r)
    case (Done x)
    have "moves (helper_pid os) (view w1) (view (snd (f x w1)))" "clock os w1 \<le> clock os (snd (f x w1))"
      using assms(2)[of x] unfolding quiet_def by blast+
    with one run Done show ?thesis by (auto simp: call_then_def intro: moves_trans)
  qed (use one run in \<open>simp_all add: call_then_def\<close>)
qed

lemma quiet_lifted: "quiet os view (lifted r)"
  by (simp add: quiet_def lifted_def moves_def split: sum.splits)

lemma quiet_each:
  assumes "\<And>x. quiet os view (f x)"
  shows "quiet os view (each_call f xs)"
proof (induction xs)
  case (Cons x xs)
  have "each_call f (x # xs) = call_then (f x) (\<lambda>_. each_call f xs)" by (rule ext) simp
  with Cons assms show ?case by (simp add: quiet_then)
qed (simp add: quiet_def moves_def)

lemma kill_descendants_quiet:
  assumes "kernel_obeys os view" "time_passes os"
  shows "quiet os view (kill_descendants os)"
proof -
  have "quiet os view (list_proc os)" "quiet os view (kill_one os p)" for p
    using assms by (simp_all add: kernel_obeys_def time_passes_def quiet_def)
  then show ?thesis by (simp add: kill_descendants_def quiet_then quiet_lifted quiet_each)
qed

lemma kill_rounds_step:
  assumes "clock os w < deadline" "kill_descendants os w = (k, w1)" "reap_ready os w1 = Some (r, w2)" "pause os kill_pause w2 = (z, w3)"
  shows "kill_rounds os deadline w = (case (k, r, z) of
      (Done _, Done True, _) \<Rightarrow> Some (Done (), w2)
    | (Done _, Done False, Done _) \<Rightarrow> kill_rounds os deadline w3
    | (Done _, Done False, Terminated) \<Rightarrow> Some (Terminated, w3)
    | (Done _, Done False, Raised e) \<Rightarrow> Some (Raised e, w3)
    | (Done _, Terminated, _) \<Rightarrow> Some (Terminated, w2)
    | (Done _, Raised e, _) \<Rightarrow> Some (Raised e, w2)
    | (Terminated, _) \<Rightarrow> Some (Terminated, w1)
    | (Raised e, _) \<Rightarrow> Some (Raised e, w1))"
  using assms by (subst kill_rounds.simps) (simp split: outcome.splits bool.splits)

lemma kill_rounds_returns:
  assumes os: "kernel_obeys os view" "time_passes os" "reaping_ends os" and "held (helper_pid os) (view w)"
  shows "\<exists>r w'. kill_rounds os deadline w = Some (r, w') \<and>
    (r = Done () \<longrightarrow> offspring (view w') = {} \<or> deadline \<le> clock os w')"
  using assms(4)
proof (induction "nat (deadline - clock os w)" arbitrary: w rule: less_induct)
  case less
  show ?case
  proof (cases "deadline \<le> clock os w")
    case True
    then show ?thesis by (subst kill_rounds.simps) simp
  next
    case False
    obtain k w1 where k: "kill_descendants os w = (k, w1)" by fastforce
    then have w1: "held (helper_pid os) (view w1)" "clock os w \<le> clock os w1"
      using kill_descendants_quiet[OF os(1,2)] held_moves less.prems unfolding quiet_def by (metis snd_conv)+
    obtain r w2 where r: "reap_ready os w1 = Some (r, w2)" "held (helper_pid os) (view w2)" "clock os w1 \<le> clock os w2"
      "r = Done True \<longrightarrow> offspring (view w2) = {}"
      using reap_ready_returns[OF os w1(1)] by blast
    obtain z w3 where z: "pause os kill_pause w2 = (z, w3)" by fastforce
    have w3: "held (helper_pid os) (view w3)"
      using os(1) held_moves[OF _ r(2)] z unfolding kernel_obeys_def by (metis snd_conv)
    have later: "\<exists>r w'. kill_rounds os deadline w3 = Some (r, w') \<and>
        (r = Done () \<longrightarrow> offspring (view w') = {} \<or> deadline \<le> clock os w')" if "z = Done ()"
    proof -
      have "clock os w2 + kill_pause \<le> clock os w3" using os(2) z that unfolding time_passes_def by blast
      then have "nat (deadline - clock os w3) < nat (deadline - clock os w)"
        using False w1(2) r(3) by (simp add: kill_pause_def)
      from less.hyps[OF this w3] show ?thesis .
    qed
    from False have "clock os w < deadline" by simp
    note step = kill_rounds_step[OF this k r(1) z]
    show ?thesis
      using later r(4) by (simp add: step split: outcome.splits bool.splits)
  qed
qed

section \<open>Killing a tree that is idle\<close>

text \<open>
  A process that does not change anything itself: it runs until SIGKILL ends it, and its children then go to
  the helper. \<open>/proc\<close> shows each process with its parent (the table leaves the helper itself out, and the
  helper is not below itself), and a \<open>waitpid\<close> gives a child that ended as long as there is one.
\<close>

definition sigkilled :: "int \<Rightarrow> int \<Rightarrow> kernel \<Rightarrow> kernel" where
  "sigkilled h p k = (if running k p \<and> p \<noteq> h then k\<lparr>procs := adopted k p 9 h\<rparr> else k)"

definition idle_tree :: "'w reaper_os \<Rightarrow> ('w \<Rightarrow> kernel) \<Rightarrow> bool" where
  "idle_tree os view \<longleftrightarrow>
     (\<forall>w. \<exists>entries w' ps. list_proc os w = (Done entries, w') \<and> view w' = view w \<and> proc_parents entries [] = Inr ps \<and>
        \<not> (parent_edge ps)\<^sup>+\<^sup>+ (helper_pid os) (helper_pid os) \<and>
        (\<forall>p x. procs (view w) p = Some x \<longrightarrow> parent_edge ps p (parent_pid x))) \<and>
     (\<forall>p w. \<exists>w'. kill_one os p w = (Done (), w') \<and> view w' = sigkilled (helper_pid os) p (view w)) \<and>
     (\<forall>w r w'. waitpid_any os True w = (r, w') \<longrightarrow> (case r of
        Done No_Children \<Rightarrow> view w' = view w \<and> childless (helper_pid os) (view w)
      | Done None_Ready \<Rightarrow> (\<exists>p x. procs (view w) p = Some x \<and> parent_pid x = helper_pid os \<and> ended x = None)
      | Done (Reaped p s) \<Rightarrow> view w' = reaped p (view w) \<and> child_ended (helper_pid os) (view w) p s
      | _ \<Rightarrow> False))"

lemma sigkilled_step: "sigkilled h p k = k \<or> kernel_step h k (sigkilled h p k)"
proof (cases "running k p \<and> p \<noteq> h")
  case True
  then obtain pp where "procs k p = Some \<lparr>parent_pid = pp, ended = None\<rparr>" unfolding running_def by (metis process.cases process.select_convs(2))
  with True show ?thesis using kernel_step.exit[of k p pp h h 9] by (simp add: sigkilled_def)
next
  case False
  then have "sigkilled h p k = k" unfolding sigkilled_def by (rule if_not_P)
  then show ?thesis ..
qed

lemma sigkilled_all_held: "held h k \<Longrightarrow> held h (fold (sigkilled h) ps k)"
proof (induction ps arbitrary: k)
  case (Cons p ps)
  have "held h (sigkilled h p k)" using sigkilled_step[of h p k] held_step Cons.prems by metis
  with Cons.IH show ?case by simp
qed simp

lemma sigkilled_lookup:
  assumes "procs (sigkilled h p k) q = Some y"
  shows "\<exists>x. procs k q = Some x \<and> (parent_pid y = parent_pid x \<or> parent_pid y = h \<and> parent_pid x = p) \<and>
    (ended x \<noteq> None \<longrightarrow> ended y \<noteq> None) \<and> (q = p \<and> p \<noteq> h \<longrightarrow> ended y \<noteq> None)"
  using assms by (auto simp: sigkilled_def adopted_def running_def split: if_splits option.splits)

text \<open>After all of a list got the signal: they ended, and a parent is the one before or the helper.\<close>

lemma sigkilled_all_lookup:
  assumes "procs (fold (sigkilled h) ps k) q = Some y"
  shows "\<exists>x. procs k q = Some x \<and> (parent_pid y = parent_pid x \<or> parent_pid y = h \<and> parent_pid x \<in> set ps) \<and>
    (ended x \<noteq> None \<or> q \<in> set ps \<and> q \<noteq> h \<longrightarrow> ended y \<noteq> None)"
  using assms
proof (induction ps arbitrary: k)
  case (Cons p ps)
  have "procs (fold (sigkilled h) ps (sigkilled h p k)) q = Some y" using Cons.prems by simp
  from Cons.IH[OF this] obtain x where x: "procs (sigkilled h p k) q = Some x"
    "parent_pid y = parent_pid x \<or> parent_pid y = h \<and> parent_pid x \<in> set ps"
    "ended x \<noteq> None \<or> q \<in> set ps \<and> q \<noteq> h \<longrightarrow> ended y \<noteq> None" by blast
  from sigkilled_lookup[OF x(1)] x(2,3) show ?case by auto
qed auto

lemma kill_each_idle:
  assumes "idle_tree os view"
  shows "\<exists>w'. each_call (kill_one os) ps w = (Done (), w') \<and> view w' = fold (sigkilled (helper_pid os)) ps (view w)"
proof (induction ps arbitrary: w)
  case (Cons p ps)
  obtain w1 where w1: "kill_one os p w = (Done (), w1)" "view w1 = sigkilled (helper_pid os) p (view w)"
    using assms unfolding idle_tree_def by blast
  obtain w2 where w2: "each_call (kill_one os) ps w1 = (Done (), w2)" "view w2 = fold (sigkilled (helper_pid os)) ps (view w1)"
    using Cons.IH by blast
  from w1 w2 show ?case by (simp add: call_then_def)
qed simp

lemma kill_descendants_idle:
  assumes idle: "idle_tree os view" and "held (helper_pid os) (view w)"
  shows "\<exists>w'. kill_descendants os w = (Done (), w') \<and> held (helper_pid os) (view w') \<and>
    (\<forall>q y. procs (view w') q = Some y \<and> parent_pid y = helper_pid os \<longrightarrow> ended y \<noteq> None)"
proof -
  let ?h = "helper_pid os"
  obtain entries w1 ps where l: "list_proc os w = (Done entries, w1)" "view w1 = view w" "proc_parents entries [] = Inr ps"
    "\<not> (parent_edge ps)\<^sup>+\<^sup>+ ?h ?h" "\<And>p x. procs (view w) p = Some x \<Longrightarrow> parent_edge ps p (parent_pid x)"
    using idle unfolding idle_tree_def by blast
  obtain w2 where k: "each_call (kill_one os) (descendants ?h ps) w1 = (Done (), w2)"
    "view w2 = fold (sigkilled ?h) (descendants ?h ps) (view w)" using kill_each_idle[OF idle, of "descendants ?h ps" w1] l(2) by auto
  have "ended y \<noteq> None" if y: "procs (view w2) q = Some y" "parent_pid y = ?h" for q y
  proof -
    obtain x where x: "procs (view w) q = Some x" "parent_pid y = parent_pid x \<or> parent_pid y = ?h \<and> parent_pid x \<in> set (descendants ?h ps)"
      "ended x \<noteq> None \<or> q \<in> set (descendants ?h ps) \<and> q \<noteq> ?h \<longrightarrow> ended y \<noteq> None"
      using sigkilled_all_lookup y(1) unfolding k(2) by metis
    have "(parent_edge ps)\<^sup>+\<^sup>+ q ?h"
      using x(2) y(2) l(5)[OF x(1)] by (auto simp: descendants_set intro: tranclp_into_tranclp2)
    with x(3) l(4) show ?thesis by (auto simp: descendants_set)
  qed
  moreover have "held ?h (view w2)" using sigkilled_all_held[OF assms(2)] k(2) by simp
  moreover have "kill_descendants os w = (Done (), w2)" using l k by (simp add: kill_descendants_def call_then_def lifted_def)
  ultimately show ?thesis by blast
qed

lemma reap_ready_idle:
  assumes "idle_tree os view" "reaping_ends os"
  shows "held (helper_pid os) (view w) \<Longrightarrow>
    \<forall>q y. procs (view w) q = Some y \<and> parent_pid y = helper_pid os \<longrightarrow> ended y \<noteq> None \<Longrightarrow>
    \<exists>w'. reap_ready os w = Some (Done True, w') \<and> offspring (view w') = {}"
proof -
  obtain ready :: "'a \<Rightarrow> nat" where ready: "\<And>w p s w'. waitpid_any os True w = (Done (Reaped p s), w') \<Longrightarrow> ready w' < ready w"
    using assms(2) unfolding reaping_ends_def by blast
  show "held (helper_pid os) (view w) \<Longrightarrow>
    \<forall>q y. procs (view w) q = Some y \<and> parent_pid y = helper_pid os \<longrightarrow> ended y \<noteq> None \<Longrightarrow>
    \<exists>w'. reap_ready os w = Some (Done True, w') \<and> offspring (view w') = {}"
  proof (induction "ready w" arbitrary: w rule: less_induct)
    case less
    obtain r w1 where call: "waitpid_any os True w = (r, w1)" by fastforce
    have answer: "case r of
        Done No_Children \<Rightarrow> view w1 = view w \<and> childless (helper_pid os) (view w)
      | Done None_Ready \<Rightarrow> (\<exists>p x. procs (view w) p = Some x \<and> parent_pid x = helper_pid os \<and> ended x = None)
      | Done (Reaped p s) \<Rightarrow> view w1 = reaped p (view w) \<and> child_ended (helper_pid os) (view w) p s
      | _ \<Rightarrow> False"
      using assms(1) call unfolding idle_tree_def by blast
    then consider (none) "r = Done No_Children" "view w1 = view w" "childless (helper_pid os) (view w)"
      | (reap) p s where "r = Done (Reaped p s)" "view w1 = reaped p (view w)" "child_ended (helper_pid os) (view w) p s"
      using less.prems(2) by (fastforce split: outcome.splits wait_result.splits)
    then show ?case
    proof cases
      case none
      with call have "reap_ready os w = Some (Done True, w1)" by (subst reap_ready.simps) simp
      moreover have "offspring (view w1) = {}"
        using held_childless[OF less.prems(1)] none(2,3) by (simp add: childless_def)
      ultimately show ?thesis by blast
    next
      case reap
      have "held (helper_pid os) (view w1)" unfolding reap(2)
        using held_reaped[OF less.prems(1)] reap(3) by (simp add: child_ended_def running_def)
      moreover have "\<forall>q y. procs (view w1) q = Some y \<and> parent_pid y = helper_pid os \<longrightarrow> ended y \<noteq> None"
        using less.prems(2) unfolding reap(2) by (auto simp: reaped_def split: if_splits)
      ultimately obtain w' where "reap_ready os w1 = Some (Done True, w')" "offspring (view w') = {}"
        using less.hyps[OF ready] call reap(1) by blast
      with call reap(1) reap_ready_Reaped[of os w] show ?thesis by auto
    qed
  qed
qed

lemma kill_tree_idle:
  assumes "idle_tree os view" "reaping_ends os" "held (helper_pid os) (view w)"
  shows "\<exists>w'. kill_tree_linux os w = Some (Done (), w') \<and> offspring (view w') = {}"
proof -
  obtain w1 where k: "kill_descendants os w = (Done (), w1)" "held (helper_pid os) (view w1)"
    "\<forall>q y. procs (view w1) q = Some y \<and> parent_pid y = helper_pid os \<longrightarrow> ended y \<noteq> None"
    using kill_descendants_idle[OF assms(1,3)] by blast
  obtain w2 where r: "reap_ready os w1 = Some (Done True, w2)" "offspring (view w2) = {}"
    using reap_ready_idle[OF assms(1,2) k(2,3)] by blast
  have "clock os w < clock os w + kill_deadline" by (simp add: kill_deadline_def)
  obtain z w3 where z: "pause os kill_pause w2 = (z, w3)" by fastforce
  from kill_rounds_step[OF \<open>clock os w < clock os w + kill_deadline\<close> k(1) r(1) z] r(2) show ?thesis
    by (simp add: kill_tree_linux_def)
qed

section \<open>The program's own exit\<close>

text \<open>The program stays a child of the helper until the helper reaps it.\<close>

definition unreaped :: "int \<Rightarrow> kernel \<Rightarrow> int \<Rightarrow> bool" where
  "unreaped h k c \<longleftrightarrow> (\<exists>x. procs k c = Some x \<and> parent_pid x = h)"

lemma unreaped_step: "kernel_step h k k' \<Longrightarrow> unreaped h k c \<Longrightarrow> unreaped h k' c"
  by (induction rule: kernel_step.induct) (auto simp: unreaped_def adopted_def)

lemma unreaped_moves: "moves h k k' \<Longrightarrow> unreaped h k c \<Longrightarrow> unreaped h k' c"
  unfolding moves_def by (induction rule: rtranclp_induct) (auto intro: unreaped_step)

lemma started_unreaped:
  assumes "program_started os view" "popen os request session w = (Done child, w')"
  shows "unreaped (helper_pid os) (view w') child"
proof -
  obtain m where m: "procs m child = Some \<lparr>parent_pid = helper_pid os, ended = None\<rparr>" "moves (helper_pid os) m (view w')"
    using assms unfolding program_started_def by metis
  from m(1) have "unreaped (helper_pid os) m child" by (simp add: unreaped_def)
  with unreaped_moves[OF m(2)] show ?thesis .
qed

lemma waits_unreaped:
  assumes "waits h nohang k (Done x) k'" "unreaped h k c"
  shows "case x of No_Children \<Rightarrow> False | None_Ready \<Rightarrow> unreaped h k' c | Reaped p s \<Rightarrow> p = c \<or> unreaped h k' c"
proof -
  obtain m where moved: "moves h k m" and x: "case x of No_Children \<Rightarrow> k' = m \<and> childless h m
      | None_Ready \<Rightarrow> k' = m \<and> nohang | Reaped p s \<Rightarrow> k' = reaped p m \<and> child_ended h m p s"
    using assms(1) unfolding waits_def by auto
  from unreaped_moves[OF moved assms(2)] x show ?thesis
    by (cases x) (auto simp: unreaped_def childless_def reaped_def)
qed

lemma wait_run_reaps:
  assumes "wait_run os w rs r w'" "r = Done No_Children" "kernel_obeys os view" "unreaped (helper_pid os) (view w) c"
  shows "c \<in> fst ` set rs"
proof -
  have call: "waits (helper_pid os) False (view w) r (view w')" if "waitpid_any os False w = (r, w')" for w r w'
    using assms(3) that unfolding kernel_obeys_def by (metis fst_conv snd_conv)
  show ?thesis using assms(1,2,4)
  proof (induction rule: wait_run.induct)
    case (stop w r w')
    then have "waits (helper_pid os) False (view w) (Done No_Children) (view w')" using call by blast
    from waits_unreaped[OF this stop(4)] show ?case by simp
  next
    case (reap w p s w' rs r w'')
    from waits_unreaped[OF call[OF reap(1)] reap(5)] have "p = c \<or> unreaped (helper_pid os) (view w') c" by simp
    with reap.IH reap.prems(1) show ?case by auto
  next
    case (again w w' rs r w'')
    from waits_unreaped[OF call[OF again(1)] again(5)] have "unreaped (helper_pid os) (view w') c" by simp
    with again.IH again.prems(1) show ?case by auto
  qed
qed

lemma last_status_reaped:
  assumes "c \<in> fst ` set rs"
  shows "\<exists>s. (c, s) \<in> set rs \<and> last_status c code rs = exit_code_of s"
  using assms
proof (induction rs arbitrary: code)
  case (Cons x rs)
  have step: "last_status c code (x # rs) = last_status c (if fst x = c then exit_code_of (snd x) else code) rs"
    by (simp add: last_status_def split: prod.split)
  show ?case
  proof (cases "c \<in> fst ` set rs")
    case True
    from Cons.IH[OF this] show ?thesis unfolding step by (meson list.set_intros(2))
  next
    case False
    have same: "last_status c d rs = d" for d
      using False by (induction rs arbitrary: d) (auto simp: last_status_def)
    from False Cons.prems have "fst x = c" by auto
    then show ?thesis unfolding step same by (intro exI[of _ "snd x"]) auto
  qed
qed simp

text \<open>A process that gets the program's number again after the program was reaped overwrites its exit code.\<close>

lemma reused_pid_overwrites: "last_status 7 0 [(7, 768), (7, 0)] = 0" "last_status 7 0 [(7, 768)] = 3"
  by (simp_all add: last_status_def exit_code_of_def)

section \<open>What the helper reports\<close>

lemma killed_report_killed:
  assumes "killed_report os linux child w = Some (Done r, w')"
  shows "r = Killed"
proof -
  obtain x :: "unit outcome" where "(case x of Done _ \<Rightarrow> Done Killed | Terminated \<Rightarrow> Terminated | Raised e \<Rightarrow> Raised e) = Done r"
    using assms unfolding killed_report_def by auto
  then show ?thesis by (cases x) auto
qed

lemma run_request_exited:
  assumes "kernel_obeys os view" "program_started os view" "on_linux os"
    and run: "run_request os q w = Some (Done (Exited code), w')"
  shows "\<exists>child w1 w2 rs s. popen os q False w1 = (Done child, w2) \<and> wait_run os w2 rs (Done No_Children) w' \<and>
    (child, s) \<in> set rs \<and> code = exit_code_of s \<and> offspring (view w') = {}"
proof -
  obtain b w1 where b: "become_subreaper os w = (b, w1)" by fastforce
  with run obtain l where l: "b = Done l" by (cases b) (auto simp: run_request_def)
  with b assms(3) have "l" by (auto simp: become_subreaper_def call_then_def split: prod.splits outcome.splits option.splits)
  from b l assms(3) have "set_subreaper os w = (Done None, w1)"
    by (auto simp: become_subreaper_def call_then_def split: prod.splits outcome.splits option.splits)
  with assms(1) obtain m where "view w1 = m\<lparr>adopts := True\<rparr>" unfolding kernel_obeys_def by blast
  then have subreaper: "adopts (view w1)" by simp
  obtain p w2 where p: "popen os q False w1 = (p, w2)" by fastforce
  with run b l \<open>l\<close> obtain child where child: "p = Done child"
    by (cases p) (auto simp: run_request_def failed_of_def dest!: killed_report_killed split: if_splits)
  with run b l \<open>l\<close> p have "wait_tree_linux os child 0 w2 = Some (Done code, w')"
    by (auto simp: run_request_def dest!: killed_report_killed split: option.splits outcome.splits)
  from wait_tree_run[OF this] obtain rs r where rs: "wait_run os w2 rs r w'"
    "Done code = wait_outcome (last_status child 0 rs) r" by blast
  then obtain x where "r = Done x" "code = last_status child 0 rs" by (cases r) auto
  moreover from this have r: "r = Done No_Children" using wait_run_stops[OF rs(1)] by simp
  have started: "popen os q False w1 = (Done child, w2)" using p child by simp
  from wait_run_reaps[OF rs(1) r assms(1) started_unreaped[OF assms(2) started]] have "child \<in> fst ` set rs" .
  moreover have "offspring (view w') = {}"
    using wait_run_held(2)[OF rs(1) assms(1) started_held[OF assms(2) started subreaper]] r by simp
  ultimately show ?thesis using last_status_reaped[of child rs 0] rs(1) r started by blast
qed

lemma main_report_exited:
  assumes "main_report os read_request w = Some (Exited code, w')"
  shows "\<exists>q w1. read_request w = (Done q, w1) \<and> run_request os q w1 = Some (Done (Exited code), w')"
  using assms by (auto simp: main_report_def failed_of_def split: prod.splits outcome.splits option.splits)

end
