(* ===== verification/Process_Tree.thy ===== *)
theory Process_Tree
  imports Tree_Reaper Fileio Py_Paths
begin

text \<open>
  \<open>adapters/native/process_tree.py\<close> and \<open>process_tree_posix.py\<close>: running a program and everything it starts. The
  operating system is a \<open>host_os\<close> record over a state \<open>'w\<close>; the file descriptors pwshpy opens itself are part of
  the model's state. \<open>ProcessTree\<close>, the protocol of a strategy, is the record \<open>tree_ops\<close>. What a call raises is
  pwshpy's own error or a fault of the system, which \<open>except OSError\<close> may catch. Times are microseconds.
\<close>

section \<open>Text in and out\<close>

text \<open>\<open>decode_output\<close>, and \<open>encode_input\<close> on POSIX, where \<open>os.linesep\<close> is LF: a lone surrogate becomes \<open>?\<close>.\<close>

definition decode_output :: "bytes \<Rightarrow> pystr" where
  "decode_output data = replace_char 13 [10] (crlf_to_lf (decode_replace data))"

definition encode_input :: "pystr \<Rightarrow> pystr \<Rightarrow> bytes" where
  "encode_input linesep text = concat (map (\<lambda>c. if is_scalar c then utf8_char c else [63]) (replace_char 10 linesep text))"

section \<open>The strategy protocol\<close>

datatype tree_fault = Typed pwshpy_error | System os_fault

type_synonym ('s, 'a) op = "'s \<Rightarrow> (tree_fault + 'a) \<times> 's"

record 's tree_ops =
  op_launch :: "('s, unit) op"
  op_wait :: "int option \<Rightarrow> ('s, bool) op"
  op_kill :: "('s, unit) op"
  op_exit_code :: "('s, int) op"
  op_close :: "('s, unit) op"

text \<open>\<open>_launch\<close> and the exceptions that leave \<open>run_process_tree\<close> as they are.\<close>

fun launch_error :: "tree_fault \<Rightarrow> pwshpy_error" where
  "launch_error (Typed e) = e"
| "launch_error (System f) = except_os ''Failed to run'' f"

fun raised_error :: "tree_fault \<Rightarrow> pwshpy_error" where
  "raised_error (Typed e) = e"
| "raised_error (System (Os_Errno n)) = make_error OSError ''errno''"
| "raised_error (System (Os_Raises c)) = make_error c ''raised''"

record process_result =
  pr_argv :: "json list"
  pr_exit_code :: int
  pr_stdout :: pystr
  pr_stderr :: pystr

text \<open>\<open>finally: tree.close()\<close>.\<close>

definition closing :: "'s tree_ops \<Rightarrow> 'a res \<Rightarrow> 's \<Rightarrow> 'a res \<times> 's" where
  "closing ops r s = (case op_close ops s of (Inl f, s') \<Rightarrow> (Inl (raised_error f), s') | (Inr _, s') \<Rightarrow> (r, s'))"

text \<open>\<open>now\<close> is \<open>time.monotonic()\<close>, \<open>captured\<close> what the reader threads have when the drain grace is over.\<close>

definition run_process_tree ::
    "'s tree_ops \<Rightarrow> ('s \<Rightarrow> int) \<Rightarrow> ('s \<Rightarrow> bytes \<times> bytes) \<Rightarrow> json list \<Rightarrow> int option \<Rightarrow> 's \<Rightarrow> process_result res \<times> 's" where
  "run_process_tree ops now captured argv timeout s =
     (let deadline = map_option (\<lambda>t. now s + t) timeout in
      case op_launch ops s of
        (Inl f, s1) \<Rightarrow> closing ops (Inl (launch_error f)) s1
      | (Inr _, s1) \<Rightarrow> (case op_wait ops deadline s1 of
          (Inl f, s2) \<Rightarrow> closing ops (Inl (raised_error f)) s2
        | (Inr finished, s2) \<Rightarrow>
            if \<not> finished then
              (case op_kill ops s2 of
                (Inl f, s3) \<Rightarrow> closing ops (Inl (raised_error f)) s3
              | (Inr _, s3) \<Rightarrow> closing ops (raise_error OperationTimeoutError ''timeout'') s3)
            else (case op_exit_code ops s2 of
                (Inl f, s3) \<Rightarrow> closing ops (Inl (raised_error f)) s3
              | (Inr code, s3) \<Rightarrow> closing ops (Inr \<lparr>pr_argv = argv, pr_exit_code = code,
                    pr_stdout = decode_output (fst (captured s3)), pr_stderr = decode_output (snd (captured s3))\<rparr>) s3)))"

section \<open>The helper's report\<close>

record helper_status =
  st_exit_code :: "int option"
  st_error :: "pystr option"
  st_message :: pystr
  st_errno :: "int option"
  st_killed :: bool

definition empty_status :: helper_status where
  "empty_status = \<lparr>st_exit_code = None, st_error = None, st_message = [], st_errno = None, st_killed = False\<rparr>"

text \<open>What pydantic takes for an int or a bool besides one is its own affair.\<close>

record validator =
  lax_int :: "json \<Rightarrow> int option"
  lax_bool :: "json \<Rightarrow> bool option"

definition optional_field :: "('a \<Rightarrow> 'b option) \<Rightarrow> ('a \<Rightarrow> bool) \<Rightarrow> 'a option \<Rightarrow> 'b option option" where
  "optional_field read null v = (case v of
      None \<Rightarrow> Some None
    | Some x \<Rightarrow> if null x then Some None else map_option Some (read x))"

fun json_text :: "json \<Rightarrow> pystr option" where
  "json_text (J_text s) = Some s"
| "json_text v = None"

definition validate_status :: "validator \<Rightarrow> json \<Rightarrow> helper_status option" where
  "validate_status v decoded = (case decoded of
      J_object fs \<Rightarrow>
        (case (optional_field (lax_int v) (\<lambda>x. x = J_null) (map_of fs (u ''exit_code'')),
               optional_field json_text (\<lambda>x. x = J_null) (map_of fs (u ''error'')),
               optional_field json_text (\<lambda>_. False) (map_of fs (u ''message'')),
               optional_field (lax_int v) (\<lambda>x. x = J_null) (map_of fs (u ''errno'')),
               optional_field (lax_bool v) (\<lambda>_. False) (map_of fs (u ''killed''))) of
           (Some code, Some err, Some msg, Some no, Some killed) \<Rightarrow>
             Some \<lparr>st_exit_code = code, st_error = err, st_message = (case msg of None \<Rightarrow> [] | Some m \<Rightarrow> m),
                   st_errno = no, st_killed = (case killed of None \<Rightarrow> False | Some b \<Rightarrow> b)\<rparr>
         | _ \<Rightarrow> None)
    | _ \<Rightarrow> None)"

text \<open>\<open>from_wire\<close>, of the JSON the bytes hold, if they are any.\<close>

definition from_wire :: "validator \<Rightarrow> json option \<Rightarrow> helper_status" where
  "from_wire v decoded = (case decoded of
      None \<Rightarrow> empty_status
    | Some j \<Rightarrow> (case validate_status v j of None \<Rightarrow> empty_status | Some st \<Rightarrow> st))"

definition status_error :: "helper_status \<Rightarrow> pwshpy_error" where
  "status_error st = (case st_errno st of
      None \<Rightarrow> make_error NativeCallError ''Failed to run''
    | Some n \<Rightarrow> posix_error ''Failed to run'' n)"

definition status_result :: "helper_status \<Rightarrow> int res" where
  "status_result st = (case st_exit_code st of
      Some code \<Rightarrow> Inr code
    | None \<Rightarrow> if st_error st \<noteq> None then Inl (status_error st)
              else raise_error NativeCallError ''ended without a status'')"

section \<open>The helper, seen from its parent\<close>

text \<open>
  \<open>next_pipe\<close> is \<open>os.pipe()\<close> given the descriptors that are open; \<open>spawn\<close> starts the interpreter on the helper with
  two descriptors passed on; \<open>send_request\<close> writes to a descriptor; \<open>read_status\<close> reads the JSON of a descriptor
  to its end; \<open>wait_helper\<close> is \<open>Popen.wait\<close> (\<open>False\<close>: the timeout expired); \<open>poll_helper\<close> whether it has ended;
  \<open>dumps\<close> is \<open>json.dumps\<close>, which refuses what is no JSON value.
\<close>

record 'w host_os =
  interpreter :: pystr
  next_pipe :: "int set \<Rightarrow> 'w \<Rightarrow> (os_fault + int \<times> int) \<times> 'w"
  spawn :: "int \<Rightarrow> int \<Rightarrow> 'w \<Rightarrow> (os_fault + int) \<times> 'w"
  dumps :: "json \<Rightarrow> error_class + pystr"
  send_request :: "int \<Rightarrow> pystr \<Rightarrow> 'w \<Rightarrow> os_fault option \<times> 'w"
  read_status :: "int \<Rightarrow> 'w \<Rightarrow> (os_fault + json option) \<times> 'w"
  wait_helper :: "int \<Rightarrow> int option \<Rightarrow> 'w \<Rightarrow> (os_fault + bool) \<times> 'w"
  poll_helper :: "int \<Rightarrow> 'w \<Rightarrow> bool \<times> 'w"
  terminate_helper :: "int \<Rightarrow> 'w \<Rightarrow> os_fault option \<times> 'w"
  kill_helper :: "int \<Rightarrow> 'w \<Rightarrow> os_fault option \<times> 'w"
  monotonic_clock :: "'w \<Rightarrow> int"
  pydantic :: validator

text \<open>A \<open>PosixReaperTree\<close> with the descriptors pwshpy has open.\<close>

record 'w reaper_tree =
  tree_popen :: "int option"
  status_fd :: int
  open_fds :: "int set"
  host :: 'w

type_synonym ('w, 'a) tree_op = "('w reaper_tree, 'a) op"

definition close_fd :: "int \<Rightarrow> 'w reaper_tree \<Rightarrow> 'w reaper_tree" where
  "close_fd fd t = t\<lparr>open_fds := open_fds t - {fd}\<rparr>"

definition open_pipe :: "'w host_os \<Rightarrow> ('w, int \<times> int) tree_op" where
  "open_pipe os t = (case next_pipe os (open_fds t) (host t) of
      (Inl f, w) \<Rightarrow> (Inl (System f), t\<lparr>host := w\<rparr>)
    | (Inr (r, wr), w) \<Rightarrow> (Inr (r, wr), t\<lparr>host := w, open_fds := open_fds t \<union> {r, wr}\<rparr>))"

text \<open>\<open>_interpreter()\<close> and the \<open>Popen\<close> inside the \<open>try\<close>: only an \<open>OSError\<close> closes the write end of the control pipe.\<close>

definition start_helper :: "'w host_os \<Rightarrow> int \<Rightarrow> int \<Rightarrow> int \<Rightarrow> ('w, unit) tree_op" where
  "start_helper os control_r control_w status_w t =
     (if interpreter os = [] then (Inl (Typed (make_error NativeCallError ''no interpreter'')), t)
      else case spawn os control_r status_w (host t) of
          (Inr helper, w) \<Rightarrow> (Inr (), t\<lparr>host := w, tree_popen := Some helper\<rparr>)
        | (Inl (Os_Errno n), w) \<Rightarrow>
            (Inl (Typed (posix_error ''Failed to start the wait_tree helper'' n)), close_fd control_w (t\<lparr>host := w\<rparr>))
        | (Inl (Os_Raises c), w) \<Rightarrow> (Inl (System (Os_Raises c)), t\<lparr>host := w\<rparr>))"

definition wire_request :: "request \<Rightarrow> json" where
  "wire_request q = J_object [(u ''argv'', J_array (req_argv q)), (u ''cwd'', req_cwd q),
     (u ''env'', case req_env q of None \<Rightarrow> J_null | Some vars \<Rightarrow> J_object vars)]"

definition hand_request :: "'w host_os \<Rightarrow> int \<Rightarrow> request \<Rightarrow> ('w, unit) tree_op" where
  "hand_request os control_w q t = (case dumps os (wire_request q) of
      Inl c \<Rightarrow> (Inl (Typed (make_error c ''request'')), t)
    | Inr payload \<Rightarrow> (case send_request os control_w payload (host t) of
          (None, w) \<Rightarrow> (Inr (), close_fd control_w (t\<lparr>host := w\<rparr>))
        | (Some f, w) \<Rightarrow>
            (Inl (Typed (except_os ''The wait_tree helper did not accept its request'' f)), close_fd control_w (t\<lparr>host := w\<rparr>))))"

definition launch :: "'w host_os \<Rightarrow> request \<Rightarrow> ('w, unit) tree_op" where
  "launch os q t = (case open_pipe os t of
      (Inl f, t1) \<Rightarrow> (Inl f, t1)
    | (Inr (control_r, control_w), t1) \<Rightarrow> (case open_pipe os t1 of
          (Inl f, t2) \<Rightarrow> (Inl f, t2)
        | (Inr (status_r, status_w), t2) \<Rightarrow>
            (case start_helper os control_r control_w status_w (t2\<lparr>status_fd := status_r\<rparr>) of
                (Inl f, t3) \<Rightarrow> (Inl f, close_fd status_w (close_fd control_r t3))
              | (Inr _, t3) \<Rightarrow> hand_request os control_w q (close_fd status_w (close_fd control_r t3)))))"

definition require_popen :: "'w reaper_tree \<Rightarrow> tree_fault + int" where
  "require_popen t = (case tree_popen t of
      None \<Rightarrow> Inl (Typed (make_error NativeCallError ''never launched'')) | Some helper \<Rightarrow> Inr helper)"

definition on_helper :: "(int \<Rightarrow> 'w \<Rightarrow> (os_fault + 'a) \<times> 'w) \<Rightarrow> ('w, 'a) tree_op" where
  "on_helper f t = (case require_popen t of
      Inl e \<Rightarrow> (Inl e, t)
    | Inr helper \<Rightarrow> (case f helper (host t) of
        (Inl fault, w) \<Rightarrow> (Inl (System fault), t\<lparr>host := w\<rparr>) | (Inr x, w) \<Rightarrow> (Inr x, t\<lparr>host := w\<rparr>)))"

definition wait_tree :: "'w host_os \<Rightarrow> int option \<Rightarrow> ('w, bool) tree_op" where
  "wait_tree os deadline t =
     on_helper (\<lambda>helper. wait_helper os helper (map_option (\<lambda>d. max (d - monotonic_clock os (host t)) 0) deadline)) t"

definition helper_kill_grace :: int where "helper_kill_grace = 15000000"

definition kill_tree :: "'w host_os \<Rightarrow> ('w, unit) tree_op" where
  "kill_tree os = on_helper (\<lambda>helper w. case terminate_helper os helper w of
      (Some f, w1) \<Rightarrow> (Inl f, w1)
    | (None, w1) \<Rightarrow> (case wait_helper os helper (Some helper_kill_grace) w1 of
        (Inl f, w2) \<Rightarrow> (Inl f, w2)
      | (Inr True, w2) \<Rightarrow> (Inr (), w2)
      | (Inr False, w2) \<Rightarrow> (case kill_helper os helper w2 of
          (Some f, w3) \<Rightarrow> (Inl f, w3)
        | (None, w3) \<Rightarrow> (case wait_helper os helper None w3 of
            (Inl f, w4) \<Rightarrow> (Inl f, w4) | (Inr _, w4) \<Rightarrow> (Inr (), w4)))))"

definition exit_code :: "'w host_os \<Rightarrow> ('w, int) tree_op" where
  "exit_code os t =
     (let fd = status_fd t in case read_status os fd (host t) of
        (Inl f, w) \<Rightarrow> (Inl (System f), close_fd fd (t\<lparr>host := w, status_fd := -1\<rparr>))
      | (Inr decoded, w) \<Rightarrow>
          (case status_result (from_wire (pydantic os) decoded) of Inl e \<Rightarrow> Inl (Typed e) | Inr code \<Rightarrow> Inr code,
           close_fd fd (t\<lparr>host := w, status_fd := -1\<rparr>)))"

definition release_status :: "'w reaper_tree \<Rightarrow> 'w reaper_tree" where
  "release_status t = (if status_fd t \<ge> 0 then (close_fd (status_fd t) t)\<lparr>status_fd := -1\<rparr> else t)"

definition close_tree :: "'w host_os \<Rightarrow> ('w, unit) tree_op" where
  "close_tree os t = (case tree_popen t of
      None \<Rightarrow> (Inr (), release_status t)
    | Some helper \<Rightarrow> (case poll_helper os helper (host t) of
        (True, w) \<Rightarrow> (Inr (), release_status (t\<lparr>host := w\<rparr>))
      | (False, w) \<Rightarrow> (case kill_tree os (t\<lparr>host := w\<rparr>) of
          (Inl f, t') \<Rightarrow> (Inl f, t') | (Inr _, t') \<Rightarrow> (Inr (), release_status t'))))"

definition posix_ops :: "'w host_os \<Rightarrow> request \<Rightarrow> 'w reaper_tree tree_ops" where
  "posix_ops os q = \<lparr>op_launch = launch os q, op_wait = wait_tree os, op_kill = kill_tree os,
     op_exit_code = exit_code os, op_close = close_tree os\<rparr>"

definition new_tree :: "int set \<Rightarrow> 'w \<Rightarrow> 'w reaper_tree" where
  "new_tree fds w = \<lparr>tree_popen = None, status_fd = -1, open_fds = fds, host = w\<rparr>"

end
