(* ===== verification/Tree_Runner.thy ===== *)
theory Tree_Runner
  imports Process_Tree
begin

text \<open>
  What \<open>run_process_tree\<close> owes to a strategy that keeps the \<open>ProcessTree\<close> protocol: the locale \<open>process_tree\<close>,
  its client lemma and the POSIX strategy's instance; and what the parent makes of the helper's report.
\<close>

section \<open>The protocol\<close>

text \<open>
  \<open>fresh\<close> holds of a strategy not launched yet, \<open>holds\<close> from the launch to the close, whatever the calls
  between them raise, and \<open>released\<close> after a close that returns.
\<close>

locale process_tree =
  fixes ops :: "'s tree_ops" and fresh holds released :: "'s \<Rightarrow> bool"
  assumes launch_holds: "fresh s \<Longrightarrow> holds (snd (op_launch ops s))"
    and wait_holds: "holds s \<Longrightarrow> holds (snd (op_wait ops d s))"
    and kill_holds: "holds s \<Longrightarrow> holds (snd (op_kill ops s))"
    and exit_code_holds: "holds s \<Longrightarrow> holds (snd (op_exit_code ops s))"
    and close_releases: "holds s \<Longrightarrow> op_close ops s = (Inr (), s') \<Longrightarrow> released s'"
begin

lemma closing_releases:
  assumes "holds s" "closing ops r s = (r', s')"
  shows "released s' \<or> (\<exists>f t. op_close ops t = (Inl f, s') \<and> r' = Inl (raised_error f))"
  using assms close_releases[OF assms(1)] by (force simp: closing_def split: prod.splits sum.splits)

lemma run_releases:
  assumes "fresh s" "run_process_tree ops now captured argv timeout s = (r, s')"
  shows "released s' \<or> (\<exists>f t. op_close ops t = (Inl f, s') \<and> r = Inl (raised_error f))"
proof -
  obtain l s1 where l: "op_launch ops s = (l, s1)" by fastforce
  obtain f s2 where f: "op_wait ops (map_option (\<lambda>t. now s + t) timeout) s1 = (f, s2)" by fastforce
  obtain k s3 where k: "op_kill ops s2 = (k, s3)" by fastforce
  obtain c s4 where c: "op_exit_code ops s2 = (c, s4)" by fastforce
  have "holds s1" using launch_holds[OF assms(1)] l by simp
  moreover from this have "holds s2" using wait_holds f by (metis snd_conv)
  moreover from this have "holds s3" "holds s4" using kill_holds exit_code_holds k c by (metis snd_conv)+
  ultimately have "\<exists>x t. holds t \<and> closing ops x t = (r, s')"
    using assms(2) l f k c by (auto simp: run_process_tree_def Let_def split: sum.splits if_splits)
  then show ?thesis using closing_releases by blast
qed

end

section \<open>The POSIX strategy\<close>

text \<open>
  What the strategy relies on: the descriptors of a pipe were not open before; a helper is \<open>gone\<close> once \<open>Popen\<close> says
  that it ended; a wait without a timeout does not expire.
\<close>

definition well_behaved :: "'w host_os \<Rightarrow> (int \<Rightarrow> 'w \<Rightarrow> bool) \<Rightarrow> bool" where
  "well_behaved os gone \<longleftrightarrow>
     (\<forall>fds w r wr w'. next_pipe os fds w = (Inr (r, wr), w') \<longrightarrow> r \<ge> 0 \<and> wr \<ge> 0 \<and> r \<noteq> wr \<and> r \<notin> fds \<and> wr \<notin> fds) \<and>
     (\<forall>helper w w'. poll_helper os helper w = (True, w') \<longrightarrow> gone helper w') \<and>
     (\<forall>helper limit w w'. wait_helper os helper limit w = (Inr True, w') \<longrightarrow> gone helper w') \<and>
     (\<forall>helper w. fst (wait_helper os helper None w) \<noteq> Inr False)"

text \<open>
  The descriptors a start leaves open for ever: both ends of the control pipe when the second pipe cannot be had, its
  write end when there is no interpreter, when \<open>Popen\<close> raises something else than an \<open>OSError\<close>, and when the
  request is no JSON. Every other start leaves none.
\<close>

definition launch_leak :: "'w host_os \<Rightarrow> request \<Rightarrow> int set \<Rightarrow> 'w \<Rightarrow> int set" where
  "launch_leak os q base w = (case next_pipe os base w of
      (Inl _, w1) \<Rightarrow> {}
    | (Inr (control_r, control_w), w1) \<Rightarrow> (case next_pipe os (base \<union> {control_r, control_w}) w1 of
        (Inl _, w2) \<Rightarrow> {control_r, control_w}
      | (Inr (status_r, status_w), w2) \<Rightarrow>
          if interpreter os = [] then {control_w}
          else (case fst (spawn os control_r status_w w2) of
              Inl (Os_Errno _) \<Rightarrow> {}
            | Inl (Os_Raises _) \<Rightarrow> {control_w}
            | Inr _ \<Rightarrow> (case dumps os (wire_request q) of Inl _ \<Rightarrow> {control_w} | Inr _ \<Rightarrow> {}))))"

definition fds_kept :: "int set \<Rightarrow> 'w reaper_tree \<Rightarrow> bool" where
  "fds_kept base t \<longleftrightarrow> -1 \<notin> base \<and> (if status_fd t \<ge> 0 then status_fd t \<notin> base \<and> open_fds t = insert (status_fd t) base
     else status_fd t = -1 \<and> open_fds t = base)"

definition tree_released :: "(int \<Rightarrow> 'w \<Rightarrow> bool) \<Rightarrow> int set \<Rightarrow> 'w reaper_tree \<Rightarrow> bool" where
  "tree_released gone base t \<longleftrightarrow> open_fds t = base \<and> (\<forall>helper. tree_popen t = Some helper \<longrightarrow> gone helper (host t))"

lemma on_helper_fds:
  "status_fd (snd (on_helper f t)) = status_fd t" "open_fds (snd (on_helper f t)) = open_fds t"
  "tree_popen (snd (on_helper f t)) = tree_popen t"
  by (auto simp: on_helper_def split: sum.splits prod.splits)

lemma start_helper_fds:
  assumes "start_helper os cr cw sw t = (r, t')"
  shows "status_fd t' = status_fd t" "open_fds t' = (if interpreter os \<noteq> [] \<and> (\<exists>n. fst (spawn os cr sw (host t)) = Inl (Os_Errno n))
      then open_fds t - {cw} else open_fds t)"
    "r = Inr () \<longleftrightarrow> interpreter os \<noteq> [] \<and> (\<exists>helper. fst (spawn os cr sw (host t)) = Inr helper)"
  using assms by (auto simp: start_helper_def close_fd_def split: sum.splits prod.splits os_fault.splits if_splits)

lemma hand_request_fds:
  "status_fd (snd (hand_request os cw q t)) = status_fd t"
  "open_fds (snd (hand_request os cw q t)) = (case dumps os (wire_request q) of Inl _ \<Rightarrow> open_fds t | Inr _ \<Rightarrow> open_fds t - {cw})"
  by (auto simp: hand_request_def close_fd_def split: prod.splits option.splits sum.splits)

lemma launch_fds:
  assumes ok: "well_behaved os gone" and t: "open_fds t = base" "status_fd t = -1" "-1 \<notin> base" "host t = w"
  shows "fds_kept (base \<union> launch_leak os q base w) (snd (launch os q t))"
proof -
  have fresh: "r \<ge> 0 \<and> wr \<ge> 0 \<and> r \<noteq> wr \<and> r \<notin> fds \<and> wr \<notin> fds" if "next_pipe os fds w = (Inr (r, wr), w')" for fds w r wr w'
    using ok that unfolding well_behaved_def by blast
  obtain p w1 where p: "next_pipe os base w = (p, w1)" by fastforce
  show ?thesis
  proof (cases p)
    case (Inl f)
    with p t have "launch os q t = (Inl (System f), t\<lparr>host := w1\<rparr>)" by (simp add: launch_def open_pipe_def)
    moreover from p Inl have "launch_leak os q base w = {}" by (simp add: launch_leak_def)
    ultimately show ?thesis using t by (simp add: fds_kept_def)
  next
    case (Inr ends)
    obtain cr cw where ends: "ends = (cr, cw)" by fastforce
    from p Inr ends have p: "next_pipe os base w = (Inr (cr, cw), w1)" by simp
    from fresh[OF this] have one: "cr \<ge> 0" "cw \<ge> 0" "cr \<noteq> cw" "cr \<notin> base" "cw \<notin> base" by auto
    obtain p2 w2 where pp: "next_pipe os (base \<union> {cr, cw}) w1 = (p2, w2)" by fastforce
    show ?thesis
    proof (cases p2)
      case (Inl f)
      from p pp Inl t have "launch os q t = (Inl (System f), t\<lparr>host := w2, open_fds := base \<union> {cr, cw}\<rparr>)"
        by (simp add: launch_def open_pipe_def)
      moreover from p pp Inl have "launch_leak os q base w = {cr, cw}" by (simp add: launch_leak_def)
      ultimately show ?thesis using t one by (simp add: fds_kept_def)
    next
      case (Inr ends2)
      obtain sr sw where "ends2 = (sr, sw)" by fastforce
      with pp Inr have pp: "next_pipe os (base \<union> {cr, cw}) w1 = (Inr (sr, sw), w2)" by simp
      from fresh[OF this] have two: "sr \<ge> 0" "sw \<ge> 0" "sr \<noteq> sw" "sr \<notin> base" "sr \<noteq> cr" "sr \<noteq> cw" "sw \<notin> base" "sw \<noteq> cr" "sw \<noteq> cw"
        by auto
      let ?all = "base \<union> {cr, cw} \<union> {sr, sw}"
      let ?t = "t\<lparr>host := w2, open_fds := ?all, status_fd := sr\<rparr>"
      obtain r t' where s: "start_helper os cr cw sw ?t = (r, t')" by fastforce
      have launched: "launch os q t = (case r of Inl f \<Rightarrow> (Inl f, close_fd sw (close_fd cr t'))
          | Inr _ \<Rightarrow> hand_request os cw q (close_fd sw (close_fd cr t')))"
        using p pp s t by (simp add: launch_def open_pipe_def)
      have leak: "launch_leak os q base w = (if interpreter os = [] then {cw} else (case fst (spawn os cr sw w2) of
          Inl (Os_Errno _) \<Rightarrow> {} | Inl (Os_Raises _) \<Rightarrow> {cw} | Inr _ \<Rightarrow> (case dumps os (wire_request q) of Inl _ \<Rightarrow> {cw} | Inr _ \<Rightarrow> {})))"
        using p pp by (simp add: launch_leak_def)
      have sets: "?all - {cr} - {sw} = insert sr (base \<union> {cw})" "?all - {cw} - {cr} - {sw} = insert sr base"
        "?all - {cr} - {sw} - {cw} = insert sr base" using one two by auto
      note fds = start_helper_fds[OF s]
      have final: "open_fds (snd (launch os q t)) = insert sr (base \<union> launch_leak os q base w) \<and> status_fd (snd (launch os q t)) = sr"
      proof (cases r)
        case (Inr x)
        then obtain h where h: "interpreter os \<noteq> []" "fst (spawn os cr sw w2) = Inr h" using fds(3) by auto
        then have "open_fds t' = ?all" using fds(2) by simp
        with Inr launched h leak sets fds(1) show ?thesis
          by (cases "dumps os (wire_request q)") (simp_all add: hand_request_fds close_fd_def)
      next
        case (Inl f)
        with fds(3) have "interpreter os = [] \<or> (\<exists>e. fst (spawn os cr sw w2) = Inl e)"
          by (cases "fst (spawn os cr sw w2)") auto
        then have "open_fds t' - {cr} - {sw} = insert sr (base \<union> launch_leak os q base w)"
        proof
          assume "interpreter os = []"
          with fds(2) leak sets show ?thesis by simp
        next
          assume "\<exists>e. fst (spawn os cr sw w2) = Inl e"
          then obtain e where "fst (spawn os cr sw w2) = Inl e" by blast
          with fds(2) leak sets show ?thesis by (cases e; cases "interpreter os = []") simp_all
        qed
        with Inl launched fds(1) show ?thesis by (simp add: close_fd_def)
      qed
      have "launch_leak os q base w \<subseteq> {cw}"
        unfolding leak by (simp split: sum.split os_fault.split)
      with final one two t(3) show ?thesis by (auto simp: fds_kept_def)
    qed
  qed
qed

lemma exit_code_fds: "fds_kept base t \<Longrightarrow> fds_kept base (snd (exit_code os t))"
  by (auto simp: exit_code_def fds_kept_def close_fd_def Let_def split: prod.splits sum.splits if_splits)

lemma on_helper_kept: "fds_kept base t \<Longrightarrow> fds_kept base (snd (on_helper f t))"
  by (simp add: fds_kept_def on_helper_fds)

lemma kill_tree_kept: "fds_kept base t \<Longrightarrow> fds_kept base (snd (kill_tree os t))"
  by (simp add: kill_tree_def on_helper_kept)

lemma kill_tree_gone:
  assumes "well_behaved os gone" "kill_tree os t = (Inr (), t')"
  shows "\<exists>helper. tree_popen t' = Some helper \<and> gone helper (host t')"
proof -
  have waited: "gone helper w'" if "wait_helper os helper limit w = (Inr True, w')" for helper limit w w'
    using assms(1) that unfolding well_behaved_def by blast
  have "gone helper w'" if "wait_helper os helper None w = (Inr x, w')" for helper w w' x
  proof -
    have "fst (wait_helper os helper None w) \<noteq> Inr False" using assms(1) unfolding well_behaved_def by blast
    with that waited show ?thesis by (cases x) auto
  qed
  with waited assms(2) show ?thesis
    by (auto simp: kill_tree_def on_helper_def require_popen_def split: option.splits prod.splits sum.splits bool.splits)
qed

lemma release_status_other: "tree_popen (release_status t) = tree_popen t" "host (release_status t) = host t"
  by (simp_all add: release_status_def close_fd_def)

lemma close_tree_releases:
  assumes ok: "well_behaved os gone" and kept: "fds_kept base t" and close: "close_tree os t = (Inr (), t')"
  shows "tree_released gone base t'"
proof -
  have released: "open_fds (release_status s) = base" if "fds_kept base s" for s
    using that by (auto simp: release_status_def close_fd_def fds_kept_def split: if_splits)
  show ?thesis
  proof (cases "tree_popen t")
    case None
    with close kept released show ?thesis by (auto simp: close_tree_def tree_released_def release_status_other)
  next
    case (Some helper)
    obtain b w where p: "poll_helper os helper (host t) = (b, w)" by fastforce
    have kept': "fds_kept base (t\<lparr>host := w\<rparr>)" using kept by (simp add: fds_kept_def)
    show ?thesis
    proof (cases b)
      case True
      with p have "poll_helper os helper (host t) = (True, w)" by simp
      with ok have "gone helper w" unfolding well_behaved_def by blast
      with True close Some p released[OF kept'] show ?thesis
        by (auto simp: close_tree_def tree_released_def release_status_other)
    next
      case False
      then obtain t1 where k: "kill_tree os (t\<lparr>host := w\<rparr>) = (Inr (), t1)" and t': "t' = release_status t1"
        using close Some p by (auto simp: close_tree_def split: prod.splits sum.splits)
      have "fds_kept base t1" using kill_tree_kept[OF kept', of os] k by simp
      then have "open_fds t' = base" using released t' by simp
      moreover have "\<exists>helper. tree_popen t' = Some helper \<and> gone helper (host t')"
        using kill_tree_gone[OF ok k] t' by (simp add: release_status_other)
      ultimately show ?thesis by (auto simp: tree_released_def)
    qed
  qed
qed

lemma close_tree_fails:
  assumes "close_tree os t = (Inl f, t')"
  shows "\<exists>fault s. f = System fault \<and> kill_tree os s = (Inl f, t')"
proof -
  obtain helper w where kill: "tree_popen t = Some helper" "kill_tree os (t\<lparr>host := w\<rparr>) = (Inl f, t')"
    using assms by (auto simp: close_tree_def split: option.splits prod.splits bool.splits sum.splits)
  then have "\<exists>fault. f = System fault"
    by (auto simp: kill_tree_def on_helper_def require_popen_def split: prod.splits sum.splits)
  with kill show ?thesis by blast
qed

interpretation posix_tree: process_tree "posix_ops os q"
  "\<lambda>t. well_behaved os gone \<and> open_fds t = base \<and> status_fd t = -1 \<and> -1 \<notin> base \<and> host t = w"
  "\<lambda>t. well_behaved os gone \<and> fds_kept (base \<union> launch_leak os q base w) t" "tree_released gone (base \<union> launch_leak os q base w)"
  for os :: "'w host_os" and q gone base w
proof
  show "well_behaved os gone \<and> fds_kept (base \<union> launch_leak os q base w) (snd (op_launch (posix_ops os q) s))"
    if "well_behaved os gone \<and> open_fds s = base \<and> status_fd s = -1 \<and> -1 \<notin> base \<and> host s = w" for s
    using launch_fds[of os gone s base w q] that by (simp add: posix_ops_def)
qed (auto simp: posix_ops_def wait_tree_def kill_tree_def on_helper_kept exit_code_fds intro: close_tree_releases)

section \<open>The report, read back\<close>

lemma from_wire_report:
  assumes "\<And>n. lax_int v (J_int n) = Some n" "lax_bool v (J_bool True) = Some True"
  shows "from_wire v (Some (wire_report r)) = (case r of
      Exited n \<Rightarrow> empty_status\<lparr>st_exit_code := Some n\<rparr>
    | Failed name message errno \<Rightarrow> empty_status\<lparr>st_error := Some name, st_message := message, st_errno := errno\<rparr>
    | Killed \<Rightarrow> empty_status\<lparr>st_killed := True\<rparr>)"
  using assms by (cases r) (simp_all add: from_wire_def validate_status_def empty_status_def optional_field_def u_def split: option.split)

lemma request_read_back:
  "decode_request dict_of (wire_request q) = Inr q"
  by (cases "req_env q") (simp_all add: wire_request_def decode_request_def json_tuple_def and_then_def u_def)

end
