(* ===== verification/Tree_Properties.thy ===== *)
theory Tree_Properties
  imports Tree_Facts Tree_Runner
begin

text \<open>
  The properties of the process-tree component, with a sample system their witnesses run on: a kernel whose
  helper 1 starts the program as process 7, which ends with code 3, and a host whose helper ends when waited for.
\<close>

section \<open>A sample system\<close>

text \<open>The stage of the run (0 nothing started, 1 process 7 runs, 2 it was reaped), whether the helper is a subreaper, and
  the clock.\<close>

type_synonym sample_world = "nat \<times> bool \<times> int"

definition sample_reaper :: "sample_world reaper_os" where
  "sample_reaper = \<lparr>on_linux = True, helper_pid = 1, set_subreaper = \<lambda>(n, b, t). (Done None, (n, True, t)),
     popen = \<lambda>_ _ (n, b, t). (Done 7, (1, b, t)),
     waitpid_any = \<lambda>_ (n, b, t). if n = 1 then (Done (Reaped 7 768), (2, b, t)) else (Done No_Children, (n, b, t)),
     list_proc = \<lambda>w. (Done [(u ''7'', Some (u ''7 (a) S 1 7''))], w),
     kill_one = \<lambda>_ w. (Done (), w), clock = \<lambda>(n, b, t). t, pause = \<lambda>d (n, b, t). (Done (), (n, b, t + d)),
     wait_child = \<lambda>_ w. (Done 3, w), probe_members = \<lambda>_ w. (Done Group_Gone, w),
     kill_members = \<lambda>_ w. (Done (), w), kill_child = \<lambda>_ w. (Done (), w)\<rparr>"

fun sample_kernel :: "sample_world \<Rightarrow> kernel" where
  "sample_kernel (n, b, t) = (if n = 1 then \<lparr>procs = Map.empty(7 \<mapsto> \<lparr>parent_pid = 1, ended = None\<rparr>), offspring = {7}, adopts = b\<rparr>
     else \<lparr>procs = Map.empty, offspring = {}, adopts = b\<rparr>)"

lemma sample_exit:
  "kernel_step 1 (sample_kernel (1, b, t)) \<lparr>procs = adopted (sample_kernel (1, b, t)) 7 768 1, offspring = {7}, adopts = b\<rparr>"
  using kernel_step.exit[of "sample_kernel (1, b, t)" 7 1 1 1 768] by simp

lemma sample_obeys: "kernel_obeys sample_reaper sample_kernel"
proof -
  have "waits 1 nohang (sample_kernel w) (fst (waitpid_any sample_reaper nohang w)) (sample_kernel (snd (waitpid_any sample_reaper nohang w)))"
    for nohang w
  proof (cases "fst w = 1")
    case True
    then obtain b t where w: "w = (1, b, t)" by (cases w) simp
    show ?thesis unfolding waits_def w
      by (intro exI conjI, unfold moves_def, rule r_into_rtranclp, rule sample_exit)
        (auto simp: sample_reaper_def adopted_def reaped_def child_ended_def)
  next
    case False
    then show ?thesis by (cases w) (auto simp: waits_def sample_reaper_def moves_def childless_def)
  qed
  moreover have "\<exists>m. moves 1 (sample_kernel w) m \<and> sample_kernel w' = m\<lparr>adopts := True\<rparr>"
    if "set_subreaper sample_reaper w = (Done None, w')" for w w'
    using that by (cases w; intro exI[of _ "sample_kernel w"]) (auto simp: sample_reaper_def moves_def)
  ultimately show ?thesis by (auto simp: kernel_obeys_def sample_reaper_def moves_def split: prod.splits)
qed

lemma sample_started: "program_started sample_reaper sample_kernel"
  unfolding program_started_def
proof (intro allI impI)
  fix request session w child w' assume run: "popen sample_reaper request session w = (Done child, w')"
  obtain n b t where w: "w = (n, b, t)" by (cases w)
  with run show "\<exists>m. offspring m = {child} \<and> procs m child = Some \<lparr>parent_pid = helper_pid sample_reaper, ended = None\<rparr> \<and>
      adopts m = adopts (sample_kernel w) \<and> moves (helper_pid sample_reaper) m (sample_kernel w')"
    by (intro exI[of _ "sample_kernel w'"]) (auto simp: sample_reaper_def moves_def)
qed

definition plain_validator :: validator where
  "plain_validator = \<lparr>lax_int = \<lambda>v. case v of J_int n \<Rightarrow> Some n | _ \<Rightarrow> None, lax_bool = \<lambda>v. case v of J_bool b \<Rightarrow> Some b | _ \<Rightarrow> None\<rparr>"

text \<open>The state is whether the helper has ended.\<close>

definition sample_host :: "bool host_os" where
  "sample_host = \<lparr>interpreter = u ''python3'',
     next_pipe = \<lambda>fds w. if finite fds then (Inr (Max (insert 2 fds) + 1, Max (insert 2 fds) + 2), w) else (Inl (Os_Errno 24), w),
     spawn = \<lambda>_ _ w. (Inr 40, w), dumps = \<lambda>_. Inr [], send_request = \<lambda>_ _ w. (None, w),
     read_status = \<lambda>_ w. (Inr (Some (wire_report (Exited 3))), w),
     wait_helper = \<lambda>_ limit w. (Inr (limit = None \<or> w), limit = None \<or> w), poll_helper = \<lambda>_ w. (w, w),
     terminate_helper = \<lambda>_ w. (None, w), kill_helper = \<lambda>_ w. (None, w), monotonic_clock = \<lambda>_. 0, pydantic = plain_validator\<rparr>"

definition sample_call :: request where
  "sample_call = \<lparr>req_argv = [J_text (u ''ls'')], req_cwd = J_null, req_env = None\<rparr>"

lemma sample_well_behaved: "well_behaved sample_host (\<lambda>_ w. w)"
proof -
  have fresh: "Max (insert 2 fds) + 1 \<notin> fds" "Max (insert 2 fds) + 2 \<notin> fds" "0 \<le> Max (insert (2::int) fds)" if "finite fds" for fds
  proof -
    have "Max (insert 2 fds) \<ge> x" if "x \<in> insert 2 fds" for x using that \<open>finite fds\<close> by (intro Max_ge) auto
    from this[of 2] this[of "Max (insert 2 fds) + 1"] this[of "Max (insert 2 fds) + 2"]
    show "Max (insert 2 fds) + 1 \<notin> fds" "Max (insert 2 fds) + 2 \<notin> fds" "0 \<le> Max (insert (2::int) fds)" by auto
  qed
  show ?thesis unfolding well_behaved_def sample_host_def
    using fresh by (auto simp: u_def)
qed

section \<open>Properties\<close>

text \<open>C12: On Linux, when the parent's \<open>exit_code()\<close> returns a code, the helper reported exactly that code, it is
  the status of a reaped process with the program's pid, and at that moment no process the program started - directly
  or not, orphaned or not - exists any more, whatever the processes did between the helper's calls. The kernel gives
  orphans to the helper only once it is a child subreaper, which is what \<open>_become_subreaper\<close> has to see to.\<close>

theorem exit_code_after_the_tree:
  assumes "kernel_obeys reaper view" "program_started reaper view" "on_linux reaper"
    and "\<And>n. lax_int (pydantic os) (J_int n) = Some n" "lax_bool (pydantic os) (J_bool True) = Some True"
    and "main_report reaper read_request w = Some (r, w')"
    and "read_status os (status_fd t) (host t) = (Inr (Some (wire_report r)), h)"
    and "exit_code os t = (Inr code, t')"
  shows "r = Exited code \<and> offspring (view w') = {} \<and>
    (\<exists>q child w1 w2 rs s. popen reaper q False w1 = (Done child, w2) \<and> wait_run reaper w2 rs (Done No_Children) w' \<and>
       (child, s) \<in> set rs \<and> code = exit_code_of s)"
proof -
  have "status_result (from_wire (pydantic os) (Some (wire_report r))) = Inr code"
    using assms(7,8) by (auto simp: exit_code_def Let_def split: sum.splits)
  then have r: "r = Exited code"
    unfolding from_wire_report[OF assms(4,5)]
    by (cases r) (auto simp: status_result_def empty_status_def)
  then obtain q w1 where "run_request reaper q w1 = Some (Done (Exited code), w')"
    using main_report_exited[of reaper read_request w code w'] assms(6) by blast
  from run_request_exited[OF assms(1-3) this] r show ?thesis by blast
qed

theorem exit_code_after_the_tree_witness:
  "Exited 3 = Exited 3 \<and> offspring (sample_kernel (2, True, 0)) = {} \<and>
    (\<exists>q child w1 w2 rs s. popen sample_reaper q False w1 = (Done child, w2) \<and>
       wait_run sample_reaper w2 rs (Done No_Children) (2, True, 0) \<and> (child, s) \<in> set rs \<and> 3 = exit_code_of s)"
proof (rule exit_code_after_the_tree[OF sample_obeys sample_started])
  show "on_linux sample_reaper" by (simp add: sample_reaper_def)
  show "main_report sample_reaper (\<lambda>w. (Done sample_call, w)) (0, False, 0) = Some (Exited 3, (2, True, 0))"
    by (simp add: main_report_def run_request_def become_subreaper_def call_then_def sample_reaper_def
        wait_tree_linux.simps exit_code_of_def)
  show "read_status sample_host (status_fd (new_tree {} True)) (host (new_tree {} True)) = (Inr (Some (wire_report (Exited 3))), True)"
    by (simp add: sample_host_def new_tree_def)
  show "exit_code sample_host (new_tree {} True) = (Inr 3, close_fd (-1) (new_tree {} True))"
    by (simp add: exit_code_def sample_host_def new_tree_def plain_validator_def from_wire_def validate_status_def
        optional_field_def status_result_def u_def)
qed (simp_all add: sample_host_def plain_validator_def)










text \<open>C15: \<open>descendants\<close> finds exactly the processes from which a chain of parents leads to the root. The root itself is
  among them exactly when its own chain comes back to it, which the docstring excludes; no kernel's table has
  such a chain.\<close>

theorem descendants_closure:
  "set (descendants root ps) = {c. (\<lambda>p pp. (p, pp) \<in> set ps)\<^sup>+\<^sup>+ c root} \<and>
   (root \<in> set (descendants root ps) \<longleftrightarrow> (\<lambda>p pp. (p, pp) \<in> set ps)\<^sup>+\<^sup>+ root root)"
proof -
  have "parent_edge ps = (\<lambda>p pp. (p, pp) \<in> set ps)" by (intro ext) (simp add: parent_edge_def)
  then show ?thesis using descendants_set[of root ps] by simp
qed

lemma own_parent_is_its_own_descendant: "1 \<in> set (descendants 1 [(1, 1)])"
  by (simp add: descendants_set parent_edge_def tranclp.r_into_trancl)

text \<open>\<open>parse_ppid\<close> reads the parent's pid from the line \<open>/proc\<close> shows for a process, whatever its command name
  contains: blanks, parentheses, undecodable bytes.\<close>

theorem parse_ppid_reads_stat:
  assumes "state \<noteq> []" "\<forall>c \<in> set state. \<not> py_isspace c" "close_paren \<notin> set state" "close_paren \<notin> set rest"
    and "length (decimal (nat \<bar>ppid\<bar>)) \<le> max_str_digits"
  shows "parse_ppid (int_text pid @ u '' ('' @ comm @ u '') '' @ state @ [32] @ int_text ppid @ [32] @ rest) = Inr ppid"
proof -
  have digit: "\<not> py_isspace c" "c \<noteq> close_paren" if "is_digit c" for c
    using that by (auto simp: py_isspace_def is_digit_def close_paren_def)
  have minus: "u ''-'' = [45]" "\<not> py_isspace 45" "close_paren \<noteq> 45" by (simp_all add: u_def py_isspace_def close_paren_def)
  have number: "\<forall>c \<in> set (int_text ppid). \<not> py_isspace c" "close_paren \<notin> set (int_text ppid)" "int_text ppid \<noteq> []"
    using digit decimal_digits decimal_not_Nil minus by (auto simp: int_text_def)
  have blank: "py_isspace 32" "close_paren \<noteq> 32" by (simp_all add: py_isspace_def close_paren_def)
  have "words (state @ 32 # int_text ppid @ 32 # rest) = state # int_text ppid # words rest"
    by (simp only: words_word[OF assms(1,2) blank(1)] words_word[OF number(3,1) blank(1)])
  moreover have "close_paren \<notin> set (state @ 32 # int_text ppid @ 32 # rest)" using assms(3,4) number(2) blank(2) by simp
  moreover have "int_text pid @ u '' ('' @ comm @ u '') '' @ state @ [32] @ int_text ppid @ [32] @ rest =
      (int_text pid @ u '' ('' @ comm) @ close_paren # 32 # state @ 32 # int_text ppid @ 32 # rest"
    by (simp add: u_def close_paren_def)
  ultimately show ?thesis
    using ppid_field[of "state @ 32 # int_text ppid @ 32 # rest" "int_text pid @ u '' ('' @ comm"] int_of_int_text[OF assms(5)]
    by simp
qed

theorem parse_ppid_reads_stat_witness:
  "parse_ppid (int_text 42 @ u '' ('' @ u ''a) b'' @ u '') '' @ u ''S'' @ [32] @ int_text 7 @ [32] @ u ''42 42 0 -1'') = Inr 7"
  by (rule parse_ppid_reads_stat)
    (simp_all add: u_def py_isspace_def close_paren_def decimal.simps max_str_digits_def)

text \<open>C13: However \<open>run_process_tree\<close> ends on POSIX - a failed start, a result, a timeout, an interrupted wait - no helper
  runs and of its two pipes exactly the ends in \<open>launch_leak\<close> are open: none, but for the control pipe of a start
  that failed without an \<open>OSError\<close> from \<open>Popen\<close> or had no second pipe. The one exception is a cleanup whose own kill
  raised. (\<open>Popen\<close>'s pipes for stdin, stdout and stderr are not among these descriptors.)\<close>

theorem run_leaves_nothing:
  assumes "well_behaved os gone" "-1 \<notin> fds"
    and "run_process_tree (posix_ops os q) now captured argv timeout (new_tree fds w) = (r, t')"
  shows "tree_released gone (fds \<union> launch_leak os q fds w) t' \<or>
    (\<exists>fault t. kill_tree os t = (Inl (System fault), t') \<and> r = Inl (raised_error (System fault)))"
proof -
  have "tree_released gone (fds \<union> launch_leak os q fds w) t' \<or> (\<exists>f t. op_close (posix_ops os q) t = (Inl f, t') \<and> r = Inl (raised_error f))"
    by (rule posix_tree.run_releases[OF _ assms(3)]) (simp add: assms(1,2) new_tree_def)
  moreover have "op_close (posix_ops os q) = close_tree os" by (simp add: posix_ops_def)
  ultimately show ?thesis using close_tree_fails by metis
qed

theorem run_leaves_nothing_witness:
  "tree_released (\<lambda>_ w. w) {0, 1, 2}
     (snd (run_process_tree (posix_ops sample_host sample_call) (\<lambda>_. 0) (\<lambda>_. ([], [])) [] (Some 5) (new_tree {0, 1, 2} False)))"
proof -
  have "terminate_helper sample_host h w = (None, w)" "kill_helper sample_host h w = (None, w)"
    "wait_helper sample_host h l w = (Inr (l = None \<or> w), l = None \<or> w)" for h l w by (simp_all add: sample_host_def)
  then have "kill_tree sample_host t \<noteq> (Inl (System f), t')" for f t t'
    by (auto simp: kill_tree_def on_helper_def require_popen_def split: option.splits bool.splits)
  moreover have "launch_leak sample_host sample_call {0, 1, 2} False = {}"
    by (simp add: launch_leak_def sample_host_def split: prod.split)
  ultimately show ?thesis
    using run_leaves_nothing[OF sample_well_behaved, of "{0, 1, 2}" sample_call "\<lambda>_. 0" "\<lambda>_. ([], [])" "[]" "Some 5" False, OF _ prod.collapse[symmetric]]
    by auto
qed

text \<open>The wire contract: the helper reads back the request the parent wrote, and the parent turns a report into the
  program's exit code, the typed error of the errno, or a \<open>NativeCallError\<close> when there is none or the tree was killed.\<close>

theorem wire_contract:
  assumes "\<And>n. lax_int v (J_int n) = Some n" "lax_bool v (J_bool True) = Some True"
  shows "decode_request dict_of (wire_request q) = Inr q \<and>
    status_result (from_wire v (Some (wire_report r))) = (case r of
      Exited n \<Rightarrow> Inr n
    | Failed name message (Some n) \<Rightarrow> Inl (posix_error ''Failed to run'' n)
    | Failed name message None \<Rightarrow> Inl (make_error NativeCallError ''Failed to run'')
    | Killed \<Rightarrow> Inl (make_error NativeCallError ''ended without a status''))"
  using request_read_back
  by (simp_all add: from_wire_report[OF assms] status_result_def empty_status_def status_error_def
      split: report.split option.split)

theorem wire_contract_witness:
  "status_result (from_wire plain_validator (Some (wire_report (Failed (u ''FileNotFoundError'') (u ''ls'') (Some 2))))) =
    Inl (posix_error ''Failed to run'' 2)"
  using wire_contract[of plain_validator _ _ "Failed (u ''FileNotFoundError'') (u ''ls'') (Some 2)"]
  by (simp add: plain_validator_def)

end
