(* ===== verification/Record_Keys.thy ===== *)
theory Record_Keys
  imports Surrogates Py_Errors "HOL-Library.AList"
begin

text \<open>
  The part of \<open>domain/records.py\<close> that dumps a record whose mapping keys hold lone surrogates: which fields
  can hold a mapping, the search for such keys, the placeholders that stand in for them while pydantic dumps,
  and the repair of \<open>to_dict\<close>. A Python value is a \<open>py_value\<close>; a dict is the list of its items in order, and
  \<open>py_dict\<close> inserts items the way a dict does. pydantic's \<open>model_dump\<close> is a parameter.
\<close>

section \<open>Values\<close>

datatype 'x py_value =
    Py_Text pystr
  | Py_Model string "(pystr \<times> 'x py_value) list"
  | Py_Dict "('x py_key \<times> 'x py_value) list"
  | Py_List "'x py_value list"
  | Py_Tuple "'x py_value list"
  | Py_Leaf 'x

definition py_dict :: "('k \<times> 'v) list \<Rightarrow> ('k \<times> 'v) list" where
  "py_dict items = foldl (\<lambda>d (k, v). AList.update k v d) [] items"

section \<open>Annotations\<close>

text \<open>
  A field's annotation as \<open>_can_hold_mapping\<close> reads it. \<open>Ann_Generic is_mapping args\<close> has an origin that is a
  mapping or not; \<open>Ann_Class holds_items\<close> is a class that is no model, a collection other than text or not;
  \<open>Ann_Unknown\<close> is no class (a type variable).
\<close>

datatype annotation =
    Ann_Any
  | Ann_None
  | Ann_Literal
  | Ann_Annotated annotation
  | Ann_Generic bool "annotation list"
  | Ann_Unknown
  | Ann_Model string
  | Ann_Class bool

type_synonym models = "(string \<times> (pystr \<times> annotation) list) list"

definition model_fields :: "models \<Rightarrow> string \<Rightarrow> (pystr \<times> annotation) list" where
  "model_fields ms c = (case map_of ms c of None \<Rightarrow> [] | Some fs \<Rightarrow> fs)"

lemma annotation_in_list [termination_simp]: "a \<in> set xs \<Longrightarrow> size a < Suc (size_list size xs)"
  by (induction xs) auto

function can_hold_mapping :: "models \<Rightarrow> string set \<Rightarrow> annotation \<Rightarrow> bool" where
  "can_hold_mapping ms seen Ann_Any = True"
| "can_hold_mapping ms seen Ann_None = False"
| "can_hold_mapping ms seen Ann_Literal = False"
| "can_hold_mapping ms seen (Ann_Annotated a) = can_hold_mapping ms seen a"
| "can_hold_mapping ms seen (Ann_Generic is_mapping args) =
     (is_mapping \<or> (\<exists>a \<in> set args. can_hold_mapping ms seen a))"
| "can_hold_mapping ms seen Ann_Unknown = True"
| "can_hold_mapping ms seen (Ann_Model c) =
     (if c \<in> seen then False else \<exists>a \<in> set (map snd (model_fields ms c)). can_hold_mapping ms (insert c seen) a)"
| "can_hold_mapping ms seen (Ann_Class holds_items) = holds_items"
  by pat_completeness auto

termination can_hold_mapping
proof (relation "inv_image (less_than <*lex*> less_than)
    (\<lambda>(ms, seen, a). (card (fst ` set ms - seen), size a))", goal_cases)
  case (4 ms seen c a)
  then obtain fs where "map_of ms c = Some fs" by (cases "map_of ms c") (auto simp: model_fields_def)
  then have "c \<in> fst ` set ms" by (force dest: map_of_SomeD)
  with 4 have "fst ` set ms - insert c seen \<subset> fst ` set ms - seen" by auto
  then have "card (fst ` set ms - insert c seen) < card (fst ` set ms - seen)"
    by (intro psubset_card_mono) auto
  then show ?case by simp
qed (auto simp: annotation_in_list less_Suc_eq_le[symmetric] intro: annotation_in_list)

definition mapping_fields :: "models \<Rightarrow> string \<Rightarrow> pystr list" where
  "mapping_fields ms c = map fst (filter (\<lambda>(name, a). can_hold_mapping ms {} a) (model_fields ms c))"

section \<open>Searching the keys\<close>

text \<open>\<open>_children\<close> of a record are its fields that can hold a mapping.\<close>

lemma py_value_in_items [termination_simp]:
  "(k, v) \<in> set items \<Longrightarrow> size v < Suc (size_list (size_prod f size) items)"
  "v \<in> set vs \<Longrightarrow> size v < Suc (size_list size vs)"
proof -
  show "size v < Suc (size_list (size_prod f size) items)" if "(k, v) \<in> set items"
    using that by (induction items) auto
  show "size v < Suc (size_list size vs)" if "v \<in> set vs"
    using that by (induction vs) auto
qed

fun holds_surrogate_key :: "models \<Rightarrow> 'x py_value \<Rightarrow> bool" where
  "holds_surrogate_key ms (Py_Model c fs) \<longleftrightarrow> (\<exists>(name, v) \<in> set fs. name \<in> set (mapping_fields ms c) \<and> holds_surrogate_key ms v)"
| "holds_surrogate_key ms (Py_Dict items) \<longleftrightarrow> (\<exists>(k, v) \<in> set items. has_surrogate k \<or> holds_surrogate_key ms v)"
| "holds_surrogate_key ms (Py_List vs) \<longleftrightarrow> (\<exists>v \<in> set vs. holds_surrogate_key ms v)"
| "holds_surrogate_key ms (Py_Tuple vs) \<longleftrightarrow> (\<exists>v \<in> set vs. holds_surrogate_key ms v)"
| "holds_surrogate_key ms (Py_Text s) \<longleftrightarrow> False"
| "holds_surrogate_key ms (Py_Leaf x) \<longleftrightarrow> False"

fun text_of_key :: "'x py_key \<Rightarrow> pystr list" where
  "text_of_key (TextKey s) = [s]"
| "text_of_key (OtherKey x) = []"

fun string_keys :: "models \<Rightarrow> 'x py_value \<Rightarrow> pystr list" where
  "string_keys ms (Py_Model c fs) =
     concat (map (\<lambda>(name, v). if name \<in> set (mapping_fields ms c) then string_keys ms v else []) fs)"
| "string_keys ms (Py_Dict items) = concat (map (\<lambda>(k, v). text_of_key k @ string_keys ms v) items)"
| "string_keys ms (Py_List vs) = concat (map (string_keys ms) vs)"
| "string_keys ms (Py_Tuple vs) = concat (map (string_keys ms) vs)"
| "string_keys ms (Py_Text s) = []"
| "string_keys ms (Py_Leaf x) = []"

section \<open>Placeholders\<close>

text \<open>\<open>_KeyMask\<close>: the string keys that are taken, and the originals of the placeholders.\<close>

record key_mask =
  taken :: "pystr list"
  originals :: "(pystr \<times> pystr) list"

definition new_mask :: "models \<Rightarrow> 'x py_value \<Rightarrow> key_mask" where
  "new_mask ms v = \<lparr>taken = string_keys ms v, originals = []\<rparr>"

definition placeholder :: "nat \<Rightarrow> pystr" where
  "placeholder n = 0 # decimal n"

lemma placeholder_inject [simp]: "placeholder m = placeholder n \<longleftrightarrow> m = n"
  by (simp add: placeholder_def decimal_inject)

definition ahead :: "pystr list \<Rightarrow> nat \<Rightarrow> nat set" where
  "ahead names n = {k. n \<le> k \<and> placeholder k \<in> set names}"

lemma finite_ahead [simp]: "finite (ahead names n)"
proof (rule finite_subset)
  show "ahead names n \<subseteq> placeholder -` set names" by (auto simp: ahead_def)
  show "finite (placeholder -` set names)" by (rule finite_vimageI) (auto simp: inj_on_def)
qed

function free_number :: "pystr list \<Rightarrow> nat \<Rightarrow> nat" where
  "free_number names n = (if placeholder n \<in> set names then free_number names (Suc n) else n)"
  by pat_completeness auto
termination
proof (relation "measure (\<lambda>(names, n). card (ahead names n))", goal_cases)
  case (2 names n)
  then have "n \<in> ahead names n" "n \<notin> ahead names (Suc n)" "ahead names (Suc n) \<subseteq> ahead names n"
    by (auto simp: ahead_def)
  then have "ahead names (Suc n) \<subset> ahead names n" by blast
  then show ?case by (simp add: psubset_card_mono)
qed simp

declare free_number.simps [simp del]

definition stand_in :: "'x py_key \<Rightarrow> key_mask \<Rightarrow> 'x py_key \<times> key_mask" where
  "stand_in k st = (case k of
      OtherKey x \<Rightarrow> (k, st)
    | TextKey s \<Rightarrow>
        if \<not> has_surrogate k then (k, st)
        else let p = placeholder (free_number (taken st) (length (originals st)))
             in (TextKey p, \<lparr>taken = p # taken st, originals = AList.update p s (originals st)\<rparr>))"

text \<open>\<open>mask\<close>; of a record the fields that can hold a mapping are replaced.\<close>

fun mask_value :: "models \<Rightarrow> 'x py_value \<Rightarrow> key_mask \<Rightarrow> 'x py_value \<times> key_mask"
  and mask_fields :: "models \<Rightarrow> string \<Rightarrow> (pystr \<times> 'x py_value) list \<Rightarrow> key_mask \<Rightarrow> (pystr \<times> 'x py_value) list \<times> key_mask"
  and mask_items :: "models \<Rightarrow> ('x py_key \<times> 'x py_value) list \<Rightarrow> key_mask \<Rightarrow> ('x py_key \<times> 'x py_value) list \<times> key_mask"
  and mask_list :: "models \<Rightarrow> 'x py_value list \<Rightarrow> key_mask \<Rightarrow> 'x py_value list \<times> key_mask" where
  "mask_value ms (Py_Model c fs) st = (case mask_fields ms c fs st of (fs', st') \<Rightarrow> (Py_Model c fs', st'))"
| "mask_value ms (Py_Dict items) st = (case mask_items ms items st of (items', st') \<Rightarrow> (Py_Dict (py_dict items'), st'))"
| "mask_value ms (Py_List vs) st = (case mask_list ms vs st of (vs', st') \<Rightarrow> (Py_List vs', st'))"
| "mask_value ms (Py_Tuple vs) st = (case mask_list ms vs st of (vs', st') \<Rightarrow> (Py_Tuple vs', st'))"
| "mask_value ms (Py_Text s) st = (Py_Text s, st)"
| "mask_value ms (Py_Leaf x) st = (Py_Leaf x, st)"
| "mask_fields ms c [] st = ([], st)"
| "mask_fields ms c ((name, v) # fs) st =
     (case (if name \<in> set (mapping_fields ms c) then mask_value ms v st else (v, st)) of (v', st1) \<Rightarrow>
        (case mask_fields ms c fs st1 of (fs', st2) \<Rightarrow> ((name, v') # fs', st2)))"
| "mask_items ms [] st = ([], st)"
| "mask_items ms ((k, v) # items) st =
     (case stand_in k st of (k', st1) \<Rightarrow> case mask_value ms v st1 of (v', st2) \<Rightarrow>
        (case mask_items ms items st2 of (items', st3) \<Rightarrow> ((k', v') # items', st3)))"
| "mask_list ms [] st = ([], st)"
| "mask_list ms (v # vs) st =
     (case mask_value ms v st of (v', st1) \<Rightarrow> case mask_list ms vs st1 of (vs', st2) \<Rightarrow> (v' # vs', st2))"

fun original :: "key_mask \<Rightarrow> 'x py_key \<Rightarrow> 'x py_key" where
  "original st (TextKey s) = TextKey (case map_of (originals st) s of None \<Rightarrow> s | Some t \<Rightarrow> t)"
| "original st (OtherKey x) = OtherKey x"

fun unmask_value :: "key_mask \<Rightarrow> 'x py_value \<Rightarrow> 'x py_value" where
  "unmask_value st (Py_Dict items) = Py_Dict (py_dict (map (\<lambda>(k, v). (original st k, unmask_value st v)) items))"
| "unmask_value st (Py_List vs) = Py_List (map (unmask_value st) vs)"
| "unmask_value st v = v"

section \<open>Dumping\<close>

type_synonym 'x dumper = "'x py_value \<Rightarrow> 'x py_value res"

definition dump_keeping_keys :: "models \<Rightarrow> 'x dumper \<Rightarrow> 'x dumper" where
  "dump_keeping_keys ms model_dump record =
     (case mask_value ms record (new_mask ms record) of (masked, st) \<Rightarrow>
        and_then (model_dump masked) (\<lambda>dumped. Inr (unmask_value st dumped)))"

text \<open>\<open>renamed.get(key, key)\<close>.\<close>

definition new_key :: "(pystr \<rightharpoonup> pystr) \<Rightarrow> 'x py_key \<Rightarrow> 'x py_key" where
  "new_key renamed k = (case k of OtherKey x \<Rightarrow> k | TextKey s \<Rightarrow> TextKey (case renamed s of None \<Rightarrow> s | Some t \<Rightarrow> t))"

fun repair_keys :: "'x py_value \<Rightarrow> 'x py_value" where
  "repair_keys (Py_Dict items) =
     (let renamed = repaired_key_names (map fst items)
      in Py_Dict (py_dict (map (\<lambda>(k, v). (new_key renamed k, repair_keys v)) items)))"
| "repair_keys (Py_List vs) = Py_List (map repair_keys vs)"
| "repair_keys v = v"

definition to_dict_keeping_surrogate_keys :: "models \<Rightarrow> 'x dumper \<Rightarrow> 'x dumper" where
  "to_dict_keeping_surrogate_keys ms model_dump record =
     (if \<not> holds_surrogate_key ms record then model_dump record else dump_keeping_keys ms model_dump record)"

definition to_dict :: "models \<Rightarrow> 'x dumper \<Rightarrow> 'x dumper" where
  "to_dict ms model_dump record =
     (if \<not> holds_surrogate_key ms record then model_dump record
      else and_then (dump_keeping_keys ms model_dump record) (\<lambda>dumped. Inr (repair_keys dumped)))"

end
