(* ===== verification/Record_Key_Facts.thy ===== *)
theory Record_Key_Facts
  imports Record_Keys
begin

text \<open>
  The fields \<open>_mapping_fields\<close> skips hold no mapping in a well-typed value, and the reference for the dump:
  \<open>dumped\<close>, in which every key stays what it is.
\<close>

section \<open>Dicts\<close>

lemma py_dict_append: "py_dict (xs @ [(k, v)]) = AList.update k v (py_dict xs)"
  by (simp add: py_dict_def)

lemma distinct_py_dict: "distinct (map fst (py_dict xs))"
proof (induction xs rule: rev_induct)
  case (snoc x xs)
  then show ?case by (cases x) (simp add: py_dict_append distinct_update)
qed (simp add: py_dict_def)

lemma keys_py_dict: "fst ` set (py_dict xs) = fst ` set xs"
proof (induction xs rule: rev_induct)
  case (snoc x xs)
  then show ?case by (cases x) (simp add: py_dict_append dom_update)
qed (simp add: py_dict_def)

lemma update_fresh: "k \<notin> fst ` set d \<Longrightarrow> AList.update k v d = d @ [(k, v)]"
  by (induction d) auto

lemma py_dict_distinct: "distinct (map fst xs) \<Longrightarrow> py_dict xs = xs"
proof (induction xs rule: rev_induct)
  case (snoc x xs)
  then show ?case by (cases x) (simp add: py_dict_append update_fresh)
qed (simp add: py_dict_def)

lemma update_map:
  "inj_on f (insert k (fst ` set d)) \<Longrightarrow>
   AList.update (f k) (g v) (map (\<lambda>(k, v). (f k, g v)) d) = map (\<lambda>(k, v). (f k, g v)) (AList.update k v d)"
  by (induction d) (auto simp: inj_on_def)

lemma py_dict_map:
  "inj_on f (fst ` set xs) \<Longrightarrow>
   py_dict (map (\<lambda>(k, v). (f k, g v)) xs) = map (\<lambda>(k, v). (f k, g v)) (py_dict xs)"
proof (induction xs rule: rev_induct)
  case (snoc x xs)
  obtain k v where x: "x = (k, v)" by fastforce
  have "inj_on f (insert k (fst ` set (py_dict xs)))" using snoc.prems x by (simp add: keys_py_dict)
  with snoc x show ?case by (simp add: py_dict_append update_map)
qed (simp add: py_dict_def)

lemma py_dict_map_again:
  assumes "inj_on f (fst ` set xs)"
  shows "py_dict (map (\<lambda>(k, v). (f k, g v)) (py_dict xs)) = py_dict (map (\<lambda>(k, v). (f k, g v)) xs)"
proof -
  have "distinct (map f (map fst (py_dict xs)))"
    using assms distinct_py_dict[of xs] by (simp only: distinct_map[of f] set_map keys_py_dict simp_thms)
  moreover have "map fst (map (\<lambda>(k, v). (f k, g v)) d) = map f (map fst d)" for d by (induction d) auto
  ultimately have "distinct (map fst (map (\<lambda>(k, v). (f k, g v)) (py_dict xs)))" by (simp only:)
  from py_dict_distinct[OF this] py_dict_map[OF assms, of g] show ?thesis by simp
qed

section \<open>Well-typed values\<close>

fun scalar :: "'x py_value \<Rightarrow> bool" where
  "scalar (Py_Text s) = True"
| "scalar (Py_Leaf x) = True"
| "scalar v = False"

text \<open>What an annotation allows; of a model's instance only the class is looked at.\<close>

fun fits :: "annotation \<Rightarrow> 'x py_value \<Rightarrow> bool" where
  "fits Ann_Any v = True"
| "fits Ann_None v = scalar v"
| "fits Ann_Literal v = scalar v"
| "fits (Ann_Annotated a) v = fits a v"
| "fits (Ann_Generic is_mapping args) v =
     (is_mapping \<or> scalar v \<or> (\<exists>a \<in> set args. fits a v) \<or>
      (case v of Py_List vs \<Rightarrow> \<forall>x \<in> set vs. \<exists>a \<in> set args. fits a x
         | Py_Tuple vs \<Rightarrow> \<forall>x \<in> set vs. \<exists>a \<in> set args. fits a x | _ \<Rightarrow> False))"
| "fits Ann_Unknown v = True"
| "fits (Ann_Model c) v = (case v of Py_Model c' fs \<Rightarrow> c' = c | _ \<Rightarrow> False)"
| "fits (Ann_Class holds_items) v = (holds_items \<or> scalar v)"

text \<open>Every record inside has its class's fields, which fit their annotations; a field's name is valid text
  that does not begin with NUL; the keys of a dict differ.\<close>

fun well_typed :: "models \<Rightarrow> 'x py_value \<Rightarrow> bool" where
  "well_typed ms (Py_Model c fs) \<longleftrightarrow> map fst fs = map fst (model_fields ms c) \<and> distinct (map fst fs) \<and>
     (\<forall>((name, v), (_, a)) \<in> set (zip fs (model_fields ms c)). fits a v) \<and>
     (\<forall>(name, v) \<in> set fs. take 1 name \<noteq> [0] \<and> \<not> has_surrogate (TextKey name :: 'x py_key) \<and> well_typed ms v)"
| "well_typed ms (Py_Dict items) \<longleftrightarrow> distinct (map fst items) \<and> (\<forall>(k, v) \<in> set items. well_typed ms v)"
| "well_typed ms (Py_List vs) \<longleftrightarrow> (\<forall>v \<in> set vs. well_typed ms v)"
| "well_typed ms (Py_Tuple vs) \<longleftrightarrow> (\<forall>v \<in> set vs. well_typed ms v)"
| "well_typed ms (Py_Text s) \<longleftrightarrow> True"
| "well_typed ms (Py_Leaf x) \<longleftrightarrow> True"

fun holds_mapping :: "'x py_value \<Rightarrow> bool" where
  "holds_mapping (Py_Model c fs) \<longleftrightarrow> (\<exists>(name, v) \<in> set fs. holds_mapping v)"
| "holds_mapping (Py_Dict items) \<longleftrightarrow> True"
| "holds_mapping (Py_List vs) \<longleftrightarrow> (\<exists>v \<in> set vs. holds_mapping v)"
| "holds_mapping (Py_Tuple vs) \<longleftrightarrow> (\<exists>v \<in> set vs. holds_mapping v)"
| "holds_mapping (Py_Text s) \<longleftrightarrow> False"
| "holds_mapping (Py_Leaf x) \<longleftrightarrow> False"

lemma scalar_holds_nothing: "scalar v \<Longrightarrow> \<not> holds_mapping v"
  by (cases v) auto

text \<open>
  Cutting the recursion at a model on the current path loses no answer: a mapping reached through such a
  model is reached through a smaller instance of it.
\<close>

definition reached_through :: "models \<Rightarrow> string set \<Rightarrow> 'x py_value \<Rightarrow> bool" where
  "reached_through ms seen v \<longleftrightarrow>
    (\<exists>c \<in> seen. \<exists>v' :: 'x py_value. size v' \<le> size v \<and> well_typed ms v' \<and> fits (Ann_Model c) v' \<and> holds_mapping v')"

lemma reached_through_up:
  fixes x v :: "'x py_value"
  assumes "reached_through ms seen x" "size x \<le> size v"
  shows "reached_through ms seen v"
proof -
  from assms(1) obtain c and v' :: "'x py_value" where c: "c \<in> seen" "size v' \<le> size x" "well_typed ms v'" "fits (Ann_Model c) v'" "holds_mapping v'"
    unfolding reached_through_def by blast
  from c(2) assms(2) have "size v' \<le> size v" by simp
  with c show ?thesis unfolding reached_through_def by blast
qed

lemma mapping_is_found:
  assumes "well_typed ms v" "fits a v" "holds_mapping v"
  shows "can_hold_mapping ms seen a \<or> reached_through ms seen v"
  using assms
proof (induction "size v" arbitrary: v a seen rule: less_induct)
  case less
  have model: "can_hold_mapping ms seen (Ann_Model c) \<or> reached_through ms seen v"
    if instance_of: "fits (Ann_Model c) v" for c seen
  proof (cases "c \<in> seen")
    case True
    with instance_of less.prems show ?thesis unfolding reached_through_def by blast
  next
    case False
    obtain fs where v: "v = Py_Model c fs" using instance_of by (cases v) auto
    then obtain name x where x: "(name, x) \<in> set fs" "holds_mapping x" using less.prems(3) by auto
    have len: "length fs = length (model_fields ms c)" using less.prems(1) v by (auto dest: arg_cong[of _ _ length])
    from x(1) obtain i where i: "i < length fs" "fs ! i = (name, x)" by (auto simp: in_set_conv_nth)
    obtain n' a where a: "model_fields ms c ! i = (n', a)" by fastforce
    have "((name, x), (n', a)) \<in> set (zip fs (model_fields ms c))"
      using i a len by (auto simp: set_zip intro!: exI[of _ i])
    then have fit: "fits a x" using less.prems(1) v by fastforce
    have typed: "well_typed ms x" using less.prems(1) v x(1) by auto
    have smaller: "size x < size v" using v py_value_in_items(1)[OF x(1)] by simp
    have a_in: "a \<in> set (map snd (model_fields ms c))" using i(1) a len by (metis image_eqI nth_mem list.set_map snd_conv)
    from less.hyps[OF smaller typed fit x(2), of "insert c seen"] consider
      "can_hold_mapping ms (insert c seen) a" | c' and v' :: "'a py_value" where "c' \<in> insert c seen" "size v' \<le> size x"
        "well_typed ms v'" "fits (Ann_Model c') v'" "holds_mapping v'"
      unfolding reached_through_def by blast
    then show ?thesis
    proof cases
      case 1
      with False a_in show ?thesis by auto
    next
      case 2
      show ?thesis
      proof (cases "c' \<in> seen")
        case True
        moreover have "size v' \<le> size v" using 2 smaller by simp
        ultimately show ?thesis using 2 unfolding reached_through_def by blast
      next
        case False
        with 2 have "c' = c" by simp
        with 2 smaller have "size v' < size v" by simp
        from less.hyps[OF this 2(3,4,5), of seen] \<open>c' = c\<close> \<open>size v' < size v\<close> show ?thesis
          using reached_through_up[of ms seen v' v] by (auto simp del: can_hold_mapping.simps)
      qed
    qed
  qed
  have all: "can_hold_mapping ms seen a \<or> reached_through ms seen v" if "fits a v" for a
    using that
  proof (induction a)
    case (Ann_Generic is_mapping args)
    consider "is_mapping" | "scalar v" | b where "b \<in> set args" "fits b v"
      | vs where "v = Py_List vs \<or> v = Py_Tuple vs" "\<forall>x \<in> set vs. \<exists>a \<in> set args. fits a x"
      using Ann_Generic.prems by (auto split: py_value.splits)
    then show ?case
    proof cases
      case 2
      with less.prems(3) scalar_holds_nothing show ?thesis by blast
    next
      case 3
      with Ann_Generic.IH show ?thesis by auto
    next
      case 4
      then obtain x where "x \<in> set vs" "holds_mapping x" using less.prems(3) by auto
      moreover from this 4(2) obtain b where "b \<in> set args" "fits b x" by blast
      ultimately have x: "x \<in> set vs" "holds_mapping x" "b \<in> set args" "fits b x" by blast+
      have "size x < size v" "well_typed ms x" using 4(1) x(1) less.prems(1) py_value_in_items(2)[OF x(1)] by auto
      from less.hyps[OF this x(4,2), of seen] x(3) show ?thesis
        using reached_through_up[of ms seen x v] \<open>size x < size v\<close> by auto
    qed simp
  qed (use less.prems(3) scalar_holds_nothing model in auto)
  from all[OF less.prems(2)] show ?case .
qed

lemma skipped_holds_nothing:
  assumes "well_typed ms (Py_Model c fs)" "(name, v) \<in> set fs" "name \<notin> set (mapping_fields ms c)"
  shows "\<not> holds_mapping v"
proof
  assume holds: "holds_mapping v"
  have names: "map fst fs = map fst (model_fields ms c)" "distinct (map fst fs)" and len: "length fs = length (model_fields ms c)"
    using assms(1) by (auto dest: arg_cong[of _ _ length])
  from assms(2) obtain i where i: "i < length fs" "fs ! i = (name, v)" by (auto simp: in_set_conv_nth)
  obtain n' a where a: "model_fields ms c ! i = (n', a)" by fastforce
  have "map fst fs ! i = map fst (model_fields ms c) ! i" using names(1) by simp
  then have "n' = name" using i a len by simp
  have "((name, v), (n', a)) \<in> set (zip fs (model_fields ms c))"
    using i a len by (auto simp: set_zip intro!: exI[of _ i])
  then have "fits a v" "well_typed ms v" using assms(1,2) by fastforce+
  from mapping_is_found[OF this(2,1) holds, of "{}"] have "can_hold_mapping ms {} a" by (simp add: reached_through_def)
  then have "name \<in> set (mapping_fields ms c)"
    using i(1) a len \<open>n' = name\<close> nth_mem[of i "model_fields ms c"] by (force simp: mapping_fields_def)
  with assms(3) show False ..
qed

end
