(* ===== verification/Record_Dump.thy ===== *)
theory Record_Dump
  imports Record_Key_Facts
begin

text \<open>
  Masking, dumping and unmasking restores every key: the run of \<open>_KeyMask\<close> around pydantic's dump equals the
  reference \<open>dumped\<close>.
\<close>

section \<open>Every key of a value\<close>

fun all_keys :: "'x py_value \<Rightarrow> 'x py_key set" where
  "all_keys (Py_Model c fs) = (\<Union>(name, v) \<in> set fs. all_keys v)"
| "all_keys (Py_Dict items) = (\<Union>(k, v) \<in> set items. insert k (all_keys v))"
| "all_keys (Py_List vs) = (\<Union>v \<in> set vs. all_keys v)"
| "all_keys (Py_Tuple vs) = (\<Union>v \<in> set vs. all_keys v)"
| "all_keys (Py_Text s) = {}"
| "all_keys (Py_Leaf x) = {}"

lemma no_mapping_no_keys: "\<not> holds_mapping v \<Longrightarrow> all_keys v = {}"
  by (induction v rule: all_keys.induct) fastforce+

lemma string_keys_all: "well_typed ms v \<Longrightarrow> set (string_keys ms v) = {s. TextKey s \<in> all_keys v}"
proof (induction ms v rule: string_keys.induct)
  case (1 ms c fs)
  have "set (if name \<in> set (mapping_fields ms c) then string_keys ms v else []) = {s. TextKey s \<in> all_keys v}"
    if field: "(name, v) \<in> set fs" for name v
  proof (cases "name \<in> set (mapping_fields ms c)")
    case True
    have "well_typed ms v" using 1(2) field by auto
    with 1(1)[OF field refl True] True show ?thesis by simp
  qed (use skipped_holds_nothing[OF 1(2) field] no_mapping_no_keys[of v] in simp)
  then show ?case by fastforce
next
  case (2 ms items)
  have "set (text_of_key k) = {s. k = TextKey s}" for k :: "'a py_key" by (cases k) auto
  with 2 show ?case by fastforce
qed auto

lemma holds_surrogate_all: "well_typed ms v \<Longrightarrow> holds_surrogate_key ms v \<longleftrightarrow> (\<exists>k \<in> all_keys v. has_surrogate k)"
proof (induction ms v rule: holds_surrogate_key.induct)
  case (1 ms c fs)
  have "(name \<in> set (mapping_fields ms c) \<and> holds_surrogate_key ms v) \<longleftrightarrow> (\<exists>k \<in> all_keys v. has_surrogate k)"
    if field: "(name, v) \<in> set fs" for name v
  proof (cases "name \<in> set (mapping_fields ms c)")
    case True
    have "well_typed ms v" using 1(2) field by auto
    with 1(1)[OF field refl] True show ?thesis by simp
  qed (use skipped_holds_nothing[OF 1(2) field] no_mapping_no_keys[of v] in simp)
  then show ?case by fastforce
qed fastforce+

section \<open>The reference dump\<close>

fun key_name :: "('x \<Rightarrow> pystr) \<Rightarrow> 'x py_key \<Rightarrow> pystr" where
  "key_name key_text (TextKey s) = s"
| "key_name key_text (OtherKey x) = key_text x"

fun dumped :: "('x \<Rightarrow> 'x py_value) \<Rightarrow> ('x \<Rightarrow> pystr) \<Rightarrow> 'x py_value \<Rightarrow> 'x py_value" where
  "dumped leaf key_text (Py_Model c fs) = Py_Dict (py_dict (map (\<lambda>(name, v). (TextKey name, dumped leaf key_text v)) fs))"
| "dumped leaf key_text (Py_Dict items) =
     Py_Dict (py_dict (map (\<lambda>(k, v). (TextKey (key_name key_text k), dumped leaf key_text v)) items))"
| "dumped leaf key_text (Py_List vs) = Py_List (map (dumped leaf key_text) vs)"
| "dumped leaf key_text (Py_Tuple vs) = Py_List (map (dumped leaf key_text) vs)"
| "dumped leaf key_text (Py_Text s) = Py_Text s"
| "dumped leaf key_text (Py_Leaf x) = leaf x"

text \<open>
  What is relied on of \<open>model_dump(mode="json")\<close>: a value whose keys are all valid text is dumped by its
  structure. \<open>leaf\<close> and \<open>key_text\<close> are pydantic's JSON form of other values and other keys: a leaf becomes no
  container, and a key's text is valid and does not begin with NUL.
\<close>

definition dumps_by_structure :: "('x \<Rightarrow> 'x py_value) \<Rightarrow> ('x \<Rightarrow> pystr) \<Rightarrow> 'x dumper \<Rightarrow> bool" where
  "dumps_by_structure leaf key_text model_dump \<longleftrightarrow>
     (\<forall>v. (\<forall>k \<in> all_keys v. \<not> has_surrogate k) \<longrightarrow> model_dump v = Inr (dumped leaf key_text v)) \<and>
     (\<forall>x. scalar (leaf x)) \<and>
     (\<forall>x. take 1 (key_text x) \<noteq> [0] \<and> \<not> has_surrogate (TextKey (key_text x) :: 'x py_key))"

section \<open>The state of the mask\<close>

definition mask_ok :: "pystr set \<Rightarrow> key_mask \<Rightarrow> bool" where
  "mask_ok names st \<longleftrightarrow> names \<subseteq> set (taken st) \<and>
     (\<forall>p s. map_of (originals st) p = Some s \<longrightarrow> p \<in> set (taken st) \<and> p \<notin> names \<and> (\<exists>n. p = placeholder n))"

definition mask_le :: "key_mask \<Rightarrow> key_mask \<Rightarrow> bool" where
  "mask_le st st' \<longleftrightarrow> map_of (originals st) \<subseteq>\<^sub>m map_of (originals st') \<and> set (taken st) \<subseteq> set (taken st')"

lemma mask_le_refl [simp]: "mask_le st st"
  by (simp add: mask_le_def)

lemma mask_le_trans [trans]: "mask_le a b \<Longrightarrow> mask_le b c \<Longrightarrow> mask_le a c"
  unfolding mask_le_def by (blast intro: map_le_trans)

lemma free_number_free: "placeholder (free_number names n) \<notin> set names"
  by (induction names n rule: free_number.induct) (subst free_number.simps, simp)

definition key_masked :: "key_mask \<Rightarrow> 'x py_key \<Rightarrow> 'x py_key \<Rightarrow> bool" where
  "key_masked st k k' \<longleftrightarrow>
     (if has_surrogate k then \<exists>p s. k = TextKey s \<and> k' = TextKey p \<and> map_of (originals st) p = Some s else k' = k)"

lemma key_masked_le: "key_masked st k k' \<Longrightarrow> mask_le st st' \<Longrightarrow> key_masked st' k k'"
  by (auto simp: key_masked_def mask_le_def map_le_def dom_def split: if_splits)

lemma stand_in_ok:
  assumes "stand_in k st = (k', st')" "mask_ok names st"
  shows "mask_ok names st'" "mask_le st st'" "key_masked st' k k'"
    "has_surrogate k \<Longrightarrow> \<exists>p. k' = TextKey p \<and> p \<notin> set (taken st) \<and> p \<in> set (taken st')"
proof -
  have "mask_ok names st' \<and> mask_le st st' \<and> key_masked st' k k' \<and>
    (has_surrogate k \<longrightarrow> (\<exists>p. k' = TextKey p \<and> p \<notin> set (taken st) \<and> p \<in> set (taken st')))"
  proof (cases "has_surrogate k")
    case False
    with assms show ?thesis by (auto simp: stand_in_def key_masked_def split: py_key.splits)
  next
    case True
    then obtain s where k: "k = TextKey s" by (cases k) (auto simp: has_surrogate_def)
    define p where "p = placeholder (free_number (taken st) (length (originals st)))"
    have out: "k' = TextKey p" "st' = \<lparr>taken = p # taken st, originals = AList.update p s (originals st)\<rparr>"
      using assms(1) True k by (auto simp: stand_in_def p_def Let_def)
    have p: "p \<notin> set (taken st)" by (simp add: p_def free_number_free)
    moreover from this assms(2) have "map_of (originals st) p = None" unfolding mask_ok_def by (cases "map_of (originals st) p") auto
    ultimately show ?thesis using assms(2) True k out
      by (auto simp: mask_ok_def mask_le_def key_masked_def update_conv' map_le_def p_def split: if_splits)
  qed
  then show "mask_ok names st'" "mask_le st st'" "key_masked st' k k'"
    "has_surrogate k \<Longrightarrow> \<exists>p. k' = TextKey p \<and> p \<notin> set (taken st) \<and> p \<in> set (taken st')" by blast+
qed

lemma original_plain: "mask_ok names st \<Longrightarrow> take 1 s \<noteq> [0] \<Longrightarrow> original st (TextKey s) = TextKey s"
  by (auto simp: mask_ok_def placeholder_def split: option.split)

lemma original_name: "mask_ok names st \<Longrightarrow> s \<in> names \<Longrightarrow> original st (TextKey s) = TextKey s"
  by (auto simp: mask_ok_def split: option.split)

section \<open>Masking\<close>

definition masks :: "('x \<Rightarrow> 'x py_value) \<Rightarrow> ('x \<Rightarrow> pystr) \<Rightarrow> key_mask \<Rightarrow> 'x py_value \<Rightarrow> 'x py_value \<Rightarrow> bool" where
  "masks leaf key_text st v v' \<longleftrightarrow>
     unmask_value st (dumped leaf key_text v') = dumped leaf key_text v \<and> (\<forall>k \<in> all_keys v'. \<not> has_surrogate k)"

lemma unmask_scalar: "scalar v \<Longrightarrow> unmask_value st v = v"
  by (cases v) auto

lemma text_keys_distinct:
  assumes "distinct (map fst fs)"
  shows "py_dict (map (\<lambda>(name, v). (TextKey name :: 'x py_key, g v)) fs) = map (\<lambda>(name, v). (TextKey name, g v)) fs"
proof (rule py_dict_distinct)
  have "map fst (map (\<lambda>(name, v). (TextKey name :: 'x py_key, g v)) fs) = map TextKey (map fst fs)"
    by (induction fs) auto
  moreover have "distinct (map (TextKey :: pystr \<Rightarrow> 'x py_key) (map fst fs))" using assms by (simp add: distinct_map inj_on_def)
  ultimately show "distinct (map fst (map (\<lambda>(name, v). (TextKey name :: 'x py_key, g v)) fs))" by (simp only:)
qed

lemma unmask_dumped_model:
  fixes fs fs' :: "(pystr \<times> 'x py_value) list"
  assumes "mask_ok names st" "map fst fs' = map fst fs" "distinct (map fst fs)" "\<forall>(name, v) \<in> set fs. take 1 name \<noteq> [0]"
    "list_all2 (\<lambda>(_, v) (_, v'). unmask_value st (dumped leaf key_text v') = dumped leaf key_text v) fs fs'"
  shows "unmask_value st (dumped leaf key_text (Py_Model c fs')) = dumped leaf key_text (Py_Model c fs)"
proof -
  let ?d = "dumped leaf key_text"
  have "map (\<lambda>(k, v). (original st k, unmask_value st v)) (map (\<lambda>(name, v). (TextKey name :: 'x py_key, ?d v)) fs')
      = map (\<lambda>(name, v). (TextKey name, ?d v)) fs"
    using assms(5,2,4)
  proof (induction rule: list_all2_induct)
    case (Cons x xs y ys)
    then show ?case using original_plain[OF assms(1), of "fst x"] by (cases x; cases y) auto
  qed simp
  moreover have "distinct (map fst fs')" using assms(2,3) by simp
  ultimately show ?thesis by (simp only: dumped.simps unmask_value.simps text_keys_distinct assms(3))
qed

lemma masks_itself:
  assumes "dumps_by_structure leaf key_text md" "mask_ok names st" "well_typed ms v" "\<not> holds_mapping v"
  shows "masks leaf key_text st v v"
proof -
  have "unmask_value st (dumped leaf key_text v) = dumped leaf key_text v"
    using assms(3,4)
  proof (induction v rule: all_keys.induct)
    case (1 c fs)
    have "unmask_value st (dumped leaf key_text x) = dumped leaf key_text x" if field: "(name, x) \<in> set fs" for name x
    proof -
      have "well_typed ms x" "\<not> holds_mapping x" using 1(2,3) field by auto
      with 1(1)[OF field refl] show ?thesis by simp
    qed
    then have "list_all2 (\<lambda>(_, v) (_, v'). unmask_value st (dumped leaf key_text v') = dumped leaf key_text v) fs fs"
      by (auto intro!: list.rel_refl_strong)
    with 1 unmask_dumped_model[OF assms(2), of fs fs] show ?case by fastforce
  next
    case (6 x)
    then show ?case using assms(1) by (simp add: dumps_by_structure_def unmask_scalar)
  qed (auto simp: list.map_comp intro!: map_cong)
  with no_mapping_no_keys[OF assms(4)] show ?thesis by (simp add: masks_def)
qed

text \<open>A masked dict, dumped and unmasked: the keys of one dict stay apart on the way.\<close>

lemma unmask_dumped_dict:
  assumes st: "mask_ok names st" and distinct: "distinct (map fst items)" "distinct (map fst items')"
    and names: "\<forall>s. TextKey s \<in> fst ` set items \<longrightarrow> s \<in> names"
    and key_text: "\<forall>x. take 1 (key_text x) \<noteq> [0] \<and> \<not> has_surrogate (TextKey (key_text x) :: 'x py_key)"
    and items: "list_all2 (\<lambda>(k, v) (k', v'). key_masked st k k' \<and>
      unmask_value st (dumped leaf key_text v') = dumped leaf key_text v) items (items' :: ('x py_key \<times> 'x py_value) list)"
  shows "unmask_value st (dumped leaf key_text (Py_Dict items')) = dumped leaf key_text (Py_Dict items)"
proof -
  let ?name = "\<lambda>k :: 'x py_key. TextKey (key_name key_text k) :: 'x py_key"
  have restored: "original st (?name k') = ?name k" if "key_masked st k k'" "k \<in> fst ` set items" for k k'
  proof (cases k)
    case (TextKey s)
    then have s: "s \<in> names" using that(2) names by blast
    show ?thesis
    proof (cases "has_surrogate k")
      case True
      with that(1) TextKey show ?thesis by (auto simp: key_masked_def)
    next
      case False
      with that(1) have "k' = k" by (simp add: key_masked_def)
      with TextKey original_name[OF st s] show ?thesis by (simp del: original.simps)
    qed
  next
    case (OtherKey x)
    with that(1) have "k' = k" by (simp add: key_masked_def has_surrogate_def)
    with OtherKey key_text original_plain[OF st, of "key_text x"] show ?thesis by (simp del: original.simps)
  qed
  have pairs: "(fst (items ! i), fst (items' ! i)) \<in> {(k, k'). key_masked st k k'}" "fst (items ! i) \<in> fst ` set items"
    if "i < length items" for i
    using that list_all2_nthD[OF items that] by (auto split: prod.splits)
  have restored_at: "original st (?name (fst (items' ! m))) = ?name (fst (items ! m))" if "m < length items" for m
    using restored pairs[OF that] by blast
  have len: "length items' = length items" using items by (simp add: list_all2_lengthD)
  have inj: "inj_on (original st) (?name ` fst ` set items')"
  proof (rule inj_onI)
    fix x y assume "x \<in> ?name ` fst ` set items'" "y \<in> ?name ` fst ` set items'" and eq: "original st x = original st y"
    then obtain i j where i: "i < length items" "x = ?name (fst (items' ! i))" and j: "j < length items" "y = ?name (fst (items' ! j))"
      using len by (force simp: in_set_conv_nth)
    let ?k = "fst (items ! i)" and ?l = "fst (items ! j)"
    have same: "key_name key_text ?k = key_name key_text ?l"
      using eq unfolding i(2) j(2) restored_at[OF i(1)] restored_at[OF j(1)] by simp
    have clean: "\<not> has_surrogate (TextKey (key_name key_text k) :: 'x py_key)" if "\<not> has_surrogate k" for k
      using that key_text by (cases k) auto
    have surrogate: "k = ?name k" if "has_surrogate k" for k :: "'x py_key"
      using that by (cases k) (auto simp: has_surrogate_def)
    show "x = y"
    proof (cases "has_surrogate ?k")
      case True
      then have "has_surrogate ?l" using clean[of ?l] same surrogate[OF True] by metis
      with True surrogate same have "?k = ?l" by metis
      then have "i = j" using distinct(1) i(1) j(1) by (simp add: nth_eq_iff_index_eq[symmetric] distinct_conv_nth) (metis nth_map)
      with i j show ?thesis by simp
    next
      case False
      then have "\<not> has_surrogate ?l" using clean[of ?k] same surrogate[of ?l] by metis
      with False have "fst (items' ! i) = ?k" "fst (items' ! j) = ?l"
        using pairs(1)[OF i(1)] pairs(1)[OF j(1)] by (auto simp: key_masked_def)
      with i j same show ?thesis by simp
    qed
  qed
  let ?unmask = "\<lambda>(k, v). (original st k, unmask_value st v)" and ?dump = "\<lambda>(k, v). (?name k, dumped leaf key_text v)"
  have "map ?unmask (map ?dump items') = map ?dump items"
  proof (rule nth_equalityI)
    fix i assume "i < length (map ?unmask (map ?dump items'))"
    then have i: "i < length items" using len by simp
    then show "map ?unmask (map ?dump items') ! i = map ?dump items ! i"
      using len restored_at[OF i] list_all2_nthD[OF items i] by (simp del: original.simps split: prod.splits)
  qed (simp add: len)
  moreover have "fst ` set (map ?dump items') = ?name ` fst ` set items'" by force
  ultimately show ?thesis
    using py_dict_map_again[of "original st" "map ?dump items'" "unmask_value st"] inj by simp
qed

text \<open>The walk of \<open>mask\<close>: the state only grows, and under any later state the masked value is read back.\<close>

lemma mask_walk:
  assumes md: "dumps_by_structure leaf key_text (md :: 'x dumper)"
  shows "well_typed ms v \<Longrightarrow> set (string_keys ms v) \<subseteq> names \<Longrightarrow> mask_ok names st \<Longrightarrow> mask_value ms v st = (v', st') \<Longrightarrow>
      mask_ok names st' \<and> mask_le st st' \<and>
      (\<forall>st''. mask_ok names st'' \<and> mask_le st' st'' \<longrightarrow> masks leaf key_text st'' v v')"
    and "(\<And>name v. (name, v) \<in> set fs \<Longrightarrow> well_typed ms v \<and> take 1 name \<noteq> [0] \<and>
        (if name \<in> set (mapping_fields ms c) then set (string_keys ms v) \<subseteq> names else \<not> holds_mapping v)) \<Longrightarrow>
      mask_ok names st \<Longrightarrow> mask_fields ms c fs st = (fs', st') \<Longrightarrow>
      mask_ok names st' \<and> mask_le st st' \<and> map fst fs' = map fst fs \<and>
      (\<forall>st''. mask_ok names st'' \<and> mask_le st' st'' \<longrightarrow> list_all2 (\<lambda>(_, v) (_, v'). masks leaf key_text st'' v v') fs fs')"
    and "(\<And>k v. (k, v) \<in> set items \<Longrightarrow> well_typed ms v \<and> set (string_keys ms v) \<subseteq> names \<and> set (text_of_key k) \<subseteq> names) \<Longrightarrow>
      distinct (map fst items) \<Longrightarrow> mask_ok names st \<Longrightarrow> mask_items ms items st = (items', st') \<Longrightarrow>
      mask_ok names st' \<and> mask_le st st' \<and> distinct (map fst items') \<and>
      (\<forall>k \<in> fst ` set items'. k \<in> fst ` set items \<or> (\<exists>p. k = TextKey p \<and> p \<notin> set (taken st))) \<and>
      (\<forall>st''. mask_ok names st'' \<and> mask_le st' st'' \<longrightarrow>
         list_all2 (\<lambda>(k, v) (k', v'). key_masked st'' k k' \<and> masks leaf key_text st'' v v') items items')"
    and "(\<And>v. v \<in> set vs \<Longrightarrow> well_typed ms v \<and> set (string_keys ms v) \<subseteq> names) \<Longrightarrow>
      mask_ok names st \<Longrightarrow> mask_list ms vs st = (vs', st') \<Longrightarrow>
      mask_ok names st' \<and> mask_le st st' \<and>
      (\<forall>st''. mask_ok names st'' \<and> mask_le st' st'' \<longrightarrow> list_all2 (masks leaf key_text st'') vs vs')"
proof (induction ms v st and ms c fs st and ms items st and ms vs st
    arbitrary: v' st' and fs' st' and items' st' and vs' st'
    rule: mask_value_mask_fields_mask_items_mask_list.induct)
  case (1 ms c fs st)
  obtain fs' st1 where run: "mask_fields ms c fs st = (fs', st1)" by fastforce
  have typed: "distinct (map fst fs)" "\<forall>(name, v) \<in> set fs. take 1 name \<noteq> [0]" using 1(2) by auto
  have fields: "well_typed ms v \<and> take 1 name \<noteq> [0] \<and>
      (if name \<in> set (mapping_fields ms c) then set (string_keys ms v) \<subseteq> names else \<not> holds_mapping v)"
    if "(name, v) \<in> set fs" for name v
    using that 1(2,3) skipped_holds_nothing[OF 1(2) that] by fastforce
  note walked = 1(1)[OF fields 1(4) run]
  have out: "v' = Py_Model c fs'" "st' = st1" using 1(5) run by simp_all
  have "masks leaf key_text st'' (Py_Model c fs) (Py_Model c fs')" if "mask_ok names st''" "mask_le st1 st''" for st''
  proof -
    have pairs: "list_all2 (\<lambda>(_, v) (_, v'). masks leaf key_text st'' v v') fs fs'" using walked that by blast
    then have "unmask_value st'' (dumped leaf key_text (Py_Model c fs')) = dumped leaf key_text (Py_Model c fs)"
      using walked typed by (intro unmask_dumped_model[OF that(1)]) (auto simp: masks_def elim: list.rel_mono_strong)
    moreover have "\<not> has_surrogate k" if "k \<in> all_keys (Py_Model c fs')" for k
    proof -
      obtain i where "i < length fs'" "k \<in> all_keys (snd (fs' ! i))" using \<open>k \<in> _\<close> by (auto simp: in_set_conv_nth)
      then show ?thesis using list_all2_nthD2[OF pairs, of i] by (auto simp: masks_def split: prod.splits)
    qed
    ultimately show ?thesis by (simp add: masks_def)
  qed
  with walked out show ?case by blast
next
  case (2 ms items st)
  obtain items' st1 where run: "mask_items ms items st = (items', st1)" by fastforce
  have items: "well_typed ms v \<and> set (string_keys ms v) \<subseteq> names \<and> set (text_of_key k) \<subseteq> names"
    if "(k, v) \<in> set items" for k v using that 2(2,3) by fastforce
  have keys: "distinct (map fst items)" "\<forall>s. TextKey s \<in> fst ` set items \<longrightarrow> s \<in> names"
    using 2(2) items by fastforce+
  note walked = 2(1)[OF items keys(1) 2(4) run]
  have same: "py_dict items' = items'" using walked by (simp add: py_dict_distinct)
  have out: "v' = Py_Dict items'" "st' = st1" using 2(5) run same by simp_all
  have "masks leaf key_text st'' (Py_Dict items) (Py_Dict items')" if st'': "mask_ok names st''" "mask_le st1 st''" for st''
  proof -
    have pairs: "list_all2 (\<lambda>(k, v) (k', v'). key_masked st'' k k' \<and> masks leaf key_text st'' v v') items items'"
      using walked st'' by blast
    have "unmask_value st'' (dumped leaf key_text (Py_Dict items')) = dumped leaf key_text (Py_Dict items)"
    proof (rule unmask_dumped_dict[OF st''(1) keys(1)])
      show "distinct (map fst items')" using walked by blast
      show "\<forall>x. take 1 (key_text x) \<noteq> [0] \<and> \<not> has_surrogate (TextKey (key_text x) :: 'x py_key)"
        using md by (simp add: dumps_by_structure_def)
      show "list_all2 (\<lambda>(k, v) (k', v'). key_masked st'' k k' \<and>
          unmask_value st'' (dumped leaf key_text v') = dumped leaf key_text v) items items'"
        using pairs by (rule list.rel_mono_strong) (auto simp: masks_def)
    qed (rule keys(2))
    moreover have "\<not> has_surrogate k" if k: "k \<in> all_keys (Py_Dict items')" for k
    proof -
      obtain i where i: "i < length items'" "k = fst (items' ! i) \<or> k \<in> all_keys (snd (items' ! i))"
        using k by (auto simp: in_set_conv_nth)
      have key: "key_masked st'' (fst (items ! i)) (fst (items' ! i))" "masks leaf key_text st'' (snd (items ! i)) (snd (items' ! i))"
        using list_all2_nthD2[OF pairs i(1)] by (auto split: prod.splits)
      have "\<not> has_surrogate (TextKey (placeholder n) :: 'x py_key)" for n
        using decimal_not_surrogate by (auto simp: has_surrogate_text placeholder_def is_surrogate_def)
      with key(1) st''(1) have "\<not> has_surrogate (fst (items' ! i))"
        by (fastforce simp: key_masked_def mask_ok_def split: if_splits)
      with key(2) i(2) show ?thesis by (auto simp: masks_def)
    qed
    ultimately show ?thesis by (simp add: masks_def)
  qed
  with walked out show ?case by blast
next
  case (3 ms vs st)
  obtain vs' st1 where run: "mask_list ms vs st = (vs', st1)" by fastforce
  have "well_typed ms v \<and> set (string_keys ms v) \<subseteq> names" if "v \<in> set vs" for v using that 3(2,3) by fastforce
  note walked = 3(1)[OF this 3(4) run]
  have out: "v' = Py_List vs'" "st' = st1" using 3(5) run by simp_all
  have "masks leaf key_text st'' (Py_List vs) (Py_List vs')" if "list_all2 (masks leaf key_text st'') vs vs'" for st''
    using that by (induction rule: list_all2_induct) (auto simp: masks_def)
  with walked out show ?case by blast
next
  case (4 ms vs st)
  obtain vs' st1 where run: "mask_list ms vs st = (vs', st1)" by fastforce
  have "well_typed ms v \<and> set (string_keys ms v) \<subseteq> names" if "v \<in> set vs" for v using that 4(2,3) by fastforce
  note walked = 4(1)[OF this 4(4) run]
  have out: "v' = Py_Tuple vs'" "st' = st1" using 4(5) run by simp_all
  have "masks leaf key_text st'' (Py_Tuple vs) (Py_Tuple vs')" if "list_all2 (masks leaf key_text st'') vs vs'" for st''
    using that by (induction rule: list_all2_induct) (auto simp: masks_def)
  with walked out show ?case by blast
next
  case (5 ms s st)
  then show ?case by (auto simp: masks_def)
next
  case (6 ms x st)
  then show ?case using md by (auto simp: masks_def dumps_by_structure_def unmask_scalar)
next
  case (7 ms c st)
  then show ?case by simp
next
  case (8 ms c name v fs st)
  obtain w st1 where one: "(if name \<in> set (mapping_fields ms c) then mask_value ms v st else (v, st)) = (w, st1)" by fastforce
  obtain fs1 st2 where two: "mask_fields ms c fs st1 = (fs1, st2)" by fastforce
  have head: "well_typed ms v" "if name \<in> set (mapping_fields ms c) then set (string_keys ms v) \<subseteq> names else \<not> holds_mapping v"
    using 8(3)[of name v] by simp_all
  have first: "mask_ok names st1 \<and> mask_le st st1 \<and> (\<forall>st''. mask_ok names st'' \<and> mask_le st1 st'' \<longrightarrow> masks leaf key_text st'' v w)"
  proof (cases "name \<in> set (mapping_fields ms c)")
    case True
    with 8(1)[OF True head(1) _ 8(4)] head(2) one show ?thesis by simp
  next
    case False
    with head one 8(4) show ?thesis using masks_itself[OF md] by auto
  qed
  have "mask_ok names st2 \<and> mask_le st1 st2 \<and> map fst fs1 = map fst fs \<and>
      (\<forall>st''. mask_ok names st'' \<and> mask_le st2 st'' \<longrightarrow> list_all2 (\<lambda>(_, v) (_, v'). masks leaf key_text st'' v v') fs fs1)"
    using 8(2)[OF one[symmetric] 8(3)[OF list.set_intros(2)] _ two] first by blast
  moreover have "fs' = (name, w) # fs1" "st' = st2" using 8(5) one two by simp_all
  ultimately show ?case using first by (auto intro: mask_le_trans)
next
  case (10 ms k v items st)
  obtain k1 st1 where key: "stand_in k st = (k1, st1)" by fastforce
  obtain w st2 where one: "mask_value ms v st1 = (w, st2)" by fastforce
  obtain items1 st3 where two: "mask_items ms items st2 = (items1, st3)" by fastforce
  note stood = stand_in_ok[OF key 10(5)]
  have head: "well_typed ms v" "set (string_keys ms v) \<subseteq> names" "set (text_of_key k) \<subseteq> names" using 10(3)[of k v] by simp_all
  note first = 10(1)[OF key[symmetric] head(1,2) stood(1) one]
  have "distinct (map fst items)" "mask_ok names st2" using 10(4) first by simp_all
  note tail = 10(2)[OF key[symmetric] one[symmetric] 10(3)[OF list.set_intros(2)] this two]
  have tail: "mask_ok names st3 \<and> mask_le st2 st3 \<and> distinct (map fst items1) \<and>
      (\<forall>k \<in> fst ` set items1. k \<in> fst ` set items \<or> (\<exists>p. k = TextKey p \<and> p \<notin> set (taken st2))) \<and>
      (\<forall>st''. mask_ok names st'' \<and> mask_le st3 st'' \<longrightarrow>
         list_all2 (\<lambda>(k, v) (k', v'). key_masked st'' k k' \<and> masks leaf key_text st'' v v') items items1)"
    by (rule tail)
  note rest = tail[THEN conjunct1] tail[THEN conjunct2, THEN conjunct1] tail[THEN conjunct2, THEN conjunct2, THEN conjunct1]
    tail[THEN conjunct2, THEN conjunct2, THEN conjunct2, THEN conjunct2]
    and new = tail[THEN conjunct2, THEN conjunct2, THEN conjunct2, THEN conjunct1]
  have out: "items' = (k1, w) # items1" "st' = st3" using 10(6) key one two by simp_all
  have le: "mask_le st st3" "mask_le st1 st3" using stood(2) first rest(2) by (blast intro: mask_le_trans)+
  have grown: "set (taken st) \<subseteq> set (taken st2)" "set (taken st1) \<subseteq> set (taken st2)" "names \<subseteq> set (taken st)"
    using stood(2) first 10(5) by (auto simp: mask_le_def mask_ok_def)
  have old: "s \<in> names" if "TextKey s \<in> insert k (fst ` set items)" for s
  proof -
    from that obtain x where "(TextKey s, x) \<in> set ((k, v) # items)" by force
    from 10(3)[OF this] show ?thesis by simp
  qed
  have kept: "k1 = k" if "\<not> has_surrogate k" using stood(3) that by (simp add: key_masked_def)
  have "k1 \<notin> fst ` set items1"
  proof
    assume k1: "k1 \<in> fst ` set items1"
    from new[rule_format, OF k1] consider "k1 \<in> fst ` set items" | p where "k1 = TextKey p" "p \<notin> set (taken st2)" by blast
    then show False
    proof cases
      case 1
      have "has_surrogate k"
      proof (rule ccontr)
        assume "\<not> has_surrogate k"
        from kept[OF this] 1 10(4) show False by simp
      qed
      from stood(4)[OF this] obtain p where p: "k1 = TextKey p" "p \<notin> set (taken st)" by blast
      with old[of p] 1 grown(3) show False by auto
    next
      case 2
      show False
      proof (cases "has_surrogate k")
        case True
        from stood(4)[OF this] 2 grown(2) show False by auto
      next
        case False
        from kept[OF this] 2 old[of p] grown show False by auto
      qed
    qed
  qed
  moreover have "k1 \<in> insert k (fst ` set items) \<or> (\<exists>p. k1 = TextKey p \<and> p \<notin> set (taken st))"
    using kept stood(4) by (cases "has_surrogate k") auto
  moreover have "\<forall>x \<in> fst ` set items1. x \<in> insert k (fst ` set items) \<or> (\<exists>p. x = TextKey p \<and> p \<notin> set (taken st))"
    using new grown(1) by auto
  moreover have "list_all2 (\<lambda>(k, v) (k', v'). key_masked st'' k k' \<and> masks leaf key_text st'' v v') ((k, v) # items) ((k1, w) # items1)"
    if st'': "mask_ok names st''" "mask_le st3 st''" for st''
  proof -
    have "mask_le st1 st''" "mask_le st2 st''" using st''(2) le(2) rest(2) by (blast intro: mask_le_trans)+
    with first stood(3) key_masked_le rest(4) st'' show ?thesis by auto
  qed
  ultimately show ?case unfolding out using rest(1,3) le(1) by simp
next
  case (12 ms v vs st)
  obtain w st1 where one: "mask_value ms v st = (w, st1)" by fastforce
  obtain vs1 st2 where two: "mask_list ms vs st1 = (vs1, st2)" by fastforce
  note first = 12(1)[OF _ _ 12(4) one]
  note rest = 12(2)[OF one[symmetric] 12(3)[OF list.set_intros(2)] _ two]
  have "vs' = w # vs1" "st' = st2" using 12(5) one two by simp_all
  with first rest 12(3) show ?case by (auto intro: mask_le_trans)
qed auto

section \<open>Dumping a record\<close>

lemma dump_keeps_keys:
  assumes md: "dumps_by_structure leaf key_text model_dump" and typed: "well_typed ms v"
  shows "to_dict_keeping_surrogate_keys ms model_dump v = Inr (dumped leaf key_text v)"
proof (cases "holds_surrogate_key ms v")
  case False
  with holds_surrogate_all[OF typed] md show ?thesis
    by (auto simp: to_dict_keeping_surrogate_keys_def dumps_by_structure_def)
next
  case True
  obtain v' st where run: "mask_value ms v (new_mask ms v) = (v', st)" by fastforce
  have "mask_ok (set (string_keys ms v)) (new_mask ms v)" by (simp add: mask_ok_def new_mask_def)
  from mask_walk(1)[OF md typed order.refl this run] have "masks leaf key_text st v v'" by simp
  with md True run show ?thesis
    by (simp add: to_dict_keeping_surrogate_keys_def dump_keeping_keys_def masks_def dumps_by_structure_def and_then_def)
qed

end
