(* ===== verification/Record_Json.thy ===== *)
theory Record_Json
  imports Record_Keys Fileio
begin

text \<open>
  \<open>adapters/native/record_json.py\<close>: JSON bytes of a value that may hold lone surrogates. \<open>orjson\<close> is the
  parameter \<open>dumps\<close>, with its \<open>default\<close> hook; \<open>native\<close> says which leaves are \<open>None\<close>, a bool, an int or a
  float. A repair returns the value and the dotted paths it replaced, in order.
\<close>

section \<open>Paths\<close>

definition ascii_segment :: "pystr \<Rightarrow> pystr" where
  "ascii_segment s = map (\<lambda>c. if 32 \<le> c \<and> c \<le> 126 then c else ch CHR ''?'') s"

definition join_path :: "pystr \<Rightarrow> pystr \<Rightarrow> pystr" where
  "join_path path segment = (if path = [] then segment else path @ [ch CHR ''.''] @ segment)"

section \<open>The repair\<close>

record 'x leaves =
  native :: "'x \<Rightarrow> bool"
  default_hook :: "('x py_value \<Rightarrow> 'x py_value) option"

definition repair_text :: "pystr \<Rightarrow> pystr \<Rightarrow> 'x py_value \<times> pystr list" where
  "repair_text s path = (let t = replace_surrogates s in (Py_Text t, if t \<noteq> s then [path] else []))"

definition repair_leaf :: "'x leaves \<Rightarrow> 'x py_value \<Rightarrow> pystr \<Rightarrow> 'x py_value \<times> pystr list" where
  "repair_leaf l v path = (case default_hook l of
      None \<Rightarrow> (v, [])
    | Some hook \<Rightarrow>
        if (case v of Py_Leaf x \<Rightarrow> native l x | _ \<Rightarrow> False) then (v, [])
        else (case hook v of
            Py_Text s \<Rightarrow> if has_surrogate (TextKey s :: 'x py_key) then repair_text s path else (v, [])
          | _ \<Rightarrow> (v, [])))"

text \<open>\<open>str(key)\<close> of a key that is no text is the parameter \<open>shown\<close>.\<close>

fun key_segment :: "('x \<Rightarrow> pystr) \<Rightarrow> 'x py_key \<Rightarrow> pystr" where
  "key_segment shown (TextKey s) = ascii_segment s"
| "key_segment shown (OtherKey x) = ascii_segment (shown x)"

fun is_renamed :: "(pystr \<rightharpoonup> pystr) \<Rightarrow> 'x py_key \<Rightarrow> bool" where
  "is_renamed renamed (TextKey s) = (s \<in> dom renamed)"
| "is_renamed renamed (OtherKey x) = False"

fun repair_value :: "'x leaves \<Rightarrow> ('x \<Rightarrow> pystr) \<Rightarrow> 'x py_value \<Rightarrow> pystr \<Rightarrow> 'x py_value \<times> pystr list"
  and repair_items :: "'x leaves \<Rightarrow> ('x \<Rightarrow> pystr) \<Rightarrow> (pystr \<rightharpoonup> pystr) \<Rightarrow> ('x py_key \<times> 'x py_value) list \<Rightarrow> pystr \<Rightarrow> ('x py_key \<times> 'x py_value) list \<times> pystr list"
  and repair_list :: "'x leaves \<Rightarrow> ('x \<Rightarrow> pystr) \<Rightarrow> 'x py_value list \<Rightarrow> nat \<Rightarrow> pystr \<Rightarrow> 'x py_value list \<times> pystr list" where
  "repair_value l shown (Py_Text s) path = repair_text s path"
| "repair_value l shown (Py_Dict items) path =
     (case repair_items l shown (repaired_key_names (map fst items)) items path of (items', ps) \<Rightarrow> (Py_Dict (py_dict items'), ps))"
| "repair_value l shown (Py_List vs) path = (case repair_list l shown vs 0 path of (vs', ps) \<Rightarrow> (Py_List vs', ps))"
| "repair_value l shown (Py_Tuple vs) path = (case repair_list l shown vs 0 path of (vs', ps) \<Rightarrow> (Py_List vs', ps))"
| "repair_value l shown (Py_Model c fs) path = repair_leaf l (Py_Model c fs) path"
| "repair_value l shown (Py_Leaf x) path = repair_leaf l (Py_Leaf x) path"
| "repair_items l shown renamed [] path = ([], [])"
| "repair_items l shown renamed ((k, v) # items) path =
     (let k' = new_key renamed k; here = join_path path (key_segment shown k') in
      case repair_value l shown v here of (v', ps) \<Rightarrow>
        (case repair_items l shown renamed items path of (items', qs) \<Rightarrow>
           ((k', v') # items', (if is_renamed renamed k then [here] else []) @ ps @ qs)))"
| "repair_list l shown [] i path = ([], [])"
| "repair_list l shown (v # vs) i path =
     (case repair_value l shown v (join_path path (decimal i)) of (v', ps) \<Rightarrow>
        (case repair_list l shown vs (Suc i) path of (vs', qs) \<Rightarrow> (v' # vs', ps @ qs)))"

text \<open>\<open>dict.fromkeys\<close>: each path once, in order.\<close>

definition once :: "pystr list \<Rightarrow> pystr list" where
  "once ps = map fst (py_dict (map (\<lambda>p. (p, ())) ps))"

definition repair_surrogates :: "('x \<Rightarrow> pystr) \<Rightarrow> 'x py_value \<Rightarrow> 'x py_value \<times> pystr list" where
  "repair_surrogates shown v =
     (case repair_value \<lparr>native = \<lambda>_. False, default_hook = None\<rparr> shown v [] of (v', ps) \<Rightarrow>
        if ps = [] then (v, []) else (v', once ps))"

section \<open>The bytes\<close>

text \<open>\<open>JSONEncodeError\<close> is a \<open>TypeError\<close>.\<close>

definition json_bytes :: "'x leaves \<Rightarrow> ('x \<Rightarrow> pystr) \<Rightarrow> ('x py_value \<Rightarrow> bytes res) \<Rightarrow> 'x py_value \<Rightarrow> (bytes \<times> pystr list) res" where
  "json_bytes l shown dumps v = (case dumps v of
      Inr data \<Rightarrow> Inr (data, [])
    | Inl e \<Rightarrow>
        if \<not> catches TypeError (err_class e) then Inl e
        else (case repair_value l shown v [] of (v', ps) \<Rightarrow>
          if ps = [] then Inl e else and_then (dumps v') (\<lambda>data. Inr (data, once ps))))"

definition record_json_bytes :: "models \<Rightarrow> 'x dumper \<Rightarrow> ('x \<Rightarrow> pystr) \<Rightarrow> ('x py_value \<Rightarrow> bytes res) \<Rightarrow> 'x py_value \<Rightarrow> (bytes \<times> pystr list) res" where
  "record_json_bytes ms model_dump shown dumps record =
     and_then (to_dict_keeping_surrogate_keys ms model_dump record)
       (json_bytes \<lparr>native = \<lambda>_. False, default_hook = None\<rparr> shown dumps)"

definition repair_record :: "models \<Rightarrow> 'x dumper \<Rightarrow> ('x \<Rightarrow> pystr) \<Rightarrow> 'x py_value \<Rightarrow> ('x py_value \<times> pystr list) res" where
  "repair_record ms model_dump shown record =
     and_then (to_dict_keeping_surrogate_keys ms model_dump record) (\<lambda>v. Inr (repair_surrogates shown v))"

section \<open>The warnings\<close>

definition warning_tail :: pystr where
  "warning_tail = u ''not valid UTF-8; each undecodable byte written as U+FFFD''"

definition joined :: "pystr list \<Rightarrow> pystr" where
  "joined names = (case names of [] \<Rightarrow> [] | n # ns \<Rightarrow> n @ concat (map (\<lambda>m. u '', '' @ m) ns))"

definition noun :: "'a list \<Rightarrow> pystr" where
  "noun names = (if length names = 1 then u ''field'' else u ''fields'')"

definition describe_replacements :: "pystr \<Rightarrow> nat \<Rightarrow> pystr list \<Rightarrow> pystr" where
  "describe_replacements type_name position names =
     type_name @ u '' record '' @ decimal position @ u '', '' @ noun names @ u '' '' @ joined names @ u '': '' @ warning_tail"

definition describe_output_replacements :: "pystr list \<Rightarrow> pystr" where
  "describe_output_replacements names =
     (let named = filter (\<lambda>n. n \<noteq> []) names in
      if named = [] then u ''output: '' @ warning_tail
      else u ''output '' @ noun named @ u '' '' @ joined named @ u '': '' @ warning_tail)"

end
