(* ===== verification/Record_Repair.thy ===== *)
theory Record_Repair
  imports Record_Dump Record_Json
begin

text \<open>
  What a repair leaves: \<open>repaired_as\<close> relates a value to a repaired one entry by entry, so nothing is lost or
  reordered and only what held a surrogate differs; \<open>holds_surrogate\<close> is the reference search.
\<close>

section \<open>Keys\<close>

definition key_repaired :: "'x py_key \<Rightarrow> 'x py_key \<Rightarrow> bool" where
  "key_repaired k k' \<longleftrightarrow> (if has_surrogate k then \<exists>t. k' = TextKey t \<and> \<not> has_surrogate k' else k' = k)"

lemma new_key_facts:
  fixes keys :: "'x py_key list"
  assumes "distinct keys"
  shows "k \<in> set keys \<Longrightarrow> key_repaired k (new_key (repaired_key_names keys) k)"
    and "inj_on (new_key (repaired_key_names keys)) (set keys)"
    and "k \<in> set keys \<Longrightarrow> is_renamed (repaired_key_names keys) k = has_surrogate k"
proof -
  let ?r = "repaired_key_names keys"
  have dom: "dom (?r :: pystr \<rightharpoonup> pystr) = {s. TextKey s \<in> set keys \<and> has_surrogate (TextKey s :: 'x py_key)}"
    by (simp add: repaired_key_names_def rename_keys_dom)
  have new: "\<exists>name. ?r s = Some name \<and> TextKey name \<notin> {k \<in> set keys. \<not> has_surrogate k} \<and> \<not> has_surrogate (TextKey name :: 'x py_key)"
    if "TextKey s \<in> set keys" "has_surrogate (TextKey s :: 'x py_key)" for s
    using rename_keys_new[OF assms that, of "valid_names keys"]
    by (auto simp: repaired_key_names_def valid_names_set has_surrogate_text)
  have kept: "new_key ?r k = k" if "\<not> has_surrogate k" for k :: "'x py_key"
  proof (cases k)
    case (TextKey s)
    with dom that have "?r s = None" by (cases "?r s") (auto simp: set_eq_iff domIff)
    with TextKey show ?thesis by (simp add: new_key_def)
  qed (simp add: new_key_def)
  have bad: "\<exists>s name. k = TextKey s \<and> new_key ?r k = TextKey name \<and> ?r s = Some name \<and>
      TextKey name \<notin> {k \<in> set keys. \<not> has_surrogate k} \<and> \<not> has_surrogate (TextKey name :: 'x py_key)"
    if "k \<in> set keys" "has_surrogate k" for k
  proof -
    obtain s where k: "k = TextKey s" using \<open>has_surrogate k\<close> by (cases k) (auto simp: has_surrogate_def)
    with new[of s] that obtain name where "?r s = Some name" "TextKey name \<notin> {k \<in> set keys. \<not> has_surrogate k}"
      "\<not> has_surrogate (TextKey name :: 'x py_key)" by blast
    with k show ?thesis by (simp add: new_key_def)
  qed
  show "key_repaired k (new_key ?r k)" if "k \<in> set keys"
    using kept[of k] bad[OF that] by (auto simp: key_repaired_def)
  show "is_renamed ?r k = has_surrogate k" if "k \<in> set keys"
  proof (cases k)
    case (TextKey s)
    then show ?thesis using that unfolding TextKey is_renamed.simps dom by simp
  qed (simp add: has_surrogate_def)
  show "inj_on (new_key ?r) (set keys)"
  proof (rule inj_onI)
    fix k l assume kl: "k \<in> set keys" "l \<in> set keys" and eq: "new_key ?r k = new_key ?r l"
    show "k = l"
    proof (cases "has_surrogate k"; cases "has_surrogate l")
      assume both: "has_surrogate k" "has_surrogate l"
      obtain s t n where st: "k = TextKey s" "l = TextKey t" "?r s = Some n" "?r t = Some n"
        using bad[OF kl(1) both(1)] bad[OF kl(2) both(2)] eq by auto
      then have "rename_keys keys (valid_names keys) Map.empty s = rename_keys keys (valid_names keys) Map.empty t"
        by (simp add: repaired_key_names_def)
      with rename_keys_inject[OF assms, of s t] kl both st show ?thesis by blast
    next
      assume "has_surrogate k" "\<not> has_surrogate l"
      with bad[OF kl(1)] kept[of l] eq kl(2) show ?thesis by auto
    next
      assume "\<not> has_surrogate k" "has_surrogate l"
      with bad[OF kl(2)] kept[of k] eq kl(1) show ?thesis by auto
    next
      assume "\<not> has_surrogate k" "\<not> has_surrogate l"
      with kept eq show ?thesis by metis
    qed
  qed
qed

section \<open>Values\<close>

inductive repaired_as :: "('x py_value \<Rightarrow> 'x py_value \<Rightarrow> bool) \<Rightarrow> 'x py_value \<Rightarrow> 'x py_value \<Rightarrow> bool" for R where
  base: "R v v' \<Longrightarrow> repaired_as R v v'"
| dict: "list_all2 (\<lambda>x y. key_repaired (fst x) (fst y) \<and> repaired_as R (snd x) (snd y)) items items' \<Longrightarrow>
    distinct (map fst items') \<Longrightarrow> repaired_as R (Py_Dict items) (Py_Dict items')"
| list: "list_all2 (repaired_as R) vs vs' \<Longrightarrow> v = Py_List vs \<or> v = Py_Tuple vs \<Longrightarrow> repaired_as R v (Py_List vs')"

text \<open>The keys of every dict differ, as they do in Python.\<close>

fun distinct_keys :: "'x py_value \<Rightarrow> bool" where
  "distinct_keys (Py_Dict items) \<longleftrightarrow> distinct (map fst items) \<and> (\<forall>(k, v) \<in> set items. distinct_keys v)"
| "distinct_keys (Py_List vs) \<longleftrightarrow> (\<forall>v \<in> set vs. distinct_keys v)"
| "distinct_keys (Py_Tuple vs) \<longleftrightarrow> (\<forall>v \<in> set vs. distinct_keys v)"
| "distinct_keys v \<longleftrightarrow> True"

text \<open>What pydantic's dump consists of.\<close>

fun dump_form :: "'x py_value \<Rightarrow> bool" where
  "dump_form (Py_Dict items) \<longleftrightarrow> distinct (map fst items) \<and> (\<forall>(k, v) \<in> set items. dump_form v)"
| "dump_form (Py_List vs) \<longleftrightarrow> (\<forall>v \<in> set vs. dump_form v)"
| "dump_form v \<longleftrightarrow> scalar v"

lemma update_values: "(k, v) \<in> set (AList.update a b d) \<Longrightarrow> v = b \<or> (\<exists>c. (c, v) \<in> set d)"
  by (induction d) (auto split: if_splits)

lemma py_dict_values: "(k, v) \<in> set (py_dict items) \<Longrightarrow> v \<in> snd ` set items"
proof (induction items arbitrary: k rule: rev_induct)
  case (snoc x xs)
  obtain a b where x: "x = (a, b)" by fastforce
  with snoc.prems have "v = b \<or> (\<exists>c. (c, v) \<in> set (py_dict xs))"
    using update_values[of k v a b "py_dict xs"] by (simp add: py_dict_append)
  with snoc.IH x show ?case by auto
qed (simp add: py_dict_def)

lemma dumped_form: "dumps_by_structure leaf key_text md \<Longrightarrow> dump_form (dumped leaf key_text v)"
proof (induction v rule: all_keys.induct)
  case (6 x)
  then have "scalar (leaf x)" by (simp add: dumps_by_structure_def)
  then show ?case by (cases "leaf x") auto
next
  case (1 c fs)
  have "dump_form v" if v: "(k, v) \<in> set (py_dict (map (\<lambda>(name, v). (TextKey name :: 'a py_key, dumped leaf key_text v)) fs))" for k v
  proof -
    from py_dict_values[OF v] obtain name x where "(name, x) \<in> set fs" "v = dumped leaf key_text x" by auto
    with 1 show ?thesis by blast
  qed
  then show ?case by (auto simp: distinct_py_dict)
next
  case (2 items)
  have "dump_form v" if v: "(k, v) \<in> set (py_dict (map (\<lambda>(k, v). (TextKey (key_name key_text k) :: 'a py_key, dumped leaf key_text v)) items))" for k v
  proof -
    from py_dict_values[OF v] obtain k x where "(k, x) \<in> set items" "v = dumped leaf key_text x" by auto
    with 2 show ?thesis by blast
  qed
  then show ?case by (auto simp: distinct_py_dict)
qed auto

lemma scalar_repair_keys: "scalar v \<Longrightarrow> repair_keys v = v"
  by (cases v) auto

lemma repair_keys_facts:
  "dump_form v \<Longrightarrow> repaired_as (\<lambda>v v'. scalar v \<and> v' = v) v (repair_keys v) \<and> (\<forall>k \<in> all_keys (repair_keys v). \<not> has_surrogate k)"
proof (induction v rule: repair_keys.induct)
  case (1 items)
  let ?r = "repaired_key_names (map fst items)"
  let ?items = "map (\<lambda>(k, v). (new_key ?r k, repair_keys v)) items"
  have keys: "distinct (map fst items)" using 1(2) by simp
  note new = new_key_facts[OF keys]
  have "map fst ?items = map (new_key ?r) (map fst items)" by (induction items) auto
  moreover have "distinct (map (new_key ?r) (map fst items))" using keys new(2) by (simp only: distinct_map[of "new_key _"] simp_thms)
  ultimately have d: "distinct (map fst ?items)" by (simp only:)
  then have out: "repair_keys (Py_Dict items) = Py_Dict ?items" by (simp add: py_dict_distinct)
  have inner: "repaired_as (\<lambda>v v'. scalar v \<and> v' = v) v (repair_keys v) \<and> (\<forall>k \<in> all_keys (repair_keys v). \<not> has_surrogate k)"
    "key_repaired k (new_key ?r k)" if "(k, v) \<in> set items" for k v
  proof -
    have "dump_form v" using 1(2) that by auto
    from 1(1)[OF refl that refl this] show "repaired_as (\<lambda>v v'. scalar v \<and> v' = v) v (repair_keys v) \<and>
      (\<forall>k \<in> all_keys (repair_keys v). \<not> has_surrogate k)" .
    have "k \<in> set (map fst items)" using that by force
    from new(1)[OF this] show "key_repaired k (new_key ?r k)" .
  qed
  have "repaired_as (\<lambda>v v'. scalar v \<and> v' = v) (Py_Dict items) (Py_Dict ?items)"
    by (rule dict[OF _ d]) (use inner in \<open>auto simp: list_all2_map2 intro!: list.rel_refl_strong\<close>)
  moreover have "\<not> has_surrogate k" if k: "k \<in> all_keys (Py_Dict ?items)" for k
  proof -
    obtain k0 v where kv: "(k0, v) \<in> set items" "k = new_key ?r k0 \<or> k \<in> all_keys (repair_keys v)" using k by auto
    with inner[OF kv(1)] show ?thesis by (auto simp: key_repaired_def split: if_splits)
  qed
  ultimately show ?case unfolding out by blast
next
  case (2 vs)
  have inner: "repaired_as (\<lambda>v v'. scalar v \<and> v' = v) v (repair_keys v) \<and> (\<forall>k \<in> all_keys (repair_keys v). \<not> has_surrogate k)"
    if "v \<in> set vs" for v using 2 that by simp
  have "repaired_as (\<lambda>v v'. scalar v \<and> v' = v) (Py_List vs) (Py_List (map repair_keys vs))"
    by (rule list) (use inner in \<open>auto simp: list_all2_map2 intro!: list.rel_refl_strong\<close>)
  with inner show ?case by auto
qed (auto intro: base)

text \<open>A dump without surrogate keys is not changed.\<close>

lemma repair_keys_clean: "dump_form v \<Longrightarrow> \<forall>k \<in> all_keys v. \<not> has_surrogate k \<Longrightarrow> repair_keys v = v"
proof (induction v rule: repair_keys.induct)
  case (1 items)
  let ?r = "repaired_key_names (map fst items)"
  have "distinct (map fst items)" using 1(2) by simp
  note new = new_key_facts[OF this]
  have "new_key ?r k = k \<and> repair_keys v = v" if "(k, v) \<in> set items" for k v
  proof -
    have "dump_form v" "\<not> has_surrogate k" "\<forall>k \<in> all_keys v. \<not> has_surrogate k" using 1(2,3) that by auto
    moreover have "k \<in> set (map fst items)" using that by force
    ultimately show ?thesis using 1(1)[OF refl that refl] new(1)[of k] by (simp add: key_repaired_def)
  qed
  then have "map (\<lambda>(k, v). (new_key ?r k, repair_keys v)) items = items" by (intro map_idI) auto
  with \<open>distinct (map fst items)\<close> show ?case by (simp add: py_dict_distinct)
next
  case (2 vs)
  then have "repair_keys v = v" if "v \<in> set vs" for v using that by fastforce
  then have "map repair_keys vs = vs" by (simp add: map_idI)
  then show ?case by simp
qed auto

lemma dumped_keys:
  fixes v :: "'x py_value"
  assumes md: "dumps_by_structure leaf key_text (md :: 'x dumper)"
  shows "well_typed ms v \<Longrightarrow> \<forall>k \<in> all_keys v. \<not> has_surrogate k \<Longrightarrow> \<forall>k \<in> all_keys (dumped leaf key_text v). \<not> has_surrogate k"
proof (induction v rule: all_keys.induct)
  case (1 c fs)
  let ?fs = "map (\<lambda>(name, v). (TextKey name :: 'x py_key, dumped leaf key_text v)) fs"
  have "\<not> has_surrogate k \<and> (\<forall>k \<in> all_keys v. \<not> has_surrogate k)" if kv: "(k, v) \<in> set (py_dict ?fs)" for k v
  proof -
    have "k \<in> fst ` set (py_dict ?fs)" using kv by force
    then have "k \<in> fst ` set ?fs" unfolding keys_py_dict .
    then obtain name w where "k = TextKey name" "(name, w) \<in> set fs" by auto
    moreover from py_dict_values[OF kv] obtain n x where "(n, x) \<in> set fs" "v = dumped leaf key_text x" by auto
    ultimately show ?thesis using 1(1)[of "(n, x)" n x] 1(2,3) by fastforce
  qed
  then show ?case by fastforce
next
  case (2 items)
  let ?items = "map (\<lambda>(k, v). (TextKey (key_name key_text k) :: 'x py_key, dumped leaf key_text v)) items"
  have "\<not> has_surrogate k \<and> (\<forall>k \<in> all_keys v. \<not> has_surrogate k)" if kv: "(k, v) \<in> set (py_dict ?items)" for k v
  proof -
    have "k \<in> fst ` set (py_dict ?items)" using kv by force
    then have "k \<in> fst ` set ?items" unfolding keys_py_dict .
    then obtain l w where l: "k = TextKey (key_name key_text l)" "(l, w) \<in> set items" by auto
    then have "\<not> has_surrogate l" using 2(3) by force
    then have "\<not> has_surrogate k" using l(1) md unfolding dumps_by_structure_def by (cases l) auto
    moreover from py_dict_values[OF kv] obtain n x where "(n, x) \<in> set items" "v = dumped leaf key_text x" by auto
    ultimately show ?thesis using 2(1)[of "(n, x)" n x] 2(2,3) by fastforce
  qed
  then show ?case by fastforce
next
  case (6 x)
  have "scalar (leaf x)" using md by (simp add: dumps_by_structure_def)
  then show ?case by (cases "leaf x") auto
qed auto

lemma dump_form_distinct: "dump_form v \<Longrightarrow> distinct_keys v"
proof (induction v rule: distinct_keys.induct)
  case (1 items)
  then show ?case by fastforce
qed auto

section \<open>JSON values\<close>

declare has_surrogate_text [simp]

fun leaf_holds :: "'x leaves \<Rightarrow> 'x py_value \<Rightarrow> bool" where
  "leaf_holds l v = (snd (repair_leaf l v []) \<noteq> [])"

fun value_holds :: "'x leaves \<Rightarrow> 'x py_value \<Rightarrow> bool" where
  "value_holds l (Py_Text s) \<longleftrightarrow> has_surrogate (TextKey s :: 'x py_key)"
| "value_holds l (Py_Dict items) \<longleftrightarrow> (\<exists>(k, v) \<in> set items. has_surrogate k \<or> value_holds l v)"
| "value_holds l (Py_List vs) \<longleftrightarrow> (\<exists>v \<in> set vs. value_holds l v)"
| "value_holds l (Py_Tuple vs) \<longleftrightarrow> (\<exists>v \<in> set vs. value_holds l v)"
| "value_holds l (Py_Model c fs) \<longleftrightarrow> leaf_holds l (Py_Model c fs)"
| "value_holds l (Py_Leaf x) \<longleftrightarrow> leaf_holds l (Py_Leaf x)"

definition leaf_repaired :: "'x leaves \<Rightarrow> 'x py_value \<Rightarrow> 'x py_value \<Rightarrow> bool" where
  "leaf_repaired l v v' \<longleftrightarrow> (case v of Py_Text s \<Rightarrow> v' = Py_Text (replace_surrogates s) | _ \<Rightarrow> v' = fst (repair_leaf l v []))"

lemma replaced_differs: "replace_surrogates s \<noteq> s \<longleftrightarrow> (\<exists>c \<in> set s. is_surrogate c)"
  using replace_surrogates_id[of s] replace_surrogates_clean[of s] by (simp only: has_surrogate_text) metis

lemma repair_text_facts:
  "fst (repair_text s path) = Py_Text (replace_surrogates s)" "snd (repair_text s path) = [] \<longleftrightarrow> \<not> (\<exists>c \<in> set s. is_surrogate c)"
  by (simp_all add: repair_text_def Let_def replaced_differs)

lemma repair_leaf_facts:
  "fst (repair_leaf l v path) = fst (repair_leaf l v [])" "snd (repair_leaf l v path) = [] \<longleftrightarrow> \<not> leaf_holds l v"
  by (simp_all add: repair_leaf_def repair_text_def Let_def split: option.split py_value.split)

lemma replace_clean: "\<not> (\<exists>c \<in> set (replace_surrogates s). is_surrogate c)"
  using replace_surrogates_clean by blast

lemma repair_leaf_holds:
  assumes "v = Py_Model c fs \<or> v = Py_Leaf x"
  shows "\<not> value_holds l (fst (repair_leaf l v path))"
proof (cases "snd (repair_leaf l v []) = []")
  case True
  moreover from this have "fst (repair_leaf l v []) = v"
    using replace_surrogates_id
    by (auto simp: repair_leaf_def repair_text_facts split: option.splits py_value.splits if_splits)
  ultimately show ?thesis using assms repair_leaf_facts[of l v path] by auto
next
  case False
  then obtain s where "fst (repair_leaf l v []) = Py_Text (replace_surrogates s)"
    by (auto simp: repair_leaf_def repair_text_facts split: option.splits py_value.splits if_splits)
  then show ?thesis using repair_leaf_facts(1)[of l v path] replace_clean by simp
qed

text \<open>The walk: what it returns holds nothing, it names a path exactly when something was held, and every entry is kept.\<close>

lemma repair_walk:
  shows "distinct_keys v \<Longrightarrow> repair_value l shown v path = (v', ps) \<Longrightarrow>
      repaired_as (leaf_repaired l) v v' \<and> \<not> value_holds l v' \<and> (ps = [] \<longleftrightarrow> \<not> value_holds l v)"
    and "(\<forall>x \<in> set items. distinct_keys (snd x)) \<Longrightarrow> repair_items l shown renamed items path = (items', ps) \<Longrightarrow>
      list_all2 (\<lambda>x y. fst y = new_key renamed (fst x) \<and> repaired_as (leaf_repaired l) (snd x) (snd y) \<and> \<not> value_holds l (snd y)) items items' \<and>
      (ps = [] \<longleftrightarrow> (\<forall>(k, v) \<in> set items. \<not> is_renamed renamed k \<and> \<not> value_holds l v))"
    and "(\<forall>v \<in> set vs. distinct_keys v) \<Longrightarrow> repair_list l shown vs i path = (vs', ps) \<Longrightarrow>
      list_all2 (\<lambda>v v'. repaired_as (leaf_repaired l) v v' \<and> \<not> value_holds l v') vs vs' \<and>
      (ps = [] \<longleftrightarrow> (\<forall>v \<in> set vs. \<not> value_holds l v))"
proof (induction l shown v path and l shown renamed items path and l shown vs i path
    arbitrary: v' ps and items' ps and vs' ps rule: repair_value_repair_items_repair_list.induct)
  case (1 l shown s path)
  then have "v' = Py_Text (replace_surrogates s)" "ps = [] \<longleftrightarrow> replace_surrogates s = s"
    by (auto simp: repair_text_def Let_def split: if_splits)
  moreover from this(2) replaced_differs[of s] have "ps = [] \<longleftrightarrow> \<not> (\<exists>c \<in> set s. is_surrogate c)" by blast
  moreover note replace_clean[of s]
  ultimately have "v' = Py_Text (replace_surrogates s)" "ps = [] \<longleftrightarrow> \<not> value_holds l (Py_Text s)" "\<not> value_holds l v'"
    by simp_all
  then show ?case by (auto simp: leaf_repaired_def simp del: value_holds.simps intro!: base)
next
  case (2 l shown items path)
  let ?r = "repaired_key_names (map fst items)"
  obtain items1 ps1 where run: "repair_items l shown ?r items path = (items1, ps1)" by fastforce
  have keys: "distinct (map fst items)" using 2(2) by simp
  note new = new_key_facts[OF keys]
  have inner: "\<forall>x \<in> set items. distinct_keys (snd x)" using 2(2) by auto
  note walked = 2(1)[OF inner run]
  then have pairs: "list_all2 (\<lambda>x y. fst y = new_key ?r (fst x) \<and> repaired_as (leaf_repaired l) (snd x) (snd y) \<and> \<not> value_holds l (snd y)) items items1"
    by blast
  have "map fst items1 = map (new_key ?r) (map fst items)" using pairs
    by (auto simp: list_all2_conv_all_nth intro!: nth_equalityI)
  moreover have "distinct (map (new_key ?r) (map fst items))" using keys new(2) by (simp only: distinct_map[of "new_key _"] simp_thms)
  ultimately have d: "distinct (map fst items1)" by (simp only:)
  then have out: "v' = Py_Dict items1" "ps = ps1" using 2(3) run by (simp_all add: py_dict_distinct)
  have "list_all2 (\<lambda>x y. key_repaired (fst x) (fst y) \<and> repaired_as (leaf_repaired l) (snd x) (snd y)) items items1"
    using pairs by (rule list.rel_mono_strong) (use new(1) in force)
  then have one: "repaired_as (leaf_repaired l) (Py_Dict items) v'" unfolding out by (rule dict[OF _ d])
  have "\<not> has_surrogate (fst y) \<and> \<not> value_holds l (snd y)" if "y \<in> set items1" for y
  proof -
    from that obtain i where i: "i < length items1" "y = items1 ! i" by (auto simp: in_set_conv_nth)
    with pairs have "i < length items" by (simp add: list_all2_lengthD)
    then have "fst (items ! i) \<in> set (map fst items)" by simp
    from new(1)[OF this] list_all2_nthD2[OF pairs i(1)] i(2) show ?thesis
      by (auto simp: key_repaired_def split: if_splits)
  qed
  then have two: "\<not> value_holds l v'" unfolding out by auto
  have "is_renamed ?r k = has_surrogate k" if "(k, v) \<in> set items" for k v
    by (rule new(3)) (use that in force)
  then have "ps = [] \<longleftrightarrow> \<not> value_holds l (Py_Dict items)" using walked unfolding out by auto
  with one two show ?case by blast
next
  case (3 l shown vs path)
  obtain vs1 ps1 where run: "repair_list l shown vs 0 path = (vs1, ps1)" by fastforce
  have "\<forall>v \<in> set vs. distinct_keys v" using 3(2) by auto
  note walked = 3(1)[OF this run]
  have out: "v' = Py_List vs1" "ps = ps1" using 3(3) run by simp_all
  from walked have "list_all2 (repaired_as (leaf_repaired l)) vs vs1" "\<forall>v \<in> set vs1. \<not> value_holds l v"
    by (auto elim: list.rel_mono_strong simp: list_all2_conv_all_nth in_set_conv_nth)
  with walked show ?case unfolding out by (auto intro: list)
next
  case (4 l shown vs path)
  obtain vs1 ps1 where run: "repair_list l shown vs 0 path = (vs1, ps1)" by fastforce
  have "\<forall>v \<in> set vs. distinct_keys v" using 4(2) by auto
  note walked = 4(1)[OF this run]
  have out: "v' = Py_List vs1" "ps = ps1" using 4(3) run by simp_all
  from walked have "list_all2 (repaired_as (leaf_repaired l)) vs vs1" "\<forall>v \<in> set vs1. \<not> value_holds l v"
    by (auto elim: list.rel_mono_strong simp: list_all2_conv_all_nth in_set_conv_nth)
  with walked show ?case unfolding out by (auto intro: list)
next
  case (5 l shown c fs path)
  then have "v' = fst (repair_leaf l (Py_Model c fs) path)" "ps = snd (repair_leaf l (Py_Model c fs) path)" by simp_all
  then show ?case using repair_leaf_holds[of "Py_Model c fs"] repair_leaf_facts[of l "Py_Model c fs" path]
    by (auto simp: leaf_repaired_def intro!: base)
next
  case (6 l shown x path)
  then have "v' = fst (repair_leaf l (Py_Leaf x) path)" "ps = snd (repair_leaf l (Py_Leaf x) path)" by simp_all
  then show ?case using repair_leaf_holds[of "Py_Leaf x"] repair_leaf_facts[of l "Py_Leaf x" path]
    by (auto simp: leaf_repaired_def intro!: base)
next
  case (8 l shown renamed k v items path)
  obtain w qs where one: "repair_value l shown v (join_path path (key_segment shown (new_key renamed k))) = (w, qs)" by fastforce
  obtain items1 rs where two: "repair_items l shown renamed items path = (items1, rs)" by fastforce
  have typed: "distinct_keys v" "\<forall>x \<in> set items. distinct_keys (snd x)" using 8(3) by simp_all
  note first = 8(1)[OF refl refl typed(1) one] and rest = 8(2)[OF refl refl one[symmetric] typed(2) two]
  from first rest 8(4) one two show ?case by (auto simp: Let_def)
next
  case (10 l shown v vs i path)
  obtain w qs where one: "repair_value l shown v (join_path path (decimal i)) = (w, qs)" by fastforce
  obtain vs1 rs where two: "repair_list l shown vs (Suc i) path = (vs1, rs)" by fastforce
  have typed: "distinct_keys v" "\<forall>v \<in> set vs. distinct_keys v" using 10(3) by simp_all
  note first = 10(1)[OF typed(1) one] and rest = 10(2)[OF one[symmetric] typed(2) two]
  from first rest 10(4) one two show ?case by auto
qed auto

end
