(* ===== verification/Record_Properties.thy ===== *)
theory Record_Properties
  imports Record_Repair
begin

text \<open>The properties of dumping and writing records, with a sample record whose mapping has an undecodable key.\<close>

section \<open>A sample record\<close>

definition sample_models :: models where
  "sample_models = [(''Bag'', [(u ''name'', Ann_Class False), (u ''data'', Ann_Generic True [Ann_Class False, Ann_Any])])]"

definition sample_bad :: pystr where "sample_bad = [107, 0xDCFF]"

definition sample_record :: "int py_value" where
  "sample_record = Py_Model ''Bag'' [(u ''name'', Py_Text (u ''c'')),
     (u ''data'', Py_Dict [(TextKey sample_bad, Py_Leaf 1), (TextKey [107, replacement], Py_Leaf 2)])]"

definition plain_dump :: "int dumper" where
  "plain_dump v = Inr (dumped Py_Leaf (\<lambda>_. u ''1'') v)"

lemma sample_typed: "well_typed sample_models sample_record"
  by (simp add: sample_models_def sample_record_def sample_bad_def model_fields_def u_def replacement_def is_surrogate_def)

lemma plain_structure: "dumps_by_structure Py_Leaf (\<lambda>_. u ''1'') plain_dump"
  by (simp add: dumps_by_structure_def plain_dump_def u_def is_surrogate_def)

section \<open>Properties\<close>

text \<open>C19: A field of a well-typed record that holds a mapping, at any depth and through recursive models, is one of the
  fields \<open>_mapping_fields\<close> selects: skipping the others misses no key.\<close>

theorem mapping_fields_are_found:
  assumes "well_typed ms (Py_Model c fs)" "(name, v) \<in> set fs" "holds_mapping v"
  shows "name \<in> set (mapping_fields ms c)"
  using skipped_holds_nothing[OF assms(1,2)] assms(3) by blast

theorem mapping_fields_are_found_witness: "u ''data'' \<in> set (mapping_fields sample_models ''Bag'')"
  by (rule mapping_fields_are_found[OF sample_typed[unfolded sample_record_def]]) auto

text \<open>C16: \<open>to_dict_keeping_surrogate_keys\<close> is the plain dump in which every key stays what it is: the placeholders
  that stand in for undecodable keys while pydantic dumps never collide with a key of the record and all
  become their originals again.\<close>

theorem keys_survive_the_dump:
  assumes "dumps_by_structure leaf key_text model_dump" "well_typed ms record"
  shows "to_dict_keeping_surrogate_keys ms model_dump record = Inr (dumped leaf key_text record)"
  by (rule dump_keeps_keys[OF assms])

theorem keys_survive_the_dump_witness:
  "to_dict_keeping_surrogate_keys sample_models plain_dump sample_record =
    Inr (Py_Dict [(TextKey (u ''name''), Py_Text (u ''c'')),
      (TextKey (u ''data''), Py_Dict [(TextKey sample_bad, Py_Leaf 1), (TextKey [107, replacement], Py_Leaf 2)])])"
  unfolding keys_survive_the_dump[OF plain_structure sample_typed]
  by (simp add: sample_record_def sample_bad_def py_dict_def u_def replacement_def)

text \<open>C17: \<open>to_dict\<close> of any record succeeds, no key in it holds a lone surrogate, and against the plain dump no entry is
  lost, moved or changed but for the keys that held one.\<close>

theorem to_dict_has_valid_keys:
  assumes "dumps_by_structure leaf key_text model_dump" "well_typed ms record"
  shows "\<exists>d. to_dict ms model_dump record = Inr d \<and> (\<forall>k \<in> all_keys d. \<not> has_surrogate k) \<and>
    repaired_as (\<lambda>v v'. scalar v \<and> v' = v) (dumped leaf key_text record) d"
proof -
  let ?d = "dumped leaf key_text record"
  note shape = dumped_form[OF assms(1), of "record"]
  have "to_dict ms model_dump record = Inr (repair_keys ?d)"
  proof (cases "holds_surrogate_key ms record")
    case True
    then show ?thesis using dump_keeps_keys[OF assms]
      by (simp add: to_dict_def to_dict_keeping_surrogate_keys_def and_then_def)
  next
    case False
    then have clean: "\<forall>k \<in> all_keys record. \<not> has_surrogate k" using holds_surrogate_all[OF assms(2)] by blast
    from dumped_keys[OF assms this] have "repair_keys ?d = ?d" by (rule repair_keys_clean[OF shape])
    with False clean assms(1) show ?thesis by (simp add: to_dict_def dumps_by_structure_def)
  qed
  with repair_keys_facts[OF shape] show ?thesis by blast
qed

theorem to_dict_has_valid_keys_witness:
  "\<exists>d. to_dict sample_models plain_dump sample_record = Inr d \<and> (\<forall>k \<in> all_keys d. \<not> has_surrogate k) \<and>
    repaired_as (\<lambda>v v'. scalar v \<and> v' = v) (dumped Py_Leaf (\<lambda>_. u ''1'') sample_record) d"
  by (rule to_dict_has_valid_keys[OF plain_structure sample_typed])

text \<open>C18: Writing a record as JSON hands orjson, in the end, a value without a lone surrogate anywhere that differs from
  the record's dump in nothing else, and paths are reported exactly when there was one.\<close>

theorem record_json_is_repaired:
  fixes dumps :: "'x py_value \<Rightarrow> bytes res"
  assumes "dumps_by_structure leaf key_text model_dump" "well_typed ms record"
    and "l = \<lparr>native = \<lambda>_. False, default_hook = None\<rparr>"
    and "\<And>v. value_holds l v \<Longrightarrow> \<exists>e. dumps v = Inl e \<and> catches TypeError (err_class e)"
  shows "\<exists>v' ps. \<not> value_holds l v' \<and> repaired_as (leaf_repaired l) (dumped leaf key_text record) v' \<and>
    (ps = [] \<longleftrightarrow> \<not> value_holds l (dumped leaf key_text record)) \<and>
    record_json_bytes ms model_dump shown dumps record =
      (if ps = [] then and_then (dumps (dumped leaf key_text record)) (\<lambda>data. Inr (data, []))
       else and_then (dumps v') (\<lambda>data. Inr (data, once ps)))"
proof -
  let ?d = "dumped leaf key_text record"
  obtain v' ps where run: "repair_value l shown ?d [] = (v', ps)" by fastforce
  have "distinct_keys ?d" using dump_form_distinct[OF dumped_form[OF assms(1)]] .
  note walked = repair_walk(1)[OF this run]
  have "record_json_bytes ms model_dump shown dumps record = json_bytes l shown dumps ?d"
    using dump_keeps_keys[OF assms(1,2)] assms(3) by (simp add: record_json_bytes_def and_then_def)
  also have "\<dots> = (if ps = [] then and_then (dumps ?d) (\<lambda>data. Inr (data, []))
       else and_then (dumps v') (\<lambda>data. Inr (data, once ps)))"
  proof (cases "value_holds l ?d")
    case True
    with assms(4) obtain e where "dumps ?d = Inl e" "catches TypeError (err_class e)" by blast
    with True walked run show ?thesis by (simp add: json_bytes_def)
  next
    case False
    then show ?thesis using walked run
      by (auto simp: json_bytes_def and_then_def split: sum.split)
  qed
  finally show ?thesis using walked by blast
qed

text \<open>An orjson that writes nothing but refuses what it has to.\<close>

definition sample_leaves :: "int leaves" where
  "sample_leaves = \<lparr>native = \<lambda>_. False, default_hook = None\<rparr>"

definition sample_dumps :: "int py_value \<Rightarrow> bytes res" where
  "sample_dumps v = (if value_holds sample_leaves v then raise_error TypeError ''surrogate'' else Inr [123, 125])"

theorem record_json_is_repaired_witness:
  "\<exists>ps. ps \<noteq> [] \<and> record_json_bytes sample_models plain_dump (\<lambda>_. u ''1'') sample_dumps sample_record = Inr ([123, 125], ps)"
proof -
  let ?d = "dumped Py_Leaf (\<lambda>_. u ''1'') sample_record"
  have "\<exists>e. sample_dumps v = Inl e \<and> catches TypeError (err_class e)" if "value_holds sample_leaves v" for v
    using that by (simp add: sample_dumps_def catches_def numeral_3_eq_3)
  from record_json_is_repaired[where dumps = sample_dumps and shown = "\<lambda>_. u ''1''", OF plain_structure sample_typed sample_leaves_def this]
  obtain v' ps where v': "\<not> value_holds sample_leaves v'" "ps = [] \<longleftrightarrow> \<not> value_holds sample_leaves ?d"
    "record_json_bytes sample_models plain_dump (\<lambda>_. u ''1'') sample_dumps sample_record =
      (if ps = [] then and_then (sample_dumps ?d) (\<lambda>data. Inr (data, [])) else and_then (sample_dumps v') (\<lambda>data. Inr (data, once ps)))"
    by blast
  have "value_holds sample_leaves ?d"
    by (simp add: sample_record_def sample_bad_def py_dict_def u_def replacement_def is_surrogate_def)
  moreover have "once ps \<noteq> []" if "ps \<noteq> []"
  proof -
    have "set (once ps) = set ps" unfolding once_def set_map keys_py_dict by force
    with that show ?thesis by auto
  qed
  ultimately show ?thesis using v' by (auto simp: sample_dumps_def and_then_def)
qed

end
