(* ===== verification/Overrides.thy ===== *)
theory Overrides
  imports Record_Keys "HOL-Library.Sublist"
begin

text \<open>
  \<open>adapters/config/overrides.py\<close>: parsing \<open>--set SECTION.KEY=VALUE\<close> and nesting the overrides into one table.
  A value is a \<open>py_value\<close>, as \<open>orjson.loads\<close> (the parameter \<open>loads\<close>) gives it; a table is a \<open>Py_Dict\<close>. The last
  part relates the table to the overrides it came from.
\<close>

section \<open>One override\<close>

record 'x override =
  ov_section :: pystr
  ov_key_path :: "pystr list"
  ov_value :: "'x py_value"

definition coerce_value :: "(pystr \<Rightarrow> 'x py_value option) \<Rightarrow> pystr \<Rightarrow> 'x py_value" where
  "coerce_value loads raw =
     (if raw = [] then Py_Text [] else case loads raw of None \<Rightarrow> Py_Text raw | Some v \<Rightarrow> v)"

definition parse_override :: "(pystr \<Rightarrow> 'x py_value option) \<Rightarrow> pystr \<Rightarrow> 'x override res" where
  "parse_override loads raw =
     (if equals_sign \<notin> set raw then raise_error ValueError ''no =''
      else let (path_part, _, value_str) = partition_at equals_sign raw in
        if ch CHR ''.'' \<notin> set path_part then raise_error ValueError ''no dot''
        else let parts = split_on (ch CHR ''.'') path_part in
          if hd parts = [] then raise_error ValueError ''empty section''
          else if [] \<in> set (tl parts) then raise_error ValueError ''empty key''
          else Inr \<lparr>ov_section = hd parts, ov_key_path = tl parts, ov_value = coerce_value loads value_str\<rparr>)"

section \<open>All of them\<close>

text \<open>Setting a value below a table: missing tables are made on the way.\<close>

fun put_value :: "'x py_value \<Rightarrow> pystr list \<Rightarrow> 'x py_value \<Rightarrow> 'x py_value res" where
  "put_value (Py_Dict items) [k] v = Inr (Py_Dict (AList.update (TextKey k) v items))"
| "put_value (Py_Dict items) (k # p # ps) v =
     and_then (put_value (case map_of items (TextKey k) of None \<Rightarrow> Py_Dict [] | Some sub \<Rightarrow> sub) (p # ps) v)
       (\<lambda>sub. Inr (Py_Dict (AList.update (TextKey k) sub items)))"
| "put_value node [k] v = raise_error TypeError ''no item assignment''"
| "put_value node (k # p # ps) v = raise_error AttributeError ''setdefault''"
| "put_value node [] v = Inr v"

definition override_path :: "'x override \<Rightarrow> pystr list" where
  "override_path ov = ov_section ov # ov_key_path ov"

definition nest_override :: "'x py_value \<Rightarrow> 'x override \<Rightarrow> 'x py_value res" where
  "nest_override target ov = put_value target (override_path ov) (ov_value ov)"

definition dotted_key :: "'x override \<Rightarrow> pystr" where
  "dotted_key ov = join [ch CHR ''.''] (override_path ov)"

definition refuse_conflicts :: "pystr list \<Rightarrow> unit res" where
  "refuse_conflicts keys =
     (if \<exists>key \<in> set keys. \<exists>other \<in> set keys. startswith other (key @ [ch CHR ''.''])
      then raise_error ValueError ''conflicting overrides'' else Inr ())"

fun nest_all :: "'x override list \<Rightarrow> 'x py_value \<Rightarrow> 'x py_value res" where
  "nest_all [] target = Inr target"
| "nest_all (ov # ovs) target = and_then (nest_override target ov) (nest_all ovs)"

definition nest_overrides :: "(pystr \<Rightarrow> 'x py_value option) \<Rightarrow> pystr list \<Rightarrow> ('x py_value \<times> pystr set) res" where
  "nest_overrides loads raws =
     and_then (map_res (parse_override loads) raws) (\<lambda>ovs.
     and_then (refuse_conflicts (map dotted_key ovs)) (\<lambda>_.
     and_then (nest_all ovs (Py_Dict [])) (\<lambda>tree. Inr (tree, set (map dotted_key ovs)))))"

text \<open>\<open>with_overrides\<close> is the configuration library's merge.\<close>

definition apply_overrides :: "('c \<Rightarrow> 'x py_value \<Rightarrow> 'c) \<Rightarrow> (pystr \<Rightarrow> 'x py_value option) \<Rightarrow> 'c \<Rightarrow> pystr list \<Rightarrow> 'c res" where
  "apply_overrides with_overrides loads config raws =
     (if raws = [] then Inr config
      else and_then (nest_overrides loads raws) (\<lambda>(tree, _). Inr (with_overrides config tree)))"

section \<open>Reading a table\<close>

fun look_up :: "'x py_value \<Rightarrow> pystr list \<Rightarrow> 'x py_value option" where
  "look_up v [] = Some v"
| "look_up (Py_Dict items) (k # ks) = (case map_of items (TextKey k) of None \<Rightarrow> None | Some sub \<Rightarrow> look_up sub ks)"
| "look_up v (k # ks) = None"

definition is_table :: "'x py_value option \<Rightarrow> bool" where
  "is_table v \<longleftrightarrow> (\<exists>items. v = Some (Py_Dict items))"

lemma strict_prefix_Cons: "strict_prefix p (k # ks) \<longleftrightarrow> p = [] \<or> (\<exists>q. p = k # q \<and> strict_prefix q ks)"
  by (cases p) auto

lemma put_value_reads:
  assumes "p \<noteq> []" "\<And>p'. strict_prefix p' p \<Longrightarrow> look_up t p' = None \<or> is_table (look_up t p')"
  shows "\<exists>t'. put_value t p v = Inr t' \<and> look_up t' p = Some v \<and> (\<forall>p'. strict_prefix p' p \<longrightarrow> is_table (look_up t' p')) \<and>
    (\<forall>q. \<not> prefix p q \<and> \<not> prefix q p \<longrightarrow> look_up t' q = look_up t q)"
  using assms
proof (induction p arbitrary: t)
  case (Cons k ks)
  have "is_table (look_up t [])" using Cons.prems(2)[of "[]"] by simp
  then obtain items where t: "t = Py_Dict items" by (auto simp: is_table_def)
  show ?case
  proof (cases ks)
    case Nil
    have "look_up (Py_Dict (AList.update (TextKey k) v items)) q = look_up t q"
      if "\<not> prefix [k] q" "\<not> prefix q [k]" for q
      using that t by (cases q) (auto simp: update_conv')
    moreover have "is_table (look_up (Py_Dict (AList.update (TextKey k) v items)) p')" if "strict_prefix p' [k]" for p'
      using that by (auto simp: strict_prefix_Cons is_table_def)
    ultimately show ?thesis using Nil t by (auto simp: update_conv')
  next
    case (Cons l ls)
    define sub where "sub = (case map_of items (TextKey k) of None \<Rightarrow> Py_Dict [] | Some s \<Rightarrow> s)"
    have sub: "look_up sub q = None \<or> is_table (look_up sub q)" if "strict_prefix q ks" for q
    proof (cases "map_of items (TextKey k)")
      case None
      then show ?thesis by (cases q) (auto simp: sub_def is_table_def)
    next
      case (Some s)
      have "strict_prefix (k # q) (k # ks)" using that by simp
      from Cons.prems(2)[OF this] Some t show ?thesis by (simp add: sub_def)
    qed
    have "ks \<noteq> []" using Cons by simp
    from Cons.IH[OF this sub] obtain s where s: "put_value sub ks v = Inr s" "look_up s ks = Some v"
      "\<forall>p'. strict_prefix p' ks \<longrightarrow> is_table (look_up s p')"
      "\<forall>q. \<not> prefix ks q \<and> \<not> prefix q ks \<longrightarrow> look_up s q = look_up sub q" by blast
    let ?t = "Py_Dict (AList.update (TextKey k) s items)"
    have "put_value t (k # ks) v = Inr ?t" using t Cons s(1) by (simp add: sub_def)
    moreover have "look_up ?t (k # ks) = Some v" using s(2) by (simp add: update_conv')
    moreover have "is_table (look_up ?t p')" if "strict_prefix p' (k # ks)" for p'
      using that s(3) by (auto simp: strict_prefix_Cons update_conv' is_table_def)
    moreover have "look_up ?t q = look_up t q" if q: "\<not> prefix (k # ks) q" "\<not> prefix q (k # ks)" for q
    proof (cases q)
      case (Cons m ms)
      show ?thesis
      proof (cases "m = k")
        case True
        then have "look_up s ms = look_up sub ms" using q Cons s(4) by simp
        moreover have "look_up sub ms = None" if "map_of items (TextKey k) = None"
          using that q Cons True by (cases ms) (auto simp: sub_def)
        ultimately show ?thesis using t True Cons by (auto simp: update_conv' sub_def split: option.split)
      qed (use t Cons in \<open>simp add: update_conv'\<close>)
    qed (use q in simp)
    ultimately show ?thesis by blast
  qed
qed simp

text \<open>Overrides whose paths do not extend one another.\<close>

definition conflict_free :: "'x override list \<Rightarrow> bool" where
  "conflict_free ovs \<longleftrightarrow> (\<forall>a \<in> set ovs. \<forall>b \<in> set ovs. \<not> strict_prefix (override_path a) (override_path b))"

definition holds_overrides :: "'x override list \<Rightarrow> 'x py_value \<Rightarrow> bool" where
  "holds_overrides ovs t \<longleftrightarrow>
     (\<forall>ov \<in> set ovs. look_up t (override_path ov) = map_of (rev (map (\<lambda>x. (override_path x, ov_value x)) ovs)) (override_path ov) \<and>
        (\<forall>p. strict_prefix p (override_path ov) \<longrightarrow> is_table (look_up t p))) \<and>
     (\<forall>p. p \<noteq> [] \<and> look_up t p \<noteq> None \<longrightarrow> (\<exists>ov \<in> set ovs. prefix p (override_path ov) \<or> prefix (override_path ov) p))"

lemma holds_one_more:
  assumes free: "conflict_free (ovs @ [ov])" and holds: "holds_overrides ovs t" and table: "is_table (Some t)"
  shows "\<exists>t'. nest_override t ov = Inr t' \<and> holds_overrides (ovs @ [ov]) t' \<and> is_table (Some t')"
proof -
  let ?p = "override_path ov"
  have apart: "\<not> strict_prefix (override_path a) ?p" "\<not> strict_prefix ?p (override_path a)" if "a \<in> set ovs" for a
    using free that unfolding conflict_free_def by auto
  have ready: "look_up t q = None \<or> is_table (look_up t q)" if q: "strict_prefix q ?p" for q
  proof (cases "q = [] \<or> look_up t q = None")
    case False
    with holds obtain a where a: "a \<in> set ovs" "prefix q (override_path a) \<or> prefix (override_path a) q"
      unfolding holds_overrides_def by blast
    have "strict_prefix q (override_path a)"
    proof (rule ccontr)
      assume "\<not> strict_prefix q (override_path a)"
      with a(2) have "prefix (override_path a) q" by (auto simp: strict_prefix_def)
      with q have "strict_prefix (override_path a) ?p" by (metis prefix_order.le_less_trans)
      with apart(1)[OF a(1)] show False ..
    qed
    with holds a(1) show ?thesis unfolding holds_overrides_def by blast
  qed (use table in auto)
  have "?p \<noteq> []" by (simp add: override_path_def)
  from put_value_reads[OF this ready, of "ov_value ov"] obtain t' where t': "put_value t ?p (ov_value ov) = Inr t'"
    "look_up t' ?p = Some (ov_value ov)" "\<And>q. strict_prefix q ?p \<Longrightarrow> is_table (look_up t' q)"
    "\<And>q. \<not> prefix ?p q \<Longrightarrow> \<not> prefix q ?p \<Longrightarrow> look_up t' q = look_up t q" by blast
  have kept: "look_up t' q = look_up t q \<or> is_table (look_up t' q)" if "a \<in> set ovs" "strict_prefix q (override_path a)" for a q
  proof -
    have "\<not> prefix ?p q" using that apart(2)[OF that(1)] by (metis prefix_order.le_less_trans)
    with t'(3,4)[of q] show ?thesis by (cases "prefix q ?p") (auto simp: strict_prefix_def)
  qed
  have "holds_overrides (ovs @ [ov]) t'"
    unfolding holds_overrides_def
  proof (intro conjI ballI allI impI)
    fix a assume a: "a \<in> set (ovs @ [ov])"
    show "look_up t' (override_path a) = map_of (rev (map (\<lambda>x. (override_path x, ov_value x)) (ovs @ [ov]))) (override_path a)"
    proof (cases "override_path a = ?p")
      case False
      with a have "a \<in> set ovs" by auto
      moreover from apart[OF this] False have "\<not> prefix ?p (override_path a)" "\<not> prefix (override_path a) ?p"
        by (auto simp: strict_prefix_def)
      ultimately show ?thesis using t'(4) holds False unfolding holds_overrides_def by auto
    qed (use t'(2) in simp)
    show "is_table (look_up t' q)" if q: "strict_prefix q (override_path a)" for q
    proof (cases "a \<in> set ovs")
      case True
      with q holds kept[OF True q] show ?thesis unfolding holds_overrides_def by metis
    qed (use a q t'(3) in auto)
  next
    fix q assume q: "q \<noteq> [] \<and> look_up t' q \<noteq> None"
    show "\<exists>a \<in> set (ovs @ [ov]). prefix q (override_path a) \<or> prefix (override_path a) q"
    proof (cases "prefix ?p q \<or> prefix q ?p")
      case False
      with t'(4) q have "look_up t q \<noteq> None" by metis
      with q holds show ?thesis unfolding holds_overrides_def by auto
    qed auto
  qed
  moreover have "is_table (Some t')" using t'(3)[of "[]"] \<open>?p \<noteq> []\<close>
    by (cases ?p) simp_all
  ultimately show ?thesis using t'(1) by (auto simp: nest_override_def)
qed

lemma nest_all_holds:
  "conflict_free (before @ ovs) \<Longrightarrow> holds_overrides before t \<Longrightarrow> is_table (Some t) \<Longrightarrow>
   \<exists>t'. nest_all ovs t = Inr t' \<and> holds_overrides (before @ ovs) t'"
proof (induction ovs arbitrary: before t)
  case (Cons ov ovs)
  have "conflict_free (before @ [ov])" using Cons.prems(1) by (auto simp: conflict_free_def)
  from holds_one_more[OF this Cons.prems(2,3)] obtain t' where t': "nest_override t ov = Inr t'"
    "holds_overrides (before @ [ov]) t'" "is_table (Some t')" by blast
  with Cons.IH[of "before @ [ov]" t'] Cons.prems(1) show ?case by simp
qed simp

section \<open>Dotted keys\<close>

lemma join_append: "xs \<noteq> [] \<Longrightarrow> ys \<noteq> [] \<Longrightarrow> join [c] (xs @ ys) = join [c] xs @ c # join [c] ys"
  by (induction "[c]" xs rule: join.induct) (auto simp: neq_Nil_conv)

lemma dotted_prefix:
  assumes "xs \<noteq> []" "ys \<noteq> []" "\<forall>x \<in> set xs. c \<notin> set x" "\<forall>y \<in> set ys. c \<notin> set y"
  shows "prefix (join [c] xs @ [c]) (join [c] ys) \<longleftrightarrow> strict_prefix xs ys"
proof
  assume "prefix (join [c] xs @ [c]) (join [c] ys)"
  then obtain r where "join [c] ys = join [c] xs @ c # r" by (auto simp: prefix_def)
  also have "\<dots> = join [c] (xs @ split_on c r)" using join_append[OF assms(1), of "split_on c r" c] by (simp add: join_split_on)
  finally have "split_on c (join [c] ys) = split_on c (join [c] (xs @ split_on c r))" by simp
  then have "ys = xs @ split_on c r"
    using assms split_on_pieces[of _ c r] by (subst (asm) (1 2) split_on_join) auto
  then show "strict_prefix xs ys" by (simp add: strict_prefix_def)
next
  assume "strict_prefix xs ys"
  then obtain zs where "ys = xs @ zs" "zs \<noteq> []" by (auto simp: strict_prefix_def prefix_def)
  with assms(1) show "prefix (join [c] xs @ [c]) (join [c] ys)" by (simp add: join_append prefix_def)
qed

lemma parsed_parts:
  assumes "parse_override loads raw = Inr ov"
  shows "\<forall>x \<in> set (override_path ov). ch CHR ''.'' \<notin> set x"
proof -
  obtain path_part where "override_path ov = split_on (ch CHR ''.'') path_part"
    using assms by (auto simp: parse_override_def override_path_def Let_def split: prod.splits if_splits)
  then show ?thesis using split_on_pieces by fastforce
qed

lemma parse_error: "parse_override loads raw = Inl e \<Longrightarrow> err_class e = ValueError"
  by (auto simp: parse_override_def Let_def split: prod.splits if_splits)

lemma map_res_error: "map_res f xs = Inl e \<Longrightarrow> \<exists>x \<in> set xs. f x = Inl e"
  by (induction xs) (auto simp: and_then_Inl)

lemma conflicts_refused:
  assumes "map_res (parse_override loads) raws = Inr ovs"
  shows "refuse_conflicts (map dotted_key ovs) = (if conflict_free ovs then Inr () else raise_error ValueError ''conflicting overrides'')"
proof -
  have "\<forall>ov \<in> set ovs. \<exists>raw. parse_override loads raw = Inr ov"
    using assms by (auto simp: map_res_Inr list_all2_conv_all_nth in_set_conv_nth) blast
  then have parts: "\<forall>x \<in> set (override_path ov). ch CHR ''.'' \<notin> set x" if "ov \<in> set ovs" for ov
    using that parsed_parts by blast
  have "prefix (dotted_key a @ [ch CHR ''.'']) (dotted_key b) \<longleftrightarrow> strict_prefix (override_path a) (override_path b)"
    if "a \<in> set ovs" "b \<in> set ovs" for a b
    unfolding dotted_key_def by (rule dotted_prefix) (use parts that in \<open>auto simp: override_path_def\<close>)
  then show ?thesis by (auto simp: refuse_conflicts_def conflict_free_def)
qed

section \<open>Properties\<close>

lemma nest_overrides_cases:
  "nest_overrides loads raws = (case map_res (parse_override loads) raws of
      Inl e \<Rightarrow> Inl e
    | Inr ovs \<Rightarrow> if conflict_free ovs then and_then (nest_all ovs (Py_Dict [])) (\<lambda>tree. Inr (tree, set (map dotted_key ovs)))
        else raise_error ValueError ''conflicting overrides'')"
  by (auto simp: nest_overrides_def conflicts_refused split: sum.split)

lemma nest_all_empty:
  assumes "conflict_free ovs"
  shows "\<exists>tree. nest_all ovs (Py_Dict []) = Inr tree \<and> holds_overrides ovs tree"
proof -
  have "look_up (Py_Dict []) p \<noteq> None \<longrightarrow> p = []" for p by (cases p) auto
  then have "holds_overrides [] (Py_Dict [])" unfolding holds_overrides_def by auto
  from nest_all_holds[of "[]" ovs, OF _ this] assms show ?thesis by (simp add: is_table_def)
qed

text \<open>C20: The nested table holds, at every path an override gives, the value of the last override that gives it, has only
  tables above such a path and nothing at a path that no override leads to; the keys returned are the dotted paths.\<close>

theorem overrides_are_nested:
  assumes "nest_overrides loads raws = Inr (tree, keys)"
  shows "\<exists>ovs. list_all2 (\<lambda>raw ov. parse_override loads raw = Inr ov) raws ovs \<and> keys = dotted_key ` set ovs \<and>
    (\<forall>ov \<in> set ovs. look_up tree (override_path ov) = map_of (rev (map (\<lambda>x. (override_path x, ov_value x)) ovs)) (override_path ov) \<and>
       (\<forall>p. strict_prefix p (override_path ov) \<longrightarrow> is_table (look_up tree p))) \<and>
    (\<forall>p. p \<noteq> [] \<and> look_up tree p \<noteq> None \<longrightarrow> (\<exists>ov \<in> set ovs. prefix p (override_path ov) \<or> prefix (override_path ov) p))"
proof -
  obtain ovs where parsed: "map_res (parse_override loads) raws = Inr ovs" and free: "conflict_free ovs"
    and tree: "nest_all ovs (Py_Dict []) = Inr tree" "keys = dotted_key ` set ovs"
    using assms by (auto simp: nest_overrides_cases and_then_Inr split: sum.splits if_splits)
  have "holds_overrides ovs tree" using nest_all_empty[OF free] tree(1) by auto
  with parsed tree(2) show ?thesis unfolding holds_overrides_def map_res_Inr by blast
qed

definition no_json :: "pystr \<Rightarrow> nat py_value option" where "no_json raw = None"

theorem overrides_are_nested_witness:
  "\<exists>tree keys. nest_overrides no_json [u ''a.b=x'', u ''a.b=y''] = Inr (tree, keys) \<and> look_up tree [u ''a'', u ''b''] = Some (Py_Text (u ''y''))"
proof -
  let ?o = "\<lambda>v. \<lparr>ov_section = u ''a'', ov_key_path = [u ''b''], ov_value = Py_Text v :: nat py_value\<rparr>"
  have parsed: "parse_override no_json (u ''a.b=x'') = Inr (?o (u ''x''))" "parse_override no_json (u ''a.b=y'') = Inr (?o (u ''y''))"
    by (simp_all add: parse_override_def partition_at_def coerce_value_def no_json_def u_def)
  have free: "conflict_free [?o (u ''x''), ?o (u ''y'')]" by (simp add: conflict_free_def override_path_def)
  from nest_all_empty[OF this] obtain tree where "nest_all [?o (u ''x''), ?o (u ''y'')] (Py_Dict []) = Inr tree" by blast
  with parsed free have run: "nest_overrides no_json [u ''a.b=x'', u ''a.b=y''] = Inr (tree, dotted_key ` {?o (u ''x''), ?o (u ''y'')})"
    by (simp add: nest_overrides_cases)
  from overrides_are_nested[OF run] obtain ovs where ovs:
    "list_all2 (\<lambda>raw ov. parse_override no_json raw = Inr ov) [u ''a.b=x'', u ''a.b=y''] ovs"
    "\<forall>ov \<in> set ovs. look_up tree (override_path ov) = map_of (rev (map (\<lambda>x. (override_path x, ov_value x)) ovs)) (override_path ov)"
    by blast
  from ovs(1) parsed have "ovs = [?o (u ''x''), ?o (u ''y'')]" by (auto simp: list_all2_Cons1)
  with ovs(2) have "look_up tree [u ''a'', u ''b''] = Some (Py_Text (u ''y''))" by (simp add: override_path_def)
  with run show ?thesis by blast
qed

definition bad_overrides :: "(pystr \<Rightarrow> 'x py_value option) \<Rightarrow> pystr list \<Rightarrow> bool" where
  "bad_overrides loads raws \<longleftrightarrow> (\<exists>raw \<in> set raws. \<exists>e. parse_override loads raw = Inl e) \<or>
     (\<exists>a \<in> set raws. \<exists>b \<in> set raws. \<exists>x y. parse_override loads a = Inr x \<and> parse_override loads b = Inr y \<and>
        strict_prefix (override_path x) (override_path y))"

lemma bad_overrides_parsed:
  assumes "map_res (parse_override loads) raws = Inr ovs"
  shows "bad_overrides loads raws \<longleftrightarrow> \<not> conflict_free ovs"
proof -
  have all: "list_all2 (\<lambda>raw ov. parse_override loads raw = Inr ov) raws ovs" using assms by (simp add: map_res_Inr)
  then have raws: "\<exists>ov \<in> set ovs. parse_override loads raw = Inr ov" if "raw \<in> set raws" for raw
    using that by (force simp: list_all2_conv_all_nth in_set_conv_nth)
  from all have ovs: "\<exists>raw \<in> set raws. parse_override loads raw = Inr ov" if "ov \<in> set ovs" for ov
    using that by (force simp: list_all2_conv_all_nth in_set_conv_nth)
  have parsed: "x \<in> set ovs" if "raw \<in> set raws" "parse_override loads raw = Inr x" for raw x
    using raws[OF that(1)] that(2) by auto
  have fine: "parse_override loads raw \<noteq> Inl e" if "raw \<in> set raws" for raw e
    using raws[OF that] by auto
  show ?thesis
  proof
    assume "bad_overrides loads raws"
    then obtain a b x y where "a \<in> set raws" "b \<in> set raws" "parse_override loads a = Inr x"
      "parse_override loads b = Inr y" "strict_prefix (override_path x) (override_path y)"
      unfolding bad_overrides_def using fine by blast
    with parsed show "\<not> conflict_free ovs" unfolding conflict_free_def by blast
  next
    assume "\<not> conflict_free ovs"
    then obtain x y where "x \<in> set ovs" "y \<in> set ovs" "strict_prefix (override_path x) (override_path y)"
      unfolding conflict_free_def by blast
    with ovs[of x] ovs[of y] show "bad_overrides loads raws" unfolding bad_overrides_def by blast
  qed
qed

text \<open>C21: Nesting fails exactly when an override is malformed or one override's path continues another's, and then with
  a \<open>ValueError\<close>: a value never sits where a table is needed.\<close>

theorem overrides_are_refused:
  "case nest_overrides loads raws of Inl e \<Rightarrow> err_class e = ValueError \<and> bad_overrides loads raws
     | Inr _ \<Rightarrow> \<not> bad_overrides loads raws"
proof (cases "map_res (parse_override loads) raws")
  case (Inl e)
  with map_res_error[OF Inl] parse_error show ?thesis
    by (auto simp: nest_overrides_cases bad_overrides_def)
next
  case (Inr ovs)
  with bad_overrides_parsed[OF Inr] nest_all_empty[of ovs] show ?thesis by (auto simp: nest_overrides_cases)
qed

end
