(* ===== verification/Known_Folders.thy ===== *)
theory Known_Folders
  imports Py_Paths Fileio
begin

text \<open>
  \<open>adapters/native/known_folders.py\<close>: the path .NET's \<open>Environment.GetFolderPath\<close> names, on Linux, macOS and
  Windows. The environment is the list of its variables; what the operating system says (passwd entries,
  \<open>access\<close>, the text of \<open>user-dirs.dirs\<close>, the shell's answer) is a parameter.
\<close>

section \<open>Tables\<close>

datatype known_folder = DESKTOP | DOCUMENTS | LOCAL_APP_DATA | ROAMING_APP_DATA | PROGRAM_DATA | PROGRAMS

type_synonym environment = "(pystr \<times> pystr) list"

definition common_application_data :: pystr where "common_application_data = u ''/usr/share''"
definition user_dirs_file :: pystr where "user_dirs_file = u ''user-dirs.dirs''"
definition home_prefix :: pystr where "home_prefix = u ''$HOME/''"

definition xdg_user_dirs :: "known_folder \<Rightarrow> (pystr \<times> pystr) option" where
  "xdg_user_dirs folder = (case folder of
      DESKTOP \<Rightarrow> Some (u ''XDG_DESKTOP_DIR'', u ''Desktop'')
    | DOCUMENTS \<Rightarrow> Some (u ''XDG_DOCUMENTS_DIR'', u ''Documents'')
    | _ \<Rightarrow> None)"

definition macos_user_dirs :: "known_folder \<Rightarrow> pystr option" where
  "macos_user_dirs folder = (case folder of
      DESKTOP \<Rightarrow> Some (u ''Desktop'')
    | DOCUMENTS \<Rightarrow> Some (u ''Documents'')
    | ROAMING_APP_DATA \<Rightarrow> Some (u ''Library/Application Support'')
    | LOCAL_APP_DATA \<Rightarrow> Some (u ''Library/Application Support'')
    | _ \<Rightarrow> None)"

definition foundation_prefixes :: "pystr list" where
  "foundation_prefixes = [u ''/private/var/automount'', u ''/var/automount'', u ''/private'']"

definition folder_ids :: "known_folder \<Rightarrow> pystr" where
  "folder_ids folder = (case folder of
      DESKTOP \<Rightarrow> u ''{B4BFCC3A-DB2C-424C-B029-7FE99A87C641}''
    | DOCUMENTS \<Rightarrow> u ''{FDD39AD0-238F-46AF-ADB4-6C85480369C7}''
    | LOCAL_APP_DATA \<Rightarrow> u ''{F1B32785-6FBA-4FCF-9D55-7B8E7F157091}''
    | ROAMING_APP_DATA \<Rightarrow> u ''{3EB685DB-65F9-4CF6-A03A-E3EF65729F3D}''
    | PROGRAM_DATA \<Rightarrow> u ''{62AB5D82-FDC1-4DC3-A9DD-070D1D495D97}''
    | PROGRAMS \<Rightarrow> u ''{A77F5D77-2E2B-44C3-A6A2-ABA601054A51}'')"

definition env_fallbacks :: "known_folder \<Rightarrow> pystr option" where
  "env_fallbacks folder = (case folder of
      LOCAL_APP_DATA \<Rightarrow> Some (u ''LOCALAPPDATA'')
    | ROAMING_APP_DATA \<Rightarrow> Some (u ''APPDATA'')
    | PROGRAM_DATA \<Rightarrow> Some (u ''ProgramData'')
    | _ \<Rightarrow> None)"

definition not_found :: "int set" where "not_found = {0x80070002, 0x80070003}"

text \<open>Latin-1's whitespace, and above it the categories Zs, Zl and Zp.\<close>

definition is_dotnet_whitespace :: "nat \<Rightarrow> bool" where
  "is_dotnet_whitespace c \<longleftrightarrow>
     (if c \<le> 255 then (9 \<le> c \<and> c \<le> 13) \<or> c \<in> {32, 133, 160}
      else c = 5760 \<or> (8192 \<le> c \<and> c \<le> 8202) \<or> c \<in> {8232, 8233, 8239, 8287, 12288})"

datatype text_encoding = Enc_Utf8 | Enc_Utf8_Sig | Enc_Utf16 | Enc_Utf32

definition byte_order_marks :: "(bytes \<times> text_encoding) list" where
  "byte_order_marks =
     [([0xFF, 0xFE, 0, 0], Enc_Utf32), ([0, 0, 0xFE, 0xFF], Enc_Utf32), ([0xEF, 0xBB, 0xBF], Enc_Utf8_Sig),
      ([0xFF, 0xFE], Enc_Utf16), ([0xFE, 0xFF], Enc_Utf16)]"

definition stream_reader_encoding :: "bytes \<Rightarrow> text_encoding" where
  "stream_reader_encoding head = (case filter (\<lambda>(mark, _). prefix mark head) byte_order_marks of
      [] \<Rightarrow> Enc_Utf8 | (_, encoding) # _ \<Rightarrow> encoding)"

section \<open>What the operating system says\<close>

text \<open>
  \<open>file_head\<close>: the first bytes of a file, or none when it cannot be opened. \<open>file_text\<close>: what the decoder gives, and
  whether it came to the end of the file rather than to a failing read; before a failing read the decoder
  holds a final CR back.
\<close>

record folder_os =
  effective_uid :: int
  real_uid :: int
  passwd_dir :: "int \<Rightarrow> pystr option"
  access_read :: "pystr \<Rightarrow> bool"
  path_exists :: "pystr \<Rightarrow> bool"
  file_head :: "pystr \<Rightarrow> bytes option"
  file_text :: "pystr \<Rightarrow> text_encoding \<Rightarrow> pystr \<times> bool"

definition readable :: "folder_os \<Rightarrow> pystr \<Rightarrow> bool" where
  "readable os path \<longleftrightarrow> path \<noteq> [] \<and> 0 \<notin> set path \<and> access_read os path"

definition join_paths :: "pystr \<Rightarrow> pystr \<Rightarrow> pystr" where
  "join_paths first second =
     (if first = [] then second else if second = [] then first
      else if endswith first [slash_char] \<or> startswith second [slash_char] then first @ second
      else first @ slash_char # second)"

section \<open>Homes\<close>

definition env_get :: "environment \<Rightarrow> pystr \<Rightarrow> pystr option" where
  "env_get env key = map_of env key"

definition passwd_home :: "folder_os \<Rightarrow> int \<Rightarrow> pystr option" where
  "passwd_home os uid = (case passwd_dir os uid of None \<Rightarrow> None | Some dir \<Rightarrow> if dir = [] then None else Some dir)"

definition dotnet_home :: "folder_os \<Rightarrow> environment \<Rightarrow> pystr" where
  "dotnet_home os env =
     (let other = (case passwd_home os (effective_uid os) of Some dir \<Rightarrow> dir | None \<Rightarrow> [slash_char]) in
      case env_get env (u ''HOME'') of None \<Rightarrow> other | Some home \<Rightarrow> if home \<noteq> [] then home else other)"

definition corefoundation_passwd_home :: "folder_os \<Rightarrow> pystr option" where
  "corefoundation_passwd_home os =
     passwd_home os (if effective_uid os \<noteq> 0 then effective_uid os else real_uid os)"

definition corefoundation_home :: "folder_os \<Rightarrow> environment \<Rightarrow> pystr" where
  "corefoundation_home os env =
     (let home = (case corefoundation_passwd_home os of
            Some dir \<Rightarrow> dir
          | None \<Rightarrow> (case env_get env (u ''HOME'') of Some home \<Rightarrow> home | None \<Rightarrow> [])) in
      case env_get env (u ''CFFIXED_USER_HOME'') of
        Some fixed \<Rightarrow> if fixed \<noteq> [] then fixed else home
      | None \<Rightarrow> home)"

definition absolute_env :: "environment \<Rightarrow> pystr \<Rightarrow> pystr option" where
  "absolute_env env key = (case env_get env key of
      Some v \<Rightarrow> if startswith v [slash_char] then Some v else None | None \<Rightarrow> None)"

definition xdg_config :: "pystr \<Rightarrow> environment \<Rightarrow> pystr" where
  "xdg_config home env = (case absolute_env env (u ''XDG_CONFIG_HOME'') of
      Some config \<Rightarrow> config | None \<Rightarrow> join_paths home (u ''.config''))"

section \<open>A line of user-dirs.dirs\<close>

text \<open>The walk is over positions of the line, as in the code.\<close>

definition skip_whitespace :: "pystr \<Rightarrow> nat \<Rightarrow> nat" where
  "skip_whitespace line pos = pos + length (takeWhile is_dotnet_whitespace (drop pos line))"

definition value_start :: "pystr \<Rightarrow> pystr \<Rightarrow> nat option" where
  "value_start line key =
     (let pos = skip_whitespace line 0 in
      if \<not> startswith (drop pos line) key then None
      else let pos = skip_whitespace line (pos + length key) in
        if pos + 4 \<ge> length line \<or> line ! pos \<noteq> equals_sign then None
        else let pos = skip_whitespace line (pos + 1) in
          if pos + 3 \<ge> length line \<or> line ! pos \<noteq> dquote then None else Some (pos + 1))"

definition index_from :: "nat \<Rightarrow> pystr \<Rightarrow> nat \<Rightarrow> nat option" where
  "index_from c line pos =
     (if c \<in> set (drop pos line) then Some (pos + length (takeWhile (\<lambda>x. x \<noteq> c) (drop pos line))) else None)"

definition user_dirs_value :: "pystr \<Rightarrow> pystr \<Rightarrow> pystr \<Rightarrow> pystr option" where
  "user_dirs_value home key line = (case value_start line key of
      None \<Rightarrow> None
    | Some pos \<Rightarrow>
        let relative = startswith (drop pos line) home_prefix;
            pos' = (if relative then pos + length home_prefix else pos) in
        if \<not> relative \<and> line ! pos \<noteq> slash_char then None
        else (case index_from dquote line pos' of
            None \<Rightarrow> None
          | Some end_pos \<Rightarrow>
              if end_pos \<le> pos' then None
              else let v = take (end_pos - pos') (drop pos' line) in Some (if relative then join_paths home v else v)))"

section \<open>The file\<close>

text \<open>Iteration over a text stream in universal newline mode: lines without their end; nothing follows a final
  newline, and a failing read loses the line it is in.\<close>

definition stream_lines :: "pystr \<times> bool \<Rightarrow> pystr list" where
  "stream_lines r = (case r of (text, complete) \<Rightarrow>
     let pieces = split_on newline (normalize_newlines text [newline]) in
     if complete \<and> last pieces \<noteq> [] then pieces else butlast pieces)"

fun first_value :: "pystr \<Rightarrow> pystr \<Rightarrow> pystr list \<Rightarrow> pystr option" where
  "first_value home key [] = None"
| "first_value home key (line # lines) = (case user_dirs_value home key line of
      Some v \<Rightarrow> Some v | None \<Rightarrow> first_value home key lines)"

definition scan_user_dirs :: "folder_os \<Rightarrow> pystr \<Rightarrow> pystr \<Rightarrow> pystr \<Rightarrow> pystr option" where
  "scan_user_dirs os path home key = (case file_head os path of
      None \<Rightarrow> None
    | Some head \<Rightarrow> first_value home key (stream_lines (file_text os path (stream_reader_encoding (take 4 head)))))"

definition read_xdg_directory :: "folder_os \<Rightarrow> pystr \<Rightarrow> environment \<Rightarrow> pystr \<Rightarrow> pystr \<Rightarrow> pystr" where
  "read_xdg_directory os home env key fallback = (case absolute_env env key of
      Some v \<Rightarrow> v
    | None \<Rightarrow>
        let user_dirs = join_paths (xdg_config home env) user_dirs_file in
        (case (if readable os user_dirs then scan_user_dirs os user_dirs home key else None) of
           Some found \<Rightarrow> found | None \<Rightarrow> join_paths home fallback))"

section \<open>Linux and macOS\<close>

definition xdg_folder :: "folder_os \<Rightarrow> environment \<Rightarrow> known_folder \<Rightarrow> pystr" where
  "xdg_folder os env folder =
     (let home = dotnet_home os env in
      case xdg_user_dirs folder of
        Some (key, fallback) \<Rightarrow> read_xdg_directory os home env key fallback
      | None \<Rightarrow>
          if folder = ROAMING_APP_DATA then xdg_config home env
          else (case absolute_env env (u ''XDG_DATA_HOME'') of
              Some data \<Rightarrow> data | None \<Rightarrow> join_paths (join_paths home (u ''.local'')) (u ''share'')))"

fun drop_prefix :: "folder_os \<Rightarrow> pystr list \<Rightarrow> pystr \<Rightarrow> pystr" where
  "drop_prefix os [] path = path"
| "drop_prefix os (p # ps) path =
     (if startswith path (p @ [slash_char]) \<and> path_exists os (drop (length p) path) then drop (length p) path
      else drop_prefix os ps path)"

definition foundation_standardized :: "folder_os \<Rightarrow> pystr \<Rightarrow> pystr" where
  "foundation_standardized os path = drop_prefix os foundation_prefixes path"

definition macos_folder :: "folder_os \<Rightarrow> environment \<Rightarrow> known_folder \<Rightarrow> pystr res" where
  "macos_folder os env folder =
     (let home = corefoundation_home os env in
      if home = [] then Inr []
      else case macos_user_dirs folder of
          None \<Rightarrow> raise_error KeyError ''no such folder''
        | Some dir \<Rightarrow> Inr (foundation_standardized os (join_paths home dir)))"

definition special_folder :: "folder_os \<Rightarrow> environment \<Rightarrow> bool \<Rightarrow> known_folder \<Rightarrow> pystr res" where
  "special_folder os env on_macos folder =
     (if folder = PROGRAM_DATA then Inr common_application_data
      else if on_macos then macos_folder os env folder else Inr (xdg_folder os env folder))"

definition posix_known_folder :: "folder_os \<Rightarrow> environment \<Rightarrow> bool \<Rightarrow> known_folder \<Rightarrow> path option res" where
  "posix_known_folder os env on_macos folder =
     (if folder = PROGRAMS then raise_error PlatformUnsupportedError ''no such folder here''
      else and_then (special_folder os env on_macos folder) (\<lambda>path.
        Inr (if readable os path then Some (path_of path) else None)))"

section \<open>Windows\<close>

text \<open>
  \<open>str.upper()\<close>, exact for a comparison with the upper case of the names here: no code point outside ASCII has
  an upper case made of their letters alone.
\<close>

definition upper :: "pystr \<Rightarrow> pystr" where
  "upper s = map (\<lambda>c. if ch CHR ''a'' \<le> c \<and> c \<le> ch CHR ''z'' then c - 32 else c) s"

definition env_lookup :: "environment \<Rightarrow> pystr \<Rightarrow> pystr option" where
  "env_lookup env name = (case env_get env name of
      Some v \<Rightarrow> Some v
    | None \<Rightarrow> (case filter (\<lambda>(k, _). upper k = upper name) env of [] \<Rightarrow> None | (_, v) # _ \<Rightarrow> Some v))"

definition env_fallback :: "(pystr \<Rightarrow> bool) \<Rightarrow> known_folder \<Rightarrow> environment \<Rightarrow> pystr option" where
  "env_fallback is_dir folder env = (case env_fallbacks folder of
      None \<Rightarrow> None
    | Some name \<Rightarrow> (case env_lookup env name of
        None \<Rightarrow> None
      | Some v \<Rightarrow> if v \<noteq> [] \<and> is_dir v then Some v else None))"

text \<open>A folder, the failure pwshpy raises, or an exception that is none of its business.\<close>

datatype 'r folder_answer = Folder_At "pystr option" | Folder_Failed native_failure | Folder_Raised 'r

text \<open>\<open>ask_shell\<close> is \<open>SHGetKnownFolderPath\<close> of a folder's id: the path or what it raised.\<close>

definition windows_known_folder ::
  "(pystr \<Rightarrow> 'r + pystr) \<Rightarrow> 'r raised_store \<Rightarrow> (pystr \<Rightarrow> bool) \<Rightarrow> environment \<Rightarrow> known_folder \<Rightarrow> 'r folder_answer" where
  "windows_known_folder ask_shell store is_dir env folder = (case ask_shell (folder_ids folder) of
      Inr found \<Rightarrow> Folder_At (Some found)
    | Inl r \<Rightarrow>
        if \<not> is_com_error (store r) then Folder_Raised r
        else (case com_hresult (store r) of
            None \<Rightarrow> Folder_Failed (wrap_native store ''SHGetKnownFolderPath failed'' r NativeCallError)
          | Some code \<Rightarrow>
              if code \<notin> not_found then Folder_Failed (wrap_native store ''SHGetKnownFolderPath failed'' r NativeCallError)
              else Folder_At (env_fallback is_dir folder env)))"

end
