(* ===== verification/Known_Folder_Facts.thy ===== *)
theory Known_Folder_Facts
  imports Known_Folders
begin

text \<open>
  The facts about \<open>Known_Folders\<close>: the walk over positions is a reading of what is left of the line, which gives a
  grammar of the lines that count; absolute answers; and what a file of such lines is read as.
\<close>

section \<open>Reading a line from its front\<close>

lemma drop_skip: "drop (skip_whitespace line pos) line = dropWhile is_dotnet_whitespace (drop pos line)"
proof -
  have "drop (pos + length (takeWhile is_dotnet_whitespace (drop pos line))) line =
      drop (length (takeWhile is_dotnet_whitespace (drop pos line))) (drop pos line)"
    by (simp add: add.commute)
  then show ?thesis by (simp add: skip_whitespace_def dropWhile_eq_drop)
qed

definition opened :: "pystr \<Rightarrow> pystr \<Rightarrow> pystr option" where
  "opened key line =
     (let r = dropWhile is_dotnet_whitespace line in
      if \<not> prefix key r then None
      else let r = dropWhile is_dotnet_whitespace (drop (length key) r) in
        if length r \<le> 4 \<or> hd r \<noteq> equals_sign then None
        else let r = dropWhile is_dotnet_whitespace (tl r) in
          if length r \<le> 3 \<or> hd r \<noteq> dquote then None else Some (tl r))"

lemma drop_one: "drop (Suc pos) line = tl (drop pos line)"
  by (simp add: drop_Suc tl_drop)

lemma guard_at:
  "(length line \<le> pos + n \<or> line ! pos \<noteq> c) = (length (drop pos line) \<le> n \<or> hd (drop pos line) \<noteq> c)"
  by (cases "length line \<le> pos + n") (auto simp: hd_drop_conv_nth)

lemma value_start_opened:
  "case opened key line of None \<Rightarrow> value_start line key = None
     | Some r \<Rightarrow> \<exists>p. value_start line key = Some p \<and> drop p line = r"
proof -
  let ?ws = "dropWhile is_dotnet_whitespace"
  define p1 where "p1 = skip_whitespace line 0"
  have d1: "drop p1 line = ?ws line" using drop_skip[of line 0] by (simp add: p1_def)
  define p2 where "p2 = skip_whitespace line (p1 + length key)"
  have d2: "drop p2 line = ?ws (drop (length key) (?ws line))"
    using drop_skip[of line "p1 + length key"] by (simp add: p2_def d1[symmetric] add.commute)
  define p3 where "p3 = skip_whitespace line (p2 + 1)"
  have d3: "drop p3 line = ?ws (tl (drop p2 line))"
    using drop_skip[of line "p2 + 1"] by (simp add: p3_def drop_one)
  have "value_start line key =
     (if \<not> prefix key (drop p1 line) then None
      else if length (drop p2 line) \<le> 4 \<or> hd (drop p2 line) \<noteq> equals_sign then None
      else if length (drop p3 line) \<le> 3 \<or> hd (drop p3 line) \<noteq> dquote then None else Some (p3 + 1))"
    unfolding value_start_def Let_def p1_def[symmetric] p2_def[symmetric] p3_def[symmetric] guard_at ..
  moreover have "drop (p3 + 1) line = tl (drop p3 line)" by (simp add: drop_one)
  ultimately show ?thesis
    by (simp add: opened_def Let_def d1 d2 d3 del: length_drop)
qed

lemma opened_long: "opened key line = Some r \<Longrightarrow> 3 \<le> length r"
  by (auto simp: opened_def Let_def split: if_splits)

text \<open>The value behind the opening quote.\<close>

definition value_of :: "pystr \<Rightarrow> pystr \<Rightarrow> pystr option" where
  "value_of home r =
     (let relative = prefix home_prefix r; r' = (if relative then drop (length home_prefix) r else r);
          v = takeWhile (\<lambda>c. c \<noteq> dquote) r' in
      if \<not> relative \<and> hd r \<noteq> slash_char \<or> dquote \<notin> set r' \<or> v = [] then None
      else Some (if relative then join_paths home v else v))"

lemma user_dirs_value_opened:
  "user_dirs_value home key line = (case opened key line of None \<Rightarrow> None | Some r \<Rightarrow> value_of home r)"
proof (cases "opened key line")
  case None
  then show ?thesis using value_start_opened[where key = key and line = line] by (simp add: user_dirs_value_def)
next
  case (Some r)
  then obtain p where p: "value_start line key = Some p" "drop p line = r"
    using value_start_opened[where key = key and line = line] by auto
  have "r \<noteq> []" using opened_long[OF Some] by auto
  with p(2) have first: "line ! p = hd r" by (metis drop_eq_Nil hd_drop_conv_nth not_le)
  define p' where "p' = (if prefix home_prefix r then p + length home_prefix else p)"
  define r' where "r' = (if prefix home_prefix r then drop (length home_prefix) r else r)"
  have "drop p' line = r'" using p(2) by (auto simp: p'_def r'_def add.commute)
  then have index: "index_from dquote line p' =
      (if dquote \<in> set r' then Some (p' + length (takeWhile (\<lambda>c. c \<noteq> dquote) r')) else None)"
    and piece: "take (length (takeWhile (\<lambda>c. c \<noteq> dquote) r')) (drop p' line) = takeWhile (\<lambda>c. c \<noteq> dquote) r'"
    by (simp_all add: index_from_def takeWhile_eq_take[symmetric])
  show ?thesis
    unfolding user_dirs_value_def p(1) Some option.case Let_def p(2) first p'_def[symmetric] index value_of_def r'_def[symmetric]
    using piece by auto
qed

section \<open>The lines that count\<close>

definition line_gives :: "pystr \<Rightarrow> pystr \<Rightarrow> pystr \<Rightarrow> pystr \<Rightarrow> bool" where
  "line_gives home key line v \<longleftrightarrow>
     (\<exists>ws1 ws2 ws3 body rest.
        line = ws1 @ key @ ws2 @ [equals_sign] @ ws3 @ [dquote] @ body @ [dquote] @ rest \<and>
        (\<forall>c \<in> set (ws1 @ ws2 @ ws3). is_dotnet_whitespace c) \<and> dquote \<notin> set body \<and> 2 \<le> length body + length rest \<and>
        ((\<exists>name. body = home_prefix @ name \<and> name \<noteq> [] \<and> v = join_paths home name) \<or>
         (\<exists>name. body = slash_char # name \<and> v = body)))"

lemma dropWhile_blank: "(\<forall>c \<in> set ws. P c) \<Longrightarrow> \<not> P c \<Longrightarrow> dropWhile P (ws @ c # s) = c # s"
  by (induction ws) auto

lemma takeWhile_dropWhile: "\<exists>ws. s = ws @ dropWhile P s \<and> (\<forall>c \<in> set ws. P c)"
  by (metis set_takeWhileD takeWhile_dropWhile_id)

lemma not_blank [simp]: "\<not> is_dotnet_whitespace equals_sign" "\<not> is_dotnet_whitespace dquote"
  by (simp_all add: is_dotnet_whitespace_def)

lemma opened_iff:
  assumes "key = c # key'" "\<not> is_dotnet_whitespace c"
  shows "opened key line = Some r \<longleftrightarrow> (\<exists>ws1 ws2 ws3. line = ws1 @ key @ ws2 @ equals_sign # ws3 @ dquote # r \<and>
    (\<forall>c \<in> set (ws1 @ ws2 @ ws3). is_dotnet_whitespace c) \<and> 3 \<le> length r)"
proof
  assume o_line: "opened key line = Some r"
  let ?ws = "dropWhile is_dotnet_whitespace"
  define r1 where "r1 = ?ws line"
  define r2 where "r2 = ?ws (drop (length key) r1)"
  define r3 where "r3 = ?ws (tl r2)"
  have r: "prefix key r1" "4 < length r2" "hd r2 = equals_sign" "3 < length r3" "hd r3 = dquote" "r = tl r3"
    using o_line by (auto simp: opened_def Let_def r1_def r2_def r3_def split: if_splits)
  obtain ws1 ws2 ws3 where ws: "line = ws1 @ r1" "\<forall>c \<in> set ws1. is_dotnet_whitespace c"
    "drop (length key) r1 = ws2 @ r2" "\<forall>c \<in> set ws2. is_dotnet_whitespace c"
    "tl r2 = ws3 @ r3" "\<forall>c \<in> set ws3. is_dotnet_whitespace c"
    unfolding r1_def r2_def r3_def using takeWhile_dropWhile by metis
  have "r1 = key @ drop (length key) r1" using r(1) by (auto simp: prefix_def)
  moreover have "r2 = equals_sign # tl r2" using r(2,3) by (cases r2) auto
  moreover have "r3 = dquote # r" using r(4,5,6) by (cases r3) auto
  ultimately have "line = ws1 @ key @ ws2 @ equals_sign # ws3 @ dquote # r" using ws(1,3,5) by simp
  moreover have "3 \<le> length r" using r(4,6) by simp
  moreover have "\<forall>c \<in> set (ws1 @ ws2 @ ws3). is_dotnet_whitespace c" using ws(2,4,6) by auto
  ultimately show "\<exists>ws1 ws2 ws3. line = ws1 @ key @ ws2 @ equals_sign # ws3 @ dquote # r \<and>
    (\<forall>c \<in> set (ws1 @ ws2 @ ws3). is_dotnet_whitespace c) \<and> 3 \<le> length r" by blast
next
  assume "\<exists>ws1 ws2 ws3. line = ws1 @ key @ ws2 @ equals_sign # ws3 @ dquote # r \<and>
    (\<forall>c \<in> set (ws1 @ ws2 @ ws3). is_dotnet_whitespace c) \<and> 3 \<le> length r"
  then obtain ws1 ws2 ws3 where line: "line = ws1 @ key @ ws2 @ equals_sign # ws3 @ dquote # r"
    "\<forall>c \<in> set ws1. is_dotnet_whitespace c" "\<forall>c \<in> set ws2. is_dotnet_whitespace c"
    "\<forall>c \<in> set ws3. is_dotnet_whitespace c" "3 \<le> length r" by auto
  have "dropWhile is_dotnet_whitespace line = key @ ws2 @ equals_sign # ws3 @ dquote # r"
    using dropWhile_blank[OF line(2) assms(2)] by (simp add: line(1) assms(1))
  then show "opened key line = Some r"
    using line(3-5) by (simp add: opened_def dropWhile_blank)
qed

text \<open>What is in front of the first quote.\<close>

abbreviation (input) unquoted :: "pystr \<Rightarrow> pystr" where
  "unquoted s \<equiv> takeWhile (\<lambda>c. c \<noteq> dquote) s"

lemma unquoted_split: "dquote \<in> set s \<Longrightarrow> \<exists>rest. s = unquoted s @ dquote # rest \<and> dquote \<notin> set (unquoted s)"
  by (induction s) auto

lemma unquoted_front: "dquote \<notin> set body \<Longrightarrow> unquoted (body @ dquote # rest) = body"
  by (induction body) auto

lemma unquoted_append: "dquote \<notin> set a \<Longrightarrow> unquoted (a @ s) = a @ unquoted s"
  by (induction a) auto

lemma no_quote_home [simp]: "dquote \<notin> set home_prefix"
  by (simp add: home_prefix_def u_def)

lemma value_of_iff:
  "value_of home r = Some v \<longleftrightarrow> dquote \<in> set r \<and>
     ((\<exists>name. unquoted r = home_prefix @ name \<and> name \<noteq> [] \<and> v = join_paths home name) \<or>
      (\<exists>name. unquoted r = slash_char # name \<and> v = unquoted r))"
proof (cases "prefix home_prefix r")
  case True
  then obtain r' where r: "r = home_prefix @ r'" by (auto simp: prefix_def)
  moreover have "unquoted r \<noteq> slash_char # name" for name
    by (simp add: r unquoted_append home_prefix_def u_def slash_char_def)
  ultimately show ?thesis
    by (auto simp: value_of_def Let_def unquoted_append)
next
  case False
  have front: "unquoted r \<noteq> home_prefix @ name" if "dquote \<in> set r" for name
    using False unquoted_split[OF that] by (metis append.assoc prefixI)
  have "hd r = slash_char \<and> unquoted r \<noteq> [] \<longleftrightarrow> (\<exists>name. unquoted r = slash_char # name)"
    by (cases r) (auto simp: slash_char_def)
  with False front show ?thesis unfolding value_of_def Let_def by auto
qed

text \<open>A line gives a value exactly when it has this form. The code's first length check decides nothing.\<close>

lemma line_grammar:
  assumes "key = c # key'" "\<not> is_dotnet_whitespace c"
  shows "user_dirs_value home key line = Some v \<longleftrightarrow> line_gives home key line v"
proof
  assume "user_dirs_value home key line = Some v"
  then obtain r where r: "opened key line = Some r" "value_of home r = Some v"
    by (auto simp: user_dirs_value_opened split: option.splits)
  then obtain ws1 ws2 ws3 where line: "line = ws1 @ key @ ws2 @ equals_sign # ws3 @ dquote # r"
    "\<forall>c \<in> set (ws1 @ ws2 @ ws3). is_dotnet_whitespace c" "3 \<le> length r"
    using opened_iff[OF assms] by blast
  from r(2) have v: "dquote \<in> set r" "(\<exists>name. unquoted r = home_prefix @ name \<and> name \<noteq> [] \<and> v = join_paths home name) \<or>
      (\<exists>name. unquoted r = slash_char # name \<and> v = unquoted r)" by (simp_all add: value_of_iff)
  obtain rest where rest: "r = unquoted r @ dquote # rest" "dquote \<notin> set (unquoted r)" using unquoted_split[OF v(1)] by blast
  have "length r = length (unquoted r) + length rest + 1" using rest(1) by (metis length_append length_Cons add.assoc add_Suc_right add.right_neutral One_nat_def)
  with line(3) have "2 \<le> length (unquoted r) + length rest" by simp
  moreover have "line = ws1 @ key @ ws2 @ [equals_sign] @ ws3 @ [dquote] @ unquoted r @ [dquote] @ rest"
    using line(1) rest(1) by simp
  ultimately show "line_gives home key line v" using line(2) rest(2) v(2) unfolding line_gives_def by blast
next
  assume "line_gives home key line v"
  then obtain ws1 ws2 ws3 body rest where line0: "line = ws1 @ key @ ws2 @ [equals_sign] @ ws3 @ [dquote] @ body @ [dquote] @ rest"
    and line: "\<forall>c \<in> set (ws1 @ ws2 @ ws3). is_dotnet_whitespace c" "dquote \<notin> set body" "2 \<le> length body + length rest"
    and v: "(\<exists>name. body = home_prefix @ name \<and> name \<noteq> [] \<and> v = join_paths home name) \<or>
      (\<exists>name. body = slash_char # name \<and> v = body)" unfolding line_gives_def by blast
  have "3 \<le> length (body @ dquote # rest)" using line(3) by simp
  moreover have "line = ws1 @ key @ ws2 @ equals_sign # ws3 @ dquote # body @ dquote # rest" using line0 by simp
  ultimately have "opened key line = Some (body @ dquote # rest)" using line(1) opened_iff[OF assms] by blast
  moreover have "value_of home (body @ dquote # rest) = Some v"
    using v by (simp add: value_of_iff unquoted_front[OF line(2)])
  ultimately show "user_dirs_value home key line = Some v" by (simp add: user_dirs_value_opened)
qed

section \<open>Absolute answers\<close>

lemma join_paths_absolute: "prefix [slash_char] first \<Longrightarrow> prefix [slash_char] (join_paths first second)"
  by (cases first) (auto simp: join_paths_def)

lemma xdg_key_plain:
  assumes "xdg_user_dirs folder = Some (key, fallback)"
  shows "\<exists>key'. key = ch CHR ''X'' # key' \<and> (\<forall>c \<in> set key. \<not> is_dotnet_whitespace c \<and> c \<noteq> equals_sign)"
  using assms by (cases folder) (simp_all add: xdg_user_dirs_def u_def is_dotnet_whitespace_def, auto)

lemma line_absolute:
  assumes "xdg_user_dirs folder = Some (key, fallback)" "user_dirs_value home key line = Some v" "prefix [slash_char] home"
  shows "prefix [slash_char] v"
proof -
  obtain key' where "key = ch CHR ''X'' # key'" "\<not> is_dotnet_whitespace (ch CHR ''X'')"
    using xdg_key_plain[OF assms(1)] by (auto simp: is_dotnet_whitespace_def)
  from line_grammar[OF this] assms(2) have "line_gives home key line v" by blast
  then show ?thesis using join_paths_absolute[OF assms(3)] unfolding line_gives_def by auto
qed

lemma first_value_absolute:
  assumes "xdg_user_dirs folder = Some (key, fallback)" "prefix [slash_char] home"
  shows "first_value home key lines = Some v \<Longrightarrow> prefix [slash_char] v"
  using line_absolute[OF assms(1) _ assms(2)] by (induction lines) (auto split: option.splits)

lemma absolute_env_absolute: "absolute_env env key = Some v \<Longrightarrow> prefix [slash_char] v"
  by (auto simp: absolute_env_def split: option.splits if_splits)

lemma xdg_config_absolute: "prefix [slash_char] home \<Longrightarrow> prefix [slash_char] (xdg_config home env)"
  using absolute_env_absolute join_paths_absolute by (auto simp: xdg_config_def split: option.splits)

lemma xdg_folder_absolute:
  assumes "prefix [slash_char] (dotnet_home os env)"
  shows "prefix [slash_char] (xdg_folder os env folder)"
proof (cases "xdg_user_dirs folder")
  case None
  then show ?thesis
    using absolute_env_absolute join_paths_absolute[OF join_paths_absolute[OF assms]] xdg_config_absolute[OF assms]
    by (auto simp: xdg_folder_def Let_def split: option.splits)
next
  case (Some kf)
  then obtain key fallback where kf: "xdg_user_dirs folder = Some (key, fallback)" by (cases kf) auto
  have "prefix [slash_char] v" if "scan_user_dirs os path (dotnet_home os env) key = Some v" for path v
    using that first_value_absolute[OF kf assms] by (auto simp: scan_user_dirs_def split: option.splits)
  then show ?thesis
    using kf absolute_env_absolute join_paths_absolute[OF assms]
    by (auto simp: xdg_folder_def read_xdg_directory_def Let_def split: option.splits if_splits)
qed

lemma drop_prefix_absolute: "prefix [slash_char] path \<Longrightarrow> prefix [slash_char] (drop_prefix os ps path)"
  by (induction ps) (auto simp: prefix_def)

lemma rooted_path_of [simp]: "rooted (path_of s) \<longleftrightarrow> prefix [slash_char] s"
  by (cases s) (auto simp: path_of_def)

lemma special_folder_absolute:
  assumes "special_folder os env on_macos folder = Inr s" "s \<noteq> []"
    "prefix [slash_char] (if on_macos then corefoundation_home os env else dotnet_home os env)"
  shows "prefix [slash_char] s"
proof (cases "folder = PROGRAM_DATA")
  case True
  with assms(1) show ?thesis
    by (auto simp: special_folder_def common_application_data_def u_def slash_char_def)
next
  case False
  with assms show ?thesis
    using xdg_folder_absolute[of os env folder] drop_prefix_absolute join_paths_absolute
    by (cases on_macos) (auto simp: special_folder_def macos_folder_def foundation_standardized_def Let_def
        split: option.splits if_splits)
qed

section \<open>A file of such lines\<close>

text \<open>The file as \<open>xdg-user-dirs\<close> writes it: \<open>KEY="$HOME/name"\<close>.\<close>

definition dirs_line :: "pystr \<times> pystr \<Rightarrow> pystr" where
  "dirs_line kn = fst kn @ [equals_sign, dquote] @ home_prefix @ snd kn @ [dquote]"

definition plain_entry :: "pystr \<times> pystr \<Rightarrow> bool" where
  "plain_entry kn \<longleftrightarrow> fst kn \<noteq> [] \<and> (\<forall>c \<in> set (fst kn). \<not> is_dotnet_whitespace c \<and> c \<noteq> equals_sign) \<and>
     snd kn \<noteq> [] \<and> dquote \<notin> set (snd kn) \<and> 10 \<notin> set (snd kn) \<and> 13 \<notin> set (snd kn)"

lemma dirs_line_gives:
  assumes "plain_entry (k, name)" "key \<noteq> []" "\<forall>c \<in> set key. \<not> is_dotnet_whitespace c \<and> c \<noteq> equals_sign"
  shows "line_gives home key (dirs_line (k, name)) v \<longleftrightarrow> k = key \<and> v = join_paths home name"
proof
  assume "k = key \<and> v = join_paths home name"
  moreover have "dirs_line (key, name) = [] @ key @ [] @ [equals_sign] @ [] @ [dquote] @ (home_prefix @ name) @ [dquote] @ []"
    by (simp add: dirs_line_def)
  moreover have "dquote \<notin> set (home_prefix @ name)" "2 \<le> length (home_prefix @ name) + length ([] :: pystr)" "name \<noteq> []"
    using assms(1) by (auto simp: plain_entry_def home_prefix_def u_def)
  ultimately show "line_gives home key (dirs_line (k, name)) v" unfolding line_gives_def by fastforce
next
  assume "line_gives home key (dirs_line (k, name)) v"
  then obtain ws1 ws2 ws3 body rest where
    line: "dirs_line (k, name) = ws1 @ key @ ws2 @ [equals_sign] @ ws3 @ [dquote] @ body @ [dquote] @ rest"
    and ws: "\<forall>c \<in> set (ws1 @ ws2 @ ws3). is_dotnet_whitespace c" and body: "dquote \<notin> set body"
    and v: "(\<exists>name. body = home_prefix @ name \<and> name \<noteq> [] \<and> v = join_paths home name) \<or>
      (\<exists>name. body = slash_char # name \<and> v = body)" unfolding line_gives_def by blast
  have k: "equals_sign \<notin> set k" "\<forall>c \<in> set k. \<not> is_dotnet_whitespace c" using assms(1) by (auto simp: plain_entry_def)
  have front: "takeWhile (\<lambda>c. c \<noteq> equals_sign) (a @ equals_sign # b) = a" if "equals_sign \<notin> set a" for a b
    using that by (induction a) auto
  have "equals_sign \<notin> set (ws1 @ key @ ws2)" using ws assms(3) not_blank(1) by (auto simp del: not_blank)
  from front[OF this] front[OF k(1)] line have pre: "k = ws1 @ key @ ws2" by (metis append.assoc append_Cons append_Nil dirs_line_def fst_conv)
  with k(2) ws have "set ws1 = {}" "set ws2 = {}" by (auto simp: ball_Un) 
  with pre have same: "ws1 = []" "ws2 = []" "k = key" by auto
  with line have "dquote # home_prefix @ name @ [dquote] = ws3 @ dquote # body @ dquote # rest" by (simp add: dirs_line_def)
  moreover have "ws3 = []" using calculation ws not_blank(2) by (cases ws3) auto
  ultimately have "unquoted ((home_prefix @ name) @ dquote # []) = unquoted (body @ dquote # rest)" by simp
  moreover have "dquote \<notin> set (home_prefix @ name)" using assms(1) by (simp add: plain_entry_def)
  ultimately have "body = home_prefix @ name" using unquoted_front body by metis
  then show "k = key \<and> v = join_paths home name" using v same(3) by (auto simp: home_prefix_def u_def slash_char_def)
qed

lemma crlf_to_lf_id: "13 \<notin> set s \<Longrightarrow> crlf_to_lf s = s"
  by (induction s) auto

lemma split_on_unlines: "\<forall>l \<in> set ls. 10 \<notin> set l \<Longrightarrow> split_on 10 (unlines ls) = ls @ [[]]"
  by (induction ls) (auto simp: split_on_sep)

lemma stream_unlines:
  assumes "\<forall>l \<in> set ls. 10 \<notin> set l \<and> 13 \<notin> set l"
  shows "stream_lines (unlines ls, True) = ls"
proof -
  have "13 \<notin> set (unlines ls)" using assms by (induction ls) auto
  then have "normalize_newlines (unlines ls) [newline] = unlines ls"
    by (simp add: normalize_newlines_def Let_def crlf_to_lf_id replace_char_id)
  with assms show ?thesis by (simp add: stream_lines_def split_on_unlines)
qed

lemma first_value_entries:
  assumes "\<forall>kn \<in> set entries. plain_entry kn" "key = c # key'" "\<forall>c \<in> set key. \<not> is_dotnet_whitespace c \<and> c \<noteq> equals_sign"
  shows "first_value home key (map dirs_line entries) = map_option (join_paths home) (map_of entries key)"
  using assms(1)
proof (induction entries)
  case (Cons kn entries)
  obtain k name where kn: "kn = (k, name)" by (cases kn)
  have "user_dirs_value home key (dirs_line kn) = Some v \<longleftrightarrow> k = key \<and> v = join_paths home name" for v
    using line_grammar[of key c key'] dirs_line_gives[of k name key home v] assms(2,3) Cons.prems kn by simp
  then have "user_dirs_value home key (dirs_line kn) = (if k = key then Some (join_paths home name) else None)"
    by (metis option.exhaust)
  with Cons kn show ?case by simp
qed simp

lemma entry_one_line:
  assumes "plain_entry kn" shows "10 \<notin> set (dirs_line kn) \<and> 13 \<notin> set (dirs_line kn)"
proof -
  have "is_dotnet_whitespace 10" "is_dotnet_whitespace 13" by (simp_all add: is_dotnet_whitespace_def)
  with assms show ?thesis by (auto simp: plain_entry_def dirs_line_def home_prefix_def u_def)
qed

section \<open>Windows\<close>

text \<open>A fallback is an existing directory that a variable of that name, in any case, holds; it is only answered when
  the shell says that the folder is missing.\<close>

lemma windows_fallback_exists:
  assumes "windows_known_folder ask_shell store is_dir env folder = Folder_At (Some v)" "ask_shell (folder_ids folder) \<noteq> Inr v"
  shows "is_dir v \<and> (\<exists>k name. env_fallbacks folder = Some name \<and> (k, v) \<in> set env \<and> upper k = upper name)"
proof -
  obtain name where name: "env_fallbacks folder = Some name" "env_lookup env name = Some v" "is_dir v"
    using assms by (auto simp: windows_known_folder_def env_fallback_def split: sum.splits option.splits if_splits)
  have "\<exists>k. (k, v) \<in> set env \<and> upper k = upper name"
  proof (cases "env_get env name")
    case (Some w)
    with name(2) have "(name, v) \<in> set env" by (auto simp: env_lookup_def env_get_def dest: map_of_SomeD)
    then show ?thesis by blast
  next
    case None
    with name(2) obtain k rest where "filter (\<lambda>(k, _). upper k = upper name) env = (k, v) # rest"
      by (auto simp: env_lookup_def split: list.splits)
    then have "(k, v) \<in> set (filter (\<lambda>(k, _). upper k = upper name) env)" by simp
    then show ?thesis by auto
  qed
  with name show ?thesis by blast
qed

end
