(* ===== verification/Shortcuts.thy ===== *)
theory Shortcuts
  imports Py_Errors
begin

text \<open>
  \<open>domain/shortcuts.py\<close>: the checks on a Windows shortcut and its argument string. \<open>subprocess.list2cmdline\<close> and the
  parts of \<open>PureWindowsPath\<close> the checks use are CPython's; \<open>crt_arguments\<close> is the reader on the other side, the
  argument rules of the Microsoft C runtime.
\<close>

section \<open>Windows paths\<close>

definition to_backslashes :: "pystr \<Rightarrow> pystr" where
  "to_backslashes = map (\<lambda>c. if c = ch CHR ''/'' then backslash else c)"

text \<open>\<open>ntpath.splitroot\<close>, with forward slashes as backslashes.\<close>

definition split_root :: "pystr \<Rightarrow> pystr \<times> pystr \<times> pystr" where
  "split_root path =
     (let p = to_backslashes path in
      if take 2 p = [backslash, backslash] then
        (let start = (if lower (take 8 p) = [backslash, backslash] @ u ''?'' @ [backslash] @ u ''unc'' @ [backslash] then 8 else 2);
             server = takeWhile (\<lambda>c. c \<noteq> backslash) (drop start p); i = start + length server in
         if i \<ge> length p then (p, [], [])
         else let share = takeWhile (\<lambda>c. c \<noteq> backslash) (drop (i + 1) p); j = i + 1 + length share in
           if j \<ge> length p then (p, [], []) else (take j p, [backslash], drop (j + 1) p))
      else if take 1 p = [backslash] then ([], [backslash], tl p)
      else if take 1 (drop 1 p) = u '':'' then
        (if take 1 (drop 2 p) = [backslash] then (take 2 p, [backslash], drop 3 p) else (take 2 p, [], drop 2 p))
      else ([], [], p))"

text \<open>pathlib gives a bare \<open>//server/share\<close> its root.\<close>

definition drive_and_root :: "pystr \<Rightarrow> pystr \<times> pystr" where
  "drive_and_root path = (case split_root path of (drive, root, rest) \<Rightarrow>
     if root = [] \<and> take 1 drive = [backslash] \<and> \<not> endswith drive [backslash] \<and>
        (let parts = split_on backslash drive in
         length parts = 4 \<and> parts ! 2 \<notin> {[], u ''?'', u ''.'', u ''?.''} \<or> length parts = 6)
     then (drive, [backslash]) else (drive, root))"

definition win_absolute :: "pystr \<Rightarrow> bool" where
  "win_absolute path = (case drive_and_root path of (drive, root) \<Rightarrow> drive \<noteq> [] \<and> root \<noteq> [])"

definition win_name :: "pystr \<Rightarrow> pystr" where
  "win_name path = (case split_root path of (_, _, rest) \<Rightarrow>
     let parts = filter (\<lambda>x. x \<noteq> [] \<and> x \<noteq> u ''.'') (split_on backslash rest) in if parts = [] then [] else last parts)"

definition win_suffix :: "pystr \<Rightarrow> pystr" where
  "win_suffix path =
     (let name = win_name path; ext = takeWhile (\<lambda>c. c \<noteq> ch CHR ''.'') (rev name) in
      if ext \<noteq> [] \<and> length ext + 1 < length name then ch CHR ''.'' # rev ext else [])"

section \<open>The argument string\<close>

text \<open>\<open>list2cmdline\<close>: \<open>n\<close> backslashes are held back until it is known what follows them.\<close>

fun quoted_chars :: "bool \<Rightarrow> nat \<Rightarrow> pystr \<Rightarrow> pystr" where
  "quoted_chars needquote n [] = replicate n backslash @ (if needquote then replicate n backslash @ [dquote] else [])"
| "quoted_chars needquote n (c # s) =
     (if c = backslash then quoted_chars needquote (Suc n) s
      else if c = dquote then replicate (2 * n) backslash @ [backslash, dquote] @ quoted_chars needquote 0 s
      else replicate n backslash @ c # quoted_chars needquote 0 s)"

definition blank :: "nat \<Rightarrow> bool" where
  "blank c \<longleftrightarrow> c = 32 \<or> c = 9"

definition quoted_argument :: "pystr \<Rightarrow> pystr" where
  "quoted_argument arg =
     (let needquote = (arg = [] \<or> (\<exists>c \<in> set arg. blank c)) in (if needquote then [dquote] else []) @ quoted_chars needquote 0 arg)"

definition list2cmdline :: "pystr list \<Rightarrow> pystr" where
  "list2cmdline args = join [32] (map quoted_argument args)"

text \<open>
  The C runtime: 2n backslashes before a quote are n and the quote opens or closes, 2n+1 are n and the quote is
  a character; two quotes inside a quoted part are one character; blanks outside end an argument.
\<close>

definition arg_with :: "pystr option \<Rightarrow> pystr \<Rightarrow> pystr option" where
  "arg_with cur s = Some ((case cur of None \<Rightarrow> [] | Some a \<Rightarrow> a) @ s)"

definition arg_done :: "pystr option \<Rightarrow> pystr list" where
  "arg_done cur = (case cur of None \<Rightarrow> [] | Some a \<Rightarrow> [a])"

definition held_back :: "pystr option \<Rightarrow> nat \<Rightarrow> pystr option" where
  "held_back cur n = (if n = 0 then cur else arg_with cur (replicate n backslash))"

function crt_parse :: "bool \<Rightarrow> pystr option \<Rightarrow> nat \<Rightarrow> pystr \<Rightarrow> pystr list" where
  "crt_parse q cur n [] = arg_done (held_back cur n)"
| "crt_parse q cur n (c # s) =
     (if c = backslash then crt_parse q cur (Suc n) s
      else if c = dquote then
        (if odd n then crt_parse q (arg_with cur (replicate (n div 2) backslash @ [dquote])) 0 s
         else if q \<and> take 1 s = [dquote] then crt_parse q (arg_with cur (replicate (n div 2) backslash @ [dquote])) 0 (tl s)
         else crt_parse (\<not> q) (arg_with cur (replicate (n div 2) backslash)) 0 s)
      else if blank c \<and> \<not> q then arg_done (held_back cur n) @ crt_parse q None 0 s
      else crt_parse q (arg_with cur (replicate n backslash @ [c])) 0 s)"
  by pat_completeness auto
termination by (relation "measure (\<lambda>(_, _, _, s). length s)") auto

definition crt_arguments :: "pystr \<Rightarrow> pystr list" where
  "crt_arguments line = crt_parse False None 0 line"

section \<open>The checks\<close>

text \<open>A caller's value, of any type.\<close>

datatype caller_value = F_text pystr | F_none | F_bool bool | F_int int | F_seq "caller_value list" | F_other

definition max_path :: nat where "max_path = 259"
definition max_field :: nat where "max_field = 260"
definition max_arguments :: nat where "max_arguments = 32767"

definition plain_text :: "caller_value \<Rightarrow> pystr res" where
  "plain_text v = (case v of
      F_text s \<Rightarrow> if \<exists>c \<in> {0, 13, 10}. c \<in> set s then raise_error ConfigurationError ''NUL, CR or LF'' else Inr s
    | _ \<Rightarrow> raise_error ConfigurationError ''not a str'')"

definition within_limit :: "nat \<Rightarrow> pystr \<Rightarrow> pystr res" where
  "within_limit limit s = (if length s > limit then raise_error ConfigurationError ''too long'' else Inr s)"

definition lnk_path :: "caller_value \<Rightarrow> pystr res" where
  "lnk_path v = and_then (plain_text v) (\<lambda>s.
     if \<not> win_absolute s then raise_error ConfigurationError ''relative''
     else if \<not> endswith (lower s) (u ''.lnk'') \<or> lower (win_suffix s) \<noteq> u ''.lnk'' then raise_error ConfigurationError ''no .lnk''
     else within_limit max_path s)"

definition environment_prefix :: "pystr \<Rightarrow> bool" where
  "environment_prefix s =
     (case s of [] \<Rightarrow> False | c # rest \<Rightarrow>
        let name = takeWhile (\<lambda>c. c \<notin> {ch CHR ''%'', equals_sign, backslash, ch CHR ''/''}) rest in
        c = ch CHR ''%'' \<and> name \<noteq> [] \<and> take 2 (drop (length name) rest) = [ch CHR ''%'', backslash])"

definition target_path :: "caller_value \<Rightarrow> pystr res" where
  "target_path v = and_then (plain_text v) (\<lambda>s.
     if \<not> (win_absolute s \<or> environment_prefix s) then raise_error ConfigurationError ''relative'' else within_limit max_path s)"

definition argument_list :: "caller_value \<Rightarrow> pystr list res" where
  "argument_list v = (case v of
      F_seq items \<Rightarrow> and_then (map_res plain_text items) (\<lambda>argv.
        if length (list2cmdline argv) > max_arguments then raise_error ConfigurationError ''too long'' else Inr argv)
    | _ \<Rightarrow> raise_error ConfigurationError ''not a sequence'')"

definition optional_text :: "caller_value \<Rightarrow> pystr option res" where
  "optional_text v =
     (if v = F_none \<or> v = F_text [] then Inr None
      else and_then (plain_text v) (\<lambda>s. and_then (within_limit max_field s) (\<lambda>t. Inr (Some t))))"

definition bool_flag :: "caller_value \<Rightarrow> bool res" where
  "bool_flag v = (case v of F_bool b \<Rightarrow> Inr b | _ \<Rightarrow> raise_error ConfigurationError ''not a bool'')"

definition icon_number :: "caller_value \<Rightarrow> int res" where
  "icon_number v = (case v of
      F_int n \<Rightarrow> if - (2 ^ 31) \<le> n \<and> n \<le> 2 ^ 31 - 1 then Inr n else raise_error ConfigurationError ''out of range''
    | _ \<Rightarrow> raise_error ConfigurationError ''not an int'')"

record shortcut_input =
  in_path :: caller_value
  in_target :: caller_value
  in_arguments :: caller_value
  in_working_directory :: caller_value
  in_icon :: caller_value
  in_icon_index :: caller_value
  in_description :: caller_value
  in_run_as_administrator :: caller_value

record shortcut_spec =
  sc_path :: pystr
  sc_target :: pystr
  sc_arguments :: "pystr list"
  sc_working_directory :: "pystr option"
  sc_icon :: "pystr option"
  sc_icon_index :: int
  sc_description :: "pystr option"
  sc_run_as_administrator :: bool

definition shortcut_spec :: "shortcut_input \<Rightarrow> shortcut_spec res" where
  "shortcut_spec i =
     and_then (lnk_path (in_path i)) (\<lambda>path.
     and_then (target_path (in_target i)) (\<lambda>target.
     and_then (argument_list (in_arguments i)) (\<lambda>argv.
     and_then (optional_text (in_working_directory i)) (\<lambda>cwd.
     and_then (optional_text (in_icon i)) (\<lambda>icon.
     and_then (icon_number (in_icon_index i)) (\<lambda>index.
     and_then (optional_text (in_description i)) (\<lambda>description.
     and_then (bool_flag (in_run_as_administrator i)) (\<lambda>elevated.
       Inr \<lparr>sc_path = path, sc_target = target, sc_arguments = argv, sc_working_directory = cwd, sc_icon = icon,
         sc_icon_index = index, sc_description = description, sc_run_as_administrator = elevated\<rparr>))))))))"

definition joined_arguments :: "shortcut_spec \<Rightarrow> pystr" where
  "joined_arguments spec = list2cmdline (sc_arguments spec)"

section \<open>The argument string is read back\<close>

lemma crt_backslashes: "crt_parse q cur n (replicate m backslash @ s) = crt_parse q cur (n + m) s"
  by (induction m arbitrary: n) auto

text \<open>Characters added to an argument: none begin no argument.\<close>

definition more :: "pystr option \<Rightarrow> pystr \<Rightarrow> pystr option" where
  "more cur s = (if s = [] then cur else arg_with cur s)"

lemma more_simps [simp]:
  "arg_with (arg_with cur a) b = arg_with cur (a @ b)" "arg_with (Some a) b = Some (a @ b)" "arg_with None a = Some a"
  "more (arg_with cur a) b = arg_with cur (a @ b)" "more (Some a) b = Some (a @ b)"
  by (auto simp: arg_with_def more_def)

definition arg_ends :: "pystr \<Rightarrow> bool" where
  "arg_ends rest \<longleftrightarrow> rest = [] \<or> take 1 rest = [32]"

lemma arg_ends_held:
  assumes "arg_ends rest"
  shows "crt_parse False cur n rest = crt_parse False (more cur (replicate n backslash)) 0 rest"
  using assms by (cases rest) (auto simp: arg_ends_def held_back_def more_def blank_def)

lemma crt_quoted:
  assumes "arg_ends rest"
  shows "(if q then cur \<noteq> None else \<forall>c \<in> set s. \<not> blank c) \<Longrightarrow>
    crt_parse q cur 0 (quoted_chars q n s @ rest) = crt_parse False (more cur (replicate n backslash @ s)) 0 rest"
proof (induction q n s arbitrary: cur rule: quoted_chars.induct)
  case (1 q n)
  have rest: "take (Suc 0) rest \<noteq> [dquote]" using assms by (auto simp: arg_ends_def)
  show ?case
  proof (cases q)
    case True
    with 1 obtain a where cur: "cur = Some a" by auto
    have "quoted_chars q n [] @ rest = replicate (2 * n) backslash @ dquote # rest"
      using True by (simp add: mult_2 replicate_add)
    then have "crt_parse q cur 0 (quoted_chars q n [] @ rest) = crt_parse q cur (2 * n) (dquote # rest)"
      by (simp only: crt_backslashes add_0)
    also have "\<dots> = crt_parse False (more cur (replicate n backslash)) 0 rest"
      using True rest by (simp add: cur)
    finally show ?thesis by simp
  qed (use arg_ends_held[OF assms] in \<open>simp add: crt_backslashes\<close>)
next
  case (2 q n c s)
  consider "c = backslash" | "c = dquote" | "c \<noteq> backslash" "c \<noteq> dquote" by blast
  then show ?case
  proof cases
    case 1
    with 2 show ?thesis by (simp add: replicate_app_Cons_same)
  next
    case q: 2
    have "crt_parse q cur 0 (quoted_chars q n (c # s) @ rest) =
        crt_parse q cur (2 * n) (backslash # dquote # quoted_chars q 0 s @ rest)"
      using q by (simp add: crt_backslashes)
    also have "\<dots> = crt_parse q (arg_with cur (replicate n backslash @ [dquote])) 0 (quoted_chars q 0 s @ rest)"
      by simp
    also have "\<dots> = crt_parse False (more cur (replicate n backslash @ c # s)) 0 rest"
      using 2 q by (simp add: more_def arg_with_def)
    finally show ?thesis .
  next
    case 3
    have "crt_parse q cur 0 (quoted_chars q n (c # s) @ rest) = crt_parse q cur n (c # quoted_chars q 0 s @ rest)"
      using 3 by (simp add: crt_backslashes)
    also have "\<dots> = crt_parse q (arg_with cur (replicate n backslash @ [c])) 0 (quoted_chars q 0 s @ rest)"
      using 3 2(4) by (auto split: if_splits)
    also have "\<dots> = crt_parse False (more cur (replicate n backslash @ c # s)) 0 rest"
      using 2 3 by (simp add: more_def arg_with_def)
    finally show ?thesis .
  qed
qed

lemma crt_argument:
  assumes "arg_ends rest"
  shows "crt_parse False None 0 (quoted_argument arg @ rest) = crt_parse False (Some arg) 0 rest"
proof (cases "arg = [] \<or> (\<exists>c \<in> set arg. blank c)")
  case True
  show ?thesis using True crt_quoted[OF assms, of True "Some []" arg 0] by (simp add: quoted_argument_def)
next
  case False
  then show ?thesis using crt_quoted[OF assms, of False None arg 0] by (simp add: quoted_argument_def more_def)
qed

text \<open>The C runtime gives back the arguments \<open>list2cmdline\<close> joined.\<close>

lemma crt_arguments_joined: "crt_arguments (list2cmdline args) = args"
proof -
  have "crt_parse False None 0 (join [32] (map quoted_argument args)) = args"
  proof (induction args rule: induct_list012)
    case 1
    then show ?case by (simp add: arg_done_def held_back_def)
  next
    case (2 a)
    then show ?case using crt_argument[of "[]" a] by (simp add: arg_ends_def arg_done_def held_back_def)
  next
    case (3 a b args)
    have "arg_ends ([32] @ join [32] (map quoted_argument (b # args)))" by (simp add: arg_ends_def)
    from crt_argument[OF this, of a] 3(2) show ?case by (simp add: arg_done_def held_back_def blank_def)
  qed
  then show ?thesis by (simp add: crt_arguments_def list2cmdline_def)
qed

section \<open>What a checked shortcut holds\<close>

definition clean :: "pystr \<Rightarrow> bool" where
  "clean s \<longleftrightarrow> 0 \<notin> set s \<and> 13 \<notin> set s \<and> 10 \<notin> set s"

lemma plain_text_Inr: "plain_text v = Inr s \<longleftrightarrow> v = F_text s \<and> clean s"
  by (auto simp: plain_text_def clean_def split: caller_value.splits if_splits)

lemma within_limit_Inr: "within_limit n s = Inr t \<longleftrightarrow> t = s \<and> length s \<le> n"
  by (auto simp: within_limit_def)

lemma lnk_path_Inr: "lnk_path v = Inr s \<longleftrightarrow> v = F_text s \<and> clean s \<and> win_absolute s \<and>
    endswith (lower s) (u ''.lnk'') \<and> lower (win_suffix s) = u ''.lnk'' \<and> length s \<le> max_path"
  by (auto simp: lnk_path_def and_then_Inr plain_text_Inr within_limit_Inr split: if_splits)

lemma target_path_Inr: "target_path v = Inr s \<longleftrightarrow>
    v = F_text s \<and> clean s \<and> (win_absolute s \<or> environment_prefix s) \<and> length s \<le> max_path"
  by (auto simp: target_path_def and_then_Inr plain_text_Inr within_limit_Inr split: if_splits)

lemma plain_texts_Inr: "map_res plain_text items = Inr argv \<longleftrightarrow> items = map F_text argv \<and> (\<forall>a \<in> set argv. clean a)"
  by (induction items arbitrary: argv) (auto simp: and_then_Inr plain_text_Inr map_eq_Cons_conv Cons_eq_map_conv)

lemma argument_list_Inr: "argument_list v = Inr argv \<longleftrightarrow>
    v = F_seq (map F_text argv) \<and> (\<forall>a \<in> set argv. clean a) \<and> length (list2cmdline argv) \<le> max_arguments"
proof (cases v)
  case (F_seq items)
  have "argument_list v = Inr argv \<longleftrightarrow> map_res plain_text items = Inr argv \<and> length (list2cmdline argv) \<le> max_arguments"
    by (cases "map_res plain_text items") (auto simp: argument_list_def F_seq)
  with F_seq show ?thesis by (auto simp: plain_texts_Inr)
qed (simp_all add: argument_list_def)

lemma optional_text_Inr: "optional_text v = Inr t \<longleftrightarrow>
    (case t of None \<Rightarrow> v = F_none \<or> v = F_text [] | Some s \<Rightarrow> v = F_text s \<and> s \<noteq> [] \<and> clean s \<and> length s \<le> max_field)"
  by (auto simp: optional_text_def and_then_Inr plain_text_Inr within_limit_Inr split: option.splits)

lemma icon_number_Inr: "icon_number v = Inr n \<longleftrightarrow> v = F_int n \<and> - (2 ^ 31) \<le> n \<and> n < 2 ^ 31"
  by (auto simp: icon_number_def split: caller_value.splits if_splits)

lemma bool_flag_Inr: "bool_flag v = Inr b \<longleftrightarrow> v = F_bool b"
  by (auto simp: bool_flag_def split: caller_value.splits)

lemmas checked = lnk_path_Inr target_path_Inr argument_list_Inr optional_text_Inr icon_number_Inr bool_flag_Inr

lemma shortcut_spec_Inr:
  "shortcut_spec i = Inr spec \<longleftrightarrow>
     lnk_path (in_path i) = Inr (sc_path spec) \<and> target_path (in_target i) = Inr (sc_target spec) \<and>
     argument_list (in_arguments i) = Inr (sc_arguments spec) \<and>
     optional_text (in_working_directory i) = Inr (sc_working_directory spec) \<and>
     optional_text (in_icon i) = Inr (sc_icon spec) \<and> icon_number (in_icon_index i) = Inr (sc_icon_index spec) \<and>
     optional_text (in_description i) = Inr (sc_description spec) \<and>
     bool_flag (in_run_as_administrator i) = Inr (sc_run_as_administrator spec)"
  by (cases spec) (auto simp: shortcut_spec_def and_then_Inr)

text \<open>C28: A shortcut that passed the checks fits the shell link object: no text holds NUL, CR or LF, every text
  and the joined argument string is within its limit, the icon index is a signed 32-bit number, the path is absolute
  and names a .lnk file, and an optional text is never empty.\<close>

theorem shortcut_fits:
  assumes "shortcut_spec i = Inr spec"
  shows "let optional = [sc_working_directory spec, sc_icon spec, sc_description spec]
    in (\<forall>s \<in> {sc_path spec, sc_target spec} \<union> set (sc_arguments spec) \<union> {s. Some s \<in> set optional}. \<forall>c \<in> {0, 10, 13}. c \<notin> set s) \<and>
      win_absolute (sc_path spec) \<and> endswith (lower (sc_path spec)) (u ''.lnk'') \<and> length (sc_path spec) \<le> 259 \<and>
      length (sc_target spec) \<le> 259 \<and> length (joined_arguments spec) \<le> 32767 \<and>
      - (2 ^ 31) \<le> sc_icon_index spec \<and> sc_icon_index spec < 2 ^ 31 \<and>
      (\<forall>s. Some s \<in> set optional \<longrightarrow> s \<noteq> [] \<and> length s \<le> 260)"
  using assms
  by (auto simp: Let_def shortcut_spec_Inr checked clean_def joined_arguments_def max_path_def max_field_def
      max_arguments_def split: option.splits)

text \<open>C27: The arguments of a checked shortcut are the caller's, and the C runtime of the program it starts reads
  exactly them from the joined argument string.\<close>

theorem shortcut_arguments_read_back:
  assumes "shortcut_spec i = Inr spec"
  shows "in_arguments i = F_seq (map F_text (sc_arguments spec)) \<and>
    crt_arguments (joined_arguments spec) = sc_arguments spec"
  using assms by (simp add: shortcut_spec_Inr checked joined_arguments_def crt_arguments_joined)

text \<open>Checking is stable: the fields of a checked shortcut pass again and give the same shortcut.\<close>

definition as_input :: "shortcut_spec \<Rightarrow> shortcut_input" where
  "as_input spec =
     (let optional = (\<lambda>t. case t of None \<Rightarrow> F_none | Some s \<Rightarrow> F_text s) in
      \<lparr>in_path = F_text (sc_path spec), in_target = F_text (sc_target spec), in_arguments = F_seq (map F_text (sc_arguments spec)),
       in_working_directory = optional (sc_working_directory spec), in_icon = optional (sc_icon spec),
       in_icon_index = F_int (sc_icon_index spec), in_description = optional (sc_description spec),
       in_run_as_administrator = F_bool (sc_run_as_administrator spec)\<rparr>)"

lemma checked_again: "shortcut_spec i = Inr spec \<Longrightarrow> shortcut_spec (as_input spec) = Inr spec"
  by (auto simp: shortcut_spec_Inr checked as_input_def Let_def split: option.splits)

section \<open>The witnesses\<close>

definition sample_shortcut :: shortcut_spec where
  "sample_shortcut = \<lparr>sc_path = u ''C:'' @ [backslash] @ u ''a.lnk'', sc_target = u ''C:'' @ [backslash] @ u ''t.exe'',
     sc_arguments = [u ''x'', u ''a b''], sc_working_directory = None, sc_icon = None, sc_icon_index = 0,
     sc_description = Some (u ''Run it''), sc_run_as_administrator = False\<rparr>"

lemma sample_shortcut_checks: "shortcut_spec (as_input sample_shortcut) = Inr sample_shortcut"
  by (simp add: shortcut_spec_Inr checked as_input_def sample_shortcut_def clean_def u_def max_path_def max_field_def
      max_arguments_def win_absolute_def drive_and_root_def split_root_def to_backslashes_def win_suffix_def win_name_def
      list2cmdline_def quoted_argument_def blank_def lower_def lower_char_def suffix_to_prefix)

theorem shortcut_fits_witness:
  "shortcut_spec (as_input sample_shortcut) = Inr sample_shortcut \<and> length (joined_arguments sample_shortcut) \<le> 32767"
  using sample_shortcut_checks shortcut_fits[OF sample_shortcut_checks] by (simp only: Let_def simp_thms)

theorem shortcut_arguments_read_back_witness:
  "shortcut_spec (as_input sample_shortcut) = Inr sample_shortcut \<and>
   crt_arguments (joined_arguments sample_shortcut) = [u ''x'', u ''a b'']"
  using sample_shortcut_checks shortcut_arguments_read_back[OF sample_shortcut_checks] by (simp add: sample_shortcut_def)

end
