(* ===== verification/Host_Properties.thy ===== *)
theory Host_Properties
  imports Known_Folder_Facts Shortcuts
begin

text \<open>The properties of the known folders.\<close>

section \<open>Known folders\<close>

text \<open>C25: A line of \<open>user-dirs.dirs\<close> gives a folder exactly when it is \<open>KEY = "$HOME/name"\<close> or \<open>KEY = "/name"\<close> with blanks
  where they are allowed, a name that is not empty below the home, and at least two characters between the
  opening quote and the end besides the closing quote.\<close>

theorem user_dirs_line_grammar:
  assumes "xdg_user_dirs folder = Some (key, fallback)"
  shows "user_dirs_value home key line = Some v \<longleftrightarrow>
    (\<exists>ws1 ws2 ws3 body rest.
       line = ws1 @ key @ ws2 @ [equals_sign] @ ws3 @ [dquote] @ body @ [dquote] @ rest \<and>
       (\<forall>c \<in> set (ws1 @ ws2 @ ws3). is_dotnet_whitespace c) \<and> dquote \<notin> set body \<and> 2 \<le> length body + length rest \<and>
       ((\<exists>name. body = home_prefix @ name \<and> name \<noteq> [] \<and> v = join_paths home name) \<or>
        (\<exists>name. body = slash_char # name \<and> v = body)))"
proof -
  obtain key' where "key = ch CHR ''X'' # key'" using xdg_key_plain[OF assms] by blast
  moreover have "\<not> is_dotnet_whitespace (ch CHR ''X'')" by (simp add: is_dotnet_whitespace_def)
  ultimately show ?thesis by (rule line_grammar[unfolded line_gives_def])
qed

theorem user_dirs_line_grammar_witness:
  "user_dirs_value (u ''/home/me'') (u ''XDG_DESKTOP_DIR'') (u ''XDG_DESKTOP_DIR=\"/a\"'') = Some (u ''/a'')"
proof -
  have "xdg_user_dirs DESKTOP = Some (u ''XDG_DESKTOP_DIR'', u ''Desktop'')" by (simp add: xdg_user_dirs_def)
  then show ?thesis
    by (subst user_dirs_line_grammar)
      (assumption, rule exI[of _ "[]"], rule exI[of _ "[]"], rule exI[of _ "[]"], rule exI[of _ "u ''/a''"],
       rule exI[of _ "[]"], simp add: u_def slash_char_def)
qed

text \<open>A \<open>user-dirs.dirs\<close> written as \<open>xdg-user-dirs\<close> writes it is read back: the first line of the key gives its name
  below the home, and without such a line the file gives nothing.\<close>

theorem user_dirs_read_back:
  assumes "xdg_user_dirs folder = Some (key, fallback)" "\<forall>kn \<in> set entries. plain_entry kn"
    and "file_head os path = Some head"
    and "file_text os path (stream_reader_encoding (take 4 head)) = (unlines (map dirs_line entries), True)"
  shows "scan_user_dirs os path home key = map_option (join_paths home) (map_of entries key)"
proof -
  obtain key' where key: "key = ch CHR ''X'' # key'" "\<forall>c \<in> set key. \<not> is_dotnet_whitespace c \<and> c \<noteq> equals_sign"
    using xdg_key_plain[OF assms(1)] by blast
  have "stream_lines (unlines (map dirs_line entries), True) = map dirs_line entries"
    using assms(2) entry_one_line by (intro stream_unlines) auto
  then show ?thesis using assms(3,4) first_value_entries[OF assms(2) key] by (simp add: scan_user_dirs_def)
qed

definition sample_entries :: "(pystr \<times> pystr) list" where
  "sample_entries = [(u ''XDG_DESKTOP_DIR'', u ''Schreibtisch''), (u ''XDG_DOCUMENTS_DIR'', u ''Texte'')]"

definition sample_folders :: folder_os where
  "sample_folders = \<lparr>effective_uid = 1000, real_uid = 1000, passwd_dir = (\<lambda>_. Some (u ''/home/me'')),
     access_read = (\<lambda>_. True), path_exists = (\<lambda>_. True), file_head = (\<lambda>_. Some []),
     file_text = (\<lambda>_ _. (unlines (map dirs_line sample_entries), True))\<rparr>"

lemma sample_entries_plain: "\<forall>kn \<in> set sample_entries. plain_entry kn"
  by (simp add: sample_entries_def plain_entry_def u_def is_dotnet_whitespace_def)

theorem user_dirs_read_back_witness:
  "scan_user_dirs sample_folders (u ''/f'') (u ''/home/me'') (u ''XDG_DOCUMENTS_DIR'') = Some (u ''/home/me/Texte'')"
proof -
  have "xdg_user_dirs DOCUMENTS = Some (u ''XDG_DOCUMENTS_DIR'', u ''Documents'')" by (simp add: xdg_user_dirs_def)
  from user_dirs_read_back[OF this sample_entries_plain, of sample_folders "u ''/f''" "[]"]
  have "scan_user_dirs sample_folders (u ''/f'') (u ''/home/me'') (u ''XDG_DOCUMENTS_DIR'') =
      map_option (join_paths (u ''/home/me'')) (map_of sample_entries (u ''XDG_DOCUMENTS_DIR''))"
    by (simp add: sample_folders_def)
  also have "map_of sample_entries (u ''XDG_DOCUMENTS_DIR'') = Some (u ''Texte'')"
    by (simp add: sample_entries_def u_def)
  finally show ?thesis by (simp add: join_paths_def u_def slash_char_def suffix_to_prefix)
qed

text \<open>C26: On Linux and macOS a folder is answered only when its path can be read, and with an absolute home the
  answer is an absolute path, whatever the environment and \<open>user-dirs.dirs\<close> hold.\<close>

theorem known_folder_is_absolute:
  assumes "posix_known_folder os env on_macos folder = Inr (Some p)"
    and "prefix [slash_char] (if on_macos then corefoundation_home os env else dotnet_home os env)"
  shows "rooted p \<and> (\<exists>s. special_folder os env on_macos folder = Inr s \<and> readable os s \<and> p = path_of s)"
proof -
  obtain s where s: "special_folder os env on_macos folder = Inr s" "readable os s" "p = path_of s"
    using assms(1) by (auto simp: posix_known_folder_def and_then_Inr split: if_splits)
  from s(2) have "s \<noteq> []" by (simp add: readable_def)
  with special_folder_absolute[OF s(1) _ assms(2)] s show ?thesis by simp
qed

theorem known_folder_is_absolute_witness:
  "\<exists>p. posix_known_folder sample_folders [] False ROAMING_APP_DATA = Inr (Some p) \<and> rooted p"
proof -
  have home: "dotnet_home sample_folders [] = u ''/home/me''"
    by (simp add: dotnet_home_def env_get_def passwd_home_def sample_folders_def u_def)
  have "special_folder sample_folders [] False ROAMING_APP_DATA = Inr (join_paths (u ''/home/me'') (u ''.config''))"
    by (simp add: special_folder_def xdg_folder_def xdg_user_dirs_def xdg_config_def absolute_env_def env_get_def home)
  moreover have "readable sample_folders (join_paths (u ''/home/me'') (u ''.config''))"
    by (simp add: readable_def sample_folders_def join_paths_def u_def slash_char_def suffix_to_prefix)
  ultimately have run: "posix_known_folder sample_folders [] False ROAMING_APP_DATA =
      Inr (Some (path_of (join_paths (u ''/home/me'') (u ''.config''))))"
    by (simp add: posix_known_folder_def)
  have "prefix [slash_char] (if False then corefoundation_home sample_folders [] else dotnet_home sample_folders [])"
    by (simp add: home u_def slash_char_def)
  from known_folder_is_absolute[OF run this] run show ?thesis by blast
qed

end
