(* ===== verification/Elevation.thy ===== *)
theory Elevation
  imports Shortcuts Py_Paths Native_Errors
begin

text \<open>
  \<open>adapters/native/elevation.py\<close>: whether the process is elevated, and relaunching it elevated - by sudo, or by
  \<open>ShellExecuteEx\<close> with a prompt. What was started is kept as a trace; sudo and the program answer as the
  parameter \<open>child_answer\<close> says, from what happened before. pywin32 is taken to be installed.
\<close>

section \<open>The system\<close>

datatype elevation_event =
    Ran (quiet: bool) (event_argv: "pystr list") (event_cwd: pystr)
  | Started (event_argv: "pystr list") (event_cwd: pystr)
  | Prompted (prompt_file: pystr) (prompt_parameters: pystr) (prompt_directory: pystr)
  | Waited
  | Handle_Closed
  | Token_Opened
  | Token_Closed

type_synonym trace = "elevation_event list"

text \<open>A child exits, cannot be started, is interrupted by Ctrl+C while it is waited for, or is refused because of a NUL.\<close>

datatype child_answer = Exited int | Os_Failure int | Interrupted | Null_Byte

datatype policy_answer = Policy_Missing | Policy_Unreadable | Policy_Value "int option"

text \<open>
  \<open>open_token\<close> and \<open>prompt_answer\<close>: what the call raised, if it did. \<open>full_path\<close> is \<open>ntpath.abspath\<close>, \<open>path_from\<close> that
  of a script joined to a directory; \<open>share_of\<close> is \<open>WNetGetConnection\<close>.
\<close>

record 'r elevation_os =
  on_windows :: bool
  interpreter :: pystr
  is_frozen :: bool
  sys_argv :: "pystr list"
  working_directory :: pystr
  is_regular_file :: "pystr \<Rightarrow> bool"
  effective_user :: "int option"
  open_token :: "'r option"
  token_elevation :: "'r + bool"
  found_sudo :: "pystr option"
  child_answer :: "trace \<Rightarrow> elevation_event \<Rightarrow> child_answer"
  probe_times_out :: "trace \<Rightarrow> bool"
  full_path :: "pystr \<Rightarrow> pystr"
  path_from :: "pystr \<Rightarrow> pystr \<Rightarrow> pystr"
  share_of :: "pystr \<Rightarrow> pystr option"
  linked_policy :: policy_answer
  prompt_answer :: "trace \<Rightarrow> 'r option"
  exit_code :: "'r + int"
  exceptions :: "'r raised_store"

text \<open>A result, an error of pwshpy's, or an exception of pywin32's that nothing catches.\<close>

datatype ('r, 'a) outcome = Done 'a | Failed pwshpy_error | Escaped 'r

section \<open>Is this process elevated?\<close>

definition wrapped_as :: "'r elevation_os \<Rightarrow> string \<Rightarrow> 'r \<Rightarrow> error_class \<Rightarrow> ('r, 'a) outcome" where
  "wrapped_as os why r kind = Failed (pwshpy_error.truncate (wrap_native (exceptions os) why r kind))"

definition is_elevated_windows :: "'r elevation_os \<Rightarrow> trace \<Rightarrow> ('r, bool) outcome \<times> trace" where
  "is_elevated_windows os tr = (case open_token os of
      Some r \<Rightarrow> (wrapped_as os ''OpenProcessToken failed'' r NativeCallError, tr)
    | None \<Rightarrow> ((case token_elevation os of
          Inl r \<Rightarrow> wrapped_as os ''GetTokenInformation failed'' r NativeCallError
        | Inr b \<Rightarrow> Done b), tr @ [Token_Opened, Token_Closed]))"

definition is_elevated :: "'r elevation_os \<Rightarrow> trace \<Rightarrow> ('r, bool) outcome \<times> trace" where
  "is_elevated os tr = (if on_windows os then is_elevated_windows os tr else (Done (effective_user os = Some 0), tr))"

section \<open>sudo\<close>

text \<open>What ends the relaunch: an \<open>OSError\<close>, which the relaunch wraps, or another error.\<close>

datatype stop = Stop_Os int | Stop_Error pwshpy_error

definition run_child :: "'r elevation_os \<Rightarrow> elevation_event \<Rightarrow> trace \<Rightarrow> (stop + int) \<times> trace" where
  "run_child os ev tr = ((case child_answer os tr ev of
       Exited n \<Rightarrow> Inr n
     | Os_Failure n \<Rightarrow> Inl (Stop_Os n)
     | Interrupted \<Rightarrow> Inl (Stop_Error (make_error KeyboardInterrupt ''Ctrl+C''))
     | Null_Byte \<Rightarrow> Inl (Stop_Error (make_error ValueError ''embedded null byte''))), tr @ [ev])"

definition probe_args :: "pystr list" where "probe_args = [u ''-c'', u ''pass'']"

definition probe_event :: "pystr \<Rightarrow> pystr \<Rightarrow> pystr \<Rightarrow> elevation_event" where
  "probe_event sudo executable cwd = Ran True ([sudo, u ''-n'', executable] @ probe_args) cwd"

definition ask_event :: "pystr \<Rightarrow> pystr \<Rightarrow> elevation_event" where
  "ask_event sudo cwd = Ran False [sudo, u ''-v''] cwd"

definition cached_event :: "pystr \<Rightarrow> pystr \<Rightarrow> elevation_event" where
  "cached_event sudo cwd = Ran False [sudo, u ''-n'', u ''-v''] cwd"

definition sudo_runs_without_a_password ::
  "'r elevation_os \<Rightarrow> pystr \<Rightarrow> pystr \<Rightarrow> pystr \<Rightarrow> trace \<Rightarrow> (stop + bool) \<times> trace" where
  "sudo_runs_without_a_password os sudo executable cwd tr =
     (if executable \<noteq> interpreter os \<or> is_frozen os then (Inr False, tr)
      else (case run_child os (probe_event sudo executable cwd) tr of (r, tr') \<Rightarrow>
        (if probe_times_out os tr then Inr False
         else case r of Inr n \<Rightarrow> Inr (n = 0) | Inl (Stop_Os _) \<Rightarrow> Inr False | Inl e \<Rightarrow> Inl e, tr')))"

definition declined :: "string \<Rightarrow> stop + 'a" where
  "declined why = Inl (Stop_Error (make_error ElevationDeclinedError why))"

definition ask_sudo_for_root :: "'r elevation_os \<Rightarrow> pystr \<Rightarrow> pystr \<Rightarrow> trace \<Rightarrow> (stop + unit) \<times> trace" where
  "ask_sudo_for_root os sudo cwd tr = (case run_child os (ask_event sudo cwd) tr of
      (Inl e, tr') \<Rightarrow> (if child_answer os tr (ask_event sudo cwd) = Interrupted then declined ''prompt interrupted'' else Inl e, tr')
    | (Inr n, tr') \<Rightarrow>
        if n \<noteq> 0 then (declined ''not granted'', tr')
        else (case run_child os (cached_event sudo cwd) tr' of
            (Inl e, tr'') \<Rightarrow> (Inl e, tr'')
          | (Inr m, tr'') \<Rightarrow> (if m = 0 then Inr () else declined ''not cached'', tr'')))"

definition command_event :: "pystr \<Rightarrow> pystr \<Rightarrow> pystr list \<Rightarrow> pystr \<Rightarrow> bool \<Rightarrow> elevation_event" where
  "command_event sudo executable argv cwd wait =
     (let command = [sudo, u ''-n'', executable] @ argv in if wait then Ran False command cwd else Started command cwd)"

definition sudo_command ::
  "'r elevation_os \<Rightarrow> pystr \<Rightarrow> pystr \<Rightarrow> pystr list \<Rightarrow> pystr \<Rightarrow> bool \<Rightarrow> trace \<Rightarrow> (stop + int option) \<times> trace" where
  "sudo_command os sudo executable argv cwd wait tr = (case run_child os (command_event sudo executable argv cwd wait) tr of
      (Inl e, tr') \<Rightarrow> (Inl e, tr') | (Inr n, tr') \<Rightarrow> (Inr (if wait then Some n else None), tr'))"

definition sudo_steps ::
  "'r elevation_os \<Rightarrow> pystr \<Rightarrow> pystr list \<Rightarrow> pystr \<Rightarrow> bool \<Rightarrow> trace \<Rightarrow> (stop + int option) \<times> trace" where
  "sudo_steps os executable argv cwd wait tr = (case found_sudo os of
      None \<Rightarrow> (Inl (Stop_Os 2), tr)
    | Some sudo \<Rightarrow> (case sudo_runs_without_a_password os sudo executable cwd tr of
        (Inl e, tr') \<Rightarrow> (Inl e, tr')
      | (Inr True, tr') \<Rightarrow> sudo_command os sudo executable argv cwd wait tr'
      | (Inr False, tr') \<Rightarrow> (case ask_sudo_for_root os sudo cwd tr' of
            (Inl e, tr'') \<Rightarrow> (Inl e, tr'')
          | (Inr _, tr'') \<Rightarrow> sudo_command os sudo executable argv cwd wait tr'')))"

fun stop_error :: "stop \<Rightarrow> pwshpy_error" where
  "stop_error (Stop_Os n) = posix_error ''elevated relaunch via sudo failed'' n"
| "stop_error (Stop_Error e) = e"

definition sudo_relaunch ::
  "'r elevation_os \<Rightarrow> pystr \<Rightarrow> pystr list \<Rightarrow> pystr \<Rightarrow> bool \<Rightarrow> trace \<Rightarrow> int option res \<times> trace" where
  "sudo_relaunch os executable argv cwd wait tr = (case sudo_steps os executable argv cwd wait tr of
      (r, tr') \<Rightarrow> (map_sum stop_error id r, tr'))"

section \<open>What is relaunched\<close>

definition windows_parts :: "pystr \<Rightarrow> pystr list" where
  "windows_parts path = (case split_root (to_backslashes path) of (_, _, rest) \<Rightarrow>
     filter (\<lambda>x. x \<noteq> [] \<and> x \<noteq> u ''.'') (split_on backslash rest))"

definition path_parts :: "'r elevation_os \<Rightarrow> pystr \<Rightarrow> pystr list" where
  "path_parts os path = (if on_windows os then windows_parts path else parts (path_of path))"

text \<open>\<open>Path.name\<close>, and that of the parent.\<close>

definition name_in :: "pystr list \<Rightarrow> pystr" where
  "name_in ps = (if ps = [] then [] else last ps)"

definition relaunch_target :: "'r elevation_os \<Rightarrow> pystr option \<Rightarrow> pystr list option \<Rightarrow> pystr \<times> pystr list" where
  "relaunch_target os executable argv =
     (if executable \<noteq> None \<or> argv \<noteq> None then
        (case executable of Some e \<Rightarrow> if e \<noteq> [] then e else interpreter os | None \<Rightarrow> interpreter os,
         case argv of Some a \<Rightarrow> a | None \<Rightarrow> sys_argv os)
      else let argv0 = (if sys_argv os = [] then [] else hd (sys_argv os)); tail = tl (sys_argv os) in
        if is_frozen os then (interpreter os, tail)
        else if endswith (lower argv0) (u ''.exe'') then (argv0, tail)
        else if argv0 \<noteq> [] \<and> is_regular_file os (argv0 @ u ''.exe'') then (argv0 @ u ''.exe'', tail)
        else if name_in (path_parts os argv0) = u ''__main__.py'' then
          (interpreter os, [u ''-m'', name_in (butlast (path_parts os argv0))] @ tail)
        else (interpreter os, sys_argv os))"

definition script_being_relaunched :: "'r elevation_os \<Rightarrow> pystr \<Rightarrow> pystr list \<Rightarrow> pystr option" where
  "script_being_relaunched os executable argv =
     (if is_frozen os \<or> executable \<noteq> interpreter os \<or> argv \<noteq> sys_argv os \<or> argv = [] then None
      else if hd argv \<in> {[], u ''-'', u ''-c''} then None else Some (hd argv))"

section \<open>Mapped drives\<close>

definition remove_prefix :: "pystr \<Rightarrow> pystr \<Rightarrow> pystr" where
  "remove_prefix p s = (if startswith s p then drop (length p) s else s)"

definition split_drive :: "pystr \<Rightarrow> pystr \<times> pystr" where
  "split_drive path = (let n = length (fst (split_root path)) in (take n path, drop n path))"

definition unc_of :: "(pystr \<Rightarrow> pystr option) \<Rightarrow> pystr \<Rightarrow> pystr option" where
  "unc_of connection_of path =
     (case split_drive (remove_prefix [backslash, backslash, 46, backslash] (remove_prefix [backslash, backslash, 63, backslash] path)) of
        (drive, rest) \<Rightarrow>
          if \<not> endswith drive (u '':'') then None
          else map_option (\<lambda>share. rev (dropWhile (\<lambda>c. c = backslash) (rev share)) @ rest) (connection_of drive))"

definition linked_connections :: "'r elevation_os \<Rightarrow> bool" where
  "linked_connections os = (case linked_policy os of
      Policy_Missing \<Rightarrow> False | Policy_Unreadable \<Rightarrow> True | Policy_Value v \<Rightarrow> (case v of None \<Rightarrow> False | Some n \<Rightarrow> n \<noteq> 0))"

definition refuse_a_mapped_drive :: "(pystr \<Rightarrow> pystr option) \<Rightarrow> pystr \<Rightarrow> unit res" where
  "refuse_a_mapped_drive connection_of directory =
     (if unc_of connection_of directory = None then Inr () else raise_error ElevationDirectoryError ''mapped drive'')"

definition refuse_a_script_the_child_cannot_open :: "(pystr \<Rightarrow> pystr option) \<Rightarrow> bool \<Rightarrow> pystr \<Rightarrow> unit res" where
  "refuse_a_script_the_child_cannot_open connection_of linked script =
     (if unc_of connection_of script = None \<or> linked then Inr () else raise_error ElevationDirectoryError ''script on a mapped drive'')"

definition windows_refusals :: "'r elevation_os \<Rightarrow> pystr \<Rightarrow> pystr list \<Rightarrow> pystr \<Rightarrow> unit res" where
  "windows_refusals os executable argv directory =
     and_then (refuse_a_mapped_drive (share_of os) (full_path os directory)) (\<lambda>_.
       case script_being_relaunched os executable argv of
         None \<Rightarrow> Inr ()
       | Some script \<Rightarrow> refuse_a_script_the_child_cannot_open (share_of os) (linked_connections os) (path_from os directory script))"

section \<open>The prompt\<close>

definition error_cancelled :: int where "error_cancelled = 1223"

definition shell_execute :: "'r elevation_os \<Rightarrow> pystr \<Rightarrow> pystr list \<Rightarrow> pystr \<Rightarrow> bool \<Rightarrow> trace \<Rightarrow> ('r, int option) outcome \<times> trace" where
  "shell_execute os executable argv cwd wait tr =
     (let tr' = tr @ [Prompted executable (list2cmdline argv) cwd] in
      case prompt_answer os tr of
        Some r \<Rightarrow>
          (if winerror_attr (exceptions os r) = PyInt error_cancelled then wrapped_as os ''prompt declined'' r ElevationDeclinedError
           else wrapped_as os ''ShellExecuteEx failed'' r NativeCallError, tr')
      | None \<Rightarrow>
          if \<not> wait then (Done None, tr')
          else (case exit_code os of Inl r \<Rightarrow> Escaped r | Inr n \<Rightarrow> Done (Some n), tr' @ [Waited, Handle_Closed]))"

definition elevate ::
  "'r elevation_os \<Rightarrow> pystr list option \<Rightarrow> pystr option \<Rightarrow> pystr option \<Rightarrow> bool \<Rightarrow> trace \<Rightarrow> ('r, int option) outcome \<times> trace" where
  "elevate os argv executable cwd wait tr = (case is_elevated os tr of
      (Failed e, tr') \<Rightarrow> (Failed e, tr')
    | (Escaped r, tr') \<Rightarrow> (Escaped r, tr')
    | (Done True, tr') \<Rightarrow> (Done (Some 0), tr')
    | (Done False, tr') \<Rightarrow> (case relaunch_target os executable argv of (resolved_exe, resolved_argv) \<Rightarrow>
        let directory = (case cwd of None \<Rightarrow> working_directory os | Some d \<Rightarrow> if d = [] then working_directory os else d) in
        if on_windows os then (case windows_refusals os resolved_exe resolved_argv directory of
            Inl e \<Rightarrow> (Failed e, tr')
          | Inr _ \<Rightarrow> shell_execute os resolved_exe resolved_argv directory wait tr')
        else (case sudo_relaunch os resolved_exe resolved_argv directory wait tr' of
            (Inl e, tr'') \<Rightarrow> (Failed e, tr'') | (Inr r, tr'') \<Rightarrow> (Done r, tr''))))"

end
