(* ===== verification/Elevation_Properties.thy ===== *)
theory Elevation_Properties
  imports Elevation
begin

text \<open>The properties of the relaunch: what is asked before anything is started, and what a refusal is.\<close>

section \<open>sudo\<close>

text \<open>Root is confirmed by the silent probe, or by a password that sudo accepted and cached.\<close>

definition confirmed :: "'r elevation_os \<Rightarrow> pystr \<Rightarrow> pystr \<Rightarrow> pystr \<Rightarrow> trace \<Rightarrow> trace \<Rightarrow> bool" where
  "confirmed os sudo executable cwd tr checks \<longleftrightarrow>
     (let probe = probe_event sudo executable cwd; ask = ask_event sudo cwd; cached = cached_event sudo cwd in
      checks = [probe] \<and> child_answer os tr probe = Exited 0 \<or>
      (\<exists>pre. (pre = [] \<or> pre = [probe]) \<and> checks = pre @ [ask, cached] \<and>
         child_answer os (tr @ pre) ask = Exited 0 \<and> child_answer os (tr @ pre @ [ask]) cached = Exited 0))"

text \<open>A refusal: the silent probe or nothing, then Ctrl+C at the password prompt, a password that was not accepted, or
  one that was not cached. No other process is in the trace.\<close>

definition refused :: "'r elevation_os \<Rightarrow> pystr \<Rightarrow> pystr \<Rightarrow> pystr \<Rightarrow> trace \<Rightarrow> trace \<Rightarrow> bool" where
  "refused os sudo executable cwd tr checks \<longleftrightarrow>
     (\<exists>pre. (pre = [] \<or> pre = [probe_event sudo executable cwd]) \<and>
       (checks = pre @ [ask_event sudo cwd] \<and> (child_answer os (tr @ pre) (ask_event sudo cwd) = Interrupted \<or>
          (\<exists>n. n \<noteq> 0 \<and> child_answer os (tr @ pre) (ask_event sudo cwd) = Exited n)) \<or>
        checks = pre @ [ask_event sudo cwd, cached_event sudo cwd] \<and>
          (\<exists>n. n \<noteq> 0 \<and> child_answer os (tr @ pre @ [ask_event sudo cwd]) (cached_event sudo cwd) = Exited n)))"

lemma run_child_Inr: "run_child os ev tr = (Inr n, tr') \<longleftrightarrow> child_answer os tr ev = Exited n \<and> tr' = tr @ [ev]"
  by (auto simp: run_child_def split: child_answer.splits)

lemma run_child_trace: "run_child os ev tr = (r, tr') \<Longrightarrow> tr' = tr @ [ev]"
  by (auto simp: run_child_def)

lemma posix_not_declined [simp]: "err_class (posix_error why n) \<noteq> ElevationDeclinedError"
  by (simp add: posix_error_def wrap_posix_failure failure_def pwshpy_error.defs)

lemma run_child_declined:
  assumes "run_child os ev tr = (Inl e, tr')"
  shows "err_class (stop_error e) \<noteq> ElevationDeclinedError"
  using assms by (auto simp: run_child_def split: child_answer.splits)

lemma probed:
  assumes "sudo_runs_without_a_password os sudo executable cwd tr = (r, tr')"
  shows "\<exists>pre. tr' = tr @ pre \<and> (pre = [] \<or> pre = [probe_event sudo executable cwd]) \<and>
    (r = Inr True \<longrightarrow> pre \<noteq> [] \<and> child_answer os tr (probe_event sudo executable cwd) = Exited 0) \<and>
    (\<forall>e. r = Inl e \<longrightarrow> err_class (stop_error e) \<noteq> ElevationDeclinedError)"
proof (cases "executable \<noteq> interpreter os \<or> is_frozen os")
  case True
  with assms show ?thesis by (auto simp: sudo_runs_without_a_password_def)
next
  case False
  obtain a t where run: "run_child os (probe_event sudo executable cwd) tr = (a, t)" by fastforce
  have "t = tr @ [probe_event sudo executable cwd]" using run_child_trace[OF run] .
  with False assms run show ?thesis
    using run_child_Inr[of os "probe_event sudo executable cwd" tr] run_child_declined[of os "probe_event sudo executable cwd" tr]
    by (fastforce simp: sudo_runs_without_a_password_def split: if_splits sum.splits stop.splits)
qed

lemma asked:
  assumes "ask_sudo_for_root os sudo cwd tr = (r, tr')"
  shows "\<exists>pre. tr' = tr @ pre \<and> (pre = [ask_event sudo cwd] \<or> pre = [ask_event sudo cwd, cached_event sudo cwd]) \<and>
    (r = Inr () \<longrightarrow> pre = [ask_event sudo cwd, cached_event sudo cwd] \<and> child_answer os tr (ask_event sudo cwd) = Exited 0 \<and>
       child_answer os (tr @ [ask_event sudo cwd]) (cached_event sudo cwd) = Exited 0) \<and>
    (\<forall>e. r = Inl e \<longrightarrow> (err_class (stop_error e) = ElevationDeclinedError \<longleftrightarrow>
       pre = [ask_event sudo cwd] \<and> (child_answer os tr (ask_event sudo cwd) = Interrupted \<or>
         (\<exists>n. n \<noteq> 0 \<and> child_answer os tr (ask_event sudo cwd) = Exited n)) \<or>
       pre = [ask_event sudo cwd, cached_event sudo cwd] \<and>
         (\<exists>n. n \<noteq> 0 \<and> child_answer os (tr @ [ask_event sudo cwd]) (cached_event sudo cwd) = Exited n)))"
proof (cases "child_answer os tr (ask_event sudo cwd)")
  case (Exited n)
  then show ?thesis using assms
    by (cases "n = 0"; cases "child_answer os (tr @ [ask_event sudo cwd]) (cached_event sudo cwd)")
      (auto simp: ask_sudo_for_root_def run_child_def declined_def)
qed (use assms in \<open>auto simp: ask_sudo_for_root_def run_child_def declined_def\<close>)

lemma commanded:
  assumes "sudo_command os sudo executable argv cwd wait tr = (r, tr')"
  shows "tr' = tr @ [command_event sudo executable argv cwd wait] \<and>
    (\<forall>code. r = Inr code \<longrightarrow> (\<exists>n. child_answer os tr (command_event sudo executable argv cwd wait) = Exited n \<and>
       code = (if wait then Some n else None))) \<and>
    (\<forall>e. r = Inl e \<longrightarrow> err_class (stop_error e) \<noteq> ElevationDeclinedError \<and>
       (\<forall>n. child_answer os tr (command_event sudo executable argv cwd wait) \<noteq> Exited n))"
  using assms by (auto simp: sudo_command_def run_child_def split: child_answer.splits)

text \<open>Everything a relaunch does: the checks, then the command or not.\<close>

lemma relaunched:
  assumes "sudo_relaunch os executable argv cwd wait tr = (r, tr')" "found_sudo os = Some sudo"
  shows "\<exists>checks run. tr' = tr @ checks @ run \<and>
    set checks \<subseteq> {probe_event sudo executable cwd, ask_event sudo cwd, cached_event sudo cwd} \<and>
    (run = [] \<or> run = [command_event sudo executable argv cwd wait] \<and> confirmed os sudo executable cwd tr checks) \<and>
    (\<forall>code. r = Inr code \<longrightarrow> run \<noteq> [] \<and> (\<exists>n. child_answer os (tr @ checks) (command_event sudo executable argv cwd wait) = Exited n \<and>
       code = (if wait then Some n else None))) \<and>
    (\<forall>e. r = Inl e \<longrightarrow> (\<forall>n. run \<noteq> [] \<longrightarrow> child_answer os (tr @ checks) (command_event sudo executable argv cwd wait) \<noteq> Exited n) \<and>
       (err_class e = ElevationDeclinedError \<longleftrightarrow> run = [] \<and>
         refused os sudo executable cwd tr checks))"
proof -
  let ?probe = "probe_event sudo executable cwd" and ?ask = "ask_event sudo cwd" and ?cached = "cached_event sudo cwd"
  have events: "?ask \<noteq> ?cached" "?probe \<noteq> ?ask" "?probe \<noteq> ?cached"
    by (simp_all add: probe_event_def ask_event_def cached_event_def)
  obtain q t where q: "sudo_runs_without_a_password os sudo executable cwd tr = (q, t)" by fastforce
  from probed[OF q] obtain pre where pre: "t = tr @ pre" "pre = [] \<or> pre = [?probe]"
    "q = Inr True \<Longrightarrow> pre \<noteq> [] \<and> child_answer os tr ?probe = Exited 0"
    "\<And>e. q = Inl e \<Longrightarrow> err_class (stop_error e) \<noteq> ElevationDeclinedError" by auto
  consider (stopped) e where "q = Inl e" | (free) "q = Inr True" | (asks) "q = Inr False" by (metis (full_types) sum.exhaust)
  then show ?thesis
  proof cases
    case stopped
    with assms q pre have r: "r = Inl (stop_error e)" "tr' = tr @ pre"
      by (auto simp: sudo_relaunch_def sudo_steps_def)
    have "\<not> (\<exists>p. pre = p @ [?ask])" "\<not> (\<exists>p. pre = p @ [?ask, ?cached])" using pre(2) events by auto
    then have "\<not> refused os sudo executable cwd tr pre" by (simp add: refused_def)
    with r pre(2) pre(4)[OF stopped] show ?thesis
      by (intro exI[of _ pre] exI[of _ "[]"]) auto
  next
    case free
    obtain c t' where c: "sudo_command os sudo executable argv cwd wait t = (c, t')" by fastforce
    from free q assms c have r: "r = map_sum stop_error id c" "tr' = t'" by (simp_all add: sudo_relaunch_def sudo_steps_def)
    have "pre = [?probe]" using pre(2,3) free by auto
    then have "confirmed os sudo executable cwd tr pre" using pre(3)[OF free] by (simp add: confirmed_def Let_def)
    with r commanded[OF c] pre(1,2) show ?thesis
      by (intro exI[of _ pre] exI[of _ "[command_event sudo executable argv cwd wait]"]; cases c) auto
  next
    case asks
    obtain a t' where a: "ask_sudo_for_root os sudo cwd t = (a, t')" by fastforce
    from asked[OF a] obtain more where more: "t' = t @ more" "more = [?ask] \<or> more = [?ask, ?cached]"
      "a = Inr () \<Longrightarrow> more = [?ask, ?cached] \<and> child_answer os t ?ask = Exited 0 \<and> child_answer os (t @ [?ask]) ?cached = Exited 0"
      "\<And>e. a = Inl e \<Longrightarrow> (err_class (stop_error e) = ElevationDeclinedError \<longleftrightarrow>
         more = [?ask] \<and> (child_answer os t ?ask = Interrupted \<or> (\<exists>n. n \<noteq> 0 \<and> child_answer os t ?ask = Exited n)) \<or>
         more = [?ask, ?cached] \<and> (\<exists>n. n \<noteq> 0 \<and> child_answer os (t @ [?ask]) ?cached = Exited n))" by auto
    show ?thesis
    proof (cases a)
      case (Inl e)
      with asks q a assms have r: "r = Inl (stop_error e)" "tr' = tr @ pre @ more"
        by (simp_all add: sudo_relaunch_def sudo_steps_def more(1) pre(1))
      have last: "pre @ more = p @ [?ask] \<longleftrightarrow> more = [?ask] \<and> p = pre"
        "pre @ more = p @ [?ask, ?cached] \<longleftrightarrow> more = [?ask, ?cached] \<and> p = pre" for p
        using more(2) events by auto
      have "refused os sudo executable cwd tr (pre @ more) \<longleftrightarrow> err_class (stop_error e) = ElevationDeclinedError"
        using more(4)[OF Inl] pre(1,2) unfolding refused_def last by auto
      with r pre(2) more(2) show ?thesis
        by (intro exI[of _ "pre @ more"] exI[of _ "[]"]) auto
    next
      case (Inr x)
      obtain c t'' where c: "sudo_command os sudo executable argv cwd wait t' = (c, t'')" by fastforce
      from asks q a assms c Inr have r: "r = map_sum stop_error id c" "tr' = t''"
        by (simp_all add: sudo_relaunch_def sudo_steps_def)
      have m: "more = [?ask, ?cached]" "child_answer os (tr @ pre) ?ask = Exited 0"
        "child_answer os (tr @ pre @ [?ask]) ?cached = Exited 0" using more(3) Inr pre(1) by auto
      then have "confirmed os sudo executable cwd tr (pre @ more)"
        using pre(2) unfolding confirmed_def Let_def by blast
      with r commanded[OF c] pre(1,2) more(1) m(1) show ?thesis
        by (intro exI[of _ "pre @ more"] exI[of _ "[command_event sudo executable argv cwd wait]"]; cases c) auto
    qed
  qed
qed

text \<open>C22: A relaunch by sudo starts the command at most once and last, and only after root was confirmed: by the silent
  probe of the same program, or by a password prompt and a cached credential. The prompt is the only call that
  is not silent or \<open>-n\<close>, and a result is the command's own exit code.\<close>

theorem root_is_confirmed_first:
  assumes "sudo_relaunch os executable argv cwd wait tr = (r, tr')" "found_sudo os = Some sudo"
  shows "\<exists>checks run. tr' = tr @ checks @ run \<and>
    set checks \<subseteq> {probe_event sudo executable cwd, ask_event sudo cwd, cached_event sudo cwd} \<and>
    (run = [] \<or> run = [command_event sudo executable argv cwd wait] \<and> confirmed os sudo executable cwd tr checks) \<and>
    (\<forall>code. r = Inr code \<longrightarrow> run \<noteq> [] \<and> (\<exists>n. child_answer os (tr @ checks) (command_event sudo executable argv cwd wait) = Exited n \<and>
       code = (if wait then Some n else None)))"
  using relaunched[OF assms] by blast

text \<open>A host where sudo wants a password, accepts it and caches it as told, and the command exits with 7.\<close>

definition sample_sudo :: "bool \<Rightarrow> bool \<Rightarrow> nat elevation_os" where
  "sample_sudo windows cached =
     \<lparr>on_windows = windows, interpreter = u ''/py'', is_frozen = False, sys_argv = [u ''a.py''], working_directory = u ''/w'',
      is_regular_file = (\<lambda>_. False), effective_user = Some 1000, open_token = None, token_elevation = Inr False,
      found_sudo = Some (u ''/sudo''),
      child_answer = (\<lambda>tr ev. if ev = cached_event (u ''/sudo'') (u ''/w'') then Exited (if cached then 0 else 1)
         else if ev = ask_event (u ''/sudo'') (u ''/w'') then Exited 0 else if tr = [] then Exited 1 else Exited 7),
      probe_times_out = (\<lambda>_. False), full_path = id, path_from = (\<lambda>_ s. s), share_of = (\<lambda>_. None),
      linked_policy = Policy_Missing, prompt_answer = (\<lambda>_. None), exit_code = Inr 0, exceptions = (\<lambda>_. posix_failure 0)\<rparr>"

lemmas sample_sudo_run = sudo_relaunch_def sudo_steps_def sudo_runs_without_a_password_def ask_sudo_for_root_def sudo_command_def
  run_child_def sample_sudo_def probe_event_def ask_event_def cached_event_def command_event_def probe_args_def Let_def declined_def u_def

theorem root_is_confirmed_first_witness:
  "\<exists>checks tr. sudo_relaunch (sample_sudo False True) (u ''/py'') [u ''a.py''] (u ''/w'') True [] = (Inr (Some 7), tr) \<and>
     tr = checks @ [command_event (u ''/sudo'') (u ''/py'') [u ''a.py''] (u ''/w'') True] \<and>
     confirmed (sample_sudo False True) (u ''/sudo'') (u ''/py'') (u ''/w'') [] checks"
proof -
  obtain tr where run: "sudo_relaunch (sample_sudo False True) (u ''/py'') [u ''a.py''] (u ''/w'') True [] = (Inr (Some 7), tr)"
    by (simp add: sample_sudo_run)
  have "found_sudo (sample_sudo False True) = Some (u ''/sudo'')" by (simp add: sample_sudo_def)
  from root_is_confirmed_first[OF run this] run show ?thesis by fastforce
qed

text \<open>C23: A failed relaunch counts as declined exactly when all it ran was the silent probe, if that, and the password
  prompt, which was interrupted or not accepted, or the prompt and the check that found no cached credential: the
  command was not started.\<close>

theorem declined_is_a_refusal:
  assumes "sudo_relaunch os executable argv cwd wait tr = (Inl e, tr')" "found_sudo os = Some sudo"
  shows "err_class e = ElevationDeclinedError \<longleftrightarrow> (\<exists>checks. tr' = tr @ checks \<and> refused os sudo executable cwd tr checks)"
proof -
  let ?command = "command_event sudo executable argv cwd wait"
  obtain checks run where run: "tr' = tr @ checks @ run" "run = [] \<or> run = [?command]"
    "\<And>n. run \<noteq> [] \<Longrightarrow> child_answer os (tr @ checks) ?command \<noteq> Exited n"
    "err_class e = ElevationDeclinedError \<longleftrightarrow> run = [] \<and> refused os sudo executable cwd tr checks"
    using relaunched[OF assms] by blast
  have "run = []" if refusal: "refused os sudo executable cwd tr (checks @ run)"
  proof (rule ccontr)
    assume "run \<noteq> []"
    with run(2) have r: "run = [?command]" by simp
    have events: "?command \<noteq> ask_event sudo cwd" by (simp add: command_event_def ask_event_def Let_def u_def)
    from refusal obtain pre where pre: "checks @ [?command] = pre @ [ask_event sudo cwd] \<or>
        checks @ [?command] = pre @ [ask_event sudo cwd, cached_event sudo cwd] \<and>
          (\<exists>n. child_answer os (tr @ pre @ [ask_event sudo cwd]) (cached_event sudo cwd) = Exited n)"
      unfolding refused_def r by blast
    have "checks = pre @ [ask_event sudo cwd]" "?command = cached_event sudo cwd" if "checks @ [?command] = pre @ [ask_event sudo cwd, cached_event sudo cwd]"
      using that append1_eq_conv[of checks ?command "pre @ [ask_event sudo cwd]" "cached_event sudo cwd"] by simp_all
    with pre have two: "checks = pre @ [ask_event sudo cwd]" "?command = cached_event sudo cwd"
      "\<exists>n. child_answer os (tr @ pre @ [ask_event sudo cwd]) (cached_event sudo cwd) = Exited n"
      using events append1_eq_conv[of checks ?command pre "ask_event sudo cwd"] by blast+
    have "\<exists>n. child_answer os (tr @ checks) ?command = Exited n" unfolding two(2) using two(1,3) by simp
    with run(3) \<open>run \<noteq> []\<close> show False by blast
  qed
  moreover have "tr' = tr @ c \<longleftrightarrow> c = checks @ run" for c using run(1) by auto
  then have "(\<exists>c. tr' = tr @ c \<and> refused os sudo executable cwd tr c) \<longleftrightarrow> refused os sudo executable cwd tr (checks @ run)" by simp
  ultimately show ?thesis using run(4) by (metis append_Nil2)
qed

theorem declined_is_a_refusal_witness:
  "\<exists>e tr. sudo_relaunch (sample_sudo False False) (u ''/py'') [u ''a.py''] (u ''/w'') True [] = (Inl e, tr) \<and>
     refused (sample_sudo False False) (u ''/sudo'') (u ''/py'') (u ''/w'') [] tr"
proof -
  obtain e tr where run: "sudo_relaunch (sample_sudo False False) (u ''/py'') [u ''a.py''] (u ''/w'') True [] = (Inl e, tr)"
    and e: "err_class e = ElevationDeclinedError"
    by (simp add: sample_sudo_run)
  have "found_sudo (sample_sudo False False) = Some (u ''/sudo'')" by (simp add: sample_sudo_def)
  from declined_is_a_refusal[OF run this] e run show ?thesis by auto
qed

section \<open>The prompt of Windows\<close>

text \<open>C24: A consent prompt is shown only by a process that is not elevated, for a directory that is no mapped drive and a
  script the elevated process can open, with the program to relaunch, and with parameters the C runtime reads
  back as its arguments.\<close>

theorem prompt_is_safe:
  assumes "elevate os argv executable cwd wait tr = (r, tr @ evs)" "Prompted f p d \<in> set evs"
  shows "on_windows os \<and> token_elevation os = Inr False \<and> unc_of (share_of os) (full_path os d) = None \<and>
    (\<exists>args. relaunch_target os executable argv = (f, args) \<and> crt_arguments p = args \<and>
       (\<forall>script. script_being_relaunched os f args = Some script \<longrightarrow>
          unc_of (share_of os) (path_from os d script) = None \<or> linked_connections os))"
proof -
  obtain exe args where target: "relaunch_target os executable argv = (exe, args)" by fastforce
  define dir where "dir = (case cwd of None \<Rightarrow> working_directory os | Some d \<Rightarrow> if d = [] then working_directory os else d)"
  obtain b tr1 where start: "is_elevated os tr = (b, tr1)" by fastforce
  then have tr1: "\<exists>es. tr1 = tr @ es \<and> (\<forall>e \<in> set es. e = Token_Opened \<or> e = Token_Closed)"
    by (auto simp: is_elevated_def is_elevated_windows_def split: option.splits if_splits)
  have windows: "on_windows os"
  proof (rule ccontr)
    assume posix: "\<not> on_windows os"
    have "Prompted f p d \<notin> set es" if "sudo_relaunch os exe args dir wait tr1 = (x, tr1 @ es)" for x es
    proof (cases "found_sudo os")
      case None
      with that show ?thesis by (simp add: sudo_relaunch_def sudo_steps_def)
    next
      case (Some sudo)
      from relaunched[OF that Some] obtain checks run where "tr1 @ es = tr1 @ checks @ run"
        "set checks \<subseteq> {probe_event sudo exe dir, ask_event sudo dir, cached_event sudo dir}"
        "run = [] \<or> run = [command_event sudo exe args dir wait]" by blast
      then show ?thesis by (auto simp: probe_event_def ask_event_def cached_event_def command_event_def Let_def split: if_splits)
    qed
    moreover obtain x tr2 where s: "sudo_relaunch os exe args dir wait tr1 = (x, tr2)" by fastforce
    moreover have "tr1 = tr" using start posix by (simp add: is_elevated_def)
    ultimately show False using assms posix start target
      by (auto simp: elevate_def dir_def[symmetric] is_elevated_def split: bool.splits sum.splits)
  qed
  with assms start tr1 target have not_elevated: "b = Done False"
    by (auto simp: elevate_def split: outcome.splits bool.splits)
  then have "token_elevation os = Inr False"
    using start windows by (auto simp: is_elevated_def is_elevated_windows_def wrapped_as_def split: option.splits sum.splits)
  moreover have refusals: "windows_refusals os exe args dir = Inr ()"
    using assms start tr1 not_elevated windows target
    by (cases "windows_refusals os exe args dir") (auto simp: elevate_def dir_def[symmetric])
  moreover from this have "shell_execute os exe args dir wait tr1 = (r, tr @ evs)"
    using assms(1) start not_elevated windows target by (simp add: elevate_def dir_def[symmetric])
  with assms(2) tr1 have "f = exe" "p = list2cmdline args" "d = dir"
    by (auto simp: shell_execute_def Let_def split: option.splits if_splits)
  ultimately show ?thesis using windows target
    by (auto simp: windows_refusals_def and_then_Inr refuse_a_mapped_drive_def refuse_a_script_the_child_cannot_open_def
        crt_arguments_joined split: if_splits)
qed

theorem prompt_is_safe_witness:
  "\<exists>r evs. elevate (sample_sudo True True) None None None False [] = (r, evs) \<and>
     Prompted (u ''/py'') (u ''a.py'') (u ''/w'') \<in> set evs \<and>
     unc_of (share_of (sample_sudo True True)) (full_path (sample_sudo True True) (u ''/w'')) = None"
proof -
  have none: "unc_of (\<lambda>_. None) path = None" for path by (simp add: unc_of_def split: prod.split)
  have target: "relaunch_target (sample_sudo True True) None None = (u ''/py'', [u ''a.py''])"
    by (simp add: relaunch_target_def sample_sudo_def path_parts_def windows_parts_def split_root_def to_backslashes_def name_in_def
        Let_def u_def lower_def lower_char_def suffix_to_prefix)
  have refusals: "windows_refusals (sample_sudo True True) (u ''/py'') [u ''a.py''] (u ''/w'') = Inr ()"
    by (simp add: windows_refusals_def refuse_a_mapped_drive_def refuse_a_script_the_child_cannot_open_def sample_sudo_def none
        split: option.split)
  have line: "list2cmdline [u ''a.py''] = u ''a.py''" by (simp add: list2cmdline_def quoted_argument_def blank_def u_def)
  have "is_elevated (sample_sudo True True) [] = (Done False, [Token_Opened, Token_Closed])"
    by (simp add: is_elevated_def is_elevated_windows_def sample_sudo_def)
  moreover have "on_windows (sample_sudo True True)" "working_directory (sample_sudo True True) = u ''/w''"
    "prompt_answer (sample_sudo True True) tr = None" for tr by (simp_all add: sample_sudo_def)
  ultimately have run: "elevate (sample_sudo True True) None None None False [] =
      (Done None, [] @ [Token_Opened, Token_Closed, Prompted (u ''/py'') (u ''a.py'') (u ''/w'')])"
    by (simp add: elevate_def target refusals shell_execute_def line)
  have "Prompted (u ''/py'') (u ''a.py'') (u ''/w'') \<in> set [Token_Opened, Token_Closed, Prompted (u ''/py'') (u ''a.py'') (u ''/w'')]"
    by simp
  from prompt_is_safe[OF run this] run show ?thesis by fastforce
qed

end
