(* ===== verification/Spec2Isabelle.thy ===== *)
theory Spec2Isabelle
  imports Packing_Properties Domain_Properties Native_Properties Packer_Properties Tree_Properties Record_Properties
    Overrides Host_Properties Elevation_Properties
begin

text \<open>
  A verification development of pwshpy (\<open>src/pwshpy\<close>): PowerShell-like access to the operating system
  from Python. Paths below are relative to \<open>src/src/pwshpy\<close>.

  The program. A facade (\<open>composition/facade.py\<close>) hands every request to one adapter (\<open>adapters/native\<close>);
  the adapters call the operating system and give back records. What is decided in pwshpy itself - the
  texts of runners and unit files, who owns a unit, what is refused, in which order systemd is called,
  how long a job is waited for, how failures become pwshpy's errors - is in \<open>domain\<close> and in the larger
  adapters. That is what is modelled; what the operating system answers is a parameter.

  Theories, and the code they translate.
  \<^item> \<open>Py_Prelude\<close>: Python's text (a list of code points), \<open>strip\<close>, \<open>split\<close>, \<open>splitlines\<close>, \<open>replace\<close>, decimal
    numerals; \<open>Py_Errors\<close>: the classes of \<open>domain/errors.py\<close>, the error value with its \<open>hresult\<close> and D-Bus
    name, what an \<open>except\<close> clause catches. A result is \<open>error + value\<close>; every \<open>raise\<close> is an \<open>Inl\<close>.
  \<^item> \<open>Quoting\<close>, \<open>Runner_Text\<close>, \<open>Runner_Render\<close>, \<open>Shim\<close>, \<open>Codec\<close>, \<open>Import_Analysis\<close>, \<open>Pep723\<close>, \<open>Script_Requests\<close>:
    \<open>domain/packing.py\<close> - quoting for two shells, the runner templates, the shim that runs inside the
    packed script, import candidates, and the line-wise reading of a PEP 723 block. The reader on the
    other side (PowerShell's and the shell's scanners, base64 and UTF-8 decoding) is a definition, so
    that "reads back" is a statement about two functions. \<open>Packing_Properties\<close> holds their properties.
  \<^item> \<open>Surrogates\<close>: \<open>domain/surrogates.py\<close>. \<open>Pipeline\<close>: \<open>domain/pipeline.py\<close>, the lazy operators as a
    datatype over an iterator that need not end (the codatatype \<open>records\<close>), pulled record by record. \<open>Scheduling\<close>: \<open>domain/scheduling.py\<close>.
  \<^item> \<open>Systemd_World\<close>: the world the systemd adapters act on - the unit directory as a map from names to
    files, the rest of the world, the trace of what was done - and the combinators of computations that
    may raise (\<open>io\<close>) and of generators (\<open>gen\<close>). \<open>Systemd_Dbus\<close>: \<open>adapters/native/systemd_dbus.py\<close> and
    \<open>dbus_errors.py\<close>. \<open>Systemd_Units\<close> (texts and names), \<open>Systemd_Tasks\<close> (the listing) and \<open>Systemd_Timers\<close>
    (the controller's verbs): \<open>adapters/native/systemd_timers.py\<close>. \<open>Systemd_Services\<close>:
    \<open>adapters/native/systemd_services.py\<close> with its polling loop.
  \<^item> \<open>Enums\<close>: \<open>domain/enums.py\<close>, with the locale \<open>enum_table\<close> for the tables that translate between an enum
    and a native id. \<open>Py_Digits\<close>: \<open>str.isdigit\<close> and \<open>int(str)\<close> over Unicode's digits. \<open>Native_Errors\<close> and
    \<open>Marshal\<close>: \<open>adapters/native/marshal.py\<close> - how a caught exception, with its causes and contexts, becomes
    a pwshpy error, and the conversions of ids and durations. \<open>Posix_Acl\<close>: \<open>adapters/native/posix_acl.py\<close>,
    the binary ACL attribute, the verbs on it and what the kernel keeps of it (\<open>keeps_acls\<close>); the locale \<open>fixed_codec\<close> is the contract of a \<open>struct\<close>
    format. \<open>Fileio\<close>: \<open>adapters/native/fileio.py\<close>, files as a map from paths to bytes.
    \<open>Native_Properties\<close> holds their properties.
  \<^item> \<open>Py_Paths\<close>: \<open>pathlib\<close>'s pure POSIX paths and decoding with replacement. \<open>Packer\<close>:
    \<open>adapters/native/packer.py\<close> - collecting an entry and the local modules it imports, the archive and the
    runner, reading a runner, and writing its members - over a disk of files by their real path and of
    directories. \<open>Packer_Facts\<close>: what is written (\<open>writes_only\<close>) and what is collected (\<open>imports_file\<close> and its
    closure, the loop's invariant \<open>collect_inv\<close>). \<open>Packer_Reading\<close>, \<open>Packer_Roundtrip\<close>: a runner read back line
    by line - its template as lines (\<open>template_lines\<close>) whose holes no plain value turns into the line that opens the
    payload (\<open>quiet_line\<close>) -, members landing side by side, and the two runs put together. \<open>Packer_Sample\<close>: the system of the
    witnesses. \<open>Packer_Properties\<close>: the properties.
  \<^item> \<open>Tree_Reaper\<close>: \<open>adapters/native/_tree_reaper.py\<close>, the helper process that waits for or kills a whole process
    tree. A SIGTERM may arrive in any of its calls, which then end in \<open>Terminated\<close>. \<open>Process_Tree\<close>:
    \<open>adapters/native/process_tree.py\<close> and \<open>process_tree_posix.py\<close>, the parent's side, with the descriptors of its
    control and status pipes. \<open>Tree_Facts\<close>: the kernel's rules as a step relation (\<open>kernel_step\<close>), the invariant \<open>held\<close> that the
    helper is a child subreaper (only then do orphans come to it) and no process of the program escapes it, the loops, and
    the kill of a tree of idle processes (\<open>idle_tree\<close>). \<open>Tree_Runner\<close>: the locale \<open>process_tree\<close> is the
    protocol of a strategy, interpreted on the POSIX one, and \<open>launch_leak\<close> names the descriptors that failed starts leave. \<open>Tree_Properties\<close>: the properties.
  \<^item> \<open>Record_Keys\<close>: \<open>domain/records.py\<close> - \<open>to_dict\<close>, the placeholders for undecodable keys, and which fields can hold a
    mapping; \<open>Record_Json\<close>: \<open>adapters/native/record_json.py\<close>. A Python value is the datatype \<open>py_value\<close>.
    \<open>Record_Key_Facts\<close>: well-typed values, and that skipped fields hold no mapping; \<open>Record_Dump\<close>: the reference
    \<open>dumped\<close> and the walk of the mask; \<open>Record_Repair\<close>: the relation \<open>repaired_as\<close> between a value and its repair;
    \<open>Record_Properties\<close>: the properties.
  \<^item> \<open>Overrides\<close>: \<open>adapters/config/overrides.py\<close> - the command line's \<open>--set SECTION.KEY=VALUE\<close>, nested into one
    table of \<open>py_value\<close>s; JSON parsing and the library's merge are parameters.
  \<^item> \<open>Shortcuts\<close>: \<open>domain/shortcuts.py\<close>, with \<open>PureWindowsPath\<close> and \<open>list2cmdline\<close> as CPython 3.12 has them and the
    C runtime's reading of an argument string (\<open>crt_arguments\<close>). \<open>Known_Folders\<close>: \<open>adapters/native/known_folders.py\<close>;
    \<open>Known_Folder_Facts\<close> turns its walk over positions into a grammar of the lines of \<open>user-dirs.dirs\<close>.
    \<open>Host_Properties\<close>: their properties. \<open>Elevation\<close>: \<open>adapters/native/elevation.py\<close>, with a trace of what was started
    and asked; \<open>Elevation_Properties\<close>: what is asked before anything is started.
  \<^item> \<open>Systemd_Unit_Facts\<close>, \<open>Systemd_Timer_Facts\<close>, \<open>Systemd_Actions\<close>, \<open>Systemd_Verb_Facts\<close>,
    \<open>Systemd_Listing_Facts\<close>: the lemmas about them. \<open>Systemd_Sample\<close>: a systemd that answers, the concrete
    input of the witnesses. \<open>Systemd_Properties\<close>, \<open>Domain_Properties\<close>: the properties.

  What the lemma groups show. The locale \<open>io_relation\<close> of \<open>Systemd_World\<close> proves once that the combinators
  keep every reflexive and transitive relation of worlds; its interpretations give "only these files
  changed and only these events happened" (\<open>confined\<close>) and "the connection was closed" (\<open>one_bus\<close>) for
  every operation. \<open>honest\<close> follows a refused read to the end of an operation. \<open>agrees\<close> and \<open>loud\<close> relate
  the strict and the lenient run of a listing. \<open>acts\<close> projects a trace to the calls that change something,
  and the run lemmas give that list for every verb.

  In \<open>Native_Errors\<close>, \<open>wrapped\<close> relates an exception to the one a chain of wrappers leads to. In \<open>Posix_Acl\<close>,
  \<open>rewritten\<close> says what every write of an ACL leaves on disk, and both verbs rest on it. In \<open>Fileio\<close>,
  \<open>stream_sound\<close> carries the text held back between two chunks, \<open>jsonl_sound\<close> and \<open>array_sound\<close> give the
  bytes of a file of records.

  Bounds and fuel. \<open>pull\<close>, \<open>drain\<close> and \<open>first_loop\<close> of \<open>Pipeline\<close> may read an endless source
  for ever and are \<open>partial_function (option)\<close>s; \<open>pipeline_delivers\<close> shows when they return. The polling loop is a
  \<open>partial_function (option)\<close>; \<open>transition_terminates\<close> shows that it returns when the clock advances.
  The collecting loop of the packer is one too; \<open>packing_returns\<close> shows that it returns on a finite disk.
  Machine integers: timestamps and time limits are \<open>int\<close> microseconds with the code's bounds written out,
  as in Python. The fields of an ACL entry are words of their width, and the uid or gid before packing is an
  \<open>int\<close>, because the code checks no bound. Exit statuses and pids are \<open>int\<close>. The helper's loops may wait for ever and are
  \<open>partial_function (option)\<close>s; \<open>kill_tree_kills\<close> shows that the kill returns. The walk over an exception's causes stops after five exceptions,
  as in the code, so it needs no other fuel.

  Parameters. systemd and jeepney (\<open>Systemd_World\<close>), the system calls and the user database (\<open>posix_os\<close>), the
  disk and the codecs other than Unicode's (\<open>file_os\<close>, \<open>codec_table\<close>), \<open>orjson\<close> (\<open>record_json\<close>), \<open>ast.parse\<close>;
  for the packer (\<open>pack_os\<close>) path resolution, faults of the disk, SHA-256, the zip and tar formats, the texts of
  the templates and of the shim; for the process tree (\<open>reaper_os\<close>, \<open>host_os\<close>) the kernel's calls, \<open>Popen\<close> and
  pipes, with the kernel's documented rules as the hypothesis \<open>kernel_obeys\<close>; for
  records, pydantic's \<open>model_dump\<close> (hypothesis \<open>dumps_by_structure\<close>) and orjson. Symbolic links do not change while the packer runs.

  Not modelled. Message texts of errors (a short tag stands for each); pickling; the message templates of
  the runners (parameters); \<open>ast.parse\<close> (the tree is a parameter); pydantic's coercions; the order in which
  Python iterates a set. The components listed in the manifest as not modelled are calls of the operating
  system or a third-party library with no logic of their own, typing protocols and command-line glue.
\<close>

section \<open>Across components\<close>

text \<open>C1: Registering a task and unregistering it again leaves the unit directory as it was, when both units
  were free before, and without the two units in any case - whatever systemd answered in between.\<close>

theorem unregister_undoes_register:
  assumes "register sd task_path r w = (Inr task, w1)" "unregister sd task_path w1 = (Inr x, w2)"
  shows "\<exists>base. unit_base task_path = Inr base \<and>
    unit_dir w2 = (unit_dir w)(service_name base := None, timer_name base := None) \<and>
    (unit_dir w (service_name base) = None \<and> unit_dir w (timer_name base) = None \<longrightarrow> unit_dir w2 = unit_dir w)"
proof -
  obtain p where p: "plan (pwshpy_version sd) task_path r = Inr p"
    and d1: "unit_dir w1 = (unit_dir w)(service_name (pl_base p) \<mapsto> TextFile (pl_service p),
                               timer_name (pl_base p) := map_option TextFile (pl_timer p))"
    using register_Inr[OF assms(1)] by metis
  obtain base where base: "unit_base task_path = Inr base"
    and d2: "unit_dir w2 = (unit_dir w1)(service_name base := None, timer_name base := None)"
    using unregister_Inr[OF assms(2)] by metis
  have "pl_base p = base" using plan_base[OF p] base by simp
  with d1 d2 base show ?thesis by (auto simp: fun_eq_iff)
qed

theorem unregister_undoes_register_witness:
  "\<exists>task w1 w2. register sample_systemd job sample_registration (sample_world (\<lambda>_. None)) = (Inr task, w1) \<and>
     unregister sample_systemd job w1 = (Inr (), w2) \<and> unit_dir w2 = (\<lambda>_. None)"
proof -
  from sample_first obtain task w1 where
    run: "register sample_systemd job sample_registration (sample_world (\<lambda>_. None)) = (Inr task, w1)" by blast
  have "owned_unit_file (service_name job) w1 = (Inr True, w1)"
    "owned_unit_file (timer_name job) w1 = (Inr True, w1)"
    using registered_owned[OF run sample_base] sample_no_breaks by (auto simp: sample_registration_def)
  then obtain w2 where gone: "unregister sample_systemd job w1 = (Inr (), w2)"
    using sample_unregister[of w1] by (auto simp: owned_unit_file_Inr)
  from unregister_undoes_register[OF run gone] have "unit_dir w2 = (\<lambda>_. None)"
    by (auto simp: sample_world_def)
  with run gone show ?thesis by blast
qed

end
